(* ===== verification/Prelude.thy ===== *)
theory Prelude
  imports Main "HOL-Library.AList"
begin

section \<open>Shared vocabulary of the development\<close>

text \<open>
  What every component uses: Python strings and the string methods the sources call,
  insertion-ordered dictionaries, results that carry an exception, and the collections of
  rewrite rules the component proofs pass to the simplifier.

  A Python string is modelled by a \<^typ>\<open>string\<close>, one \<^typ>\<open>char\<close> per code point, so the
  model covers the strings whose code points are at most 255. Character classes
  (\<open>\w\<close> of the \<open>re\<close> module, the white space that \<open>str.strip\<close> removes) are those of
  CPython on that range.
\<close>

named_theorems str_simps \<open>equations of the string methods\<close>
named_theorems dict_simps \<open>lookup equations of dictionaries\<close>
named_theorems db_simps \<open>equations of the database tables\<close>
named_theorems fs_simps \<open>equations of the file system operations\<close>

type_synonym ('k, 'v) dict = "('k \<times> 'v) list"

subsection \<open>Exceptions\<close>

datatype py_error =
    FileNotFoundError
  | PermissionError
  | OSError
  | UnicodeDecodeError
  | ValueError
  | ValidationError
  | KeyError
  | TypeError
  | AttributeError
  | IndexError
  | IntegrityError
  | OperationalError
  | DatabaseError
  | NotImplementedError
  | TimeoutError
  | OverflowError
  | SecurityError
  | LibraryError string
  | RuntimeError string
  | HTTPException int string

text \<open>A \<open>LibraryError\<close> is an exception of another library, by the name of its class. The clauses
  \<open>except OSError\<close> and \<open>except ValueError\<close> also catch the subclasses.\<close>

definition is_os_error :: "py_error \<Rightarrow> bool" where
  "is_os_error e \<longleftrightarrow> e \<in> {OSError, FileNotFoundError, PermissionError, TimeoutError}"

definition is_value_error :: "py_error \<Rightarrow> bool" where
  "is_value_error e \<longleftrightarrow> e \<in> {ValueError, UnicodeDecodeError, ValidationError, SecurityError}"

type_synonym 'a result = "py_error + 'a"

fun bind_result :: "'a result \<Rightarrow> ('a \<Rightarrow> 'b result) \<Rightarrow> 'b result" where
  "bind_result (Inl e) f = Inl e"
| "bind_result (Inr x) f = f x"

lemma bind_result_Inr_iff:
  "bind_result r f = Inr y \<longleftrightarrow> (\<exists>x. r = Inr x \<and> f x = Inr y)"
  by (cases r) auto

subsection \<open>Characters\<close>

definition ord :: "char \<Rightarrow> nat" where
  "ord c = of_char c"

definition is_digit :: "char \<Rightarrow> bool" where
  "is_digit c \<longleftrightarrow> 48 \<le> ord c \<and> ord c \<le> 57"

definition is_ascii_alpha :: "char \<Rightarrow> bool" where
  "is_ascii_alpha c \<longleftrightarrow> (65 \<le> ord c \<and> ord c \<le> 90) \<or> (97 \<le> ord c \<and> ord c \<le> 122)"

text \<open>The class \<open>\w\<close> of a string pattern.\<close>

definition is_word_char :: "char \<Rightarrow> bool" where
  "is_word_char c \<longleftrightarrow>
     is_ascii_alpha c \<or> is_digit c \<or> c = CHR ''_'' \<or>
     ord c \<in> set [170, 178, 179, 181, 185, 186, 188, 189, 190] \<or>
     (192 \<le> ord c \<and> ord c \<noteq> 215 \<and> ord c \<noteq> 247)"

text \<open>The white space of \<open>str.isspace\<close> and \<open>str.strip\<close>, also the class \<open>\s\<close>.\<close>

definition is_space :: "char \<Rightarrow> bool" where
  "is_space c \<longleftrightarrow>
     (9 \<le> ord c \<and> ord c \<le> 13) \<or> (28 \<le> ord c \<and> ord c \<le> 32) \<or> ord c = 133 \<or> ord c = 160"

lemma ord_less_256: "ord c < 256"
  by (simp add: ord_def)

lemma is_digit_word_char [simp]: "is_digit c \<Longrightarrow> is_word_char c"
  by (simp add: is_word_char_def)

lemma word_char_not_space: "is_word_char c \<Longrightarrow> \<not> is_space c"
  by (auto simp: is_word_char_def is_space_def is_ascii_alpha_def is_digit_def ord_def)

lemma word_char_not_punct:
  "is_word_char c \<Longrightarrow>
     c \<noteq> CHR ''='' \<and> c \<noteq> CHR '','' \<and> c \<noteq> CHR ''('' \<and> c \<noteq> CHR '')'' \<and> c \<noteq> CHR 0x22"
  by (auto simp: is_word_char_def is_ascii_alpha_def is_digit_def ord_def)

subsection \<open>String methods\<close>

definition lstrip :: "string \<Rightarrow> string" where
  "lstrip s = dropWhile is_space s"

definition rstrip :: "string \<Rightarrow> string" where
  "rstrip s = rev (dropWhile is_space (rev s))"

definition strip :: "string \<Rightarrow> string" where
  "strip s = rstrip (lstrip s)"

definition startswith :: "string \<Rightarrow> string \<Rightarrow> bool" where
  "startswith s p \<longleftrightarrow> take (length p) s = p"

definition endswith :: "string \<Rightarrow> string \<Rightarrow> bool" where
  "endswith s p \<longleftrightarrow> length p \<le> length s \<and> drop (length s - length p) s = p"

fun join :: "string \<Rightarrow> string list \<Rightarrow> string" where
  "join sep [] = []"
| "join sep [x] = x"
| "join sep (x # y # ys) = x @ sep @ join sep (y # ys)"

text \<open>\<open>s.split(c)\<close> for a one-character separator.\<close>

fun split_on :: "char \<Rightarrow> string \<Rightarrow> string list" where
  "split_on c [] = [[]]"
| "split_on c (x # xs) =
     (if x = c then [] # split_on c xs
      else (case split_on c xs of [] \<Rightarrow> [[x]] | p # ps \<Rightarrow> (x # p) # ps))"

text \<open>The text after the first occurrence of a literal, as the start of a regular expression
  search finds it.\<close>

fun after_first :: "string \<Rightarrow> string \<Rightarrow> string option" where
  "after_first p [] = (if p = [] then Some [] else None)"
| "after_first p (x # xs) =
     (if startswith (x # xs) p then Some (drop (length p) (x # xs)) else after_first p xs)"

text \<open>The text before the last occurrence of a character (the greedy \<open>(.*)c\<close>).\<close>

definition before_last :: "char \<Rightarrow> string \<Rightarrow> string option" where
  "before_last c s =
     (if c \<in> set s then Some (rev (tl (dropWhile (\<lambda>x. x \<noteq> c) (rev s)))) else None)"

lemma startswith_append [simp, str_simps]: "startswith (p @ s) p"
  by (simp add: startswith_def)

lemma startswith_Nil [simp, str_simps]: "startswith s []"
  by (simp add: startswith_def)

lemma startswith_Cons [simp, str_simps]:
  "startswith (x # xs) (y # ys) \<longleftrightarrow> x = y \<and> startswith xs ys"
  by (auto simp: startswith_def)

lemma startswith_Nil_Cons [simp, str_simps]: "\<not> startswith [] (y # ys)"
  by (simp add: startswith_def)

lemma endswith_append [simp, str_simps]: "endswith (s @ p) p"
  by (simp add: endswith_def)

lemma endswith_imp_append: "endswith s p \<Longrightarrow> \<exists>q. s = q @ p"
  by (metis append_take_drop_id endswith_def)

lemma endswith_single_iff: "endswith s [c] \<longleftrightarrow> s \<noteq> [] \<and> last s = c"
  by (metis append_butlast_last_id endswith_append endswith_imp_append last_snoc snoc_eq_iff_butlast)

lemma dropWhile_hd_id: "\<not> P (hd s) \<Longrightarrow> dropWhile P s = s"
  by (cases s) auto

lemma strip_id:
  "s = [] \<or> (\<not> is_space (hd s) \<and> \<not> is_space (last s)) \<Longrightarrow> strip s = s"
  by (auto simp: strip_def lstrip_def rstrip_def dropWhile_hd_id hd_rev)

lemma set_strip_subset: "set (strip s) \<subseteq> set s"
  by (auto simp: strip_def lstrip_def rstrip_def dest!: set_dropWhileD)

lemma length_strip_le: "length (strip s) \<le> length s"
  by (metis length_dropWhile_le length_rev lstrip_def order_trans rstrip_def strip_def)

lemma before_last_snoc:
  assumes "c \<notin> set t"
  shows "before_last c (s @ c # t) = Some s"
proof -
  have "dropWhile (\<lambda>x. x \<noteq> c) (rev t @ c # rev s) = c # rev s"
    using assms by (induction t rule: rev_induct) auto
  then show ?thesis by (simp add: before_last_def)
qed

lemma takeWhile_until [str_simps]: "c \<notin> set s \<Longrightarrow> takeWhile (\<lambda>x. x \<noteq> c) (s @ c # t) = s"
  by (induction s) auto

lemma dropWhile_until [str_simps]: "c \<notin> set s \<Longrightarrow> dropWhile (\<lambda>x. x \<noteq> c) (s @ c # t) = c # t"
  by (induction s) auto

lemma takeWhile_stop:
  "list_all P s \<Longrightarrow> t = [] \<or> \<not> P (hd t) \<Longrightarrow> takeWhile P (s @ t) = s \<and> dropWhile P (s @ t) = t"
  by (induction s) (auto simp: takeWhile_eq_Nil_iff dropWhile_hd_id)

lemma split_on_not_Nil [simp]: "split_on c s \<noteq> []"
  by (induction s) (auto split: list.splits)

lemma split_on_single: "c \<notin> set s \<Longrightarrow> split_on c s = [s]"
  by (induction s) auto

lemma split_on_append:
  "c \<notin> set a \<Longrightarrow> split_on c (a @ c # b) = a # split_on c b"
  by (induction a) auto

lemma join_Cons:
  "join sep (x # ys) = (if ys = [] then x else x @ sep @ join sep ys)"
  by (cases ys) auto

lemma join_split_on: "join [c] (split_on c s) = s"
  by (induction s) (auto simp: join_Cons split: list.splits)

subsection \<open>Dictionaries\<close>

text \<open>
  A dictionary keeps its items in insertion order; assigning an existing key keeps the
  key's place, which is what \<^const>\<open>AList.update\<close> does.
\<close>

abbreviation dict_get :: "('k, 'v) dict \<Rightarrow> 'k \<Rightarrow> 'v option" where
  "dict_get \<equiv> map_of"

abbreviation dict_set :: "'k \<Rightarrow> 'v \<Rightarrow> ('k, 'v) dict \<Rightarrow> ('k, 'v) dict" where
  "dict_set \<equiv> AList.update"

abbreviation dict_keys :: "('k, 'v) dict \<Rightarrow> 'k list" where
  "dict_keys d \<equiv> map fst d"

text \<open>\<open>for k, v in items: d[k] = v\<close>\<close>

definition dict_assign :: "('k, 'v) dict \<Rightarrow> ('k \<times> 'v) list \<Rightarrow> ('k, 'v) dict" where
  "dict_assign d items = foldl (\<lambda>acc kv. dict_set (fst kv) (snd kv) acc) d items"

text \<open>\<open>{k: v for k, v in d.items() if P k}\<close>\<close>

definition dict_filter :: "('k \<Rightarrow> bool) \<Rightarrow> ('k, 'v) dict \<Rightarrow> ('k, 'v) dict" where
  "dict_filter P d = filter (\<lambda>kv. P (fst kv)) d"

definition wf_dict :: "('k, 'v) dict \<Rightarrow> bool" where
  "wf_dict d \<longleftrightarrow> distinct (dict_keys d)"

lemma dict_get_set [simp, dict_simps]:
  "dict_get (dict_set k v d) x = (if x = k then Some v else dict_get d x)"
  by (simp add: update_conv')

lemma wf_dict_set [simp, intro]: "wf_dict d \<Longrightarrow> wf_dict (dict_set k v d)"
  by (simp add: wf_dict_def distinct_update)

lemma wf_dict_Nil [simp]: "wf_dict []"
  by (simp add: wf_dict_def)

lemma dict_assign_Nil [simp]: "dict_assign d [] = d"
  by (simp add: dict_assign_def)

lemma dict_assign_Cons [simp]:
  "dict_assign d ((k, v) # items) = dict_assign (dict_set k v d) items"
  by (simp add: dict_assign_def)

lemma wf_dict_assign [intro]: "wf_dict d \<Longrightarrow> wf_dict (dict_assign d items)"
  by (induction items arbitrary: d) auto

lemma dict_get_assign [dict_simps]:
  "dict_get (dict_assign d items) k =
     (case map_of (rev items) k of Some v \<Rightarrow> Some v | None \<Rightarrow> dict_get d k)"
  by (induction items arbitrary: d) (auto split: option.splits simp: map_add_def)

lemma dict_get_filter [dict_simps]:
  "dict_get (dict_filter P d) k = (if P k then dict_get d k else None)"
  by (induction d) (auto simp: dict_filter_def)

lemma wf_dict_filter [intro]: "wf_dict d \<Longrightarrow> wf_dict (dict_filter P d)"
  by (simp add: wf_dict_def dict_filter_def distinct_map_filter)

lemma keys_dict_filter [simp]: "set (dict_keys (dict_filter P d)) = {k \<in> set (dict_keys d). P k}"
  by (auto simp: dict_filter_def)

lemma dict_set_fresh: "k \<notin> set (dict_keys d) \<Longrightarrow> dict_set k v d = d @ [(k, v)]"
  by (induction d) auto

lemma dict_assign_fresh:
  "distinct (dict_keys (d @ items)) \<Longrightarrow> dict_assign d items = d @ items"
proof (induction items arbitrary: d)
  case Nil
  then show ?case by simp
next
  case (Cons kv items)
  obtain k v where kv: "kv = (k, v)" by (cases kv)
  from Cons.prems have "k \<notin> set (dict_keys d)" by (auto simp: kv)
  moreover have "distinct (dict_keys ((d @ [(k, v)]) @ items))"
    using Cons.prems by (auto simp: kv)
  ultimately show ?case
    using Cons.IH [of "d @ [(k, v)]"] by (simp add: kv dict_set_fresh)
qed

end
