(* ===== verification/Py_Numeric.thy ===== *)
theory Py_Numeric
  imports Complex_Main "HOL-Library.Log_Nat" Prelude
begin

section \<open>Numbers as text\<close>

text \<open>
  The number conversions of Python that the INI parser and serializer call: \<open>str\<close> and
  \<open>int()\<close> on integers, \<open>format(x, '.6f')\<close> and \<open>float()\<close> on binary64 floats.
  Python integers are unbounded and modelled by \<^typ>\<open>int\<close> (the interpreter's optional limit
  on the number of digits of a conversion is taken as switched off). A float is a sign and
  the exact rational magnitude it stores, an infinity, or a NaN; a conversion from decimal
  rounds to the nearest binary64 value, ties to even.
\<close>

subsection \<open>Decimal integers\<close>

definition digit_char :: "nat \<Rightarrow> char" where
  "digit_char d = char_of (48 + d)"

fun nat_str :: "nat \<Rightarrow> string" where
  "nat_str n = (if n < 10 then [digit_char n] else nat_str (n div 10) @ [digit_char (n mod 10)])"

declare nat_str.simps [simp del]

definition int_str :: "int \<Rightarrow> string" where
  "int_str i = (if i < 0 then CHR ''-'' # nat_str (nat (- i)) else nat_str (nat i))"

definition digits_val :: "string \<Rightarrow> nat" where
  "digits_val s = foldl (\<lambda>acc c. 10 * acc + (ord c - 48)) 0 s"

text \<open>A run of digits with single underscores between digits.\<close>

definition int_digits :: "string \<Rightarrow> string option" where
  "int_digits s =
     (let parts = split_on (CHR ''_'') s
      in if list_all (\<lambda>p. p \<noteq> [] \<and> list_all is_digit p) parts then Some (concat parts) else None)"

fun split_sign :: "string \<Rightarrow> bool \<times> string" where
  "split_sign [] = (False, [])"
| "split_sign (c # cs) =
     (if c = CHR ''-'' then (True, cs) else if c = CHR ''+'' then (False, cs) else (False, c # cs))"

definition py_int :: "string \<Rightarrow> int option" where
  "py_int s =
     (let (neg, body) = split_sign (strip s)
      in map_option (\<lambda>ds. if neg then - int (digits_val ds) else int (digits_val ds)) (int_digits body))"

lemma ord_digit_char: "d < 10 \<Longrightarrow> ord (digit_char d) = 48 + d"
  by (simp add: ord_def digit_char_def)

lemma is_digit_digit_char [simp]: "d < 10 \<Longrightarrow> is_digit (digit_char d)"
  by (simp add: is_digit_def ord_digit_char)

lemma is_digit_not_special:
  "is_digit c \<Longrightarrow> c \<noteq> CHR ''-'' \<and> c \<noteq> CHR ''+'' \<and> c \<noteq> CHR ''_'' \<and> c \<noteq> CHR ''.'' \<and>
     c \<noteq> CHR ''e'' \<and> c \<noteq> CHR ''E'' \<and> c \<noteq> CHR '','' \<and> \<not> is_space c \<and> c \<noteq> CHR ''T'' \<and> c \<noteq> CHR ''F''"
  by (auto simp: is_digit_def is_space_def ord_def)

lemma nat_str_digits: "list_all is_digit (nat_str n)"
proof (induction n rule: nat_str.induct)
  case (1 n)
  then show ?case by (subst nat_str.simps) auto
qed

lemma nat_str_not_Nil [simp]: "nat_str n \<noteq> []"
  by (subst nat_str.simps) simp

lemma digits_val_snoc: "digits_val (s @ [c]) = 10 * digits_val s + (ord c - 48)"
  by (simp add: digits_val_def)

lemma digits_val_nat_str: "digits_val (nat_str n) = n"
proof (induction n rule: nat_str.induct)
  case (1 n)
  show ?case
  proof (cases "n < 10")
    case True
    then show ?thesis by (subst nat_str.simps) (simp add: digits_val_def ord_digit_char)
  next
    case False
    with 1 show ?thesis
      by (subst nat_str.simps) (simp add: digits_val_snoc ord_digit_char)
  qed
qed

lemma digits_val_append: "digits_val (s @ t) = digits_val s * 10 ^ length t + digits_val t"
proof (induction t rule: rev_induct)
  case Nil
  then show ?case by (simp add: digits_val_def)
next
  case (snoc x xs)
  then show ?case
    by (simp add: digits_val_snoc append_assoc [symmetric] algebra_simps del: append_assoc)
qed

lemma digits_val_zeros: "digits_val (replicate k (CHR ''0'')) = 0"
  by (induction k) (simp_all add: digits_val_def ord_def)

lemma list_all_digit_not_in:
  "list_all is_digit s \<Longrightarrow> CHR ''_'' \<notin> set s \<and> CHR ''.'' \<notin> set s"
  by (auto simp: list_all_iff dest: is_digit_not_special)

lemma int_digits_run: "list_all is_digit s \<Longrightarrow> s \<noteq> [] \<Longrightarrow> int_digits s = Some s"
  by (simp add: int_digits_def split_on_single list_all_digit_not_in)

lemma digits_no_space:
  "list_all is_digit s \<Longrightarrow> s \<noteq> [] \<Longrightarrow> \<not> is_space (hd s) \<and> \<not> is_space (last s)"
  by (metis hd_in_set is_digit_not_special last_in_set list_all_iff)

lemma split_sign_digits: "list_all is_digit s \<Longrightarrow> split_sign s = (False, s)"
  by (cases s) (auto dest: is_digit_not_special)

lemma last_int_str_digit: "is_digit (last (int_str i))"
proof -
  have "is_digit (last (nat_str n))" for n
    using nat_str_digits [of n] by (simp add: list_all_iff)
  then show ?thesis by (simp add: int_str_def)
qed

lemma strip_int_str [simp]: "strip (int_str i) = int_str i"
proof (rule strip_id)
  have "\<not> is_space (last (int_str i))"
    using last_int_str_digit is_digit_not_special by blast
  moreover have "\<not> is_space (hd (int_str i))"
    using digits_no_space [OF nat_str_digits] by (auto simp: int_str_def is_space_def ord_def)
  ultimately show "int_str i = [] \<or> \<not> is_space (hd (int_str i)) \<and> \<not> is_space (last (int_str i))"
    by blast
qed

lemma py_int_int_str: "py_int (int_str i) = Some i"
proof (cases "i < 0")
  case True
  then have "split_sign (int_str i) = (True, nat_str (nat (- i)))"
    by (simp add: int_str_def)
  with True show ?thesis
    by (simp add: py_int_def int_digits_run [OF nat_str_digits] digits_val_nat_str)
next
  case False
  then have "split_sign (int_str i) = (False, nat_str (nat i))"
    by (simp add: int_str_def split_sign_digits [OF nat_str_digits])
  with False show ?thesis
    by (simp add: py_int_def int_digits_run [OF nat_str_digits] digits_val_nat_str)
qed

subsection \<open>Floats\<close>

datatype pyfloat = PyFin bool rat | PyInf bool | PyNan

definition round_half_even :: "rat \<Rightarrow> int" where
  "round_half_even x =
     (let f = \<lfloor>x\<rfloor>; d = x - of_int f
      in if d < 1 / 2 then f else if 1 / 2 < d then f + 1 else if even f then f else f + 1)"

definition pow2 :: "int \<Rightarrow> rat" where
  "pow2 e = (if 0 \<le> e then 2 ^ nat e else 1 / 2 ^ nat (- e))"

text \<open>The exponent of the binade a positive rational lies in.\<close>

definition floor_log2 :: "rat \<Rightarrow> int" where
  "floor_log2 m =
     (let (p, q) = quotient_of m; e = bitlen p - bitlen q
      in if pow2 e \<le> m then e else e - 1)"

text \<open>Rounding a non-negative rational to binary64: 53 significant bits, gradual underflow
  below the exponent -1022, overflow to infinity.\<close>

definition to_double :: "bool \<Rightarrow> rat \<Rightarrow> pyfloat" where
  "to_double neg m =
     (if m = 0 then PyFin neg 0
      else (let ulp = pow2 (max (floor_log2 m) (- 1022) - 52);
                r = of_int (round_half_even (m / ulp)) * ulp
            in if 2 ^ 1024 \<le> r then PyInf neg else PyFin neg r))"

definition pad6 :: "nat \<Rightarrow> string" where
  "pad6 k = replicate (6 - length (nat_str k)) (CHR ''0'') @ nat_str k"

definition micros :: "rat \<Rightarrow> nat" where
  "micros m = nat (round_half_even (m * 10 ^ 6))"

text \<open>\<open>format(x, '.6f')\<close>\<close>

fun fmt6 :: "pyfloat \<Rightarrow> string" where
  "fmt6 (PyFin neg m) =
     (if neg then ''-'' else []) @ nat_str (micros m div 10 ^ 6) @ ''.'' @ pad6 (micros m mod 10 ^ 6)"
| "fmt6 (PyInf neg) = (if neg then ''-inf'' else ''inf'')"
| "fmt6 PyNan = ''nan''"

definition is_exp_char :: "char \<Rightarrow> bool" where
  "is_exp_char c \<longleftrightarrow> c = CHR ''e'' \<or> c = CHR ''E''"

definition opt_digits :: "string \<Rightarrow> string option" where
  "opt_digits s = (if s = [] then Some [] else int_digits s)"

definition exponent_val :: "string \<Rightarrow> int option" where
  "exponent_val s =
     (case s of [] \<Rightarrow> Some 0
      | _ # body \<Rightarrow> (let (neg, ds) = split_sign body
          in map_option (\<lambda>d. if neg then - int (digits_val d) else int (digits_val d)) (int_digits ds)))"

text \<open>\<open>float(s)\<close> for a text that contains a dot (the only texts the parser converts; the
  spellings of infinity and NaN contain none).\<close>

definition py_float :: "string \<Rightarrow> pyfloat option" where
  "py_float s =
     (let (neg, body) = split_sign (strip s);
          mant = takeWhile (\<lambda>c. \<not> is_exp_char c) body;
          expo = dropWhile (\<lambda>c. \<not> is_exp_char c) body
      in case (split_on (CHR ''.'') mant, exponent_val expo) of
           ([a, b], Some e) \<Rightarrow>
             (case (opt_digits a, opt_digits b) of
                (Some da, Some db) \<Rightarrow>
                  (if da @ db = [] then None
                   else (let shift = e - int (length db);
                             n = of_nat (digits_val (da @ db)) :: rat
                         in Some (to_double neg
                              (if 0 \<le> shift then n * 10 ^ nat shift else n / 10 ^ nat (- shift)))))
              | _ \<Rightarrow> None)
         | _ \<Rightarrow> None)"

lemma length_nat_str: "n < 10 ^ Suc k \<Longrightarrow> length (nat_str n) \<le> Suc k"
proof (induction k arbitrary: n)
  case 0
  then show ?case by (subst nat_str.simps) simp
next
  case (Suc k)
  then have "n div 10 < 10 ^ Suc k" by (simp add: div_less_iff_less_mult mult.commute)
  then have "length (nat_str (n div 10)) \<le> Suc k" by (rule Suc.IH)
  then show ?case by (subst nat_str.simps) simp
qed

lemma pad6_digits: "list_all is_digit (pad6 k)"
proof -
  have "list_all is_digit (replicate j (CHR ''0''))" for j
    by (simp add: list_all_iff is_digit_def ord_def)
  then show ?thesis by (simp add: pad6_def nat_str_digits)
qed

lemma length_pad6: "k < 10 ^ 6 \<Longrightarrow> length (pad6 k) = 6"
  using length_nat_str [of k 5] by (simp add: pad6_def)

lemma digits_val_pad6: "digits_val (pad6 k) = k"
  by (simp add: pad6_def digits_val_append digits_val_zeros digits_val_nat_str)

lemma takeWhile_no_exp:
  assumes "list_all is_digit a" "list_all is_digit b"
  shows "takeWhile (\<lambda>c. \<not> is_exp_char c) (a @ CHR ''.'' # b) = a @ CHR ''.'' # b"
    and "dropWhile (\<lambda>c. \<not> is_exp_char c) (a @ CHR ''.'' # b) = []"
proof -
  have "\<forall>c \<in> set (a @ CHR ''.'' # b). \<not> is_exp_char c"
    using assms by (auto simp: list_all_iff is_exp_char_def dest: is_digit_not_special)
  then show "takeWhile (\<lambda>c. \<not> is_exp_char c) (a @ CHR ''.'' # b) = a @ CHR ''.'' # b"
    and "dropWhile (\<lambda>c. \<not> is_exp_char c) (a @ CHR ''.'' # b) = []"
    by (simp_all add: takeWhile_eq_all_conv dropWhile_eq_Nil_conv)
qed

lemma fmt6_fin_split:
  "fmt6 (PyFin neg m) =
     (if neg then ''-'' else []) @ (nat_str (micros m div 10 ^ 6) @ CHR ''.'' # pad6 (micros m mod 10 ^ 6))"
  by simp

lemma split_sign_fmt6:
  "split_sign (fmt6 (PyFin neg m)) =
     (neg, nat_str (micros m div 10 ^ 6) @ CHR ''.'' # pad6 (micros m mod 10 ^ 6))"
proof -
  obtain c cs where c: "nat_str (micros m div 10 ^ 6) = c # cs"
    using nat_str_not_Nil by (cases "nat_str (micros m div 10 ^ 6)") auto
  then have "is_digit c"
    using nat_str_digits [of "micros m div 10 ^ 6"] by simp
  with c show ?thesis by (auto simp del: fmt6.simps simp: fmt6_fin_split dest: is_digit_not_special)
qed

lemma strip_fmt6: "strip (fmt6 (PyFin neg m)) = fmt6 (PyFin neg m)"
proof (rule strip_id)
  have ne: "pad6 k \<noteq> []" for k by (simp add: pad6_def)
  have "\<not> is_space (last (pad6 k))" for k
    using digits_no_space [OF pad6_digits ne] by blast
  moreover have "\<not> is_space (hd (nat_str k))" for k
    using digits_no_space [OF nat_str_digits] by simp
  ultimately have "\<not> is_space (hd (fmt6 (PyFin neg m))) \<and> \<not> is_space (last (fmt6 (PyFin neg m)))"
    using ne by (simp add: hd_append is_space_def ord_def)
  then show "fmt6 (PyFin neg m) = [] \<or>
      \<not> is_space (hd (fmt6 (PyFin neg m))) \<and> \<not> is_space (last (fmt6 (PyFin neg m)))" ..
qed

text \<open>Reading back a formatted float gives the binary64 value nearest to the six-digit decimal.\<close>

lemma py_float_fmt6:
  "py_float (fmt6 (PyFin neg m)) = Some (to_double neg (of_nat (micros m) / 10 ^ 6))"
proof -
  define a b where "a = nat_str (micros m div 10 ^ 6)" and "b = pad6 (micros m mod 10 ^ 6)"
  have digs: "list_all is_digit a" "list_all is_digit b"
    by (simp_all add: a_def b_def nat_str_digits pad6_digits)
  have lb: "length b = 6" by (simp add: b_def length_pad6)
  have ne: "a \<noteq> []" "b \<noteq> []" using lb by (auto simp: a_def)
  have val: "digits_val (a @ b) = micros m"
    by (simp add: digits_val_append lb, simp add: a_def b_def digits_val_nat_str digits_val_pad6)
  have "split_on (CHR ''.'') (a @ CHR ''.'' # b) = [a, b]"
    using digs by (simp add: split_on_append split_on_single list_all_digit_not_in)
  then show ?thesis
    using split_sign_fmt6 [of neg m, folded a_def b_def] digs ne
    by (simp del: fmt6.simps add: py_float_def strip_fmt6 takeWhile_no_exp exponent_val_def
        opt_digits_def int_digits_run val lb)
qed

end
