(* ===== verification/Json.thy ===== *)
theory Json
  imports Py_Numeric "HOL-Library.Monad_Syntax"
begin

section \<open>JSON texts\<close>

text \<open>
  The part of Python's \<open>json\<close> module that the sources use: \<open>json.dumps\<close> with
  \<open>ensure_ascii\<close> (its default) and explicit separators, and \<open>json.loads\<close>. Session tokens
  and feedback metadata are stored in this format. The reader is a recursive descent parser
  with fuel; every recursive call is made on a shorter text, so the length of the text is
  enough fuel, and \<open>loads_dumps\<close> shows it for every text the writer makes. An escape
  \<open>\uXXXX\<close> beyond code point 255 denotes a character the model does not have and is refused.
\<close>

datatype json =
    JNull
  | JBool bool
  | JInt int
  | JFloat pyfloat
  | JStr string
  | JArr "json list"
  | JObj "(string \<times> json) list"

subsection \<open>JSON values as Python objects\<close>

fun truthy :: "json \<Rightarrow> bool" where
  "truthy JNull = False"
| "truthy (JBool b) = b"
| "truthy (JInt i) = (i \<noteq> 0)"
| "truthy (JFloat (PyFin neg m)) = (m \<noteq> 0)"
| "truthy (JFloat _) = True"
| "truthy (JStr s) = (s \<noteq> [])"
| "truthy (JArr vs) = (vs \<noteq> [])"
| "truthy (JObj kvs) = (kvs \<noteq> [])"

text \<open>\<open>str(v)\<close>, where the text of a float or a container is an argument.\<close>

fun py_str :: "(json \<Rightarrow> string) \<Rightarrow> json \<Rightarrow> string" where
  "py_str rp JNull = ''None''"
| "py_str rp (JBool b) = (if b then ''True'' else ''False'')"
| "py_str rp (JInt i) = int_str i"
| "py_str rp (JStr s) = s"
| "py_str rp v = rp v"

text \<open>\<open>int(v)\<close>\<close>

fun py_int_of :: "json \<Rightarrow> int result" where
  "py_int_of (JInt i) = Inr i"
| "py_int_of (JBool b) = Inr (if b then 1 else 0)"
| "py_int_of (JStr s) = (case py_int s of None \<Rightarrow> Inl ValueError | Some i \<Rightarrow> Inr i)"
| "py_int_of (JFloat (PyFin neg m)) = Inr (if neg then - \<lfloor>m\<rfloor> else \<lfloor>m\<rfloor>)"
| "py_int_of (JFloat (PyInf _)) = Inl OverflowError"
| "py_int_of (JFloat PyNan) = Inl ValueError"
| "py_int_of _ = Inl TypeError"

definition json_get :: "(string, json) dict \<Rightarrow> string \<Rightarrow> json \<Rightarrow> json" where
  "json_get d k dflt = (case dict_get d k of Some v \<Rightarrow> v | None \<Rightarrow> dflt)"

text \<open>\<open>res.json()\<close> followed by \<open>.get\<close>: a body that is not JSON raises \<open>ValueError\<close>, one that is
  not an object \<open>AttributeError\<close>.\<close>

definition body_object :: "json option \<Rightarrow> (string, json) dict result" where
  "body_object b =
     (case b of
        None \<Rightarrow> Inl ValueError
      | Some (JObj d) \<Rightarrow> Inr d
      | Some _ \<Rightarrow> Inl AttributeError)"

subsection \<open>Writing\<close>

abbreviation backslash :: char where "backslash \<equiv> CHR 0x5C"
abbreviation qmark :: char where "qmark \<equiv> CHR 0x22"

definition hex_digit :: "nat \<Rightarrow> char" where
  "hex_digit n = (if n < 10 then char_of (48 + n) else char_of (87 + n))"

definition escape_char :: "char \<Rightarrow> string" where
  "escape_char c =
     (if c = qmark then [backslash, qmark]
      else if c = backslash then [backslash, backslash]
      else if c = CHR 0x0A then backslash # ''n''
      else if c = CHR 0x0D then backslash # ''r''
      else if c = CHR 0x09 then backslash # ''t''
      else if c = CHR 0x0C then backslash # ''f''
      else if c = CHR 0x08 then backslash # ''b''
      else if 32 \<le> ord c \<and> ord c \<le> 126 then [c]
      else backslash # ''u00'' @ [hex_digit (ord c div 16), hex_digit (ord c mod 16)])"

definition json_quote :: "string \<Rightarrow> string" where
  "json_quote s = qmark # concat (map escape_char s) @ [qmark]"

text \<open>The first argument prints a float.\<close>

fun dumps :: "(pyfloat \<Rightarrow> string) \<Rightarrow> string \<Rightarrow> string \<Rightarrow> json \<Rightarrow> string" where
  "dumps fr isep ksep JNull = ''null''"
| "dumps fr isep ksep (JBool b) = (if b then ''true'' else ''false'')"
| "dumps fr isep ksep (JInt i) = int_str i"
| "dumps fr isep ksep (JFloat f) = fr f"
| "dumps fr isep ksep (JStr s) = json_quote s"
| "dumps fr isep ksep (JArr vs) = ''['' @ join isep (map (dumps fr isep ksep) vs) @ '']''"
| "dumps fr isep ksep (JObj kvs) =
     ''{'' @ join isep (map (\<lambda>(k, v). json_quote k @ ksep @ dumps fr isep ksep v) kvs) @ ''}''"

text \<open>\<open>json.dumps(v, indent=k)\<close>: a line break and the indentation of the depth after every opening
  bracket and every comma and before every closing bracket, none in an empty array or object.\<close>

fun dumps_lines ::
  "(pyfloat \<Rightarrow> string) \<Rightarrow> (nat \<Rightarrow> string) \<Rightarrow> string \<Rightarrow> string \<Rightarrow> nat \<Rightarrow> json \<Rightarrow> string" where
  "dumps_lines fr nl isep ksep d (JArr vs) =
     (if vs = [] then ''[]''
      else CHR ''['' # nl (Suc d) @ join (isep @ nl (Suc d)) (map (dumps_lines fr nl isep ksep (Suc d)) vs) @ nl d @ '']'')"
| "dumps_lines fr nl isep ksep d (JObj kvs) =
     (if kvs = [] then ''{}''
      else CHR ''{'' # nl (Suc d) @
        join (isep @ nl (Suc d)) (map (\<lambda>(k, v). json_quote k @ ksep @ dumps_lines fr nl isep ksep (Suc d) v) kvs) @ nl d @ ''}'')"
| "dumps_lines fr nl isep ksep d v = dumps fr isep ksep v"

definition new_line :: "nat \<Rightarrow> nat \<Rightarrow> string" where
  "new_line k d = CHR 0x0A # replicate (k * d) (CHR '' '')"

definition dumps_indent :: "(pyfloat \<Rightarrow> string) \<Rightarrow> nat \<Rightarrow> json \<Rightarrow> string" where
  "dumps_indent fr k v = dumps_lines fr (new_line k) '','' '': '' 0 v"

subsection \<open>Reading\<close>

definition is_ws :: "char \<Rightarrow> bool" where
  "is_ws c \<longleftrightarrow> c = CHR '' '' \<or> c = CHR 0x09 \<or> c = CHR 0x0A \<or> c = CHR 0x0D"

definition skip_ws :: "string \<Rightarrow> string" where
  "skip_ws s = dropWhile is_ws s"

definition hex_val :: "char \<Rightarrow> nat option" where
  "hex_val c =
     (if is_digit c then Some (ord c - 48)
      else if 97 \<le> ord c \<and> ord c \<le> 102 then Some (ord c - 87)
      else if 65 \<le> ord c \<and> ord c \<le> 70 then Some (ord c - 55)
      else None)"

definition simple_escape :: "char \<Rightarrow> char option" where
  "simple_escape c =
     map_of [(qmark, qmark), (backslash, backslash), (CHR ''/'', CHR ''/''), (CHR ''b'', CHR 0x08),
       (CHR ''f'', CHR 0x0C), (CHR ''n'', CHR 0x0A), (CHR ''r'', CHR 0x0D), (CHR ''t'', CHR 0x09)] c"

definition unicode_escape :: "char \<Rightarrow> char \<Rightarrow> char \<Rightarrow> char \<Rightarrow> char option" where
  "unicode_escape c3 c2 c1 c0 =
     do { d3 \<leftarrow> hex_val c3; d2 \<leftarrow> hex_val c2; d1 \<leftarrow> hex_val c1; d0 \<leftarrow> hex_val c0;
          let n = ((d3 * 16 + d2) * 16 + d1) * 16 + d0;
          if n < 256 then Some (char_of n) else None }"

text \<open>The string literal after its opening quote, with the text that follows it.\<close>

fun scan_str :: "string \<Rightarrow> (string \<times> string) option" where
  "scan_str [] = None"
| "scan_str (c # cs) =
     (if c = qmark then Some ([], cs)
      else if c = backslash then
        (case cs of
           [] \<Rightarrow> None
         | e # es \<Rightarrow>
             if e = CHR ''u'' then
               (case es of
                  c3 # c2 # c1 # c0 # rest \<Rightarrow>
                    do { ch \<leftarrow> unicode_escape c3 c2 c1 c0; (s, r) \<leftarrow> scan_str rest; Some (ch # s, r) }
                | _ \<Rightarrow> None)
             else do { ch \<leftarrow> simple_escape e; (s, r) \<leftarrow> scan_str es; Some (ch # s, r) })
      else if ord c < 32 then None
      else do { (s, r) \<leftarrow> scan_str cs; Some (c # s, r) })"

text \<open>\<open>(-?(?:0|[1-9]\d*))(\.\d+)?([eE][-+]?\d+)?\<close>\<close>

definition scan_int :: "string \<Rightarrow> (string \<times> string) option" where
  "scan_int s =
     (case s of
        [] \<Rightarrow> None
      | c # cs \<Rightarrow>
          if c = CHR ''0'' then Some ([c], cs)
          else if is_digit c then Some (takeWhile is_digit s, dropWhile is_digit s)
          else None)"

definition scan_frac :: "string \<Rightarrow> string \<times> string" where
  "scan_frac s =
     (case s of
        c # cs \<Rightarrow>
          if c = CHR ''.'' \<and> takeWhile is_digit cs \<noteq> [] then (takeWhile is_digit cs, dropWhile is_digit cs)
          else ([], s)
      | [] \<Rightarrow> ([], s))"

definition scan_exp :: "string \<Rightarrow> int option \<times> string" where
  "scan_exp s =
     (case s of
        c # cs \<Rightarrow>
          if is_exp_char c then
            (let (neg, ds) = split_sign cs
             in if takeWhile is_digit ds \<noteq> []
                then (Some (if neg then - int (digits_val (takeWhile is_digit ds))
                            else int (digits_val (takeWhile is_digit ds))), dropWhile is_digit ds)
                else (None, s))
          else (None, s)
      | [] \<Rightarrow> (None, s))"

definition decimal :: "string \<Rightarrow> string \<Rightarrow> int \<Rightarrow> rat" where
  "decimal ds fs e =
     (let shift = e - int (length fs); n = of_nat (digits_val (ds @ fs)) :: rat
      in if 0 \<le> shift then n * 10 ^ nat shift else n / 10 ^ nat (- shift))"

definition parse_number :: "string \<Rightarrow> (json \<times> string) option" where
  "parse_number s =
     (let neg = (s \<noteq> [] \<and> hd s = CHR ''-''); body = (if neg then tl s else s)
      in do { (ds, r1) \<leftarrow> scan_int body;
              let (fs, r2) = scan_frac r1;
              let (ex, r3) = scan_exp r2;
              if fs = [] \<and> ex = None
              then Some (JInt (if neg then - int (digits_val ds) else int (digits_val ds)), r3)
              else Some (JFloat (to_double neg (decimal ds fs (case ex of None \<Rightarrow> 0 | Some e \<Rightarrow> e))), r3) })"

definition json_literals :: "(string \<times> json) list" where
  "json_literals =
     [(''null'', JNull), (''true'', JBool True), (''false'', JBool False), (''NaN'', JFloat PyNan),
      (''Infinity'', JFloat (PyInf False)), (''-Infinity'', JFloat (PyInf True))]"

definition parse_literal :: "string \<Rightarrow> (json \<times> string) option" where
  "parse_literal s = map_option (\<lambda>(w, v). (v, drop (length w) s)) (find (\<lambda>(w, v). startswith s w) json_literals)"

fun parse_value :: "nat \<Rightarrow> string \<Rightarrow> (json \<times> string) option"
  and parse_elements :: "nat \<Rightarrow> string \<Rightarrow> (json list \<times> string) option"
  and parse_members :: "nat \<Rightarrow> string \<Rightarrow> ((string \<times> json) list \<times> string) option"
where
  "parse_value 0 s = None"
| "parse_value (Suc n) s =
     (case s of
        [] \<Rightarrow> None
      | c # cs \<Rightarrow>
          if c = qmark then do { (x, r) \<leftarrow> scan_str cs; Some (JStr x, r) }
          else if c = CHR ''{'' then
            (if skip_ws cs \<noteq> [] \<and> hd (skip_ws cs) = CHR ''}'' then Some (JObj [], tl (skip_ws cs))
             else do { (kvs, r) \<leftarrow> parse_members n (skip_ws cs); Some (JObj (dict_assign [] kvs), r) })
          else if c = CHR ''['' then
            (if skip_ws cs \<noteq> [] \<and> hd (skip_ws cs) = CHR '']'' then Some (JArr [], tl (skip_ws cs))
             else do { (vs, r) \<leftarrow> parse_elements n (skip_ws cs); Some (JArr vs, r) })
          else (case parse_literal s of Some x \<Rightarrow> Some x | None \<Rightarrow> parse_number s))"
| "parse_elements 0 s = None"
| "parse_elements (Suc n) s =
     do { (v, r) \<leftarrow> parse_value n s;
          (case skip_ws r of
             [] \<Rightarrow> None
           | e # r1 \<Rightarrow>
               if e = CHR '']'' then Some ([v], r1)
               else if e = CHR '','' then do { (vs, r2) \<leftarrow> parse_elements n (skip_ws r1); Some (v # vs, r2) }
               else None) }"
| "parse_members 0 s = None"
| "parse_members (Suc n) s =
     (case s of
        [] \<Rightarrow> None
      | q # cs \<Rightarrow>
          if q \<noteq> qmark then None
          else
            do { (k, r) \<leftarrow> scan_str cs;
                 (case skip_ws r of
                    [] \<Rightarrow> None
                  | col # r1 \<Rightarrow>
                      if col \<noteq> CHR '':'' then None
                      else
                        do { (v, r2) \<leftarrow> parse_value n (skip_ws r1);
                             (case skip_ws r2 of
                                [] \<Rightarrow> None
                              | e # r3 \<Rightarrow>
                                  if e = CHR ''}'' then Some ([(k, v)], r3)
                                  else if e = CHR '','' then
                                    do { (kvs, r4) \<leftarrow> parse_members n (skip_ws r3); Some ((k, v) # kvs, r4) }
                                  else None) }) })"

definition loads :: "string \<Rightarrow> json option" where
  "loads text =
     (case parse_value (Suc (length text)) (skip_ws text) of
        None \<Rightarrow> None
      | Some (v, r) \<Rightarrow> if skip_ws r = [] then Some v else None)"

subsection \<open>Reading back what was written\<close>

lemma hex_val_digit: "n < 16 \<Longrightarrow> hex_val (hex_digit n) = Some n"
  by (auto simp: hex_val_def hex_digit_def is_digit_def ord_def)

lemma unicode_escape_hex:
  "unicode_escape (CHR ''0'') (CHR ''0'') (hex_digit (ord c div 16)) (hex_digit (ord c mod 16)) = Some c"
proof -
  have zero: "hex_val (CHR ''0'') = Some 0"
    by (simp add: hex_val_def is_digit_def ord_def)
  have "ord c div 16 < 16"
    using ord_less_256 [of c] by (simp add: less_mult_imp_div_less)
  then have "hex_val (hex_digit (ord c div 16)) = Some (ord c div 16)"
    "hex_val (hex_digit (ord c mod 16)) = Some (ord c mod 16)"
    by (simp_all add: hex_val_digit)
  moreover have "ord c div 16 * 16 + ord c mod 16 = ord c"
    by simp
  moreover have "char_of (ord c) = c"
    by (simp add: ord_def)
  ultimately show ?thesis
    using ord_less_256 [of c] by (simp add: unicode_escape_def zero)
qed

lemma simple_escapes:
  "simple_escape qmark = Some qmark" "simple_escape backslash = Some backslash"
  "simple_escape (CHR ''n'') = Some (CHR 0x0A)" "simple_escape (CHR ''r'') = Some (CHR 0x0D)"
  "simple_escape (CHR ''t'') = Some (CHR 0x09)" "simple_escape (CHR ''f'') = Some (CHR 0x0C)"
  "simple_escape (CHR ''b'') = Some (CHR 0x08)"
  by (simp_all add: simple_escape_def)

lemma scan_str_escape:
  "scan_str (escape_char c @ t) = map_option (\<lambda>(s, r). (c # s, r)) (scan_str t)"
proof (cases "c \<in> {qmark, backslash, CHR 0x0A, CHR 0x0D, CHR 0x09, CHR 0x0C, CHR 0x08}")
  case True
  then consider "c = qmark" | "c = backslash" | "c = CHR 0x0A" | "c = CHR 0x0D" | "c = CHR 0x09"
    | "c = CHR 0x0C" | "c = CHR 0x08"
    by blast
  then show ?thesis
    by cases (cases "scan_str t"; simp add: escape_char_def simple_escapes split_beta)+
next
  case False
  then show ?thesis
    by (cases "scan_str t") (simp_all add: escape_char_def unicode_escape_hex split_beta)
qed

lemma scan_str_quoted: "scan_str (concat (map escape_char s) @ qmark # rest) = Some (s, rest)"
  by (induction s) (simp_all add: scan_str_escape)

text \<open>What may follow a number without being read as part of it.\<close>

definition num_stop :: "string \<Rightarrow> bool" where
  "num_stop r \<longleftrightarrow> r = [] \<or> \<not> is_digit (hd r) \<and> hd r \<noteq> CHR ''.'' \<and> \<not> is_exp_char (hd r)"

lemma nat_str_head: "0 < n \<Longrightarrow> hd (nat_str n) \<noteq> CHR ''0''"
proof (induction n rule: nat_str.induct)
  case (1 n)
  show ?case
  proof (cases "n < 10")
    case True
    then have "ord (digit_char n) = 48 + n"
      by (rule ord_digit_char)
    then have "digit_char n \<noteq> CHR ''0''"
      using 1(2) by (auto simp: ord_def)
    then show ?thesis
      using True by (subst nat_str.simps) simp
  next
    case False
    then show ?thesis
      using 1 by (subst nat_str.simps) (auto simp del: nat_str.simps)
  qed
qed

lemma digit_char_zero: "digit_char 0 = CHR ''0''"
  by code_simp

lemma scan_int_nat_str:
  assumes "num_stop rest"
  shows "scan_int (nat_str n @ rest) = Some (nat_str n, rest)"
proof (cases "n = 0")
  case True
  then show ?thesis
    by (subst (1 2) nat_str.simps) (simp add: scan_int_def digit_char_zero)
next
  case False
  obtain c cs where c: "nat_str n = c # cs"
    by (cases "nat_str n") auto
  have d: "list_all is_digit (c # cs)"
    using nat_str_digits [of n] c by simp
  have "takeWhile is_digit rest = []" "dropWhile is_digit rest = rest"
    using assms by (cases rest; simp add: num_stop_def)+
  then have "takeWhile is_digit (c # cs @ rest) = c # cs" "dropWhile is_digit (c # cs @ rest) = rest"
    using d by (simp_all add: list_all_iff)
  moreover have "c \<noteq> CHR ''0''"
    using nat_str_head [of n] False c by simp
  ultimately show ?thesis
    using d unfolding c by (simp add: scan_int_def)
qed

lemma scan_rest_stop: "num_stop rest \<Longrightarrow> scan_frac rest = ([], rest) \<and> scan_exp rest = (None, rest)"
  by (auto simp: scan_frac_def scan_exp_def num_stop_def split: list.split)

lemma parse_number_int:
  assumes "num_stop rest"
  shows "parse_number (int_str i @ rest) = Some (JInt i, rest)"
proof -
  have "hd (nat_str n @ rest) \<noteq> CHR ''-''" for n
    using nat_str_digits [of n] by (cases "nat_str n") (auto simp: is_digit_def ord_def)
  then show ?thesis
    using assms
    by (auto simp: parse_number_def int_str_def scan_int_nat_str scan_rest_stop digits_val_nat_str Let_def)
qed

text \<open>The values the writer can represent: no floats, and every object has distinct keys.\<close>

fun json_plain :: "json \<Rightarrow> bool" where
  "json_plain (JFloat f) = False"
| "json_plain (JArr vs) = list_all json_plain vs"
| "json_plain (JObj kvs) = (distinct (map fst kvs) \<and> list_all (\<lambda>kv. json_plain (snd kv)) kvs)"
| "json_plain v = True"

text \<open>Separators: a comma or a colon with white space after it.\<close>

definition separators :: "string \<Rightarrow> string \<Rightarrow> bool" where
  "separators isep ksep \<longleftrightarrow>
     (isep \<noteq> [] \<and> hd isep = CHR '','' \<and> list_all is_ws (tl isep)) \<and>
     (ksep \<noteq> [] \<and> hd ksep = CHR '':'' \<and> list_all is_ws (tl ksep))"

lemma skip_ws_append: "list_all is_ws w \<Longrightarrow> skip_ws (w @ s) = skip_ws s"
  by (induction w) (simp_all add: skip_ws_def)

lemma skip_ws_id: "s = [] \<or> \<not> is_ws (hd s) \<Longrightarrow> skip_ws s = s"
  by (cases s) (simp_all add: skip_ws_def)

lemma int_str_head: "\<exists>c cs. int_str i = c # cs \<and> (is_digit c \<or> c = CHR ''-'' \<and> cs \<noteq> [] \<and> is_digit (hd cs))"
proof -
  have "\<exists>c cs. nat_str n = c # cs \<and> is_digit c" for n
    using nat_str_digits [of n] by (cases "nat_str n") auto
  then show ?thesis
    unfolding int_str_def by (metis list.distinct(1) list.sel(1))
qed

text \<open>How a written value begins: never with white space, a closing bracket or nothing.\<close>

lemma dumps_head:
  assumes "json_plain v"
  shows "\<exists>c cs. dumps_lines fr nl isep ksep d v = c # cs \<and> \<not> is_ws c \<and> c \<noteq> CHR '']'' \<and> c \<noteq> CHR ''}''"
proof (cases v)
  case (JInt i)
  then show ?thesis
    using int_str_head [of i] by (auto simp: is_ws_def is_digit_def ord_def)
qed (use assms in \<open>auto simp: is_ws_def json_quote_def\<close>)

lemma parse_literal_int:
  assumes "int_str i = c # cs"
  shows "parse_literal (c # cs @ rest) = None"
proof -
  have letter: "is_digit d \<Longrightarrow>
      d \<noteq> CHR ''n'' \<and> d \<noteq> CHR ''t'' \<and> d \<noteq> CHR ''f'' \<and> d \<noteq> CHR ''N'' \<and> d \<noteq> CHR ''I'' \<and> d \<noteq> CHR ''-''" for d
    by (auto simp: is_digit_def ord_def)
  consider "is_digit c" | d ds where "c = CHR ''-''" "cs = d # ds" "is_digit d"
    using int_str_head [of i] assms by (cases cs) auto
  then show ?thesis
  proof cases
    case 1
    with letter [of c] show ?thesis
      by (simp add: parse_literal_def json_literals_def startswith_def)
  next
    case 2
    with letter [of d] show ?thesis
      by (simp add: parse_literal_def json_literals_def startswith_def)
  qed
qed

lemma int_head_not_open:
  assumes "int_str i = c # cs"
  shows "c \<noteq> qmark \<and> c \<noteq> CHR ''{'' \<and> c \<noteq> CHR ''[''"
  using int_str_head [of i] assms by (auto simp: is_digit_def ord_def)

lemma dict_assign_distinct: "distinct (map fst kvs) \<Longrightarrow> dict_assign [] kvs = kvs"
  by (subst dict_assign_fresh) auto


text \<open>The three readers invert the writer, with the length of the text as fuel.\<close>

definition reads_back :: "(json \<Rightarrow> string) \<Rightarrow> json \<Rightarrow> bool" where
  "reads_back wr v \<longleftrightarrow>
     (\<forall>n rest. length (wr v) \<le> n \<longrightarrow> num_stop rest \<longrightarrow> parse_value n (wr v @ rest) = Some (v, rest))"

lemma num_stop_sep: "c = CHR '','' \<or> c = CHR '']'' \<or> c = CHR ''}'' \<Longrightarrow> num_stop (c # cs)"
  by (auto simp: num_stop_def is_digit_def is_exp_char_def ord_def)

lemma num_stop_ws: "list_all is_ws u \<Longrightarrow> num_stop r \<Longrightarrow> num_stop (u @ r)"
  by (cases u) (auto simp: num_stop_def is_ws_def is_digit_def is_exp_char_def ord_def)

lemma punct_not_ws: "\<not> is_ws (CHR '','')" "\<not> is_ws (CHR '']'')" "\<not> is_ws (CHR ''}'')" "\<not> is_ws (CHR '':'')"
  "\<not> is_ws qmark"
  by (simp_all add: is_ws_def)

lemma parse_elements_join:
  assumes "vs \<noteq> []" "list_all (reads_back wr) vs"
    and heads: "\<And>v. v \<in> set vs \<Longrightarrow> \<exists>c cs. wr v = c # cs \<and> \<not> is_ws c"
    and isep: "isep = CHR '','' # w" "list_all is_ws w"
    and "length (join isep (map wr vs)) < n" and u: "list_all is_ws u"
  shows "parse_elements n (join isep (map wr vs) @ u @ CHR '']'' # rest) = Some (vs, rest)"
  using assms(1-3) assms(6)
proof (induction vs arbitrary: n)
  case (Cons v vs)
  then obtain m where n: "n = Suc m"
    by (cases n) auto
  show ?case
  proof (cases vs)
    case Nil
    then show ?thesis
      using Cons.prems n num_stop_ws [OF u num_stop_sep [of "CHR '']''" rest]] punct_not_ws u
      by (simp add: reads_back_def skip_ws_append skip_ws_id)
  next
    case (Cons v' vs')
    let ?tl = "join isep (map wr vs) @ u @ CHR '']'' # rest"
    have whole: "join isep (map wr (v # vs)) = wr v @ isep @ join isep (map wr vs)"
      using Cons by simp
    have len: "length (wr v) \<le> m" "length (join isep (map wr vs)) < m"
      using Cons.prems(4) n isep unfolding whole by auto
    have "parse_value m (wr v @ CHR '','' # w @ ?tl) = Some (v, CHR '','' # w @ ?tl)"
      using Cons.prems(2) len(1) num_stop_sep by (simp add: reads_back_def)
    moreover have "skip_ws (CHR '','' # w @ ?tl) = CHR '','' # w @ ?tl"
      using punct_not_ws by (simp add: skip_ws_id)
    moreover have "\<exists>c cs. ?tl = c # cs \<and> \<not> is_ws c"
      using Cons.prems(3) [of v'] Cons by (cases vs') auto
    then have "skip_ws (w @ ?tl) = ?tl"
      using isep(2) by (auto simp: skip_ws_append skip_ws_id)
    moreover have "parse_elements m ?tl = Some (vs, rest)"
      using Cons.IH [of m] Cons.prems Cons len by auto
    ultimately show ?thesis
      unfolding whole n by (simp add: isep(1))
  qed
qed simp

definition member_text :: "string \<Rightarrow> (json \<Rightarrow> string) \<Rightarrow> string \<times> json \<Rightarrow> string" where
  "member_text ksep wr kv = json_quote (fst kv) @ ksep @ wr (snd kv)"

lemma parse_member:
  assumes "reads_back wr v" "\<exists>c cs. wr v = c # cs \<and> \<not> is_ws c"
    and ksep: "ksep = CHR '':'' # w" "list_all is_ws w"
    and "length (member_text ksep wr (k, v)) \<le> m" and "num_stop (e # r3)" "\<not> is_ws e"
    and u: "list_all is_ws u"
  shows "parse_members (Suc m) (member_text ksep wr (k, v) @ u @ e # r3) =
    (if e = CHR ''}'' then Some ([(k, v)], r3)
     else if e = CHR '','' then do { (kvs, r4) \<leftarrow> parse_members m (skip_ws r3); Some ((k, v) # kvs, r4) }
     else None)"
proof -
  have "skip_ws (w @ wr v @ u @ e # r3) = wr v @ u @ e # r3"
    using assms(2) ksep(2) by (auto simp: skip_ws_append skip_ws_id)
  moreover have "parse_value m (wr v @ u @ e # r3) = Some (v, u @ e # r3)"
    using assms(1,5) num_stop_ws [OF u assms(6)] by (simp add: reads_back_def member_text_def)
  moreover have "skip_ws (u @ e # r3) = e # r3"
    using assms(7) u by (simp add: skip_ws_append skip_ws_id)
  moreover have "skip_ws (CHR '':'' # w @ wr v @ u @ e # r3) = CHR '':'' # w @ wr v @ u @ e # r3"
    using punct_not_ws by (simp add: skip_ws_id)
  ultimately show ?thesis
    by (simp add: member_text_def json_quote_def scan_str_quoted ksep(1))
qed

lemma parse_members_join:
  assumes "kvs \<noteq> []" "list_all (\<lambda>kv. reads_back wr (snd kv)) kvs"
    and heads: "\<And>kv. kv \<in> set kvs \<Longrightarrow> \<exists>c cs. wr (snd kv) = c # cs \<and> \<not> is_ws c"
    and isep: "isep = CHR '','' # w" "list_all is_ws w"
    and ksep: "ksep = CHR '':'' # w'" "list_all is_ws w'"
    and "length (join isep (map (member_text ksep wr) kvs)) < n" and u: "list_all is_ws u"
  shows "parse_members n (join isep (map (member_text ksep wr) kvs) @ u @ CHR ''}'' # rest) = Some (kvs, rest)"
  using assms(1-3) assms(8)
proof (induction kvs arbitrary: n)
  case (Cons kv kvs)
  obtain k v where kv: "kv = (k, v)"
    by (cases kv)
  obtain m where n: "n = Suc m"
    using Cons.prems by (cases n) auto
  have hv: "\<exists>c cs. wr v = c # cs \<and> \<not> is_ws c" "reads_back wr v"
    using Cons.prems(2,3) kv by fastforce+
  show ?case
  proof (cases kvs)
    case Nil
    then show ?thesis
      using Cons.prems(4) n kv punct_not_ws u
      by (simp add: parse_member [OF hv(2,1) ksep] num_stop_sep del: parse_members.simps)
  next
    case (Cons kv' kvs')
    let ?tl = "join isep (map (member_text ksep wr) kvs) @ u @ CHR ''}'' # rest"
    have whole: "join isep (map (member_text ksep wr) ((k, v) # kvs)) =
        member_text ksep wr (k, v) @ isep @ join isep (map (member_text ksep wr) kvs)"
      using Cons by simp
    have len: "length (member_text ksep wr (k, v)) \<le> m" "length (join isep (map (member_text ksep wr) kvs)) < m"
      using Cons.prems(4) n isep unfolding kv whole by auto
    have "\<exists>cs. ?tl = qmark # cs"
      using Cons by (cases kvs') (simp_all add: member_text_def json_quote_def)
    then have "skip_ws (w @ ?tl) = ?tl"
      using isep(2) punct_not_ws by (auto simp: skip_ws_append skip_ws_id)
    moreover have "parse_members m ?tl = Some (kvs, rest)"
      using Cons.IH [of m] Cons.prems Cons len by auto
    ultimately show ?thesis
      using len(1) punct_not_ws unfolding kv n whole
      by (simp add: parse_member [where u = "[]", OF hv(2,1) ksep, unfolded append_Nil] num_stop_sep isep(1) del: parse_members.simps)
  qed
qed simp


lemma parse_literal_words:
  "parse_literal (CHR ''n'' # CHR ''u'' # CHR ''l'' # CHR ''l'' # rest) = Some (JNull, rest)"
  "parse_literal (CHR ''t'' # CHR ''r'' # CHR ''u'' # CHR ''e'' # rest) = Some (JBool True, rest)"
  "parse_literal (CHR ''f'' # CHR ''a'' # CHR ''l'' # CHR ''s'' # CHR ''e'' # rest) = Some (JBool False, rest)"
  by (simp_all add: parse_literal_def json_literals_def startswith_def)

lemma dumps_lines_flat: "dumps_lines fr (\<lambda>_. []) isep ksep d v = dumps fr isep ksep v"
proof (induction v arbitrary: d)
  case (JArr vs)
  then show ?case
    by (auto intro!: arg_cong [of _ _ "join isep"])
next
  case (JObj kvs)
  then show ?case
    by (auto intro!: arg_cong [of _ _ "join isep"] simp: snds.simps)
qed simp_all

lemma dumps_lines_flat_fun: "dumps_lines fr (\<lambda>_. []) isep ksep d = dumps fr isep ksep"
  by (simp add: fun_eq_iff dumps_lines_flat)

lemma length_join_snoc:
  "length (c # a @ join isep xs @ b @ [d]) \<le> n \<Longrightarrow> \<exists>m. n = Suc m \<and> length (join isep xs) < m"
  by (cases n) auto

lemma reads_back_lines:
  assumes "separators isep ksep" "json_plain v" and nl: "\<And>d. list_all is_ws (nl d)"
  shows "reads_back (dumps_lines fr nl isep ksep d) v"
  using assms(2)
proof (induction v arbitrary: d)
  case (JInt i)
  obtain c cs where c: "int_str i = c # cs"
    using int_str_head [of i] by blast
  show ?case
    unfolding reads_back_def
  proof (intro allI impI)
    fix n rest
    assume "length (dumps_lines fr nl isep ksep d (JInt i)) \<le> n" and stop: "num_stop rest"
    then obtain m where "n = Suc m"
      using c by (cases n) auto
    then show "parse_value n (dumps_lines fr nl isep ksep d (JInt i) @ rest) = Some (JInt i, rest)"
      using parse_number_int [OF stop, of i] parse_literal_int [OF c, of rest] int_head_not_open [OF c] c
      by simp
  qed
next
  case (JStr s)
  show ?case
    unfolding reads_back_def
  proof (intro allI impI)
    fix n rest
    assume "length (dumps_lines fr nl isep ksep d (JStr s)) \<le> n"
    then obtain m where "n = Suc m"
      by (cases n) (auto simp: json_quote_def)
    then show "parse_value n (dumps_lines fr nl isep ksep d (JStr s) @ rest) = Some (JStr s, rest)"
      by (simp add: json_quote_def scan_str_quoted)
  qed
next
  case (JArr vs)
  define wr where "wr = dumps_lines fr nl isep ksep (Suc d)"
  have all: "list_all (reads_back wr) vs"
    using JArr by (simp add: list_all_iff wr_def)
  have heads: "\<exists>c cs. wr v = c # cs \<and> \<not> is_ws c \<and> c \<noteq> CHR '']''" if "v \<in> set vs" for v
    using dumps_head [of v fr nl isep ksep "Suc d"] JArr.prems that by (auto simp: list_all_iff wr_def)
  obtain w where w: "isep @ nl (Suc d) = CHR '','' # w" "list_all is_ws w"
    using assms(1) nl [of "Suc d"] by (cases isep) (auto simp: separators_def)
  show ?case
    unfolding reads_back_def
  proof (intro allI impI)
    fix n rest
    assume n: "length (dumps_lines fr nl isep ksep d (JArr vs)) \<le> n"
    show "parse_value n (dumps_lines fr nl isep ksep d (JArr vs) @ rest) = Some (JArr vs, rest)"
    proof (cases "vs = []")
      case True
      then show ?thesis
        using n punct_not_ws by (cases n) (simp_all add: skip_ws_id)
    next
      case False
      let ?j = "join (isep @ nl (Suc d)) (map wr vs)"
      obtain m where m: "n = Suc m" "length ?j < m"
        using n False length_join_snoc [of "CHR ''[''" "nl (Suc d)" "isep @ nl (Suc d)" "map wr vs" "nl d" "CHR '']''" n]
        by (auto simp: wr_def)
      obtain v vs' where vs: "vs = v # vs'"
        using False by (cases vs) auto
      let ?t = "?j @ nl d @ CHR '']'' # rest"
      have "\<exists>c cs. ?t = c # cs \<and> \<not> is_ws c \<and> c \<noteq> CHR '']''"
        using heads [of v] by (cases vs') (auto simp: vs)
      then have t: "skip_ws (nl (Suc d) @ ?t) = ?t \<and> ?t \<noteq> [] \<and> hd ?t \<noteq> CHR '']''"
        using nl by (auto simp: skip_ws_id skip_ws_append)
      have "parse_elements m ?t = Some (vs, rest)"
        using parse_elements_join [OF False all _ w m(2) nl, of d rest] heads by blast
      then show ?thesis
        using m(1) t False by (simp add: wr_def)
    qed
  qed
next
  case (JObj kvs)
  define wr where "wr = dumps_lines fr nl isep ksep (Suc d)"
  have all: "list_all (\<lambda>kv. reads_back wr (snd kv)) kvs"
    using JObj by (force simp: list_all_iff wr_def)
  have heads: "\<exists>c cs. wr (snd kv) = c # cs \<and> \<not> is_ws c" if "kv \<in> set kvs" for kv
    using dumps_head [of "snd kv" fr nl isep ksep "Suc d"] JObj.prems that by (auto simp: list_all_iff wr_def)
  obtain w where w: "isep @ nl (Suc d) = CHR '','' # w" "list_all is_ws w"
    using assms(1) nl [of "Suc d"] by (cases isep) (auto simp: separators_def)
  obtain w' where w': "ksep = CHR '':'' # w'" "list_all is_ws w'"
    using assms(1) by (cases ksep) (auto simp: separators_def)
  have mem: "(\<lambda>(k, v). json_quote k @ ksep @ dumps_lines fr nl isep ksep (Suc d) v) = member_text ksep wr"
    by (auto simp: member_text_def fun_eq_iff wr_def)
  show ?case
    unfolding reads_back_def
  proof (intro allI impI)
    fix n rest
    assume n: "length (dumps_lines fr nl isep ksep d (JObj kvs)) \<le> n"
    show "parse_value n (dumps_lines fr nl isep ksep d (JObj kvs) @ rest) = Some (JObj kvs, rest)"
    proof (cases "kvs = []")
      case True
      then show ?thesis
        using n punct_not_ws by (cases n) (simp_all add: skip_ws_id)
    next
      case False
      let ?j = "join (isep @ nl (Suc d)) (map (member_text ksep wr) kvs)"
      let ?t = "?j @ nl d @ CHR ''}'' # rest"
      obtain m where m: "n = Suc m" "length ?j < m"
        using n False length_join_snoc [of "CHR ''{''" "nl (Suc d)" "isep @ nl (Suc d)" _ "nl d" "CHR ''}''" n]
        by (auto simp: mem)
      have "\<exists>cs. ?t = qmark # cs"
        using False by (cases kvs; cases "tl kvs") (simp_all add: member_text_def json_quote_def)
      then have t: "skip_ws (nl (Suc d) @ ?t) = ?t \<and> ?t \<noteq> [] \<and> hd ?t \<noteq> CHR ''}''"
        using punct_not_ws nl by (auto simp: skip_ws_id skip_ws_append)
      have "parse_members m ?t = Some (kvs, rest)"
        using parse_members_join [OF False all heads w w' m(2) nl, of d rest] by blast
      then show ?thesis
        using m(1) t False JObj.prems by (simp add: mem dict_assign_distinct)
    qed
  qed
qed (auto simp: reads_back_def parse_literal_words less_eq_Suc_le dest!: Suc_le_D)

lemma loads_lines:
  assumes "separators isep ksep" "json_plain v" "\<And>d. list_all is_ws (nl d)"
  shows "loads (dumps_lines fr nl isep ksep d v) = Some v"
proof -
  let ?s = "dumps_lines fr nl isep ksep d v"
  have "skip_ws ?s = ?s"
    using dumps_head [OF assms(2), of fr nl isep ksep d] by (auto simp: skip_ws_id)
  moreover have "parse_value (Suc (length ?s)) (?s @ []) = Some (v, [])"
    using reads_back_lines [where nl = nl, OF assms, of fr d, unfolded reads_back_def, rule_format, of "Suc (length ?s)" "[]"]
    by (simp add: num_stop_def del: parse_value.simps)
  ultimately show ?thesis
    by (simp add: loads_def del: parse_value.simps) (simp add: skip_ws_def)
qed

lemmas reads_back_dumps = reads_back_lines [where nl = "\<lambda>_. []" and d = 0, unfolded dumps_lines_flat_fun, simplified]
lemmas loads_dumps = loads_lines [where nl = "\<lambda>_. []" and d = 0, unfolded dumps_lines_flat_fun, simplified]

lemma loads_indent: "json_plain v \<Longrightarrow> loads (dumps_indent fr k v) = Some v"
  unfolding dumps_indent_def by (rule loads_lines) (simp_all add: separators_def new_line_def is_ws_def list_all_iff)

subsection \<open>Correctness of the format\<close>

text \<open>\<open>json.loads\<close> inverts \<open>json.dumps\<close>: every value without floats whose objects have
  distinct keys is read back from its text, whatever white space the separators contain; the
  text is its own fuel bound.\<close>

theorem json_round_trip:
  assumes "separators isep ksep" "json_plain v"
  shows "loads (dumps fr isep ksep v) = Some v"
  by (rule loads_dumps [OF assms])

theorem json_round_trip_witness:
  "loads (dumps (\<lambda>_. []) '', '' '': '' (JObj [(''a'', JArr [JInt (-12), JStr [qmark, CHR 0x0A], JNull, JObj []])])) =
     Some (JObj [(''a'', JArr [JInt (-12), JStr [qmark, CHR 0x0A], JNull, JObj []])])"
  by (rule json_round_trip) (simp_all add: separators_def is_ws_def)

end
