(* ===== verification/Text_Codec.thy ===== *)
theory Text_Codec
  imports Prelude
begin

section \<open>UTF-8 and base64\<close>

text \<open>
  The codecs the sources call: \<open>str.encode\<close> and \<open>bytes.decode\<close> with UTF-8, and the
  \<open>base64\<close> module. Bytes are strings, one \<^typ>\<open>char\<close> per byte. The base64 reader is the
  lenient one of \<open>binascii.a2b_base64\<close>: characters outside the alphabet are skipped and
  reading stops at complete padding.
\<close>

subsection \<open>UTF-8\<close>

text \<open>UTF-8 of the code points the model has.\<close>

definition utf8_encode :: "string \<Rightarrow> string" where
  "utf8_encode s =
     concat (map (\<lambda>c. if ord c < 128 then [c]
                      else [char_of (192 + ord c div 64), char_of (128 + ord c mod 64)]) s)"

fun utf8_decode :: "string \<Rightarrow> string option" where
  "utf8_decode [] = Some []"
| "utf8_decode (c # cs) =
     (if ord c < 128 then map_option (Cons c) (utf8_decode cs)
      else (case cs of
              [] \<Rightarrow> None
            | d # ds \<Rightarrow>
                if 194 \<le> ord c \<and> ord c \<le> 195 \<and> 128 \<le> ord d \<and> ord d < 192
                then map_option (Cons (char_of ((ord c - 192) * 64 + (ord d - 128)))) (utf8_decode ds)
                else None))"

lemma utf8_encode_Nil [simp]: "utf8_encode [] = []"
  by (simp add: utf8_encode_def)

lemma utf8_encode_Cons:
  "utf8_encode (c # cs) =
     (if ord c < 128 then [c] else [char_of (192 + ord c div 64), char_of (128 + ord c mod 64)]) @
     utf8_encode cs"
  by (simp add: utf8_encode_def)

lemma utf8_decode_encode: "utf8_decode (utf8_encode s) = Some s"
proof (induction s)
  case (Cons c cs)
  show ?case
  proof (cases "ord c < 128")
    case True
    with Cons show ?thesis by (simp add: utf8_encode_Cons)
  next
    case False
    have q: "2 \<le> ord c div 64" "ord c div 64 \<le> 3" using False ord_less_256 [of c] by auto
    have lead: "ord (char_of (192 + ord c div 64)) = 192 + ord c div 64"
      and cont: "ord (char_of (128 + ord c mod 64)) = 128 + ord c mod 64"
      using q by (simp_all add: ord_def)
    have whole: "char_of (ord c) = c"
      by (simp add: ord_def)
    have "ord c mod 64 < 64" by simp
    with False Cons q show ?thesis by (simp add: utf8_encode_Cons lead cont whole)
  qed
qed simp

subsection \<open>Base64\<close>

definition b64_char :: "nat \<Rightarrow> char" where
  "b64_char n =
     (if n < 26 then char_of (65 + n) else if n < 52 then char_of (71 + n)
      else if n < 62 then char_of (n - 4) else if n = 62 then CHR ''-'' else CHR ''_'')"

text \<open>\<open>base64.urlsafe_b64encode\<close>\<close>

fun urlsafe_b64encode :: "string \<Rightarrow> string" where
  "urlsafe_b64encode [] = []"
| "urlsafe_b64encode [a] = [b64_char (ord a div 4), b64_char (ord a mod 4 * 16), CHR ''='', CHR ''='']"
| "urlsafe_b64encode [a, b] =
     [b64_char (ord a div 4), b64_char (ord a mod 4 * 16 + ord b div 16), b64_char (ord b mod 16 * 4), CHR ''='']"
| "urlsafe_b64encode (a # b # c # rest) =
     [b64_char (ord a div 4), b64_char (ord a mod 4 * 16 + ord b div 16),
      b64_char (ord b mod 16 * 4 + ord c div 64), b64_char (ord c mod 64)] @ urlsafe_b64encode rest"

definition b64_val :: "char \<Rightarrow> nat option" where
  "b64_val c =
     (if 65 \<le> ord c \<and> ord c \<le> 90 then Some (ord c - 65)
      else if 97 \<le> ord c \<and> ord c \<le> 122 then Some (ord c - 71)
      else if 48 \<le> ord c \<and> ord c \<le> 57 then Some (ord c + 4)
      else if c = CHR ''+'' then Some 62 else if c = CHR ''/'' then Some 63 else None)"

text \<open>The loop of \<open>a2b_base64\<close>: position in the group of four, the bits left over and the
  number of padding characters seen.\<close>

fun a2b_loop :: "nat \<Rightarrow> nat \<Rightarrow> nat \<Rightarrow> string \<Rightarrow> string option" where
  "a2b_loop q left pads [] = (if q = 0 then Some [] else None)"
| "a2b_loop q left pads (c # cs) =
     (if c = CHR ''='' then
        (if 2 \<le> q \<and> 4 \<le> q + pads + 1 then Some []
         else a2b_loop q left (if 2 \<le> q then pads + 1 else pads) cs)
      else
        (case b64_val c of
           None \<Rightarrow> a2b_loop q left pads cs
         | Some v \<Rightarrow>
             if q = 0 then a2b_loop 1 v 0 cs
             else if q = 1 then map_option (Cons (char_of (left * 4 + v div 16))) (a2b_loop 2 (v mod 16) 0 cs)
             else if q = 2 then map_option (Cons (char_of (left * 16 + v div 4))) (a2b_loop 3 (v mod 4) 0 cs)
             else map_option (Cons (char_of (left * 64 + v))) (a2b_loop 0 0 0 cs)))"

definition b64decode :: "string \<Rightarrow> string option" where
  "b64decode s = a2b_loop 0 0 0 s"

definition from_urlsafe :: "char \<Rightarrow> char" where
  "from_urlsafe c = (if c = CHR ''-'' then CHR ''+'' else if c = CHR ''_'' then CHR ''/'' else c)"

definition urlsafe_b64decode :: "string \<Rightarrow> string option" where
  "urlsafe_b64decode s = b64decode (map from_urlsafe s)"

text \<open>\<open>s.rstrip('=')\<close> and the padding that is put back.\<close>

definition rstrip_pad :: "string \<Rightarrow> string" where
  "rstrip_pad s = rev (dropWhile (\<lambda>c. c = CHR ''='') (rev s))"

definition restore_pad :: "string \<Rightarrow> string" where
  "restore_pad s = s @ replicate (nat ((- int (length s)) mod 4)) (CHR ''='')"

subsection \<open>Decoding what was encoded\<close>

lemma ord_char_of: "n < 256 \<Longrightarrow> ord (char_of n) = n"
  by (simp add: ord_def)

lemma char_of_ord [simp]: "char_of (ord c) = c"
  by (simp add: ord_def)

lemma char_eq_ord: "c = d \<longleftrightarrow> ord c = ord d"
  by (metis char_of_ord)

lemma ord_punct:
  "ord (CHR ''='') = 61" "ord (CHR ''-'') = 45" "ord (CHR ''_'') = 95" "ord (CHR ''+'') = 43"
  "ord (CHR ''/'') = 47" "ord (CHR ''.'') = 46"
  by (simp_all add: ord_def)

lemma ord_b64_char:
  "n < 64 \<Longrightarrow> ord (b64_char n) =
     (if n < 26 then 65 + n else if n < 52 then 71 + n else if n < 62 then n - 4 else if n = 62 then 45 else 95)"
  by (simp add: b64_char_def ord_char_of ord_punct)

definition b64_safe :: "char \<Rightarrow> bool" where
  "b64_safe c \<longleftrightarrow> c \<noteq> CHR ''='' \<and> c \<noteq> CHR ''.'' \<and> ord c < 128 \<and> \<not> is_space c"

lemma b64_char_not_punct:
  assumes "n < 64"
  shows "b64_safe (b64_char n)"
  unfolding b64_safe_def is_space_def char_eq_ord ord_b64_char [OF assms] ord_punct
  using assms by (auto split: if_splits)

lemma b64_val_char:
  assumes "n < 64"
  shows "b64_val (from_urlsafe (b64_char n)) = Some n" "from_urlsafe (b64_char n) \<noteq> CHR ''=''"
  using assms
  by (auto simp: b64_val_def from_urlsafe_def char_eq_ord ord_b64_char ord_punct split: if_splits)

lemma sextet_bounds:
  "ord a div 4 < 64" "ord a mod 4 * 16 + ord b div 16 < 64" "ord b mod 16 * 4 + ord c div 64 < 64"
  "ord c mod 64 < 64" "ord a mod 4 * 16 < 64" "ord b mod 16 * 4 < 64"
proof -
  have "ord a div 4 < 64" "ord b div 16 < 16" "ord c div 64 < 4"
    using ord_less_256 [of a] ord_less_256 [of b] ord_less_256 [of c] by auto
  moreover have "ord a mod 4 < 4" "ord b mod 16 < 16" "ord c mod 64 < 64"
    by simp_all
  ultimately show "ord a div 4 < 64" "ord a mod 4 * 16 + ord b div 16 < 64"
    "ord b mod 16 * 4 + ord c div 64 < 64" "ord c mod 64 < 64" "ord a mod 4 * 16 < 64" "ord b mod 16 * 4 < 64"
    by linarith+
qed

lemma octet_first: "char_of (ord a div 4 * 4 + (ord a mod 4 * 16 + x) div 16) = a" if "x < 16"
proof -
  have "(ord a mod 4 * 16 + x) div 16 = ord a mod 4"
    using that by simp
  then show ?thesis
    by (simp add: div_mult_mod_eq)
qed

lemma octet_second:
  assumes "x < 4"
  shows "char_of ((ord a mod 4 * 16 + ord b div 16) mod 16 * 16 + (ord b mod 16 * 4 + x) div 4) = b"
proof -
  have "ord b div 16 < 16"
    using ord_less_256 [of b] by auto
  then have "(ord a mod 4 * 16 + ord b div 16) mod 16 = ord b div 16"
    by simp
  moreover have "(ord b mod 16 * 4 + x) div 4 = ord b mod 16"
    using assms by simp
  ultimately show ?thesis
    by (simp add: div_mult_mod_eq)
qed

lemma octet_third: "char_of ((ord b mod 16 * 4 + ord c div 64) mod 4 * 64 + ord c mod 64) = c"
proof -
  have "ord c div 64 < 4"
    using ord_less_256 [of c] by auto
  then have "(ord b mod 16 * 4 + ord c div 64) mod 4 = ord c div 64"
    by simp
  then show ?thesis
    by (simp add: div_mult_mod_eq)
qed

lemmas b64_group = b64_val_char [OF sextet_bounds(1)] b64_val_char [OF sextet_bounds(2)]
  b64_val_char [OF sextet_bounds(3)] b64_val_char [OF sextet_bounds(4)]
  b64_val_char [OF sextet_bounds(5)] b64_val_char [OF sextet_bounds(6)]

lemma b64decode_encode: "urlsafe_b64decode (urlsafe_b64encode s) = Some s"
proof -
  have pad: "from_urlsafe (CHR ''='') = CHR ''=''"
    by (simp add: from_urlsafe_def)
  have "a2b_loop 0 0 0 (map from_urlsafe (urlsafe_b64encode s)) = Some s"
  proof (induction s rule: urlsafe_b64encode.induct)
    case (2 a)
    show ?case
      using octet_first [of 0 a] by (simp add: b64_group pad)
  next
    case (3 a b)
    have "ord b div 16 < 16"
      using ord_less_256 [of b] by auto
    then show ?case
      using octet_first [of "ord b div 16" a] octet_second [of 0 a b] by (simp add: b64_group pad)
  next
    case (4 a b c rest)
    have "ord b div 16 < 16" "ord c div 64 < 4"
      using ord_less_256 [of b] ord_less_256 [of c] by auto
    then show ?case
      using octet_first [of "ord b div 16" a] octet_second [of "ord c div 64" a b] octet_third [of b c] 4
      by (simp add: b64_group pad)
  qed simp
  then show ?thesis
    by (simp add: urlsafe_b64decode_def b64decode_def)
qed

text \<open>The stripped text has only alphabet characters, and its length determines the padding.\<close>

lemma urlsafe_b64encode_shape:
  "\<exists>core k. urlsafe_b64encode s = core @ replicate k (CHR ''='') \<and> k < 3 \<and> (length core + k) mod 4 = 0 \<and>
     (\<forall>c \<in> set core. b64_safe c)"
proof (induction s rule: urlsafe_b64encode.induct)
  case (2 a)
  show ?case
    using b64_char_not_punct [OF sextet_bounds(1), of a] b64_char_not_punct [OF sextet_bounds(5), of a]
    by (intro exI [of _ "[b64_char (ord a div 4), b64_char (ord a mod 4 * 16)]"] exI [of _ 2])
       (auto simp: numeral_2_eq_2)
next
  case (3 a b)
  show ?case
    using b64_char_not_punct [OF sextet_bounds(1), of a] b64_char_not_punct [OF sextet_bounds(2), of a b]
      b64_char_not_punct [OF sextet_bounds(6), of b]
    by (intro exI [of _ "[b64_char (ord a div 4), b64_char (ord a mod 4 * 16 + ord b div 16),
          b64_char (ord b mod 16 * 4)]"] exI [of _ 1]) auto
next
  case (4 a b c rest)
  from 4 obtain core k where ck: "urlsafe_b64encode rest = core @ replicate k (CHR ''='')" "k < 3"
    "(length core + k) mod 4 = 0" "\<forall>c \<in> set core. b64_safe c"
    by (elim exE conjE)
  let ?g = "[b64_char (ord a div 4), b64_char (ord a mod 4 * 16 + ord b div 16),
      b64_char (ord b mod 16 * 4 + ord c div 64), b64_char (ord c mod 64)]"
  have "\<forall>c \<in> set ?g. b64_safe c"
    using b64_char_not_punct [OF sextet_bounds(1), of a] b64_char_not_punct [OF sextet_bounds(2), of a b]
      b64_char_not_punct [OF sextet_bounds(3), of b c] b64_char_not_punct [OF sextet_bounds(4), of c]
    by simp
  then show ?case
    using ck by (intro exI [of _ "?g @ core"] exI [of _ k]) auto
qed auto

lemma rstrip_pad_core:
  "(\<forall>c \<in> set core. b64_safe c) \<Longrightarrow> rstrip_pad (core @ replicate k (CHR ''='')) = core"
  by (cases core rule: rev_cases) (simp_all add: rstrip_pad_def dropWhile_append b64_safe_def)

lemma restore_pad_core:
  assumes "k < 3" "(length core + k) mod 4 = 0"
  shows "restore_pad core = core @ replicate k (CHR ''='')"
proof -
  have "(- int (length core)) mod 4 = int k"
    using assms by presburger
  then show ?thesis
    by (simp add: restore_pad_def)
qed

lemma b64_token_part:
  "urlsafe_b64decode (restore_pad (rstrip_pad (urlsafe_b64encode s))) = Some s \<and>
   (\<forall>c \<in> set (rstrip_pad (urlsafe_b64encode s)). b64_safe c)"
  using urlsafe_b64encode_shape [of s] b64decode_encode [of s] rstrip_pad_core restore_pad_core by metis

end
