(* ===== verification/Auth_Token.thy ===== *)
theory Auth_Token
  imports Complex_Main Json Text_Codec
begin

section \<open>Passwords and session tokens\<close>

text \<open>
  The credential half of \<^verbatim>\<open>app/database/auth.py\<close>: password digests and the signed,
  stateless session tokens \<open><payload>.<signature>\<close>. The primitives PBKDF2-HMAC-SHA256 and
  HMAC-SHA256 are the arguments \<open>kdf\<close> (password, salt and iterations to digest) and \<open>mac\<close>
  (key and message to digest), random values and the clock are arguments as well; nothing is
  assumed of them. \<open>hmac.compare_digest\<close> raises \<open>TypeError\<close> on text that is not ASCII.
\<close>

type_synonym kdf = "string \<Rightarrow> string \<Rightarrow> nat \<Rightarrow> string"
type_synonym mac = "string \<Rightarrow> string \<Rightarrow> string"

definition PBKDF2_ITERATIONS :: nat where
  "PBKDF2_ITERATIONS = 100000"

definition is_ascii :: "string \<Rightarrow> bool" where
  "is_ascii s \<longleftrightarrow> list_all (\<lambda>c. ord c < 128) s"

definition compare_digest :: "string \<Rightarrow> string \<Rightarrow> bool result" where
  "compare_digest a b = (if is_ascii a \<and> is_ascii b then Inr (a = b) else Inl TypeError)"

text \<open>\<open>bytes.hex()\<close>\<close>

definition hex_str :: "string \<Rightarrow> string" where
  "hex_str bs = concat (map (\<lambda>c. [hex_digit (ord c div 16), hex_digit (ord c mod 16)]) bs)"

text \<open>The second argument is the salt given by the caller, the first one the salt that
  \<open>secrets.token_hex\<close> would draw.\<close>

definition hash_password :: "kdf \<Rightarrow> string \<Rightarrow> string \<Rightarrow> string option \<Rightarrow> string \<times> string" where
  "hash_password kdf fresh_salt password salt_opt =
     (let salt = (case salt_opt of None \<Rightarrow> fresh_salt | Some s \<Rightarrow> s)
      in (hex_str (kdf (utf8_encode password) (utf8_encode salt) PBKDF2_ITERATIONS), salt))"

definition verify_password :: "kdf \<Rightarrow> string \<Rightarrow> string \<Rightarrow> string \<Rightarrow> bool result" where
  "verify_password kdf plain_password salt password_hash =
     compare_digest (fst (hash_password kdf [] plain_password (Some salt))) password_hash"

subsection \<open>Tokens\<close>

definition py_trunc :: "rat \<Rightarrow> int" where
  "py_trunc x = (if 0 \<le> x then \<lfloor>x\<rfloor> else \<lceil>x\<rceil>)"

definition token_signature :: "mac \<Rightarrow> string \<Rightarrow> string \<Rightarrow> string" where
  "token_signature mac secret_key payload_b64 =
     rstrip_pad (urlsafe_b64encode (mac (utf8_encode secret_key) (utf8_encode payload_b64)))"

definition token_payload :: "string \<Rightarrow> int \<Rightarrow> string \<Rightarrow> json" where
  "token_payload username expires_at nonce =
     JObj [(''sub'', JStr username), (''exp'', JInt expires_at), (''nonce'', JStr nonce)]"

definition generate_session_token ::
  "mac \<Rightarrow> string \<Rightarrow> rat \<Rightarrow> string \<Rightarrow> string \<Rightarrow> int \<Rightarrow> string" where
  "generate_session_token mac nonce now_ts username secret_key expires_in_seconds =
     (let expires_at = py_trunc now_ts + expires_in_seconds;
          payload_json = dumps (\<lambda>_. []) '','' '':'' (token_payload username expires_at nonce);
          payload_b64 = rstrip_pad (urlsafe_b64encode (utf8_encode payload_json))
      in payload_b64 @ ''.'' @ token_signature mac secret_key payload_b64)"

text \<open>\<open>isinstance(exp, (int, float)) and not exp < time.time()\<close>: a Boolean is an integer and a
  NaN is below nothing.\<close>

fun exp_valid :: "json option \<Rightarrow> rat \<Rightarrow> bool" where
  "exp_valid (Some (JInt i)) t = (t \<le> of_int i)"
| "exp_valid (Some (JBool b)) t = (t \<le> (if b then 1 else 0))"
| "exp_valid (Some (JFloat (PyFin neg m))) t = (t \<le> (if neg then - m else m))"
| "exp_valid (Some (JFloat (PyInf neg))) t = (\<not> neg)"
| "exp_valid (Some (JFloat PyNan)) t = True"
| "exp_valid _ t = False"

fun valid_sub :: "json option \<Rightarrow> string option" where
  "valid_sub (Some (JStr u)) = (if u = [] then None else Some u)"
| "valid_sub _ = None"

definition decode_payload :: "string \<Rightarrow> json option" where
  "decode_payload payload_b64 =
     Option.bind (urlsafe_b64decode (utf8_encode (restore_pad payload_b64)))
       (\<lambda>bytes. Option.bind (utf8_decode bytes) loads)"

definition check_claims :: "rat \<Rightarrow> json \<Rightarrow> string option result" where
  "check_claims now_ts payload =
     (case payload of
        JObj d \<Rightarrow>
          Inr (if exp_valid (dict_get d ''exp'') now_ts then valid_sub (dict_get d ''sub'') else None)
      | _ \<Rightarrow> Inl AttributeError)"

definition verify_session_token :: "mac \<Rightarrow> rat \<Rightarrow> string \<Rightarrow> string \<Rightarrow> string option result" where
  "verify_session_token mac now_ts token secret_key =
     (case split_on (CHR ''.'') token of
        [payload_b64, sig_b64] \<Rightarrow>
          bind_result (compare_digest sig_b64 (token_signature mac secret_key payload_b64)) (\<lambda>same.
            if \<not> same then Inr None
            else (case decode_payload payload_b64 of
                    None \<Rightarrow> Inr None
                  | Some payload \<Rightarrow> check_claims now_ts payload))
      | _ \<Rightarrow> Inr None)"

subsection \<open>Issued tokens verify, and only signed payloads do\<close>

lemma utf8_encode_ascii: "is_ascii s \<Longrightarrow> utf8_encode s = s"
  by (induction s) (simp_all add: utf8_encode_Cons is_ascii_def)

lemma is_ascii_b64 [simp]: "is_ascii (rstrip_pad (urlsafe_b64encode s))"
  using b64_token_part [of s] by (auto simp: is_ascii_def list_all_iff b64_safe_def)

lemma is_ascii_signature [simp]: "is_ascii (token_signature mac key p)"
  by (simp add: token_signature_def)

lemma dot_notin_b64 [simp]: "CHR ''.'' \<notin> set (rstrip_pad (urlsafe_b64encode s))"
  using b64_token_part [of s] by (auto simp: b64_safe_def)

lemma is_ascii_restore_pad: "is_ascii s \<Longrightarrow> is_ascii (restore_pad s)"
  by (auto simp: restore_pad_def is_ascii_def list_all_iff ord_punct)

lemma is_ascii_hex_str [simp]: "is_ascii (hex_str bs)"
proof -
  have "ord (hex_digit n) < 128" if "n < 16" for n
    using that by (simp add: hex_digit_def ord_char_of)
  moreover have "ord c div 16 < 16" for c
    using ord_less_256 [of c] by auto
  ultimately show ?thesis
    by (auto simp: is_ascii_def hex_str_def list_all_iff)
qed

lemma verify_hash_password:
  "hash_password kdf fresh pw None = (h, s) \<Longrightarrow> verify_password kdf pw s h = Inr True"
  by (auto simp: hash_password_def verify_password_def compare_digest_def Let_def)

lemma decode_payload_encoded:
  "decode_payload (rstrip_pad (urlsafe_b64encode (utf8_encode t))) = loads t"
proof -
  let ?p = "rstrip_pad (urlsafe_b64encode (utf8_encode t))"
  have "utf8_encode (restore_pad ?p) = restore_pad ?p"
    by (intro utf8_encode_ascii is_ascii_restore_pad) simp
  then show ?thesis
    using b64_token_part [of "utf8_encode t"] by (simp add: decode_payload_def utf8_decode_encode)
qed

lemma loads_token_payload: "loads (dumps fr '','' '':'' (token_payload u e n)) = Some (token_payload u e n)"
  by (rule loads_dumps) (simp_all add: separators_def token_payload_def)

lemma split_on_two:
  assumes "c \<notin> set a" "c \<notin> set b"
  shows "split_on c (a @ [c] @ b) = [a, b]"
  using assms split_on_append [of c a b] split_on_single [of c b] by simp

lemma strip_b64: "list_all (\<lambda>c. \<not> is_space c) s \<Longrightarrow> strip s = s"
  by (cases "s = []") (auto simp: list_all_iff intro!: strip_id)

lemma token_no_space: "list_all (\<lambda>c. \<not> is_space c) (generate_session_token mac nonce t u key ttl)"
proof -
  have "list_all (\<lambda>c. \<not> is_space c) (rstrip_pad (urlsafe_b64encode x))" for x
    using b64_token_part [of x] by (auto simp: list_all_iff b64_safe_def)
  then show ?thesis
    by (simp add: generate_session_token_def token_signature_def Let_def is_space_def ord_punct)
qed

lemma strip_token [simp]:
  "strip (generate_session_token mac nonce t u key ttl) = generate_session_token mac nonce t u key ttl"
  by (rule strip_b64 [OF token_no_space])

lemma token_not_Nil [simp]: "generate_session_token mac nonce t u key ttl \<noteq> []"
  by (simp add: generate_session_token_def Let_def)

lemma verify_generated:
  "verify_session_token mac t2 (generate_session_token mac nonce t1 u key ttl) key =
     Inr (if t2 \<le> of_int (py_trunc t1 + ttl) \<and> u \<noteq> [] then Some u else None)"
proof -
  let ?json = "dumps (\<lambda>_. []) '','' '':'' (token_payload u (py_trunc t1 + ttl) nonce)"
  let ?p = "rstrip_pad (urlsafe_b64encode (utf8_encode ?json))"
  have "split_on (CHR ''.'') (?p @ ''.'' @ token_signature mac key ?p) = [?p, token_signature mac key ?p]"
    using split_on_two [of "CHR ''.''" ?p "token_signature mac key ?p"] by (simp add: token_signature_def)
  moreover have "decode_payload ?p = Some (token_payload u (py_trunc t1 + ttl) nonce)"
    by (simp add: decode_payload_encoded loads_token_payload)
  ultimately show ?thesis
    by (simp add: verify_session_token_def generate_session_token_def Let_def compare_digest_def
        check_claims_def token_payload_def)
qed

lemma verify_accepts:
  assumes "verify_session_token mac t tok key = Inr (Some u)"
  shows "\<exists>p d. tok = p @ ''.'' @ token_signature mac key p \<and> decode_payload p = Some (JObj d) \<and>
    dict_get d ''sub'' = Some (JStr u) \<and> u \<noteq> [] \<and> exp_valid (dict_get d ''exp'') t"
proof -
  obtain p s where parts: "split_on (CHR ''.'') tok = [p, s]"
    using assms by (auto simp: verify_session_token_def split: list.splits)
  with assms have "compare_digest s (token_signature mac key p) = Inr True"
    by (auto simp: verify_session_token_def bind_result_Inr_iff split: if_splits)
  then have s: "s = token_signature mac key p"
    by (simp add: compare_digest_def split: if_splits)
  obtain d where d: "decode_payload p = Some (JObj d)" "check_claims t (JObj d) = Inr (Some u)"
    using assms parts
    by (auto simp: verify_session_token_def bind_result_Inr_iff check_claims_def
        split: if_splits option.splits json.splits)
  have "dict_get d ''sub'' = Some (JStr u) \<and> u \<noteq> [] \<and> exp_valid (dict_get d ''exp'') t"
    using d(2) by (auto simp: check_claims_def split: if_splits elim!: valid_sub.elims)
  moreover have "tok = p @ ''.'' @ s"
    using parts join_split_on [of "CHR ''.''" tok] by simp
  ultimately show ?thesis
    using s d(1) by blast
qed

subsection \<open>Correctness of the tokens\<close>

text \<open>C13. A generated session token verifies under the same key exactly until the second in which
  it expires, and then names the user it was generated for; every later check gives no user.\<close>

theorem token_round_trip:
  "verify_session_token mac t2 (generate_session_token mac nonce t1 u key ttl) key =
     Inr (if t2 \<le> of_int (py_trunc t1 + ttl) \<and> u \<noteq> [] then Some u else None)"
  by (rule verify_generated)

text \<open>A token is accepted only if its second segment is the HMAC of its first under the
  server's key, and the first decodes to a JSON object whose subject is the user that is
  returned and whose expiry has not passed.\<close>

theorem accepted_token_is_signed:
  assumes "verify_session_token mac t tok key = Inr (Some u)"
  shows "\<exists>p d. tok = p @ ''.'' @ token_signature mac key p \<and> decode_payload p = Some (JObj d) \<and>
    dict_get d ''sub'' = Some (JStr u) \<and> u \<noteq> [] \<and> exp_valid (dict_get d ''exp'') t"
  by (rule verify_accepts [OF assms])

theorem accepted_token_is_signed_witness:
  "\<exists>p. generate_session_token (\<lambda>k m. k) ''n'' 0 ''bob'' ''key'' 60 = p @ ''.'' @ token_signature (\<lambda>k m. k) ''key'' p"
proof -
  have "verify_session_token (\<lambda>k m. k) 0 (generate_session_token (\<lambda>k m. k) ''n'' 0 ''bob'' ''key'' 60) ''key'' =
      Inr (Some ''bob'')"
    using verify_generated [of "\<lambda>k m. k" 0 "''n''" 0 "''bob''" "''key''" 60] by (simp add: py_trunc_def)
  then show ?thesis
    using accepted_token_is_signed by blast
qed

text \<open>A two-segment token whose signature segment is not ASCII is not rejected but raises
  \<open>TypeError\<close>, which none of the handlers around the check catch.\<close>

theorem non_ascii_token_raises:
  assumes "CHR ''.'' \<notin> set p" "CHR ''.'' \<notin> set sig" "\<not> is_ascii sig"
  shows "verify_session_token mac t (p @ ''.'' @ sig) key = Inl TypeError"
  using split_on_two [OF assms(1,2)] assms(3) by (simp add: verify_session_token_def compare_digest_def)

theorem non_ascii_token_raises_witness:
  "verify_session_token (\<lambda>k m. k) 0 (''a'' @ ''.'' @ [CHR 0xE9]) ''key'' = Inl TypeError"
  by (rule non_ascii_token_raises) (simp_all add: is_ascii_def ord_def)

end
