(* ===== verification/User_Db.thy ===== *)
theory User_Db
  imports Prelude "HOL-Library.Char_ord" "HOL-Library.List_Lexorder"
begin

section \<open>The relational store\<close>

text \<open>
  \<^verbatim>\<open>app/database/db.py\<close> and \<^verbatim>\<open>app/database/models.py\<close>: the tables of
  \<open>SCHEMA_DDL\<close> as lists of rows in primary key order, each with its AUTOINCREMENT counter,
  and the methods of \<open>DatabaseManager\<close> as functions on the state of the database. Every
  method runs under the manager's lock and ends in one commit, so it is one step. The
  current time is an argument. The invariant \<open>db_inv\<close> is what the schema declares: primary
  keys increase and stay below the counter, user names are unique, permission rows refer to
  existing users (ON DELETE CASCADE) and do not repeat.
\<close>

subsection \<open>Tables\<close>

record 'r table =
  rows :: "'r list"
  seq :: int

definition table_insert :: "(int \<Rightarrow> 'r) \<Rightarrow> 'r table \<Rightarrow> 'r table" where
  "table_insert mk t = t\<lparr>rows := rows t @ [mk (seq t + 1)], seq := seq t + 1\<rparr>"

definition empty_table :: "'r table" where
  "empty_table = \<lparr>rows = [], seq = 0\<rparr>"

definition table_ok :: "('r \<Rightarrow> int) \<Rightarrow> 'r table \<Rightarrow> bool" where
  "table_ok key t \<longleftrightarrow>
     sorted_wrt (<) (map key (rows t)) \<and> list_all (\<lambda>r. 1 \<le> key r \<and> key r \<le> seq t) (rows t) \<and> 0 \<le> seq t"

text \<open>\<open>LIMIT ? OFFSET ?\<close>: a negative limit means no limit, a negative offset is 0.\<close>

definition paginate :: "int \<Rightarrow> int \<Rightarrow> 'r list \<Rightarrow> 'r list" where
  "paginate limit offset rs =
     (let rest = drop (nat offset) rs in if limit < 0 then rest else take (nat limit) rest)"

subsection \<open>Records\<close>

record UserRecord =
  user_id :: int
  username :: string
  password_hash :: string
  salt :: string
  email :: string
  role :: string
  is_active :: bool
  created_at :: string
  last_login :: "string option"

record UserPermissionRecord =
  perm_id :: int
  perm_user_id :: int
  permission :: string

record LoginAuditRecord =
  audit_id :: int
  audit_username :: string
  audit_timestamp :: string
  ip_address :: string
  user_agent :: string
  audit_status :: string
  failure_reason :: string

record FeedbackRecord =
  feedback_id :: int
  category :: string
  title :: string
  description :: string
  metadata_json :: string
  submitted_by :: string
  feedback_status :: string
  github_issue_number :: "int option"
  feedback_created_at :: string

definition ALL_PERMISSIONS :: "string list" where
  "ALL_PERMISSIONS =
     [''server:reboot'', ''server:settings'', ''player:kick'', ''player:ban'', ''player:broadcast'',
      ''logs:view'', ''feedback:submit'', ''users:manage'', ''system:update'']"

definition DEFAULT_ROLE_PERMISSIONS :: "(string, string list) dict" where
  "DEFAULT_ROLE_PERMISSIONS =
     [(''admin'', ALL_PERMISSIONS),
      (''operator'',
        [''server:reboot'', ''server:settings'', ''player:kick'', ''player:ban'', ''player:broadcast'',
         ''logs:view'', ''feedback:submit'', ''system:update'']),
      (''viewer'', [''logs:view'', ''feedback:submit''])]"

definition default_perms :: "string \<Rightarrow> string list" where
  "default_perms r = (case dict_get DEFAULT_ROLE_PERMISSIONS r of None \<Rightarrow> [] | Some ps \<Rightarrow> ps)"

record db =
  users :: "UserRecord table"
  user_permissions :: "UserPermissionRecord table"
  login_audit :: "LoginAuditRecord table"
  feedback_submissions :: "FeedbackRecord table"
  system_metadata :: "(string, string) dict"

text \<open>The database after \<open>initialize\<close> on a new file.\<close>

definition empty_db :: db where
  "empty_db = \<lparr>users = empty_table, user_permissions = empty_table, login_audit = empty_table,
     feedback_submissions = empty_table, system_metadata = []\<rparr>"

subsection \<open>Users\<close>

text \<open>An empty time stamp reads as no login.\<close>

definition row_to_user :: "UserRecord \<Rightarrow> UserRecord" where
  "row_to_user row = row\<lparr>last_login := (case last_login row of
     None \<Rightarrow> None | Some ts \<Rightarrow> if ts = [] then None else Some ts)\<rparr>"

definition get_user_by_id :: "db \<Rightarrow> int \<Rightarrow> UserRecord option" where
  "get_user_by_id d i = map_option row_to_user (find (\<lambda>u. user_id u = i) (rows (users d)))"

definition get_user_by_username :: "db \<Rightarrow> string \<Rightarrow> UserRecord option" where
  "get_user_by_username d name = map_option row_to_user (find (\<lambda>u. username u = name) (rows (users d)))"

definition list_users :: "db \<Rightarrow> UserRecord list" where
  "list_users d = map row_to_user (rows (users d))"

definition count_users :: "db \<Rightarrow> nat" where
  "count_users d = length (rows (users d))"

definition is_active_admin :: "UserRecord \<Rightarrow> bool" where
  "is_active_admin u \<longleftrightarrow> role u = ''admin'' \<and> is_active u"

definition count_active_admins :: "db \<Rightarrow> nat" where
  "count_active_admins d = length (filter is_active_admin (rows (users d)))"

text \<open>\<open>INSERT OR IGNORE INTO user_permissions\<close>: skipped when the pair is already there.\<close>

definition insert_permission :: "int \<Rightarrow> db \<Rightarrow> string \<Rightarrow> db" where
  "insert_permission uid d p =
     (if list_ex (\<lambda>r. perm_user_id r = uid \<and> permission r = p) (rows (user_permissions d)) then d
      else d\<lparr>user_permissions := table_insert (\<lambda>i. \<lparr>perm_id = i, perm_user_id = uid, permission = p\<rparr>)
                                  (user_permissions d)\<rparr>)"

definition delete_permissions :: "int \<Rightarrow> db \<Rightarrow> db" where
  "delete_permissions uid d =
     d\<lparr>user_permissions := (user_permissions d)\<lparr>rows :=
        filter (\<lambda>r. perm_user_id r \<noteq> uid) (rows (user_permissions d))\<rparr>\<rparr>"

definition create_user ::
  "string \<Rightarrow> string \<Rightarrow> string \<Rightarrow> string \<Rightarrow> string \<Rightarrow> string \<Rightarrow> bool \<Rightarrow> db \<Rightarrow> UserRecord result \<times> db" where
  "create_user now_iso name pw_hash slt mail rl active d =
     (if list_ex (\<lambda>u. username u = name) (rows (users d)) then (Inl IntegrityError, d)
      else
        (let d1 = d\<lparr>users := table_insert (\<lambda>i. \<lparr>user_id = i, username = name, password_hash = pw_hash,
                     salt = slt, email = mail, role = rl, is_active = active, created_at = now_iso,
                     last_login = None\<rparr>) (users d)\<rparr>;
             new_id = seq (users d1);
             d2 = foldl (insert_permission new_id) d1 (default_perms rl)
         in case get_user_by_id d2 new_id of
              Some u \<Rightarrow> (Inr u, d2)
            | None \<Rightarrow> (Inl (RuntimeError ''Failed to retrieve user immediately after creation''), d2)))"

definition coalesce :: "'a option \<Rightarrow> 'a \<Rightarrow> 'a" where
  "coalesce new old = (case new of None \<Rightarrow> old | Some v \<Rightarrow> v)"

definition map_user :: "int \<Rightarrow> (UserRecord \<Rightarrow> UserRecord) \<Rightarrow> db \<Rightarrow> db" where
  "map_user uid f d =
     d\<lparr>users := (users d)\<lparr>rows := map (\<lambda>u. if user_id u = uid then f u else u) (rows (users d))\<rparr>\<rparr>"

definition update_user ::
  "int \<Rightarrow> string option \<Rightarrow> string option \<Rightarrow> bool option \<Rightarrow> string option \<Rightarrow> string option \<Rightarrow> db \<Rightarrow>
     UserRecord option \<times> db" where
  "update_user uid mail rl active pw_hash slt d =
     (case get_user_by_id d uid of
        None \<Rightarrow> (None, d)
      | Some existing \<Rightarrow>
          (let d1 = map_user uid (\<lambda>u. u\<lparr>email := coalesce mail (email u), role := coalesce rl (role u),
                      is_active := coalesce active (is_active u),
                      password_hash := coalesce pw_hash (password_hash u), salt := coalesce slt (salt u)\<rparr>) d;
               d2 = (case rl of
                       None \<Rightarrow> d1
                     | Some r \<Rightarrow>
                         if r \<noteq> role existing
                         then foldl (insert_permission uid) (delete_permissions uid d1) (default_perms r)
                         else d1)
           in (get_user_by_id d2 uid, d2)))"

definition delete_user :: "int \<Rightarrow> db \<Rightarrow> bool \<times> db" where
  "delete_user uid d =
     (list_ex (\<lambda>u. user_id u = uid) (rows (users d)),
      delete_permissions uid
        (d\<lparr>users := (users d)\<lparr>rows := filter (\<lambda>u. user_id u \<noteq> uid) (rows (users d))\<rparr>\<rparr>))"

definition update_user_last_login :: "int \<Rightarrow> string \<Rightarrow> db \<Rightarrow> db" where
  "update_user_last_login uid ts d = map_user uid (\<lambda>u. u\<lparr>last_login := Some ts\<rparr>) d"

definition get_user_permissions :: "db \<Rightarrow> int \<Rightarrow> string list" where
  "get_user_permissions d uid =
     sort (map permission (filter (\<lambda>r. perm_user_id r = uid) (rows (user_permissions d))))"

text \<open>The permissions are inserted in the order of a set, which the sorted read hides; here
  in the order of the list without repetitions. The foreign key refuses an unknown user.\<close>

definition set_user_permissions :: "int \<Rightarrow> string list \<Rightarrow> db \<Rightarrow> unit result \<times> db" where
  "set_user_permissions uid perms d =
     (let d1 = delete_permissions uid d
      in if perms \<noteq> [] \<and> \<not> list_ex (\<lambda>u. user_id u = uid) (rows (users d)) then (Inl IntegrityError, d1)
         else (Inr (), foldl (insert_permission uid) d1 (remdups perms)))"

subsection \<open>Audit trail\<close>

definition record_login_audit ::
  "string \<Rightarrow> string \<Rightarrow> string \<Rightarrow> string \<Rightarrow> string \<Rightarrow> string \<Rightarrow> db \<Rightarrow> LoginAuditRecord \<times> db" where
  "record_login_audit now_iso name ip agent st reason d =
     (let mk = (\<lambda>i. \<lparr>audit_id = i, audit_username = name, audit_timestamp = now_iso, ip_address = ip,
                     user_agent = agent, audit_status = st, failure_reason = reason\<rparr>)
      in (mk (seq (login_audit d) + 1), d\<lparr>login_audit := table_insert mk (login_audit d)\<rparr>))"

definition list_login_audits :: "int \<Rightarrow> int \<Rightarrow> db \<Rightarrow> LoginAuditRecord list" where
  "list_login_audits limit offset d = paginate limit offset (rev (rows (login_audit d)))"

subsection \<open>Feedback\<close>

definition create_feedback ::
  "string \<Rightarrow> string \<Rightarrow> string \<Rightarrow> string \<Rightarrow> string \<Rightarrow> string \<Rightarrow> int option \<Rightarrow> db \<Rightarrow> FeedbackRecord \<times> db" where
  "create_feedback now_iso cat ttl desc meta submitter issue d =
     (let mk = (\<lambda>i. \<lparr>feedback_id = i, category = cat, title = ttl, description = desc, metadata_json = meta,
                     submitted_by = submitter, feedback_status = ''OPEN'', github_issue_number = issue,
                     feedback_created_at = now_iso\<rparr>)
      in (mk (seq (feedback_submissions d) + 1),
          d\<lparr>feedback_submissions := table_insert mk (feedback_submissions d)\<rparr>))"

text \<open>An issue number 0 reads as no issue.\<close>

definition row_to_feedback :: "FeedbackRecord \<Rightarrow> FeedbackRecord" where
  "row_to_feedback r = r\<lparr>github_issue_number := (case github_issue_number r of
     None \<Rightarrow> None | Some n \<Rightarrow> if n = 0 then None else Some n)\<rparr>"

definition opt_matches :: "string option \<Rightarrow> string \<Rightarrow> bool" where
  "opt_matches flt v \<longleftrightarrow> flt = None \<or> flt = Some v"

definition list_feedbacks ::
  "int \<Rightarrow> int \<Rightarrow> string option \<Rightarrow> string option \<Rightarrow> string option \<Rightarrow> db \<Rightarrow> FeedbackRecord list" where
  "list_feedbacks limit offset submitter cat st d =
     map row_to_feedback (paginate limit offset
       (rev (filter (\<lambda>r. opt_matches submitter (submitted_by r) \<and> opt_matches cat (category r) \<and>
                          opt_matches st (feedback_status r)) (rows (feedback_submissions d)))))"

definition get_feedback :: "db \<Rightarrow> int \<Rightarrow> FeedbackRecord option" where
  "get_feedback d i = map_option row_to_feedback (find (\<lambda>r. feedback_id r = i) (rows (feedback_submissions d)))"

definition update_feedback_status ::
  "int \<Rightarrow> string \<Rightarrow> int option \<Rightarrow> db \<Rightarrow> FeedbackRecord option \<times> db" where
  "update_feedback_status i st issue d =
     (let upd = (\<lambda>r. if feedback_id r = i
                     then (case issue of
                             Some n \<Rightarrow> r\<lparr>feedback_status := st, github_issue_number := Some n\<rparr>
                           | None \<Rightarrow> r\<lparr>feedback_status := st\<rparr>)
                     else r);
          d1 = d\<lparr>feedback_submissions := (feedback_submissions d)\<lparr>rows :=
                   map upd (rows (feedback_submissions d))\<rparr>\<rparr>
      in (get_feedback d1 i, d1))"

subsection \<open>Metadata\<close>

definition get_meta :: "db \<Rightarrow> string \<Rightarrow> string option" where
  "get_meta d k = dict_get (system_metadata d) k"

definition set_meta :: "string \<Rightarrow> string \<Rightarrow> db \<Rightarrow> db" where
  "set_meta k v d = d\<lparr>system_metadata := dict_set k v (system_metadata d)\<rparr>"

subsection \<open>The invariant of the schema\<close>

definition db_inv :: "db \<Rightarrow> bool" where
  "db_inv d \<longleftrightarrow>
     table_ok user_id (users d) \<and> table_ok perm_id (user_permissions d) \<and>
     table_ok audit_id (login_audit d) \<and> table_ok feedback_id (feedback_submissions d) \<and>
     distinct (map username (rows (users d))) \<and>
     distinct (map (\<lambda>r. (perm_user_id r, permission r)) (rows (user_permissions d))) \<and>
     set (map perm_user_id (rows (user_permissions d))) \<subseteq> set (map user_id (rows (users d))) \<and>
     wf_dict (system_metadata d)"


subsection \<open>Tables keep their keys\<close>

lemma table_ok_empty [db_simps]: "table_ok key empty_table"
  by (simp add: table_ok_def empty_table_def)

lemma table_ok_insert [db_simps]:
  assumes "table_ok key t" and "\<And>i. key (mk i) = i"
  shows "table_ok key (table_insert mk t)"
  using assms by (auto simp: table_ok_def table_insert_def sorted_wrt_append list_all_iff)

lemma sorted_wrt_filter_map:
  "sorted_wrt R (map key xs) \<Longrightarrow> sorted_wrt R (map key (filter P xs))"
  by (induction xs) auto

lemma table_ok_filter [db_simps]:
  "table_ok key t \<Longrightarrow> table_ok key (t\<lparr>rows := filter P (rows t)\<rparr>)"
  by (auto simp: table_ok_def list_all_iff sorted_wrt_filter_map)

lemma table_ok_map [db_simps]:
  assumes "table_ok key t" and "\<And>r. key (f r) = key r"
  shows "table_ok key (t\<lparr>rows := map f (rows t)\<rparr>)"
  using assms by (simp add: table_ok_def list_all_iff comp_def)

lemma table_ok_distinct: "table_ok key t \<Longrightarrow> distinct (map key (rows t))"
  by (simp add: table_ok_def strict_sorted_iff)

lemma table_ok_fresh: "table_ok key t \<Longrightarrow> r \<in> set (rows t) \<Longrightarrow> key r \<noteq> seq t + 1"
  by (auto simp: table_ok_def list_all_iff)

lemma find_Some_in: "find P xs = Some x \<Longrightarrow> x \<in> set xs \<and> P x"
  by (induction xs) (auto split: if_splits)

lemma find_append: "find P (xs @ ys) = (case find P xs of None \<Rightarrow> find P ys | Some x \<Rightarrow> Some x)"
  by (induction xs) auto

lemma find_map_key:
  assumes "\<And>x. P (f x) = P x"
  shows "find P (map f xs) = map_option f (find P xs)"
  using assms by (induction xs) auto

lemma find_filter_other:
  "(\<And>x. P x \<Longrightarrow> Q x) \<Longrightarrow> find P (filter Q xs) = find P xs"
  by (induction xs) auto

lemma find_key_distinct:
  assumes "distinct (map key xs)" and "x \<in> set xs"
  shows "find (\<lambda>y. key y = key x) xs = Some x"
  using assms by (induction xs) auto

subsection \<open>Permission rows\<close>

definition perm_pairs :: "db \<Rightarrow> (int \<times> string) set" where
  "perm_pairs d = (\<lambda>r. (perm_user_id r, permission r)) ` set (rows (user_permissions d))"

lemma insert_permission_frame [db_simps]:
  "users (insert_permission uid d p) = users d"
  "login_audit (insert_permission uid d p) = login_audit d"
  "feedback_submissions (insert_permission uid d p) = feedback_submissions d"
  "system_metadata (insert_permission uid d p) = system_metadata d"
  by (simp_all add: insert_permission_def)

lemma insert_permission_pairs:
  "perm_pairs (insert_permission uid d p) = insert (uid, p) (perm_pairs d)"
  by (auto simp: insert_permission_def perm_pairs_def table_insert_def list_ex_iff image_iff)

lemma insert_permission_inv:
  assumes "db_inv d" and "uid \<in> user_id ` set (rows (users d))"
  shows "db_inv (insert_permission uid d p)"
  using assms
  by (auto simp: db_inv_def insert_permission_def table_ok_insert)
     (auto simp: table_insert_def list_ex_iff)

lemma insert_permissions_frame [db_simps]:
  "users (foldl (insert_permission uid) d ps) = users d"
  "login_audit (foldl (insert_permission uid) d ps) = login_audit d"
  "feedback_submissions (foldl (insert_permission uid) d ps) = feedback_submissions d"
  "system_metadata (foldl (insert_permission uid) d ps) = system_metadata d"
  by (induction ps arbitrary: d) (simp_all add: insert_permission_frame)

lemma insert_permissions_pairs:
  "perm_pairs (foldl (insert_permission uid) d ps) = {uid} \<times> set ps \<union> perm_pairs d"
  by (induction ps arbitrary: d) (auto simp: insert_permission_pairs)

lemma insert_permissions_inv:
  assumes "db_inv d" and "uid \<in> user_id ` set (rows (users d))"
  shows "db_inv (foldl (insert_permission uid) d ps)"
  using assms
  by (induction ps arbitrary: d) (simp_all add: insert_permission_inv insert_permission_frame)

lemma delete_permissions_frame [db_simps]:
  "users (delete_permissions uid d) = users d"
  "login_audit (delete_permissions uid d) = login_audit d"
  "feedback_submissions (delete_permissions uid d) = feedback_submissions d"
  "system_metadata (delete_permissions uid d) = system_metadata d"
  by (simp_all add: delete_permissions_def)

lemma delete_permissions_pairs:
  "perm_pairs (delete_permissions uid d) = Set.filter (\<lambda>q. fst q \<noteq> uid) (perm_pairs d)"
proof -
  have "(\<lambda>r. (perm_user_id r, permission r)) ` {r \<in> R. perm_user_id r \<noteq> uid} =
        Set.filter (\<lambda>q. fst q \<noteq> uid) ((\<lambda>r. (perm_user_id r, permission r)) ` R)" for R
    by fastforce
  then show ?thesis
    by (simp add: delete_permissions_def perm_pairs_def)
qed

lemma delete_permissions_inv:
  "db_inv d \<Longrightarrow> db_inv (delete_permissions uid d)"
  by (auto simp: db_inv_def delete_permissions_def table_ok_filter distinct_map_filter)

lemma set_get_user_permissions:
  "set (get_user_permissions d uid) = {p. (uid, p) \<in> perm_pairs d}"
  by (auto simp: get_user_permissions_def perm_pairs_def image_iff)

lemma distinct_get_user_permissions:
  assumes "db_inv d"
  shows "distinct (get_user_permissions d uid)"
proof -
  have "distinct (map (\<lambda>r. (perm_user_id r, permission r)) rs) \<Longrightarrow>
        distinct (map permission (filter (\<lambda>r. perm_user_id r = uid) rs))" for rs
    by (induction rs) (auto simp: image_iff)
  then show ?thesis
    using assms unfolding get_user_permissions_def db_inv_def distinct_sort by blast
qed

lemma sort_get_user_permissions [simp]: "sort (get_user_permissions d uid) = get_user_permissions d uid"
  by (simp add: get_user_permissions_def sorted_sort_id)

lemma get_user_permissions_eqI:
  assumes "db_inv d" and "{p. (uid, p) \<in> perm_pairs d} = set ps"
  shows "get_user_permissions d uid = sort (remdups ps)"
proof (rule sorted_distinct_set_unique)
  show "sorted (get_user_permissions d uid)"
    by (simp add: get_user_permissions_def)
  show "distinct (get_user_permissions d uid)"
    by (rule distinct_get_user_permissions [OF assms(1)])
  show "set (get_user_permissions d uid) = set (sort (remdups ps))"
    using assms(2) by (simp add: set_get_user_permissions)
qed simp_all

subsection \<open>Creating users\<close>

lemma default_perms_cases:
  "default_perms r = (if r = ''admin'' then ALL_PERMISSIONS
     else if r = ''operator'' then
       [''server:reboot'', ''server:settings'', ''player:kick'', ''player:ban'', ''player:broadcast'',
        ''logs:view'', ''feedback:submit'', ''system:update'']
     else if r = ''viewer'' then [''logs:view'', ''feedback:submit''] else [])"
  by (simp add: default_perms_def DEFAULT_ROLE_PERMISSIONS_def)

lemma distinct_default_perms: "distinct (default_perms r)"
  by (simp add: default_perms_cases ALL_PERMISSIONS_def)

lemma db_inv_perm_owner:
  "db_inv d \<Longrightarrow> (uid, p) \<in> perm_pairs d \<Longrightarrow> uid \<in> user_id ` set (rows (users d))"
  by (force simp: db_inv_def perm_pairs_def)

lemma db_inv_users_insert:
  assumes "db_inv d" and "\<not> list_ex (\<lambda>u. username u = username (mk 0)) (rows (users d))"
    and "\<And>i. user_id (mk i) = i" and "\<And>i. username (mk i) = username (mk 0)"
  shows "db_inv (d\<lparr>users := table_insert mk (users d)\<rparr>)"
proof -
  have "table_ok user_id (table_insert mk (users d))"
    using assms(1,3) by (simp add: db_inv_def table_ok_insert)
  moreover have "distinct (map username (rows (table_insert mk (users d))))"
    using assms(1,2) assms(4) [of "seq (users d) + 1"]
    by (auto simp: db_inv_def table_insert_def list_ex_iff)
  moreover have "set (map perm_user_id (rows (user_permissions d))) \<subseteq>
      set (map user_id (rows (table_insert mk (users d))))"
    using assms(1) by (auto simp: db_inv_def table_insert_def)
  ultimately show ?thesis
    using assms(1) by (simp add: db_inv_def)
qed

text \<open>What \<open>create_user\<close> does on a name that is free and on one that is taken.\<close>

definition new_user ::
  "string \<Rightarrow> string \<Rightarrow> string \<Rightarrow> string \<Rightarrow> string \<Rightarrow> string \<Rightarrow> bool \<Rightarrow> int \<Rightarrow> UserRecord" where
  "new_user now_iso name pw_hash slt mail rl active i =
     \<lparr>user_id = i, username = name, password_hash = pw_hash, salt = slt, email = mail, role = rl,
      is_active = active, created_at = now_iso, last_login = None\<rparr>"

lemma row_to_user_new [simp]:
  "row_to_user (new_user t n h s m r a i) = new_user t n h s m r a i"
  by (simp add: row_to_user_def new_user_def)

lemma new_user_sel [simp]:
  "user_id (new_user t n h s m r a i) = i" "username (new_user t n h s m r a i) = n"
  "role (new_user t n h s m r a i) = r" "is_active (new_user t n h s m r a i) = a"
  "password_hash (new_user t n h s m r a i) = h" "salt (new_user t n h s m r a i) = s"
  by (simp_all add: new_user_def)

lemma create_user_taken:
  "get_user_by_username d n \<noteq> None \<Longrightarrow> create_user t n h s m r a d = (Inl IntegrityError, d)"
  by (auto simp: create_user_def get_user_by_username_def list_ex_iff dest: find_Some_in)

lemma find_fresh_id:
  "table_ok key t \<Longrightarrow> find (\<lambda>r. key r = seq t + 1) (rows t) = None"
  by (auto simp: find_None_iff dest: table_ok_fresh)

lemma create_user_free:
  assumes "db_inv d" and "get_user_by_username d n = None"
  defines "i \<equiv> seq (users d) + 1"
  shows "create_user t n h s m r a d =
    (Inr (new_user t n h s m r a i),
     foldl (insert_permission i) (d\<lparr>users := table_insert (new_user t n h s m r a) (users d)\<rparr>) (default_perms r))"
proof -
  have free: "\<not> list_ex (\<lambda>u. username u = n) (rows (users d))"
    using assms(2) by (auto simp: get_user_by_username_def find_None_iff list_ex_iff)
  have mk: "(\<lambda>i. \<lparr>user_id = i, username = n, password_hash = h, salt = s, email = m, role = r,
      is_active = a, created_at = t, last_login = None\<rparr>) = new_user t n h s m r a"
    by (simp add: new_user_def fun_eq_iff)
  have "find (\<lambda>u. user_id u = i) (rows (users d)) = None"
    using assms(1) by (simp add: i_def db_inv_def find_fresh_id)
  then have "find (\<lambda>u. user_id u = i) (rows (table_insert (new_user t n h s m r a) (users d))) =
      Some (new_user t n h s m r a i)"
    by (simp add: table_insert_def find_append i_def)
  then show ?thesis
    using free unfolding create_user_def mk
    by (simp add: Let_def get_user_by_id_def db_simps table_insert_def i_def)
qed

lemma create_user_inv:
  assumes "db_inv d" and "create_user t n h s m r a d = (res, d')"
  shows "db_inv d'"
proof (cases "get_user_by_username d n")
  case None
  let ?d1 = "d\<lparr>users := table_insert (new_user t n h s m r a) (users d)\<rparr>"
  have "\<not> list_ex (\<lambda>u. username u = n) (rows (users d))"
    using None by (auto simp: get_user_by_username_def find_None_iff list_ex_iff)
  then have "db_inv ?d1"
    using assms(1) by (intro db_inv_users_insert) simp_all
  moreover have "seq (users d) + 1 \<in> user_id ` set (rows (users ?d1))"
    by (simp add: table_insert_def)
  ultimately show ?thesis
    using create_user_free [OF assms(1) None] assms(2) insert_permissions_inv by auto
qed (use assms create_user_taken in auto)

lemma create_user_permissions:
  assumes "db_inv d" and "get_user_by_username d n = None"
    and "create_user t n h s m r a d = (Inr u, d')"
  shows "get_user_permissions d' (user_id u) = sort (default_perms r)"
proof -
  let ?i = "seq (users d) + 1"
  have eq: "u = new_user t n h s m r a ?i"
    "d' = foldl (insert_permission ?i) (d\<lparr>users := table_insert (new_user t n h s m r a) (users d)\<rparr>) (default_perms r)"
    using assms(3) create_user_free [OF assms(1,2), of t h s m r a] by auto
  have "(?i, p) \<notin> perm_pairs d" for p
    using db_inv_perm_owner [OF assms(1), of ?i p] table_ok_fresh [of user_id "users d"] assms(1)
    unfolding db_inv_def by (metis (no_types, lifting) imageE)
  then have "{p. (?i, p) \<in> perm_pairs d'} = set (default_perms r)"
    unfolding eq(2) insert_permissions_pairs by (auto simp: perm_pairs_def)
  then show ?thesis
    using get_user_permissions_eqI [OF create_user_inv [OF assms(1,3)]] distinct_default_perms [of r]
    by (simp add: eq(1) distinct_remdups_id)
qed


subsection \<open>Changing and deleting users\<close>

lemma get_user_by_id_SomeD:
  "get_user_by_id d i = Some u \<Longrightarrow> \<exists>r \<in> set (rows (users d)). user_id r = i \<and> u = row_to_user r"
  by (auto simp: get_user_by_id_def dest: find_Some_in)

lemma get_user_by_id_None_iff:
  "get_user_by_id d i = None \<longleftrightarrow> i \<notin> user_id ` set (rows (users d))"
  by (auto simp: get_user_by_id_def find_None_iff)

lemma row_to_user_sel [simp]:
  "user_id (row_to_user u) = user_id u" "username (row_to_user u) = username u"
  "role (row_to_user u) = role u" "is_active (row_to_user u) = is_active u"
  "password_hash (row_to_user u) = password_hash u" "salt (row_to_user u) = salt u"
  "email (row_to_user u) = email u" "created_at (row_to_user u) = created_at u"
  by (simp_all add: row_to_user_def)

lemma is_active_admin_row [simp]: "is_active_admin (row_to_user u) = is_active_admin u"
  by (simp add: is_active_admin_def)

lemma map_user_frame [db_simps]:
  "user_permissions (map_user uid f d) = user_permissions d"
  "login_audit (map_user uid f d) = login_audit d"
  "feedback_submissions (map_user uid f d) = feedback_submissions d"
  "system_metadata (map_user uid f d) = system_metadata d"
  "rows (users (map_user uid f d)) = map (\<lambda>u. if user_id u = uid then f u else u) (rows (users d))"
  by (simp_all add: map_user_def)

lemma map_user_inv:
  assumes "db_inv d" and f: "\<And>u. user_id (f u) = user_id u" "\<And>u. username (f u) = username u"
  shows "db_inv (map_user uid f d)"
proof -
  let ?g = "\<lambda>u. if user_id u = uid then f u else u"
  have "table_ok user_id (users (map_user uid f d))"
    using assms by (simp add: map_user_def db_inv_def table_ok_map)
  moreover have "map username (map ?g (rows (users d))) = map username (rows (users d))"
    "map user_id (map ?g (rows (users d))) = map user_id (rows (users d))"
    using f by simp_all
  ultimately show ?thesis
    using assms(1) unfolding db_inv_def map_user_frame by metis
qed

lemma map_user_ids:
  assumes "\<And>u. user_id (f u) = user_id u"
  shows "user_id ` set (rows (users (map_user uid f d))) = user_id ` set (rows (users d))"
proof -
  have "map user_id (rows (users (map_user uid f d))) = map user_id (rows (users d))"
    using assms by (simp add: map_user_frame)
  then show ?thesis
    by (metis list.set_map)
qed

lemma get_user_by_id_map_user:
  assumes "\<And>u. user_id (f u) = user_id u"
  shows "get_user_by_id (map_user uid f d) i =
    map_option (\<lambda>r. row_to_user (if i = uid then f r else r)) (find (\<lambda>u. user_id u = i) (rows (users d)))"
proof -
  have "find (\<lambda>u. user_id u = i) (map (\<lambda>u. if user_id u = uid then f u else u) xs) =
    map_option (\<lambda>r. if i = uid then f r else r) (find (\<lambda>u. user_id u = i) xs)" for xs
    using assms by (induction xs) auto
  then show ?thesis
    by (simp add: get_user_by_id_def map_user_frame option.map_comp comp_def)
qed

lemma foldl_perms_users [simp]:
  "get_user_by_id (foldl (insert_permission uid) d ps) i = get_user_by_id d i"
  "get_user_by_id (delete_permissions uid d) i = get_user_by_id d i"
  by (simp_all add: get_user_by_id_def db_simps)

text \<open>The new field values of an update.\<close>

definition updated_user ::
  "string option \<Rightarrow> string option \<Rightarrow> bool option \<Rightarrow> string option \<Rightarrow> string option \<Rightarrow> UserRecord \<Rightarrow> UserRecord" where
  "updated_user mail rl active pw_hash slt u =
     u\<lparr>email := coalesce mail (email u), role := coalesce rl (role u),
       is_active := coalesce active (is_active u),
       password_hash := coalesce pw_hash (password_hash u), salt := coalesce slt (salt u)\<rparr>"

lemma updated_user_sel [simp]:
  "user_id (updated_user m r a h s u) = user_id u" "username (updated_user m r a h s u) = username u"
  "role (updated_user m r a h s u) = coalesce r (role u)"
  "is_active (updated_user m r a h s u) = coalesce a (is_active u)"
  by (simp_all add: updated_user_def)

lemma update_user_unfold:
  "update_user uid m r a h s d =
     (case get_user_by_id d uid of
        None \<Rightarrow> (None, d)
      | Some existing \<Rightarrow>
          (let d1 = map_user uid (updated_user m r a h s) d;
               d2 = (if r \<noteq> None \<and> the r \<noteq> role existing
                     then foldl (insert_permission uid) (delete_permissions uid d1) (default_perms (the r))
                     else d1)
           in (get_user_by_id d1 uid, d2)))"
proof -
  have u: "(\<lambda>u. u\<lparr>email := coalesce m (email u), role := coalesce r (role u),
      is_active := coalesce a (is_active u), password_hash := coalesce h (password_hash u),
      salt := coalesce s (salt u)\<rparr>) = updated_user m r a h s"
    by (simp add: updated_user_def fun_eq_iff)
  show ?thesis
    unfolding update_user_def u by (simp add: Let_def split: option.split)
qed

lemma update_user_result:
  assumes "get_user_by_id d uid = Some u" and "update_user uid m r a h s d = (res, d')"
  shows "res = Some (updated_user m r a h s u)"
proof -
  obtain x where x: "find (\<lambda>u. user_id u = uid) (rows (users d)) = Some x" "u = row_to_user x"
    using assms(1) by (auto simp: get_user_by_id_def)
  have "row_to_user (updated_user m r a h s x) = updated_user m r a h s (row_to_user x)"
    by (simp add: row_to_user_def updated_user_def)
  then show ?thesis
    using assms x by (simp add: update_user_unfold Let_def get_user_by_id_map_user)
qed

lemma update_user_users:
  assumes "get_user_by_id d uid = Some u" and "update_user uid m r a h s d = (res, d')"
  shows "users d' = users (map_user uid (updated_user m r a h s) d)"
  using assms by (auto simp: update_user_unfold Let_def db_simps)

lemma update_user_inv:
  assumes "db_inv d" and "update_user uid m r a h s d = (res, d')"
  shows "db_inv d'"
proof (cases "get_user_by_id d uid")
  case (Some u)
  let ?d1 = "map_user uid (updated_user m r a h s) d"
  have inv: "db_inv ?d1"
    using assms(1) by (intro map_user_inv) simp_all
  have "uid \<in> user_id ` set (rows (users ?d1))"
    using Some get_user_by_id_None_iff [of d uid] by (simp add: map_user_ids)
  then have "db_inv (foldl (insert_permission uid) (delete_permissions uid ?d1) ps)" for ps
    using inv by (intro insert_permissions_inv delete_permissions_inv) (simp_all add: db_simps)
  then show ?thesis
    using assms(2) Some inv by (auto simp: update_user_unfold Let_def split: if_splits)
qed (use assms in \<open>simp add: update_user_def\<close>)

lemma update_user_permissions:
  assumes "db_inv d" and "get_user_by_id d uid = Some u" and "update_user uid m r a h s d = (res, d')"
  shows "get_user_permissions d' i =
    (if i = uid \<and> r \<noteq> None \<and> the r \<noteq> role u then sort (default_perms (the r)) else get_user_permissions d i)"
proof -
  let ?d1 = "map_user uid (updated_user m r a h s) d"
  let ?d2 = "foldl (insert_permission uid) (delete_permissions uid ?d1) (default_perms (the r))"
  have p1: "perm_pairs ?d1 = perm_pairs d"
    by (simp add: perm_pairs_def map_user_frame)
  have inv: "db_inv d'"
    by (rule update_user_inv [OF assms(1,3)])
  show ?thesis
  proof (cases "r \<noteq> None \<and> the r \<noteq> role u")
    case True
    then have d': "d' = ?d2"
      using assms(2,3) by (simp add: update_user_unfold Let_def)
    have pairs: "{p. (i, p) \<in> perm_pairs d'} = set (if i = uid then default_perms (the r) else get_user_permissions d i)"
      unfolding d' insert_permissions_pairs delete_permissions_pairs p1
      by (auto simp: set_get_user_permissions)
    then show ?thesis
      using get_user_permissions_eqI [OF inv pairs] True
      by (simp add: distinct_remdups_id distinct_default_perms distinct_get_user_permissions [OF assms(1)]
          split: if_splits)
  next
    case False
    then have "d' = ?d1"
      using assms(2,3) by (auto simp: update_user_unfold Let_def)
    then show ?thesis
      using False by (auto simp: get_user_permissions_def map_user_frame)
  qed
qed


lemma delete_user_inv:
  assumes "db_inv d"
  shows "db_inv (snd (delete_user uid d))"
proof -
  let ?us = "filter (\<lambda>u. user_id u \<noteq> uid) (rows (users d))"
  let ?ps = "filter (\<lambda>r. perm_user_id r \<noteq> uid) (rows (user_permissions d))"
  have "set (map perm_user_id ?ps) \<subseteq> set (map user_id ?us)"
    using assms by (fastforce simp: db_inv_def)
  moreover have "distinct (map username ?us)" "distinct (map (\<lambda>r. (perm_user_id r, permission r)) ?ps)"
    using assms by (simp_all add: db_inv_def distinct_map_filter)
  ultimately show ?thesis
    using assms
    by (simp add: delete_user_def db_inv_def delete_permissions_def table_ok_filter del: set_map set_filter)
qed

lemma find_filter_ne:
  "find (\<lambda>u. key u = i) (filter (\<lambda>u. key u \<noteq> j) xs) = (if i = j then None else find (\<lambda>u. key u = i) xs)"
  by (induction xs) auto

lemma delete_user_lookup:
  "get_user_by_id (snd (delete_user uid d)) i = (if i = uid then None else get_user_by_id d i)"
  by (simp add: delete_user_def get_user_by_id_def db_simps find_filter_ne)

lemma delete_user_permissions:
  "get_user_permissions (snd (delete_user uid d)) i = (if i = uid then [] else get_user_permissions d i)"
proof -
  have "i \<noteq> uid \<Longrightarrow> filter (\<lambda>x. perm_user_id x \<noteq> uid \<and> perm_user_id x = i) xs =
      filter (\<lambda>x. perm_user_id x = i) xs" for xs :: "UserPermissionRecord list"
    by (rule filter_cong) auto
  then show ?thesis
    by (simp add: delete_user_def get_user_permissions_def delete_permissions_def)
qed

lemma fst_delete_user: "fst (delete_user uid d) \<longleftrightarrow> get_user_by_id d uid \<noteq> None"
  by (auto simp: delete_user_def get_user_by_id_None_iff list_ex_iff image_iff)

lemma set_user_permissions_ok:
  assumes "get_user_by_id d uid \<noteq> None"
  shows "set_user_permissions uid ps d =
    (Inr (), foldl (insert_permission uid) (delete_permissions uid d) (remdups ps))"
proof -
  have "list_ex (\<lambda>u. user_id u = uid) (rows (users d))"
    using assms by (auto simp: get_user_by_id_None_iff list_ex_iff)
  then show ?thesis
    by (simp add: set_user_permissions_def)
qed

lemma set_user_permissions_inv:
  assumes "db_inv d"
  shows "db_inv (snd (set_user_permissions uid ps d))"
proof (cases "get_user_by_id d uid = None")
  case True
  then have "\<not> list_ex (\<lambda>u. user_id u = uid) (rows (users d))"
    by (auto simp: get_user_by_id_None_iff list_ex_iff)
  then show ?thesis
    using assms by (auto simp: set_user_permissions_def Let_def delete_permissions_inv)
next
  case False
  then show ?thesis
    using assms get_user_by_id_None_iff [of d uid]
    by (simp add: set_user_permissions_ok insert_permissions_inv delete_permissions_inv delete_permissions_frame)
qed

lemma set_user_permissions_read:
  assumes "db_inv d" and "get_user_by_id d uid \<noteq> None"
  shows "get_user_permissions (snd (set_user_permissions uid ps d)) uid = sort (remdups ps)"
proof (rule get_user_permissions_eqI)
  show "db_inv (snd (set_user_permissions uid ps d))"
    by (rule set_user_permissions_inv [OF assms(1)])
  show "{p. (uid, p) \<in> perm_pairs (snd (set_user_permissions uid ps d))} = set ps"
    by (auto simp: set_user_permissions_ok [OF assms(2)] insert_permissions_pairs delete_permissions_pairs)
qed

lemma set_user_permissions_users [simp]:
  "users (snd (set_user_permissions uid ps d)) = users d"
  by (simp add: set_user_permissions_def Let_def db_simps)

lemma update_user_last_login_inv: "db_inv d \<Longrightarrow> db_inv (update_user_last_login uid ts d)"
  by (simp add: update_user_last_login_def map_user_inv)

lemma record_login_audit_inv: "db_inv d \<Longrightarrow> db_inv (snd (record_login_audit t n ip ag st rs d))"
  by (simp add: record_login_audit_def db_inv_def table_ok_insert)

lemma create_feedback_inv: "db_inv d \<Longrightarrow> db_inv (snd (create_feedback t c ti de me su is d))"
  by (simp add: create_feedback_def db_inv_def table_ok_insert)

lemma update_feedback_status_inv: "db_inv d \<Longrightarrow> db_inv (snd (update_feedback_status i st iss d))"
  by (auto simp: update_feedback_status_def db_inv_def Let_def split: option.split intro!: table_ok_map)

lemma set_meta_inv: "db_inv d \<Longrightarrow> db_inv (set_meta k v d)"
  by (simp add: set_meta_def db_inv_def wf_dict_set)

lemma empty_db_inv: "db_inv empty_db"
  by (simp add: db_inv_def empty_db_def table_ok_empty) (simp add: empty_table_def wf_dict_def)

subsection \<open>Correctness of the store\<close>

text \<open>Creating a user under a free name succeeds, keeps the invariant of the schema, gives the
  new row an identifier no row ever had, grants exactly the default permissions of the role, and
  leaves every other row readable as before.\<close>

theorem create_user_correct:
  assumes "db_inv d" "get_user_by_username d n = None"
  shows "\<exists>u d'. create_user t n h s m r a d = (Inr u, d') \<and> db_inv d' \<and> user_id u = seq (users d) + 1 \<and>
    get_user_by_id d (user_id u) = None \<and> get_user_by_id d' (user_id u) = Some u \<and>
    username u = n \<and> role u = r \<and> is_active u = a \<and>
    get_user_permissions d' (user_id u) = sort (default_perms r) \<and>
    rows (users d') = rows (users d) @ [u]"
proof -
  let ?u = "new_user t n h s m r a (seq (users d) + 1)"
  obtain d' where c: "create_user t n h s m r a d = (Inr ?u, d')"
    using create_user_free [OF assms] by blast
  have d': "rows (users d') = rows (users d) @ [?u]"
    using create_user_free [OF assms, of t h s m r a] c
    by (auto simp: insert_permissions_frame table_insert_def)
  have none: "find (\<lambda>x. user_id x = seq (users d) + 1) (rows (users d)) = None"
    using assms(1) by (simp add: db_inv_def find_fresh_id)
  show ?thesis
    using c d' none create_user_inv [OF assms(1) c] create_user_permissions [OF assms c]
    by (intro exI [of _ ?u] exI [of _ d']) (simp add: get_user_by_id_def find_append)
qed

theorem create_user_correct_witness:
  "\<exists>u d'. create_user ''t'' ''bob'' ''h'' ''s'' [] ''viewer'' True empty_db = (Inr u, d') \<and>
     get_user_permissions d' (user_id u) = sort (default_perms ''viewer'')"
  using create_user_correct [OF empty_db_inv, of "''bob''" "''t''" "''h''" "''s''" "[]" "''viewer''" True]
  by (auto simp: get_user_by_username_def empty_db_def empty_table_def)

text \<open>An update changes only the fields that are given; it keeps the invariant; a change of role
  replaces all explicit permissions by the defaults of the new role, custom ones included, and no
  other update touches any permission.\<close>

theorem update_user_correct:
  assumes "db_inv d" "get_user_by_id d uid = Some u" "update_user uid m r a h s d = (res, d')"
  shows "res = Some (updated_user m r a h s u) \<and> db_inv d' \<and>
    get_user_permissions d' i =
      (if i = uid \<and> r \<noteq> None \<and> the r \<noteq> role u then sort (default_perms (the r)) else get_user_permissions d i)"
  using update_user_result [OF assms(2,3)] update_user_inv [OF assms(1,3)] update_user_permissions [OF assms]
  by simp

theorem update_user_correct_witness:
  "\<exists>d u res d'. get_user_by_id d 1 = Some u \<and> update_user 1 None (Some ''operator'') None None None d = (res, d') \<and>
     get_user_permissions d' 1 = sort (default_perms ''operator'')"
proof -
  have free: "get_user_by_username empty_db ''bob'' = None"
    by (simp add: get_user_by_username_def empty_db_def empty_table_def)
  let ?u = "new_user ''t'' ''bob'' [] [] [] ''viewer'' True 1"
  have one: "seq (users empty_db) + 1 = 1"
    by (simp add: empty_db_def empty_table_def)
  obtain d where c: "create_user ''t'' ''bob'' [] [] [] ''viewer'' True empty_db = (Inr ?u, d)"
    using create_user_free [OF empty_db_inv free] one by auto
  have l: "get_user_by_id d 1 = Some ?u"
    using create_user_free [OF empty_db_inv free, of "''t''" "[]" "[]" "[]" "''viewer''" True] c one
    by (auto simp: get_user_by_id_def insert_permissions_frame table_insert_def empty_db_def empty_table_def)
  obtain res d' where u: "update_user 1 None (Some ''operator'') None None None d = (res, d')"
    by fastforce
  show ?thesis
    using update_user_correct [OF create_user_inv [OF empty_db_inv c] l u, of 1] l u by fastforce
qed

end
