(* ===== verification/Atomic_IO.thy ===== *)
theory Atomic_IO
  imports Complex_Main Text_Codec "HOL-Library.Multiset"
    "HOL-Library.Char_ord" "HOL-Library.List_Lexorder" "HOL-Library.Product_Lexorder"
begin

section \<open>Atomic file replacement with rotating backups\<close>

text \<open>
  \<^verbatim>\<open>app/core/atomic_io.py\<close>. A path is a directory and a name; the disk is a dictionary
  from paths to files, and a world keeps the disk together with the sequence of disks that
  were observable after each mutating system call, so that statements about a crash at any
  point can be made. What the operating system decides is an environment: the random part of
  the temporary name, the time stamp and clocks, and which system calls fail with
  \<open>OSError\<close>. A file name is taken to contain no glob metacharacter, so the pattern
  \<open>{name}.bak.*\<close> matches the names that start with \<open>{name}.bak.\<close>.
\<close>

subsection \<open>Disk and environment\<close>

type_synonym path = "string \<times> string"

record file_entry =
  f_data :: string
  f_mode :: int
  f_mtime :: rat
  f_synced :: bool

type_synonym disk = "(path, file_entry) dict"

record world =
  files :: disk
  trace :: "disk list"
  dir_durable :: bool

record io_env =
  tmp_rand :: string
  stamp :: string
  now :: rat
  perf_start :: rat
  perf_end :: rat
  mkdir_fails :: bool
  mktemp_fails :: bool
  write_fails :: bool
  fsync_fails :: bool
  chmod_fails :: bool
  mode_stat_fails :: bool
  size_stat_fails :: bool
  copy_fails :: bool
  glob_fails :: bool
  replace_fails :: bool
  dir_open_fails :: bool
  dir_fsync_fails :: bool
  os_posix :: bool
  key_stat_fails :: "path \<Rightarrow> bool"
  unlink_fails :: "path \<Rightarrow> bool"

definition observe :: "disk \<Rightarrow> world \<Rightarrow> world" where
  "observe fs w = w\<lparr>files := fs, trace := trace w @ [fs], dir_durable := False\<rparr>"

definition put_file :: "path \<Rightarrow> file_entry \<Rightarrow> world \<Rightarrow> world" where
  "put_file p f w = observe (dict_set p f (files w)) w"

definition unlink_file :: "path \<Rightarrow> world \<Rightarrow> world" where
  "unlink_file p w = observe (dict_filter (\<lambda>q. q \<noteq> p) (files w)) w"

text \<open>\<open>os.replace\<close>: one step in which the destination gets the source's file and the source
  entry disappears.\<close>

definition replace_file :: "path \<Rightarrow> path \<Rightarrow> world \<Rightarrow> world" where
  "replace_file src dst w =
     (case dict_get (files w) src of
        None \<Rightarrow> w
      | Some f \<Rightarrow> observe (dict_set dst f (dict_filter (\<lambda>q. q \<noteq> src) (files w))) w)"

definition file_at :: "world \<Rightarrow> path \<Rightarrow> file_entry option" where
  "file_at w p = dict_get (files w) p"

subsection \<open>The operations\<close>

record AtomicWriteResult =
  target_path :: path
  bytes_written :: nat
  backup_path :: "path option"
  duration_ms :: rat

definition resolve_target_mode :: "io_env \<Rightarrow> world \<Rightarrow> path \<Rightarrow> int option \<Rightarrow> int" where
  "resolve_target_mode env w target explicit_mode =
     (case explicit_mode of
        Some m \<Rightarrow> m
      | None \<Rightarrow>
          (case file_at w target of
             Some f \<Rightarrow> if mode_stat_fails env then 420 else f_mode f mod 512
           | None \<Rightarrow> 420))"

definition backup_prefix :: "path \<Rightarrow> string" where
  "backup_prefix target = snd target @ ''.bak.''"

definition is_backup_of :: "path \<Rightarrow> path \<Rightarrow> bool" where
  "is_backup_of target p \<longleftrightarrow> fst p = fst target \<and> startswith (snd p) (backup_prefix target)"

definition backups :: "path \<Rightarrow> world \<Rightarrow> path list" where
  "backups target w = filter (is_backup_of target) (dict_keys (files w))"

definition backup_key :: "io_env \<Rightarrow> world \<Rightarrow> path \<Rightarrow> rat \<times> string" where
  "backup_key env w p =
     (case file_at w p of
        Some f \<Rightarrow> if key_stat_fails env p then (0, snd p) else (f_mtime f, snd p)
      | None \<Rightarrow> (0, snd p))"

definition try_unlink :: "io_env \<Rightarrow> world \<Rightarrow> path \<Rightarrow> world" where
  "try_unlink env w p = (if unlink_fails env p then w else unlink_file p w)"

definition prune_backups :: "io_env \<Rightarrow> path \<Rightarrow> int \<Rightarrow> world \<Rightarrow> world" where
  "prune_backups env target max_backups w =
     (if max_backups < 0 \<or> glob_fails env then w
      else (let candidates = sort_key (backup_key env w) (backups target w);
                excess = int (length candidates) - max_backups
            in if excess \<le> 0 then w
               else foldl (try_unlink env) w (take (nat excess) candidates)))"

definition backup_path_of :: "io_env \<Rightarrow> path \<Rightarrow> path" where
  "backup_path_of env target = (fst target, backup_prefix target @ stamp env)"

definition create_backup_snapshot ::
  "io_env \<Rightarrow> path \<Rightarrow> int \<Rightarrow> world \<Rightarrow> path option \<times> world" where
  "create_backup_snapshot env target max_backups w =
     (case file_at w target of
        None \<Rightarrow> (None, w)
      | Some f \<Rightarrow>
          if size_stat_fails env \<or> f_data f = [] then (None, w)
          else if copy_fails env then (None, w)
          else (let b = backup_path_of env target;
                    w1 = put_file b (f\<lparr>f_synced := False\<rparr>) w
                in (Some b, prune_backups env target max_backups w1)))"

definition tmp_path_of :: "io_env \<Rightarrow> path \<Rightarrow> path" where
  "tmp_path_of env target = (fst target, ''.tmp_pal_io_'' @ tmp_rand env @ ''.tmp'')"

text \<open>The directory entries are durable once the directory has been flushed; failures are
  logged only.\<close>

definition fsync_posix_directory :: "io_env \<Rightarrow> world \<Rightarrow> world" where
  "fsync_posix_directory env w =
     (if dir_open_fails env then w
      else if dir_fsync_fails env then w
      else w\<lparr>dir_durable := True\<rparr>)"

text \<open>The \<open>finally\<close> clause of an aborted write.\<close>

definition abort_write :: "io_env \<Rightarrow> path \<Rightarrow> world \<Rightarrow> AtomicWriteResult result \<times> world" where
  "abort_write env tmp w = (Inl OSError, try_unlink env w tmp)"

text \<open>Creating, filling, flushing and adjusting the temporary file; the flag says whether no
  exception was raised.\<close>

definition stage_tmp :: "io_env \<Rightarrow> path \<Rightarrow> string \<Rightarrow> int \<Rightarrow> world \<Rightarrow> bool \<times> world" where
  "stage_tmp env tmp raw_bytes target_mode w =
     (let empty = \<lparr>f_data = [], f_mode = 384, f_mtime = now env, f_synced = False\<rparr>;
          w1 = put_file tmp empty w
      in if write_fails env then (False, w1)
         else (let w2 = put_file tmp (empty\<lparr>f_data := raw_bytes\<rparr>) w1
               in if fsync_fails env then (False, w2)
                  else (let written = empty\<lparr>f_data := raw_bytes, f_synced := True\<rparr>;
                            w3 = put_file tmp written w2
                        in (True, if chmod_fails env then w3
                                  else put_file tmp (written\<lparr>f_mode := target_mode\<rparr>) w3))))"

definition atomic_write_file ::
  "io_env \<Rightarrow> path \<Rightarrow> string \<Rightarrow> int \<Rightarrow> bool \<Rightarrow> int option \<Rightarrow> bool \<Rightarrow> world \<Rightarrow>
     AtomicWriteResult result \<times> world" where
  "atomic_write_file env target raw_bytes max_backups make_backup mode sync_directory w =
     (if mkdir_fails env \<or> mktemp_fails env then (Inl OSError, w)
      else
        (let target_mode = resolve_target_mode env w target mode;
             tmp = tmp_path_of env target;
             (staged, w4) = stage_tmp env tmp raw_bytes target_mode w
         in if \<not> staged then abort_write env tmp w4
            else
              (let (backup, w5) =
                     (if make_backup then create_backup_snapshot env target max_backups w4 else (None, w4))
               in if replace_fails env then abort_write env tmp w5
                  else
                    (let w6 = replace_file tmp target w5
                     in (Inr \<lparr>target_path = target, bytes_written = length raw_bytes,
                              backup_path = backup,
                              duration_ms = (perf_end env - perf_start env) * 1000\<rparr>,
                         if sync_directory \<and> os_posix env then fsync_posix_directory env w6 else w6)))))"

definition atomic_write_ini ::
  "io_env \<Rightarrow> path \<Rightarrow> string \<Rightarrow> int \<Rightarrow> bool \<Rightarrow> bool \<Rightarrow> world \<Rightarrow> path result \<times> world" where
  "atomic_write_ini env target serialized_content max_backups make_backup sync_directory w =
     (case atomic_write_file env target (utf8_encode serialized_content) max_backups make_backup None
            sync_directory w of
        (Inl e, w') \<Rightarrow> (Inl e, w')
      | (Inr r, w') \<Rightarrow> (Inr (target_path r), w'))"

subsection \<open>Equations of the system calls\<close>

lemma file_at_put [simp, fs_simps]:
  "file_at (put_file p f w) q = (if q = p then Some f else file_at w q)"
  by (simp add: file_at_def put_file_def observe_def)

lemma file_at_unlink [simp, fs_simps]:
  "file_at (unlink_file p w) q = (if q = p then None else file_at w q)"
  by (simp add: file_at_def unlink_file_def observe_def dict_get_filter)

lemma file_at_replace [fs_simps]:
  "file_at w src = Some f \<Longrightarrow>
     file_at (replace_file src dst w) q = (if q = dst then Some f else if q = src then None else file_at w q)"
  by (simp add: file_at_def replace_file_def observe_def dict_get_filter)

lemma trace_put [fs_simps]: "trace (put_file p f w) = trace w @ [files (put_file p f w)]"
  by (simp add: put_file_def observe_def)

lemma trace_unlink [fs_simps]: "trace (unlink_file p w) = trace w @ [files (unlink_file p w)]"
  by (simp add: unlink_file_def observe_def)

lemma trace_replace [fs_simps]:
  "file_at w src = Some f \<Longrightarrow> trace (replace_file src dst w) = trace w @ [files (replace_file src dst w)]"
  by (simp add: replace_file_def observe_def file_at_def)

lemma fsync_posix_directory_frame [simp]:
  "file_at (fsync_posix_directory env w) p = file_at w p"
  "trace (fsync_posix_directory env w) = trace w"
  by (simp_all add: fsync_posix_directory_def file_at_def)

subsection \<open>Operations that leave a file alone, at every observable moment\<close>

definition extends :: "(disk \<Rightarrow> bool) \<Rightarrow> world \<Rightarrow> world \<Rightarrow> bool" where
  "extends P w w' \<longleftrightarrow> (\<exists>ds. trace w' = trace w @ ds \<and> list_all P ds)"

definition keeps :: "path \<Rightarrow> world \<Rightarrow> world \<Rightarrow> bool" where
  "keeps t w w' \<longleftrightarrow> file_at w' t = file_at w t \<and> extends (\<lambda>fs. dict_get fs t = file_at w t) w w'"

lemma extends_refl [simp, intro]: "extends P w w"
  by (simp add: extends_def)

lemma extends_trans: "extends P w1 w2 \<Longrightarrow> extends P w2 w3 \<Longrightarrow> extends P w1 w3"
  by (fastforce simp: extends_def)

lemma extends_mono: "extends P w w' \<Longrightarrow> (\<And>fs. P fs \<Longrightarrow> Q fs) \<Longrightarrow> extends Q w w'"
  by (auto simp: extends_def list_all_iff)

lemma keeps_refl [simp, intro]: "keeps t w w"
  by (simp add: keeps_def)

lemma keeps_trans: "keeps t w1 w2 \<Longrightarrow> keeps t w2 w3 \<Longrightarrow> keeps t w1 w3"
  by (auto simp: keeps_def intro: extends_trans)

lemma keeps_file_at: "keeps t w w' \<Longrightarrow> file_at w' t = file_at w t"
  by (simp add: keeps_def)

lemma keeps_put [intro]: "p \<noteq> t \<Longrightarrow> keeps t w (put_file p f w)"
  by (simp add: keeps_def extends_def trace_put flip: file_at_def)

lemma keeps_unlink [intro]: "p \<noteq> t \<Longrightarrow> keeps t w (unlink_file p w)"
  by (simp add: keeps_def extends_def trace_unlink flip: file_at_def)

lemma keeps_try_unlink [intro]: "p \<noteq> t \<Longrightarrow> keeps t w (try_unlink env w p)"
  by (simp add: try_unlink_def keeps_unlink)

lemma keeps_foldl_try_unlink:
  "t \<notin> set ps \<Longrightarrow> keeps t w (foldl (try_unlink env) w ps)"
proof (induction ps arbitrary: w)
  case (Cons p ps)
  then have "keeps t w (try_unlink env w p)" by (intro keeps_try_unlink) auto
  with Cons show ?case by (auto intro: keeps_trans)
qed simp

lemma keeps_prune_backups: "\<not> is_backup_of target t \<Longrightarrow> keeps t w (prune_backups env target n w)"
proof -
  assume "\<not> is_backup_of target t"
  then have "t \<notin> set (sort_key (backup_key env w) (backups target w))"
    by (simp add: backups_def)
  then show ?thesis
    by (auto simp: prune_backups_def Let_def intro!: keeps_foldl_try_unlink dest: in_set_takeD)
qed

lemma is_backup_backup_path [simp]: "is_backup_of target (backup_path_of env target)"
  by (simp add: is_backup_of_def backup_path_of_def)

lemma not_self_backup [simp]: "\<not> is_backup_of target target"
  by (auto simp: is_backup_of_def backup_prefix_def startswith_def)

lemma keeps_create_backup:
  assumes "\<not> is_backup_of target t"
  shows "keeps t w (snd (create_backup_snapshot env target n w))"
proof -
  have "t \<noteq> backup_path_of env target" using assms by auto
  then show ?thesis
    using keeps_trans [OF keeps_put keeps_prune_backups [OF assms]]
    by (auto simp: create_backup_snapshot_def Let_def split: option.splits)
qed

lemma keeps_stage_tmp: "p \<noteq> tmp \<Longrightarrow> keeps p w (snd (stage_tmp env tmp raw m w))"
  unfolding stage_tmp_def Let_def
  by (auto intro!: keeps_put intro: keeps_trans [OF keeps_trans [OF keeps_put keeps_put]]
      keeps_trans [OF keeps_put keeps_put] keeps_trans [OF keeps_trans [OF keeps_trans [OF keeps_put keeps_put] keeps_put] keeps_put])

lemma stage_tmp_file:
  "fst (stage_tmp env tmp raw m w) \<Longrightarrow>
     file_at (snd (stage_tmp env tmp raw m w)) tmp =
       Some \<lparr>f_data = raw, f_mode = (if chmod_fails env then 384 else m), f_mtime = now env, f_synced = True\<rparr>"
  by (auto simp: stage_tmp_def Let_def split: if_splits)

subsection \<open>Correctness of the atomic write\<close>

text \<open>The temporary name is new (the file is created with \<open>O_EXCL\<close>) and is neither the target
  nor the name of one of its backups.\<close>

definition tmp_ok :: "io_env \<Rightarrow> path \<Rightarrow> world \<Rightarrow> bool" where
  "tmp_ok env target w \<longleftrightarrow>
     file_at w (tmp_path_of env target) = None \<and> tmp_path_of env target \<noteq> target \<and>
     \<not> is_backup_of target (tmp_path_of env target)"

text \<open>The world after staging and the optional backup.\<close>

definition prepared ::
  "io_env \<Rightarrow> path \<Rightarrow> string \<Rightarrow> int \<Rightarrow> bool \<Rightarrow> int option \<Rightarrow> world \<Rightarrow> path option \<times> world" where
  "prepared env target raw n make_backup mode w =
     (let w4 = snd (stage_tmp env (tmp_path_of env target) raw (resolve_target_mode env w target mode) w)
      in if make_backup then create_backup_snapshot env target n w4 else (None, w4))"

lemma atomic_write_file_cases:
  obtains (early) "atomic_write_file env target raw n mb mode sd w = (Inl OSError, w)"
  | (unstaged) w4 where "w4 = snd (stage_tmp env (tmp_path_of env target) raw (resolve_target_mode env w target mode) w)"
      "atomic_write_file env target raw n mb mode sd w = abort_write env (tmp_path_of env target) w4"
  | (unreplaced) b w5 where "prepared env target raw n mb mode w = (b, w5)"
      "atomic_write_file env target raw n mb mode sd w = abort_write env (tmp_path_of env target) w5"
  | (replaced) b w5 w6 where "fst (stage_tmp env (tmp_path_of env target) raw (resolve_target_mode env w target mode) w)"
      "prepared env target raw n mb mode w = (b, w5)"
      "w6 = replace_file (tmp_path_of env target) target w5"
      "atomic_write_file env target raw n mb mode sd w =
        (Inr \<lparr>target_path = target, bytes_written = length raw, backup_path = b,
              duration_ms = (perf_end env - perf_start env) * 1000\<rparr>,
         if sd \<and> os_posix env then fsync_posix_directory env w6 else w6)"
proof -
  obtain ok w4 where s: "stage_tmp env (tmp_path_of env target) raw (resolve_target_mode env w target mode) w = (ok, w4)"
    by fastforce
  obtain b w5 where b: "prepared env target raw n mb mode w = (b, w5)" by fastforce
  then have b': "(if mb then create_backup_snapshot env target n w4 else (None, w4)) = (b, w5)"
    using s by (simp add: prepared_def)
  note eq = atomic_write_file_def [of env target raw n mb mode sd w]
  show ?thesis
  proof (cases "mkdir_fails env \<or> mktemp_fails env")
    case True
    then show ?thesis by (intro early) (simp add: eq)
  next
    case ok1: False
    show ?thesis
    proof (cases "ok")
      case False
      with ok1 s show ?thesis by (intro unstaged) (simp_all add: eq)
    next
      case True
      show ?thesis
      proof (cases "replace_fails env")
        case True
        with ok1 \<open>ok\<close> s b' show ?thesis by (intro unreplaced [OF b]) (simp add: eq)
      next
        case False
        with ok1 \<open>ok\<close> s b' show ?thesis by (intro replaced [OF _ b refl]) (simp_all add: eq Let_def)
      qed
    qed
  qed
qed

lemma keeps_prepared:
  assumes "t \<noteq> tmp_path_of env target" "\<not> is_backup_of target t"
  shows "keeps t w (snd (prepared env target raw n mb mode w))"
  using keeps_stage_tmp [OF assms(1)] keeps_trans [OF keeps_stage_tmp keeps_create_backup] assms
  by (simp add: prepared_def Let_def)

lemma prepared_tmp:
  assumes "tmp_ok env target w"
    and "fst (stage_tmp env (tmp_path_of env target) raw (resolve_target_mode env w target mode) w)"
  shows "file_at (snd (prepared env target raw n mb mode w)) (tmp_path_of env target) =
    Some \<lparr>f_data = raw, f_mode = (if chmod_fails env then 384 else resolve_target_mode env w target mode),
          f_mtime = now env, f_synced = True\<rparr>"
  using assms stage_tmp_file [OF assms(2)] keeps_file_at [OF keeps_create_backup]
  by (simp add: prepared_def Let_def tmp_ok_def)

lemma keeps_abort:
  "t \<noteq> tmp \<Longrightarrow> keeps t w w' \<Longrightarrow> keeps t w (snd (abort_write env tmp w'))"
  by (auto simp: abort_write_def intro: keeps_trans)

definition new_content :: "string \<Rightarrow> file_entry option \<Rightarrow> bool" where
  "new_content raw fo \<longleftrightarrow> (case fo of None \<Rightarrow> False | Some f \<Rightarrow> f_data f = raw \<and> f_synced f)"

lemma atomic_write_old_or_new:
  assumes "tmp_ok env target w"
    and "atomic_write_file env target raw n mb mode sd w = (r, w')"
  shows "extends (\<lambda>fs. dict_get fs target = file_at w target \<or> new_content raw (dict_get fs target)) w w' \<and>
    (case r of Inl e \<Rightarrow> e = OSError \<and> keeps target w w'
     | Inr res \<Rightarrow> new_content raw (file_at w' target) \<and> bytes_written res = length raw)"
proof -
  let ?tmp = "tmp_path_of env target"
  have ne: "target \<noteq> ?tmp" using assms(1) by (auto simp: tmp_ok_def)
  have keep: "keeps target w w' \<Longrightarrow> ?thesis" if "r = Inl OSError"
    using that by (auto simp: keeps_def intro: extends_mono)
  show ?thesis
  proof (cases rule: atomic_write_file_cases [of env target raw n mb mode sd w])
    case early
    with assms(2) keep show ?thesis by auto
  next
    case (unstaged w4)
    have "keeps target w w4" unfolding unstaged(1) by (rule keeps_stage_tmp [OF ne])
    then have "keeps target w (snd (abort_write env ?tmp w4))" by (rule keeps_abort [OF ne])
    with unstaged(2) assms(2) keep show ?thesis by (simp add: abort_write_def)
  next
    case (unreplaced b w5)
    have "keeps target w w5"
      using keeps_prepared [OF ne not_self_backup, of w raw n mb mode] unreplaced(1) by simp
    then have "keeps target w (snd (abort_write env ?tmp w5))" by (rule keeps_abort [OF ne])
    with unreplaced(2) assms(2) keep show ?thesis by (simp add: abort_write_def)
  next
    case (replaced b w5 w6)
    have k: "keeps target w w5"
      using keeps_prepared [OF ne not_self_backup, of w raw n mb mode] replaced(2) by simp
    obtain f where f: "file_at w5 ?tmp = Some f" "f_data f = raw" "f_synced f"
      using prepared_tmp [OF assms(1) replaced(1), of n mb] replaced(2) by auto
    have w6: "new_content raw (file_at w6 target)" "trace w6 = trace w5 @ [files w6]"
      using f replaced(3) by (simp_all add: file_at_replace trace_replace new_content_def)
    have "extends (\<lambda>fs. dict_get fs target = file_at w target \<or> new_content raw (dict_get fs target)) w5 w6"
      using w6 by (simp add: extends_def file_at_def)
    moreover have "extends (\<lambda>fs. dict_get fs target = file_at w target \<or> new_content raw (dict_get fs target)) w w5"
      using k by (auto simp: keeps_def intro: extends_mono)
    ultimately have e: "extends (\<lambda>fs. dict_get fs target = file_at w target \<or> new_content raw (dict_get fs target)) w w6"
      by (rule extends_trans [rotated])
    have "w' = (if sd \<and> os_posix env then fsync_posix_directory env w6 else w6)"
      using replaced(4) assms(2) by simp
    then have "trace w' = trace w6" "file_at w' target = file_at w6 target" by simp_all
    with e w6(1) replaced(4) assms(2) show ?thesis by (auto simp: extends_def)
  qed
qed

lemma file_at_abort_tmp:
  "\<not> unlink_fails env tmp \<Longrightarrow> file_at (snd (abort_write env tmp w)) tmp = None"
  by (simp add: abort_write_def try_unlink_def)

lemma atomic_write_no_tmp:
  assumes "tmp_ok env target w" "\<not> unlink_fails env (tmp_path_of env target)"
  shows "file_at (snd (atomic_write_file env target raw n mb mode sd w)) (tmp_path_of env target) = None"
proof (cases rule: atomic_write_file_cases [of env target raw n mb mode sd w])
  case early
  with assms(1) show ?thesis by (simp add: tmp_ok_def)
next
  case (replaced b w5 w6)
  then obtain f where "file_at w5 (tmp_path_of env target) = Some f"
    using prepared_tmp [OF assms(1) replaced(1), of n mb] by simp
  with replaced assms(1) show ?thesis by (auto simp: file_at_replace tmp_ok_def)
qed (simp_all add: file_at_abort_tmp [OF assms(2)])

lemma atomic_write_frame:
  assumes "tmp_ok env target w" "t \<noteq> target" "t \<noteq> tmp_path_of env target" "\<not> is_backup_of target t"
  shows "file_at (snd (atomic_write_file env target raw n mb mode sd w)) t = file_at w t"
proof (cases rule: atomic_write_file_cases [of env target raw n mb mode sd w])
  case early
  then show ?thesis by simp
next
  case (unstaged w4)
  have "keeps t w w4" unfolding unstaged(1) by (rule keeps_stage_tmp [OF assms(3)])
  then show ?thesis using unstaged(2) keeps_file_at [OF keeps_abort [OF assms(3)]] by simp
next
  case (unreplaced b w5)
  have "keeps t w w5"
    using keeps_prepared [OF assms(3,4), of w raw n mb mode] unreplaced(1) by simp
  then show ?thesis using unreplaced(2) keeps_file_at [OF keeps_abort [OF assms(3)]] by simp
next
  case (replaced b w5 w6)
  have k: "file_at w5 t = file_at w t"
    using keeps_file_at [OF keeps_prepared [OF assms(3,4), of w raw n mb mode]] replaced(2) by simp
  obtain f where "file_at w5 (tmp_path_of env target) = Some f"
    using prepared_tmp [OF assms(1) replaced(1), of n mb] replaced(2) by simp
  with replaced(3,4) k assms(2,3) show ?thesis by (auto simp: file_at_replace)
qed

text \<open>Without a fault in the calls that are not guarded, the write succeeds.\<close>

lemma atomic_write_file_no_faults:
  assumes "\<not> mkdir_fails env" "\<not> mktemp_fails env" "\<not> write_fails env" "\<not> fsync_fails env" "\<not> replace_fails env"
  shows "\<exists>q w'. atomic_write_file env p raw n mb mode sd w = (Inr q, w')"
proof -
  obtain w4 where st: "stage_tmp env (tmp_path_of env p) raw (resolve_target_mode env w p mode) w = (True, w4)"
    using assms by (simp add: stage_tmp_def Let_def)
  obtain b w5 where b: "(if mb then create_backup_snapshot env p n w4 else (None, w4)) = (b, w5)"
    by fastforce
  show ?thesis
    using assms by (simp add: atomic_write_file_def Let_def st b)
qed

lemma atomic_write_ini_no_faults:
  assumes "\<not> mkdir_fails env" "\<not> mktemp_fails env" "\<not> write_fails env" "\<not> fsync_fails env" "\<not> replace_fails env"
  shows "\<exists>q w'. atomic_write_ini env p s n mb sd w = (Inr q, w')"
  using atomic_write_file_no_faults [OF assms, of p "utf8_encode s" n mb None sd w] by (auto simp: atomic_write_ini_def)

subsection \<open>Backup rotation\<close>

lemma backups_unlink: "backups target (unlink_file p w) = filter (\<lambda>q. q \<noteq> p) (backups target w)"
  by (simp add: backups_def unlink_file_def observe_def dict_filter_def filter_map comp_def conj_commute)

lemma backups_foldl_unlink:
  "\<forall>p \<in> set ps. \<not> unlink_fails env p \<Longrightarrow>
     backups target (foldl (try_unlink env) w ps) = filter (\<lambda>q. q \<notin> set ps) (backups target w)"
  by (induction ps arbitrary: w) (auto simp: try_unlink_def backups_unlink intro: filter_cong)

text \<open>The surviving backups: everything but the oldest \<open>length - n\<close> of the sorted list.\<close>

lemma backups_prune:
  assumes "0 \<le> n" "\<not> glob_fails env" "\<forall>p. \<not> unlink_fails env p"
  shows "backups target (prune_backups env target n w) =
    filter (\<lambda>q. q \<notin> set (take (length (backups target w) - nat n)
      (sort_key (backup_key env w) (backups target w)))) (backups target w)"
proof -
  have n: "nat (int (length (backups target w)) - n) = length (backups target w) - nat n"
    using assms(1) by simp
  have "backups target (foldl (try_unlink env) w ps) = filter (\<lambda>q. q \<notin> set ps) (backups target w)" for ps
    using assms(3) by (intro backups_foldl_unlink) blast
  then show ?thesis
    using assms(1,2) by (simp add: prune_backups_def Let_def flip: n)
qed

lemma distinct_backups: "wf_dict (files w) \<Longrightarrow> distinct (backups target w)"
  by (simp add: backups_def wf_dict_def)

lemma length_filter_not_in_take:
  assumes "distinct xs" "mset ys = mset xs"
  shows "length (filter (\<lambda>q. q \<notin> set (take k ys)) xs) = length xs - k"
proof -
  have d: "distinct ys" "set ys = set xs" "length ys = length xs"
    using assms by (metis mset_eq_imp_distinct_iff, metis mset_eq_setD, metis mset_eq_length)
  have "length (filter (\<lambda>q. q \<notin> set (take k ys)) xs) = card (set xs - set (take k ys))"
    using assms(1) by (simp add: distinct_card [symmetric] set_diff_eq)
  also have "\<dots> = length xs - length (take k ys)"
    using d set_take_subset [of k ys]
    by (simp add: card_Diff_subset distinct_card distinct_take distinct_card [OF assms(1)] del: length_take)
  also have "\<dots> = length xs - k" using d(3) by simp
  finally show ?thesis .
qed

lemma prune_backups_count:
  assumes "0 \<le> n" "\<not> glob_fails env" "\<forall>p. \<not> unlink_fails env p" "wf_dict (files w)"
  shows "int (length (backups target (prune_backups env target n w))) =
      min n (int (length (backups target w)))"
  using assms length_filter_not_in_take [OF distinct_backups [OF assms(4)], of
      "sort_key (backup_key env w) (backups target w)" target]
  by (simp add: backups_prune)

lemma prune_backups_keeps_newest:
  assumes "0 \<le> n" "\<not> glob_fails env" "\<forall>p. \<not> unlink_fails env p"
    and p: "p \<in> set (backups target w)" "p \<notin> set (backups target (prune_backups env target n w))"
    and q: "q \<in> set (backups target (prune_backups env target n w))"
  shows "backup_key env w p \<le> backup_key env w q"
proof -
  define c where "c = sort_key (backup_key env w) (backups target w)"
  define k where "k = length (backups target w) - nat n"
  have eq: "set (backups target (prune_backups env target n w)) = set (backups target w) - set (take k c)"
    using assms(1-3) by (auto simp: backups_prune c_def k_def)
  have "p \<in> set (take k c)" using p eq by blast
  moreover have "q \<in> set (drop k c)"
    using q eq by (metis DiffE Un_iff append_take_drop_id c_def set_append set_sort)
  moreover have "sorted (map (backup_key env w) (take k c) @ map (backup_key env w) (drop k c))"
    by (simp flip: map_append add: c_def)
  ultimately show ?thesis by (auto simp: sorted_append)
qed

subsection \<open>Staged directory replacement\<close>

text \<open>
  \<open>AtomicStagingContext\<close>: directories are kept as a dictionary from paths to what they
  contain. The environment names the staging directory and the tombstone and says which
  calls fail.
\<close>

type_synonym dirs = "(path, string) dict"

record staging =
  target_dir :: path
  atomic_rename :: bool
  stage_dir :: "path option"
  committed :: bool

record stage_env =
  stage_name :: path
  tombstone :: path
  parent_mkdir_fails :: bool
  mkdtemp_fails :: bool
  retire_fails :: bool
  swap_fails :: bool
  rollback_fails :: bool
  rm_tombstone_fails :: bool
  rm_stage_fails :: bool

definition move_dir :: "path \<Rightarrow> path \<Rightarrow> dirs \<Rightarrow> dirs" where
  "move_dir src dst d =
     (case dict_get d src of
        None \<Rightarrow> d
      | Some c \<Rightarrow> dict_set dst c (dict_filter (\<lambda>p. p \<noteq> src) d))"

definition remove_dir :: "path \<Rightarrow> dirs \<Rightarrow> dirs" where
  "remove_dir p d = dict_filter (\<lambda>q. q \<noteq> p) d"

definition staging_init :: "path \<Rightarrow> bool \<Rightarrow> staging" where
  "staging_init target rename =
     \<lparr>target_dir = target, atomic_rename = rename, stage_dir = None, committed = False\<rparr>"

definition staging_enter :: "stage_env \<Rightarrow> staging \<Rightarrow> dirs \<Rightarrow> path result \<times> staging \<times> dirs" where
  "staging_enter env ctx d =
     (if (atomic_rename ctx \<or> dict_get d (target_dir ctx) = None) \<and> parent_mkdir_fails env
      then (Inl OSError, ctx, d)
      else
        (let d1 = (if atomic_rename ctx \<or> dict_get d (target_dir ctx) \<noteq> None then d
                   else dict_set (target_dir ctx) [] d)
         in if mkdtemp_fails env then (Inl OSError, ctx, d1)
            else (Inr (stage_name env),
                  ctx\<lparr>stage_dir := Some (stage_name env), committed := False\<rparr>,
                  dict_set (stage_name env) [] d1)))"

definition staging_commit :: "stage_env \<Rightarrow> staging \<Rightarrow> dirs \<Rightarrow> path result \<times> staging \<times> dirs" where
  "staging_commit env ctx d =
     (if committed ctx then (Inr (target_dir ctx), ctx, d)
      else
        (case stage_dir ctx of
           None \<Rightarrow> (Inl (RuntimeError ''Cannot commit: staging directory does not exist.''), ctx, d)
         | Some stage \<Rightarrow>
             if dict_get d stage = None then
               (Inl (RuntimeError ''Cannot commit: staging directory does not exist.''), ctx, d)
             else if \<not> atomic_rename ctx then (Inr stage, ctx\<lparr>committed := True\<rparr>, d)
             else if dict_get d (target_dir ctx) = None then
               (if swap_fails env then (Inl OSError, ctx, d)
                else (Inr (target_dir ctx), ctx\<lparr>committed := True\<rparr>, move_dir stage (target_dir ctx) d))
             else if retire_fails env then (Inl OSError, ctx, d)
             else
               (let d1 = move_dir (target_dir ctx) (tombstone env) d
                in if swap_fails env then
                     (Inl OSError, ctx,
                      if rollback_fails env then d1 else move_dir (tombstone env) (target_dir ctx) d1)
                   else
                     (let d2 = move_dir stage (target_dir ctx) d1
                      in (Inr (target_dir ctx), ctx\<lparr>committed := True\<rparr>,
                          if rm_tombstone_fails env then d2 else remove_dir (tombstone env) d2)))))"

definition staging_cleanup :: "stage_env \<Rightarrow> staging \<Rightarrow> dirs \<Rightarrow> dirs" where
  "staging_cleanup env ctx d =
     (case stage_dir ctx of
        None \<Rightarrow> d
      | Some stage \<Rightarrow>
          if dict_get d stage \<noteq> None \<and> \<not> committed ctx \<and> \<not> rm_stage_fails env
          then remove_dir stage d else d)"

text \<open>The first argument is the exception the body raised, if any.\<close>

definition staging_exit ::
  "py_error option \<Rightarrow> stage_env \<Rightarrow> staging \<Rightarrow> dirs \<Rightarrow> unit result \<times> staging \<times> dirs" where
  "staging_exit exc env ctx d =
     (case exc of
        Some e \<Rightarrow> (Inl e, ctx, staging_cleanup env ctx d)
      | None \<Rightarrow>
          if atomic_rename ctx \<and> \<not> committed ctx then
            (case staging_commit env ctx d of
               (Inl e, ctx', d') \<Rightarrow> (Inl e, ctx', d')
             | (Inr _, ctx', d') \<Rightarrow> (Inr (), ctx', d'))
          else if \<not> committed ctx then (Inr (), ctx, staging_cleanup env ctx d)
          else (Inr (), ctx, d))"

text \<open>\<open>with AtomicStagingContext(target) as stage: ...\<close>: the body either leaves a content in
  the staging directory or raises.\<close>

definition staged_update :: "stage_env \<Rightarrow> path \<Rightarrow> string result \<Rightarrow> dirs \<Rightarrow> unit result \<times> dirs" where
  "staged_update env target body d =
     (case staging_enter env (staging_init target True) d of
        (Inl e, ctx, d1) \<Rightarrow> (Inl e, d1)
      | (Inr stage, ctx, d1) \<Rightarrow>
          (case body of
             Inl e \<Rightarrow> (case staging_exit (Some e) env ctx d1 of (r, _, d2) \<Rightarrow> (r, d2))
           | Inr c \<Rightarrow> (case staging_exit None env ctx (dict_set stage c d1) of (r, _, d2) \<Rightarrow> (r, d2))))"

lemma dict_get_move_dir [fs_simps]:
  "dict_get d src = Some c \<Longrightarrow>
     dict_get (move_dir src dst d) p = (if p = dst then Some c else if p = src then None else dict_get d p)"
  by (simp add: move_dir_def dict_get_filter)

lemma dict_get_remove_dir [fs_simps]:
  "dict_get (remove_dir q d) p = (if p = q then None else dict_get d p)"
  by (simp add: remove_dir_def dict_get_filter)

text \<open>The names the system chooses are new and differ from each other and from the target.\<close>

definition stage_ok :: "stage_env \<Rightarrow> path \<Rightarrow> dirs \<Rightarrow> bool" where
  "stage_ok env target d \<longleftrightarrow>
     stage_name env \<noteq> target \<and> tombstone env \<noteq> target \<and> stage_name env \<noteq> tombstone env \<and>
     dict_get d (stage_name env) = None \<and> dict_get d (tombstone env) = None"

lemma staging_enter_init:
  "staging_enter env (staging_init target True) d =
     (if parent_mkdir_fails env \<or> mkdtemp_fails env then (Inl OSError, staging_init target True, d)
      else (Inr (stage_name env),
        \<lparr>target_dir = target, atomic_rename = True, stage_dir = Some (stage_name env), committed = False\<rparr>,
        dict_set (stage_name env) [] d))"
  by (simp add: staging_enter_def staging_init_def)

lemma staging_exit_exc:
  assumes "stage_ok env target d" "dict_get d1 target = dict_get d target"
  shows "dict_get (snd (snd (staging_exit (Some e) env
    \<lparr>target_dir = target, atomic_rename = True, stage_dir = Some (stage_name env), committed = False\<rparr> d1)))
      target = dict_get d target"
  using assms by (auto simp: staging_exit_def staging_cleanup_def stage_ok_def dict_get_remove_dir)

lemma staging_commit_outcome:
  assumes "stage_ok env target d" "dict_get d1 target = dict_get d target"
    and "dict_get d1 (stage_name env) = Some c" "dict_get d1 (tombstone env) = None"
    and "staging_commit env
      \<lparr>target_dir = target, atomic_rename = True, stage_dir = Some (stage_name env), committed = False\<rparr> d1
      = (r, ctx', d')"
  shows "case r of Inr _ \<Rightarrow> dict_get d' target = Some c
    | Inl _ \<Rightarrow> rollback_fails env \<or> dict_get d' target = dict_get d target"
proof (cases "dict_get d target")
  case None
  with assms show ?thesis
    by (auto simp: staging_commit_def fs_simps split: if_splits)
next
  case (Some old)
  have ne: "stage_name env \<noteq> target" "tombstone env \<noteq> target" "stage_name env \<noteq> tombstone env"
    using assms(1) by (simp_all add: stage_ok_def)
  define d2 where "d2 = move_dir target (tombstone env) d1"
  have g: "dict_get d2 (stage_name env) = Some c" "dict_get d2 (tombstone env) = Some old"
    using Some assms(2,3) ne by (auto simp: d2_def fs_simps)
  show ?thesis
    using assms(5) Some assms(2,3) ne g
    by (auto simp: staging_commit_def Let_def dict_get_move_dir dict_get_remove_dir simp flip: d2_def
        split: if_splits)
qed

lemma staged_update_outcome:
  assumes "stage_ok env target d" "staged_update env target body d = (r, d')"
  shows "case r of
      Inr _ \<Rightarrow> (\<exists>c. body = Inr c \<and> dict_get d' target = Some c)
    | Inl _ \<Rightarrow> rollback_fails env \<or> dict_get d' target = dict_get d target"
proof (cases "parent_mkdir_fails env \<or> mkdtemp_fails env")
  case True
  with assms show ?thesis by (auto simp: staged_update_def staging_enter_init)
next
  case ok: False
  let ?ctx = "\<lparr>target_dir = target, atomic_rename = True, stage_dir = Some (stage_name env), committed = False\<rparr>"
  have ne: "target \<noteq> stage_name env" "tombstone env \<noteq> stage_name env" "dict_get d (tombstone env) = None"
    using assms(1) by (auto simp: stage_ok_def)
  show ?thesis
  proof (cases body)
    case (Inl e)
    with ok assms(2) show ?thesis
      using staging_exit_exc [OF assms(1), of "dict_set (stage_name env) [] d" e] ne
      by (auto simp: staged_update_def staging_enter_init staging_exit_def)
  next
    case (Inr c)
    obtain r1 ctx1 d1 where co:
      "staging_commit env ?ctx (dict_set (stage_name env) c (dict_set (stage_name env) [] d)) = (r1, ctx1, d1)"
      by (metis surj_pair)
    note out = staging_commit_outcome [OF assms(1) _ _ _ co, of c]
    from Inr ok assms(2) co have "d' = d1 \<and> (case r of Inl e \<Rightarrow> r1 = Inl e | Inr _ \<Rightarrow> (\<exists>p. r1 = Inr p))"
      by (auto simp: staged_update_def staging_enter_init staging_exit_def split: sum.splits)
    with out ne Inr show ?thesis by (auto split: sum.splits)
  qed
qed

subsection \<open>The guarantees of the module\<close>

text \<open>C3. Crash safety of \<open>atomic_write_file\<close>: at every observable moment the target holds either
  its old file or the complete, flushed new content; if the call returns, it is the new content,
  and if it raises, the target was never touched.\<close>

theorem atomic_write_crash_safe:
  assumes "tmp_ok env target w"
    and "atomic_write_file env target raw n mb mode sd w = (r, w')"
  shows "extends (\<lambda>fs. dict_get fs target = file_at w target \<or> new_content raw (dict_get fs target)) w w' \<and>
    (case r of Inl e \<Rightarrow> e = OSError \<and> keeps target w w'
     | Inr res \<Rightarrow> new_content raw (file_at w' target) \<and> bytes_written res = length raw)"
  by (rule atomic_write_old_or_new [OF assms])

text \<open>An environment without faults and one whose rename fails, on a disk with one file.\<close>

definition demo_io :: io_env where
  "demo_io = \<lparr>tmp_rand = ''x'', stamp = ''9'', now = 9, perf_start = 0, perf_end = 1, mkdir_fails = False,
     mktemp_fails = False, write_fails = False, fsync_fails = False, chmod_fails = False,
     mode_stat_fails = False, size_stat_fails = False, copy_fails = False, glob_fails = False,
     replace_fails = False, dir_open_fails = False, dir_fsync_fails = False, os_posix = True,
     key_stat_fails = (\<lambda>_. False), unlink_fails = (\<lambda>_. False)\<rparr>"

definition demo_target :: path where
  "demo_target = (''/d'', ''a.ini'')"

definition demo_file :: "string \<Rightarrow> rat \<Rightarrow> file_entry" where
  "demo_file s t = \<lparr>f_data = s, f_mode = 420, f_mtime = t, f_synced = True\<rparr>"

definition demo_world :: world where
  "demo_world = \<lparr>files = [(demo_target, demo_file ''old'' 5), ((''/d'', ''a.ini.bak.1''), demo_file ''b1'' 1),
     ((''/d'', ''a.ini.bak.2''), demo_file ''b2'' 2)], trace = [], dir_durable = True\<rparr>"

lemma demo_tmp_ok: "tmp_ok (demo_io\<lparr>replace_fails := b\<rparr>) demo_target demo_world"
  by (simp add: tmp_ok_def tmp_path_of_def demo_io_def demo_target_def file_at_def demo_world_def
      is_backup_of_def startswith_def backup_prefix_def)

theorem atomic_write_crash_safe_witness:
  "case atomic_write_file (demo_io\<lparr>replace_fails := True\<rparr>) demo_target ''new'' 5 True None True demo_world of
     (r, w') \<Rightarrow> extends (\<lambda>fs. dict_get fs demo_target = file_at demo_world demo_target \<or>
       new_content ''new'' (dict_get fs demo_target)) demo_world w'"
  using atomic_write_crash_safe [OF demo_tmp_ok] by (auto split: prod.split)

text \<open>An atomic write leaves no temporary file behind, whether it succeeds or fails, unless
  removing that file fails too.\<close>

theorem atomic_write_cleans_up:
  assumes "tmp_ok env target w" "\<not> unlink_fails env (tmp_path_of env target)"
  shows "file_at (snd (atomic_write_file env target raw n mb mode sd w)) (tmp_path_of env target) = None"
  by (rule atomic_write_no_tmp [OF assms])

theorem atomic_write_cleans_up_witness:
  "file_at (snd (atomic_write_file (demo_io\<lparr>replace_fails := True\<rparr>) demo_target ''new'' 5 True None True demo_world))
     (tmp_path_of (demo_io\<lparr>replace_fails := True\<rparr>) demo_target) = None"
  by (rule atomic_write_cleans_up [OF demo_tmp_ok]) (simp add: demo_io_def)

text \<open>An atomic write touches nothing but its target, its temporary file and the backups of
  its target.\<close>

theorem atomic_write_touches_only_target:
  assumes "tmp_ok env target w" "t \<noteq> target" "t \<noteq> tmp_path_of env target" "\<not> is_backup_of target t"
  shows "file_at (snd (atomic_write_file env target raw n mb mode sd w)) t = file_at w t"
  by (rule atomic_write_frame [OF assms])

theorem atomic_write_touches_only_target_witness:
  "file_at (snd (atomic_write_file (demo_io\<lparr>replace_fails := False\<rparr>) demo_target ''new'' 5 True None True demo_world))
     (''/d'', ''b.ini'') = None"
  using atomic_write_touches_only_target [OF demo_tmp_ok, of "(''/d'', ''b.ini'')" False "''new''" 5 True None True]
  by (simp add: demo_target_def tmp_path_of_def demo_io_def is_backup_of_def startswith_def backup_prefix_def
      demo_world_def file_at_def)

text \<open>Backup rotation: after pruning, \<open>min n k\<close> of the \<open>k\<close> backups remain, and none that was
  removed is newer than one that was kept (by modification time, then name).\<close>

theorem backup_rotation:
  assumes "0 \<le> n" "\<not> glob_fails env" "\<And>p. \<not> unlink_fails env p" "wf_dict (files w)"
  shows "int (length (backups target (prune_backups env target n w))) = min n (int (length (backups target w))) \<and>
    (\<forall>p q. p \<in> set (backups target w) \<longrightarrow> p \<notin> set (backups target (prune_backups env target n w)) \<longrightarrow>
       q \<in> set (backups target (prune_backups env target n w)) \<longrightarrow> backup_key env w p \<le> backup_key env w q)"
  using prune_backups_count [OF assms(1,2) _ assms(4)] prune_backups_keeps_newest [OF assms(1,2)] assms(3)
  by blast

theorem backup_rotation_witness:
  "int (length (backups demo_target (prune_backups demo_io demo_target 1 demo_world))) = 1"
proof -
  have "wf_dict (files demo_world)"
    by (simp add: wf_dict_def demo_world_def demo_target_def)
  moreover have "length (backups demo_target demo_world) = 2"
    by (simp add: backups_def demo_world_def demo_target_def is_backup_of_def startswith_def backup_prefix_def)
  ultimately show ?thesis
    using backup_rotation [of 1 demo_io demo_world demo_target] by (simp add: demo_io_def)
qed

text \<open>Staged directory replacement is all or nothing: if the staged update returns, the target
  directory holds what the body staged; if it raises, the target holds what it held before,
  unless the rollback rename failed as well.\<close>

theorem staged_update_all_or_nothing:
  assumes "stage_ok env target d" "staged_update env target body d = (r, d')"
  shows "case r of
      Inr _ \<Rightarrow> (\<exists>c. body = Inr c \<and> dict_get d' target = Some c)
    | Inl _ \<Rightarrow> rollback_fails env \<or> dict_get d' target = dict_get d target"
  by (rule staged_update_outcome [OF assms])

definition demo_stage :: stage_env where
  "demo_stage = \<lparr>stage_name = (''/d'', ''s''), tombstone = (''/d'', ''t''), parent_mkdir_fails = False,
     mkdtemp_fails = False, retire_fails = False, swap_fails = True, rollback_fails = False,
     rm_tombstone_fails = False, rm_stage_fails = False\<rparr>"

theorem staged_update_all_or_nothing_witness:
  "dict_get (snd (staged_update demo_stage (''/d'', ''app'') (Inr ''v2'') [((''/d'', ''app''), ''v1'')])) (''/d'', ''app'') =
     Some ''v1''"
proof -
  have ok: "stage_ok demo_stage (''/d'', ''app'') [((''/d'', ''app''), ''v1'')]"
    by (simp add: stage_ok_def demo_stage_def)
  have "\<exists>e d'. staged_update demo_stage (''/d'', ''app'') (Inr ''v2'') [((''/d'', ''app''), ''v1'')] = (Inl e, d')"
    by (simp add: staged_update_def staging_enter_def staging_init_def staging_exit_def staging_commit_def
        demo_stage_def Let_def move_dir_def dict_filter_def)
  then show ?thesis
    using staged_update_all_or_nothing [OF ok, of "Inr ''v2''"] by (auto simp: demo_stage_def)
qed

end
