(* ===== verification/Access_Control.thy ===== *)
theory Access_Control
  imports Auth_Token User_Db Atomic_IO
begin

section \<open>Authentication and role based access\<close>

text \<open>
  \<^verbatim>\<open>app/routers/deps.py\<close> (who is calling, and what may they do), the bootstrap half of
  \<^verbatim>\<open>app/database/auth.py\<close> and the account endpoints of \<^verbatim>\<open>app/routers/auth.py\<close>. A request is
  its headers (names in lower case, as the framework looks them up), cookies and peer
  address; its body has passed the request model of \<^verbatim>\<open>app/api/schemas.py\<close>, whose field
  constraints are the \<open>valid_\<close> predicates. Handlers take the state of the application to a
  response or an exception and a new state.
\<close>

definition in_quotes :: "string \<Rightarrow> string" where
  "in_quotes s = CHR 0x27 # s @ [CHR 0x27]"

subsection \<open>Requests and environment\<close>

record http_request =
  headers :: "(string, string) dict"
  cookies :: "(string, string) dict"
  client_host :: "string option"

record auth_env =
  mac_fn :: mac
  kdf_fn :: kdf
  AdminPassword :: string
  clock :: rat
  clock_iso :: string
  fresh_salt :: string
  fresh_nonce :: string

record BootstrapState =
  is_pending :: bool
  boot_username :: "string option"
  boot_password :: "string option"

record app_state =
  database :: db
  bootstrap :: BootstrapState

definition header :: "http_request \<Rightarrow> string \<Rightarrow> string option" where
  "header req name = dict_get (headers req) name"

definition get_client_ip :: "http_request \<Rightarrow> string" where
  "get_client_ip req =
     (case header req ''cf-connecting-ip'' of
        Some ip \<Rightarrow> ip
      | None \<Rightarrow>
          (case header req ''x-forwarded-for'' of
             Some xs \<Rightarrow> strip (hd (split_on (CHR '','') xs))
           | None \<Rightarrow>
               (case header req ''x-real-ip'' of
                  Some ip \<Rightarrow> ip
                | None \<Rightarrow>
                    (case client_host req of
                       Some h \<Rightarrow> if h \<noteq> [] then h else ''127.0.0.1''
                     | None \<Rightarrow> ''127.0.0.1''))))"

subsection \<open>Who is calling\<close>

text \<open>The pair a Basic header carries; every decoding error is swallowed.\<close>

definition basic_credentials :: "string \<Rightarrow> (string \<times> string) option" where
  "basic_credentials encoded =
     (if \<not> is_ascii encoded then None
      else Option.bind (b64decode encoded) (\<lambda>bytes. Option.bind (utf8_decode bytes) (\<lambda>decoded.
        if CHR '':'' \<in> set decoded
        then Some (takeWhile (\<lambda>c. c \<noteq> CHR '':'') decoded, tl (dropWhile (\<lambda>c. c \<noteq> CHR '':'') decoded))
        else None)))"

definition active_user :: "db \<Rightarrow> string \<Rightarrow> UserRecord option" where
  "active_user d name =
     (case get_user_by_username d name of
        Some u \<Rightarrow> if is_active u then Some u else None
      | None \<Rightarrow> None)"

definition basic_user :: "auth_env \<Rightarrow> db \<Rightarrow> string \<Rightarrow> UserRecord option" where
  "basic_user env d encoded =
     (case basic_credentials encoded of
        Some (user_part, pass_part) \<Rightarrow>
          if user_part = ''admin'' \<and> pass_part = AdminPassword env then active_user d ''admin'' else None
      | None \<Rightarrow> None)"

definition loopback_names :: "string list" where
  "loopback_names = [''127.0.0.1'', ''::1'', ''testclient'', ''localhost'']"

definition loopback_user :: "auth_env \<Rightarrow> db \<Rightarrow> UserRecord" where
  "loopback_user env d =
     (case active_user d ''admin'' of
        Some u \<Rightarrow> u
      | None \<Rightarrow> \<lparr>user_id = 1, username = ''admin'', password_hash = [], salt = [],
                 email = ''admin@localhost'', role = ''admin'', is_active = True,
                 created_at = clock_iso env, last_login = None\<rparr>)"

definition user_of_token :: "auth_env \<Rightarrow> db \<Rightarrow> string \<Rightarrow> UserRecord result" where
  "user_of_token env d token =
     bind_result (verify_session_token (mac_fn env) (clock env) token (AdminPassword env)) (\<lambda>name.
       case name of
         Some n \<Rightarrow>
           (case active_user d n of
              Some u \<Rightarrow> Inr u
            | None \<Rightarrow> Inl (HTTPException 401 ''Invalid or expired session token.''))
       | None \<Rightarrow> Inl (HTTPException 401 ''Invalid or expired session token.''))"

definition anonymous_user :: "auth_env \<Rightarrow> db \<Rightarrow> http_request \<Rightarrow> UserRecord result" where
  "anonymous_user env d req =
     (if get_client_ip req \<in> set loopback_names then Inr (loopback_user env d)
      else Inl (HTTPException 401 ''Authentication credentials required.''))"

definition request_token :: "http_request \<Rightarrow> string option" where
  "request_token req =
     (let auth_header = (case header req ''authorization'' of None \<Rightarrow> [] | Some h \<Rightarrow> h)
      in if startswith auth_header ''Bearer '' then Some (strip (drop 7 auth_header))
         else dict_get (cookies req) ''pal_session_token'')"

definition get_current_user :: "auth_env \<Rightarrow> db \<Rightarrow> http_request \<Rightarrow> UserRecord result" where
  "get_current_user env d req =
     (let auth_header = (case header req ''authorization'' of None \<Rightarrow> [] | Some h \<Rightarrow> h);
          basic = (if request_token req = None \<and> startswith auth_header ''Basic ''
                   then basic_user env d (strip (drop 6 auth_header)) else None)
      in case basic of
           Some u \<Rightarrow> Inr u
         | None \<Rightarrow>
             (case request_token req of
                Some token \<Rightarrow> if token \<noteq> [] then user_of_token env d token else anonymous_user env d req
              | None \<Rightarrow> anonymous_user env d req))"

definition get_current_user_optional :: "auth_env \<Rightarrow> db \<Rightarrow> http_request \<Rightarrow> UserRecord option result" where
  "get_current_user_optional env d req =
     (case get_current_user env d req of
        Inr u \<Rightarrow> Inr (Some u)
      | Inl (HTTPException c m) \<Rightarrow> Inr None
      | Inl e \<Rightarrow> Inl e)"

subsection \<open>What may they do\<close>

definition has_permission :: "string \<Rightarrow> string list \<Rightarrow> string \<Rightarrow> bool" where
  "has_permission user_role user_perms required \<longleftrightarrow>
     user_role = ''admin'' \<or> ''*'' \<in> set user_perms \<or> required \<in> set user_perms \<or>
     required \<in> set (default_perms user_role)"

definition require_permission :: "string \<Rightarrow> auth_env \<Rightarrow> db \<Rightarrow> http_request \<Rightarrow> UserRecord result" where
  "require_permission perm env d req =
     bind_result (get_current_user env d req) (\<lambda>user.
       if has_permission (role user) (get_user_permissions d (user_id user)) perm then Inr user
       else Inl (HTTPException 403
         (''Forbidden: Insufficient privileges. Required permission: '' @ in_quotes perm @ ''.'')))"

definition require_admin :: "auth_env \<Rightarrow> db \<Rightarrow> http_request \<Rightarrow> UserRecord result" where
  "require_admin env d req =
     bind_result (get_current_user env d req) (\<lambda>user.
       if role user \<noteq> ''admin'' then Inl (HTTPException 403 ''Forbidden: Administrator role required.'')
       else Inr user)"

subsection \<open>First start\<close>

record export_env =
  os_nt :: bool
  etc_is_dir :: bool
  etc_writable :: bool
  home_dir :: string
  real_path :: "string \<Rightarrow> path"
  export_mkdir_fails :: "string \<Rightarrow> bool"

definition credential_name :: string where
  "credential_name = ''initial_admin_credential.txt''"

definition resolve_admin_credential_export_path :: "export_env \<Rightarrow> string option \<Rightarrow> path result" where
  "resolve_admin_credential_export_path xe custom_path =
     (let target =
        (case custom_path of
           Some p \<Rightarrow> if p \<noteq> [] then Some (real_path xe p) else None
         | None \<Rightarrow> None);
        chosen = (case target of
            Some t \<Rightarrow> t
          | None \<Rightarrow> if \<not> os_nt xe \<and> etc_is_dir xe \<and> etc_writable xe
                     then (''/etc/palmanager'', credential_name)
                     else (home_dir xe @ ''/.palmanager'', credential_name))
      in if export_mkdir_fails xe (fst chosen) then Inl OSError else Inr chosen)"

definition credential_banner :: "string \<Rightarrow> string \<Rightarrow> string" where
  "credential_banner now_ts password =
     (let rule = replicate 73 (CHR ''='') @ [CHR 0x0A]
      in rule @ '' Palworld Operations Suite - Initial Administrator Credentials'' @ [CHR 0x0A] @
         '' Generated: '' @ now_ts @ [CHR 0x0A] @ '' Username:  admin'' @ [CHR 0x0A] @
         '' Password:  '' @ password @ [CHR 0x0A] @
         '' Note:      Store this securely or rotate via Web Portal.'' @ [CHR 0x0A] @ rule)"

text \<open>The mode is \<open>0o600\<close>; an \<open>OSError\<close> is logged and swallowed.\<close>

definition export_credentials_to_file ::
  "io_env \<Rightarrow> export_env \<Rightarrow> string \<Rightarrow> path \<Rightarrow> string \<Rightarrow> world \<Rightarrow> world" where
  "export_credentials_to_file io xe now_ts export_path password w =
     (if export_mkdir_fails xe (fst export_path) then w
      else snd (atomic_write_file io export_path (utf8_encode (credential_banner now_ts password))
                  5 False (Some 384) True w))"

definition set_bootstrap_pending :: "string \<Rightarrow> string \<Rightarrow> app_state \<Rightarrow> app_state" where
  "set_bootstrap_pending name pw s =
     s\<lparr>bootstrap := \<lparr>is_pending = True, boot_username = Some name, boot_password = Some pw\<rparr>\<rparr>"

definition acknowledge_bootstrap :: "app_state \<Rightarrow> app_state" where
  "acknowledge_bootstrap s =
     s\<lparr>bootstrap := \<lparr>is_pending = False, boot_username = None, boot_password = None\<rparr>,
       database := set_meta ''bootstrap_completed'' ''true'' (database s)\<rparr>"

text \<open>\<open>generated\<close> is what \<open>secrets.token_urlsafe(20)\<close> would draw.\<close>

definition bootstrap_admin_user ::
  "auth_env \<Rightarrow> io_env \<Rightarrow> export_env \<Rightarrow> string \<Rightarrow> string option \<Rightarrow> string option \<Rightarrow> app_state \<times> world \<Rightarrow>
     UserRecord result \<times> app_state \<times> world" where
  "bootstrap_admin_user env io xe generated default_password export_path sw =
     (let (s, w) = sw; d = database s
      in case get_user_by_username d ''admin'' of
           Some u \<Rightarrow> (Inr u, s, w)
         | None \<Rightarrow>
             if count_users d = 0 then
               (let is_generated = (default_password = None \<or> default_password = Some []);
                    password_to_use = (if is_generated then generated else the default_password);
                    (pw_hash, slt) = hash_password (kdf_fn env) (fresh_salt env) password_to_use None;
                    (r, d1) = create_user (clock_iso env) ''admin'' pw_hash slt ''admin@localhost'' ''admin'' True d;
                    s1 = s\<lparr>database := d1\<rparr>
                in case r of
                     Inl e \<Rightarrow> (Inl e, s1, w)
                   | Inr admin_user \<Rightarrow>
                       (let pending = (\<lambda>s1. if is_generated \<and> get_meta (database s1) ''bootstrap_completed'' = None
                                            then set_bootstrap_pending ''admin'' password_to_use s1 else s1)
                        in if is_generated \<or> export_path \<noteq> None then
                             (case resolve_admin_credential_export_path xe export_path of
                                Inl e \<Rightarrow> (Inl e, s1, w)
                              | Inr resolved \<Rightarrow>
                                  (Inr admin_user, pending s1,
                                   export_credentials_to_file io xe (clock_iso env) resolved password_to_use w))
                           else (Inr admin_user, pending s1, w)))
             else (case list_users d of
                     u # _ \<Rightarrow> (Inr u, s, w)
                   | [] \<Rightarrow> (Inl IndexError, s, w)))"

subsection \<open>Request and response models\<close>

record UserLoginRequest =
  login_username :: string
  login_password :: string

record UserRegisterRequest =
  reg_username :: string
  reg_password :: string
  reg_email :: string

record UserCreateRequest =
  new_username :: string
  new_password :: string
  new_email :: string
  new_role :: string
  new_permissions :: "string list option"

record UserUpdateRequest =
  upd_email :: "string option"
  upd_role :: "string option"
  upd_is_active :: "bool option"
  upd_password :: "string option"
  upd_permissions :: "string list option"

record UserResponse =
  resp_id :: int
  resp_username :: string
  resp_email :: string
  resp_role :: string
  resp_is_active :: bool
  resp_created_at :: string
  resp_last_login :: "string option"
  resp_permissions :: "string list"

record UserLoginResponse =
  session_token :: string
  login_name :: string
  login_role :: string
  permissions :: "string list"
  set_cookie :: string

definition valid_role :: "string \<Rightarrow> bool" where
  "valid_role r \<longleftrightarrow> r \<in> set [''admin'', ''operator'', ''viewer'']"

definition handle_char :: "char \<Rightarrow> bool" where
  "handle_char c \<longleftrightarrow> is_ascii_alpha c \<or> is_digit c \<or> c = CHR ''_'' \<or> c = CHR ''-''"

definition len_between :: "nat \<Rightarrow> nat \<Rightarrow> string \<Rightarrow> bool" where
  "len_between lo hi s \<longleftrightarrow> lo \<le> length s \<and> length s \<le> hi"

definition valid_login :: "UserLoginRequest \<Rightarrow> bool" where
  "valid_login r \<longleftrightarrow> len_between 1 64 (login_username r) \<and> len_between 1 128 (login_password r)"

definition valid_create :: "UserCreateRequest \<Rightarrow> bool" where
  "valid_create r \<longleftrightarrow>
     len_between 3 64 (new_username r) \<and> list_all handle_char (new_username r) \<and>
     len_between 4 128 (new_password r) \<and> length (new_email r) \<le> 128 \<and> valid_role (new_role r)"

text \<open>\<open>^[^@\s]+@[^@\s]+\.[^@\s]+$\<close>: one at sign, no white space, something before it, and a dot
  after it that is neither the first nor the last character of that part.\<close>

definition pattern_space :: "char \<Rightarrow> bool" where
  "pattern_space c \<longleftrightarrow> (9 \<le> ord c \<and> ord c \<le> 13) \<or> ord c = 32 \<or> ord c = 133 \<or> ord c = 160"

definition valid_email :: "string \<Rightarrow> bool" where
  "valid_email m \<longleftrightarrow>
     list_all (\<lambda>c. \<not> pattern_space c) m \<and>
     (case split_on (CHR ''@'') m of
        [a, b] \<Rightarrow> a \<noteq> [] \<and> b \<noteq> [] \<and> CHR ''.'' \<in> set (tl (butlast b))
      | _ \<Rightarrow> False)"

definition valid_register :: "UserRegisterRequest \<Rightarrow> bool" where
  "valid_register r \<longleftrightarrow>
     len_between 3 32 (reg_username r) \<and> list_all handle_char (reg_username r) \<and>
     len_between 8 128 (reg_password r) \<and> len_between 3 120 (reg_email r) \<and> valid_email (reg_email r)"

fun opt_all :: "('a \<Rightarrow> bool) \<Rightarrow> 'a option \<Rightarrow> bool" where
  "opt_all P None = True"
| "opt_all P (Some x) = P x"

definition valid_update :: "UserUpdateRequest \<Rightarrow> bool" where
  "valid_update r \<longleftrightarrow>
     opt_all (\<lambda>m. length m \<le> 128) (upd_email r) \<and> opt_all valid_role (upd_role r) \<and>
     opt_all (len_between 4 128) (upd_password r)"

definition user_response :: "db \<Rightarrow> UserRecord \<Rightarrow> UserResponse" where
  "user_response d u =
     \<lparr>resp_id = user_id u, resp_username = username u, resp_email = email u, resp_role = role u,
      resp_is_active = is_active u, resp_created_at = created_at u, resp_last_login = last_login u,
      resp_permissions = get_user_permissions d (user_id u)\<rparr>"

subsection \<open>Endpoints\<close>

definition get_bootstrap_credentials :: "app_state \<Rightarrow> (string option \<times> string option) result" where
  "get_bootstrap_credentials s =
     (if \<not> is_pending (bootstrap s) then
        Inl (HTTPException 404 ''System setup is complete. Bootstrap credentials are no longer available.'')
      else Inr (boot_username (bootstrap s), boot_password (bootstrap s)))"

definition acknowledge_bootstrap_credentials :: "app_state \<Rightarrow> unit result \<times> app_state" where
  "acknowledge_bootstrap_credentials s =
     (if \<not> is_pending (bootstrap s) then
        (Inl (HTTPException 409 ''Bootstrap has already been acknowledged. Nothing to confirm.''), s)
      else (Inr (), acknowledge_bootstrap s))"

definition check_login :: "auth_env \<Rightarrow> UserLoginRequest \<Rightarrow> UserRecord option \<Rightarrow> bool result" where
  "check_login env body user =
     (case user of
        None \<Rightarrow> Inr False
      | Some u \<Rightarrow>
          if \<not> is_active u then Inr False
          else verify_password (kdf_fn env) (login_password body) (salt u) (password_hash u))"

definition login_failure_reason :: "UserRecord option \<Rightarrow> string" where
  "login_failure_reason user =
     (case user of
        Some u \<Rightarrow> if \<not> is_active u then ''Account disabled'' else ''Invalid credentials''
      | None \<Rightarrow> ''Invalid credentials'')"

definition login ::
  "auth_env \<Rightarrow> http_request \<Rightarrow> UserLoginRequest \<Rightarrow> app_state \<Rightarrow> UserLoginResponse result \<times> app_state" where
  "login env req body s =
     (let d = database s;
          client_ip = get_client_ip req;
          agent = (case header req ''user-agent'' of None \<Rightarrow> ''Unknown'' | Some a \<Rightarrow> a);
          user = get_user_by_username d (login_username body)
      in case check_login env body user of
           Inl e \<Rightarrow> (Inl e, s)
         | Inr False \<Rightarrow>
             (let (_, d1) = record_login_audit (clock_iso env) (login_username body) client_ip agent ''FAILED''
                              (login_failure_reason user) d
              in (Inl (HTTPException 401 ''Invalid username or password.''), s\<lparr>database := d1\<rparr>))
         | Inr True \<Rightarrow>
             (let u = the user;
                  tok = generate_session_token (mac_fn env) (fresh_nonce env) (clock env) (username u)
                          (AdminPassword env) 86400;
                  (_, d1) = record_login_audit (clock_iso env) (username u) client_ip agent ''SUCCESS'' [] d;
                  d2 = update_user_last_login (user_id u) (clock_iso env) d1;
                  s1 = s\<lparr>database := d2\<rparr>;
                  s2 = (if is_pending (bootstrap s1) \<and> role u = ''admin'' then acknowledge_bootstrap s1 else s1)
              in (Inr \<lparr>session_token = tok, login_name = username u, login_role = role u,
                       permissions = get_user_permissions (database s2) (user_id u), set_cookie = tok\<rparr>, s2)))"

definition conflict_error :: "string \<Rightarrow> py_error" where
  "conflict_error name = HTTPException 409 (''Username '' @ in_quotes name @ '' already registered.'')"

definition not_found_error :: "int \<Rightarrow> py_error" where
  "not_found_error uid = HTTPException 404 (''User ID '' @ int_str uid @ '' not found.'')"

definition register ::
  "auth_env \<Rightarrow> UserRegisterRequest \<Rightarrow> app_state \<Rightarrow> UserResponse result \<times> app_state" where
  "register env body s =
     (let d = database s
      in case get_user_by_username d (reg_username body) of
           Some _ \<Rightarrow> (Inl (conflict_error (reg_username body)), s)
         | None \<Rightarrow>
             (let (pw_hash, slt) = hash_password (kdf_fn env) (fresh_salt env) (reg_password body) None;
                  (r, d1) = create_user (clock_iso env) (reg_username body) pw_hash slt (reg_email body)
                              ''viewer'' True d
              in case r of
                   Inl e \<Rightarrow> (Inl e, s\<lparr>database := d1\<rparr>)
                 | Inr u \<Rightarrow> (Inr (user_response d1 u), s\<lparr>database := d1\<rparr>)))"

definition get_me :: "auth_env \<Rightarrow> http_request \<Rightarrow> app_state \<Rightarrow> UserResponse result" where
  "get_me env req s =
     bind_result (get_current_user env (database s) req) (\<lambda>user. Inr (user_response (database s) user))"

definition get_login_audit_trail ::
  "auth_env \<Rightarrow> http_request \<Rightarrow> int \<Rightarrow> int \<Rightarrow> app_state \<Rightarrow> LoginAuditRecord list result" where
  "get_login_audit_trail env req limit offset s =
     bind_result (require_permission ''users:manage'' env (database s) req) (\<lambda>_.
       Inr (list_login_audits limit offset (database s)))"

definition list_registered_users ::
  "auth_env \<Rightarrow> http_request \<Rightarrow> app_state \<Rightarrow> UserResponse list result" where
  "list_registered_users env req s =
     bind_result (require_permission ''users:manage'' env (database s) req) (\<lambda>_.
       Inr (map (user_response (database s)) (list_users (database s))))"

text \<open>\<open>if req.permissions is not None: db.set_user_permissions(...)\<close>\<close>

definition override_permissions :: "int \<Rightarrow> string list option \<Rightarrow> db \<Rightarrow> unit result \<times> db" where
  "override_permissions uid perms d =
     (case perms of None \<Rightarrow> (Inr (), d) | Some ps \<Rightarrow> set_user_permissions uid ps d)"

definition create_new_user ::
  "auth_env \<Rightarrow> http_request \<Rightarrow> UserCreateRequest \<Rightarrow> app_state \<Rightarrow> UserResponse result \<times> app_state" where
  "create_new_user env req body s =
     (let d = database s
      in case require_permission ''users:manage'' env d req of
           Inl e \<Rightarrow> (Inl e, s)
         | Inr _ \<Rightarrow>
             (case get_user_by_username d (new_username body) of
                Some _ \<Rightarrow> (Inl (conflict_error (new_username body)), s)
              | None \<Rightarrow>
                  (let (pw_hash, slt) = hash_password (kdf_fn env) (fresh_salt env) (new_password body) None;
                       (r, d1) = create_user (clock_iso env) (new_username body) pw_hash slt (new_email body)
                                   (new_role body) True d
                   in case r of
                        Inl e \<Rightarrow> (Inl e, s\<lparr>database := d1\<rparr>)
                      | Inr u \<Rightarrow>
                          (let (r2, d2) = override_permissions (user_id u) (new_permissions body) d1
                           in case r2 of
                                Inl e \<Rightarrow> (Inl e, s\<lparr>database := d2\<rparr>)
                              | Inr _ \<Rightarrow> (Inr (user_response d2 u), s\<lparr>database := d2\<rparr>)))))"

text \<open>The digest and the salt of \<open>if req.password: ...\<close>\<close>

definition new_credentials :: "auth_env \<Rightarrow> string option \<Rightarrow> (string \<times> string) option" where
  "new_credentials env password =
     (case password of
        Some p \<Rightarrow> if p \<noteq> [] then Some (hash_password (kdf_fn env) (fresh_salt env) p None) else None
      | None \<Rightarrow> None)"

definition update_existing_user ::
  "auth_env \<Rightarrow> http_request \<Rightarrow> int \<Rightarrow> UserUpdateRequest \<Rightarrow> app_state \<Rightarrow> UserResponse result \<times> app_state" where
  "update_existing_user env req uid body s =
     (let d = database s
      in case require_permission ''users:manage'' env d req of
           Inl e \<Rightarrow> (Inl e, s)
         | Inr _ \<Rightarrow>
             (case get_user_by_id d uid of
                None \<Rightarrow> (Inl (not_found_error uid), s)
              | Some existing \<Rightarrow>
                  if is_active_admin existing \<and> upd_role body \<noteq> None \<and> upd_role body \<noteq> Some ''admin'' \<and>
                     count_active_admins d \<le> 1
                  then (Inl (HTTPException 400 ''Cannot demote the last remaining active administrator.''), s)
                  else if is_active_admin existing \<and> upd_is_active body = Some False \<and> count_active_admins d \<le> 1
                  then (Inl (HTTPException 400 ''Cannot deactivate the last remaining active administrator.''), s)
                  else
                    (let creds = new_credentials env (upd_password body);
                         (updated, d1) = update_user uid (upd_email body) (upd_role body) (upd_is_active body)
                                           (map_option fst creds) (map_option snd creds) d
                     in case updated of
                          None \<Rightarrow> (Inl (not_found_error uid), s\<lparr>database := d1\<rparr>)
                        | Some u \<Rightarrow>
                            (let (r2, d2) = override_permissions uid (upd_permissions body) d1
                             in case r2 of
                                  Inl e \<Rightarrow> (Inl e, s\<lparr>database := d2\<rparr>)
                                | Inr _ \<Rightarrow> (Inr (user_response d2 u), s\<lparr>database := d2\<rparr>)))))"

definition update_user_role ::
  "auth_env \<Rightarrow> http_request \<Rightarrow> int \<Rightarrow> string \<Rightarrow> app_state \<Rightarrow> UserResponse result \<times> app_state" where
  "update_user_role env req uid new_rl s =
     (let d = database s
      in case require_permission ''users:manage'' env d req of
           Inl e \<Rightarrow> (Inl e, s)
         | Inr _ \<Rightarrow>
             (case get_user_by_id d uid of
                None \<Rightarrow> (Inl (not_found_error uid), s)
              | Some existing \<Rightarrow>
                  if is_active_admin existing \<and> new_rl \<noteq> ''admin'' \<and> count_active_admins d \<le> 1
                  then (Inl (HTTPException 400 ''Cannot demote the last remaining active administrator.''), s)
                  else
                    (case update_user uid None (Some new_rl) None None None d of
                       (None, d1) \<Rightarrow> (Inl (not_found_error uid), s\<lparr>database := d1\<rparr>)
                     | (Some u, d1) \<Rightarrow> (Inr (user_response d1 u), s\<lparr>database := d1\<rparr>))))"

definition delete_existing_user ::
  "auth_env \<Rightarrow> http_request \<Rightarrow> int \<Rightarrow> app_state \<Rightarrow> unit result \<times> app_state" where
  "delete_existing_user env req uid s =
     (let d = database s
      in case require_permission ''users:manage'' env d req of
           Inl e \<Rightarrow> (Inl e, s)
         | Inr admin_user \<Rightarrow>
             if user_id admin_user = uid
             then (Inl (HTTPException 400 ''Cannot delete your own active administrator account.''), s)
             else
               (case get_user_by_id d uid of
                  None \<Rightarrow> (Inl (not_found_error uid), s)
                | Some existing \<Rightarrow>
                    if is_active_admin existing \<and> count_active_admins d \<le> 1
                    then (Inl (HTTPException 400 ''Cannot delete the last remaining active administrator.''), s)
                    else (case delete_user uid d of
                            (False, d1) \<Rightarrow> (Inl (not_found_error uid), s\<lparr>database := d1\<rparr>)
                          | (True, d1) \<Rightarrow> (Inr (), s\<lparr>database := d1\<rparr>))))"

subsection \<open>The administrator count\<close>

text \<open>What the account endpoints rely on of the store: an update or a removal of one user
  changes the number of active administrators by what happens to that user.\<close>

locale admin_store =
  fixes inv :: "'s \<Rightarrow> bool"
    and lookup :: "'s \<Rightarrow> int \<Rightarrow> UserRecord option"
    and admins :: "'s \<Rightarrow> nat"
    and updates :: "int \<Rightarrow> string option \<Rightarrow> bool option \<Rightarrow> 's \<Rightarrow> 's \<Rightarrow> bool"
    and removes :: "int \<Rightarrow> 's \<Rightarrow> 's \<Rightarrow> bool"
  assumes admins_updated: "inv s \<Longrightarrow> lookup s i = Some u \<Longrightarrow> updates i r a s s' \<Longrightarrow>
      admins s' + of_bool (is_active_admin u) =
      admins s + of_bool (coalesce r (role u) = ''admin'' \<and> coalesce a (is_active u))"
    and admins_removed: "inv s \<Longrightarrow> lookup s i = Some u \<Longrightarrow> removes i s s' \<Longrightarrow>
      admins s' + of_bool (is_active_admin u) = admins s"
begin

lemma guarded_update:
  assumes "inv s" "lookup s i = Some u" "updates i r a s s'" "1 \<le> admins s"
    and "\<not> (is_active_admin u \<and> r \<noteq> None \<and> r \<noteq> Some ''admin'' \<and> admins s \<le> 1)"
    and "\<not> (is_active_admin u \<and> a = Some False \<and> admins s \<le> 1)"
  shows "1 \<le> admins s'"
proof (cases "is_active_admin u \<and> \<not> (coalesce r (role u) = ''admin'' \<and> coalesce a (is_active u))")
  case True
  then have "2 \<le> admins s"
    using assms(4-6) by (auto simp: is_active_admin_def coalesce_def split: option.splits)
  then show ?thesis
    using admins_updated [OF assms(1-3)] True by auto
next
  case False
  then show ?thesis
    using admins_updated [OF assms(1-3)] assms(4)
    by (cases "is_active_admin u"; cases "coalesce r (role u) = ''admin'' \<and> coalesce a (is_active u)") auto
qed

lemma guarded_removal:
  assumes "inv s" "lookup s i = Some u" "removes i s s'" "1 \<le> admins s"
    and "\<not> (is_active_admin u \<and> admins s \<le> 1)"
  shows "1 \<le> admins s'"
  using admins_removed [OF assms(1-3)] assms(4,5) by (cases "is_active_admin u") auto

end

lemma length_filter_map_one:
  assumes "distinct (map key xs)" "x \<in> set xs" "key x = k"
  shows "length (filter P (map (\<lambda>y. if key y = k then f y else y) xs)) + of_bool (P x) =
    length (filter P xs) + of_bool (P (f x))"
  using assms
proof (induction xs)
  case (Cons y ys)
  show ?case
  proof (cases "x = y")
    case True
    then have "map (\<lambda>y. if key y = k then f y else y) ys = ys"
      using Cons.prems by (intro map_idI) (auto simp: rev_image_eqI)
    then show ?thesis
      using True Cons.prems(3) by simp
  next
    case False
    then have "key y \<noteq> k"
      using Cons.prems by (auto simp: rev_image_eqI)
    then show ?thesis
      using False Cons by auto
  qed
qed simp

lemma length_filter_remove_one:
  assumes "distinct (map key xs)" "x \<in> set xs" "key x = k"
  shows "length (filter P (filter (\<lambda>y. key y \<noteq> k) xs)) + of_bool (P x) = length (filter P xs)"
  using assms
proof (induction xs)
  case (Cons y ys)
  show ?case
  proof (cases "x = y")
    case True
    then have "filter (\<lambda>y. key y \<noteq> k) ys = ys"
      using Cons.prems by (intro filter_True) (auto simp: rev_image_eqI)
    then show ?thesis
      using True Cons.prems(3) by simp
  next
    case False
    then have "key y \<noteq> k"
      using Cons.prems by (auto simp: rev_image_eqI)
    then show ?thesis
      using False Cons by auto
  qed
qed simp

lemma count_admins_updated:
  assumes "db_inv d" "get_user_by_id d i = Some u"
  shows "count_active_admins (snd (update_user i m r a h sl d)) + of_bool (is_active_admin u) =
    count_active_admins d + of_bool (coalesce r (role u) = ''admin'' \<and> coalesce a (is_active u))"
proof -
  obtain x where x: "x \<in> set (rows (users d))" "user_id x = i" "u = row_to_user x"
    using get_user_by_id_SomeD [OF assms(2)] by blast
  have dist: "distinct (map user_id (rows (users d)))"
    using assms(1) by (auto simp: db_inv_def intro: table_ok_distinct)
  have "users (snd (update_user i m r a h sl d)) = users (map_user i (updated_user m r a h sl) d)"
    using update_user_users [OF assms(2), of m r a h sl] by (metis prod.collapse)
  then show ?thesis
    using length_filter_map_one [OF dist x(1,2), of is_active_admin "updated_user m r a h sl"] x(3)
    by (simp add: count_active_admins_def map_user_frame is_active_admin_def)
qed

lemma count_admins_removed:
  assumes "db_inv d" "get_user_by_id d i = Some u"
  shows "count_active_admins (snd (delete_user i d)) + of_bool (is_active_admin u) = count_active_admins d"
proof -
  obtain x where x: "x \<in> set (rows (users d))" "user_id x = i" "u = row_to_user x"
    using get_user_by_id_SomeD [OF assms(2)] by blast
  have dist: "distinct (map user_id (rows (users d)))"
    using assms(1) by (auto simp: db_inv_def intro: table_ok_distinct)
  then show ?thesis
    using length_filter_remove_one [OF dist x(1,2), of is_active_admin] x(3)
    by (simp add: count_active_admins_def delete_user_def delete_permissions_frame)
qed

interpretation accounts: admin_store db_inv get_user_by_id count_active_admins
  "\<lambda>i r a d d'. \<exists>m h sl. d' = snd (update_user i m r a h sl d)"
  "\<lambda>i d d'. d' = snd (delete_user i d)"
  by unfold_locales (metis count_admins_updated, metis count_admins_removed)

subsection \<open>What the endpoints keep\<close>

text \<open>The well-formed states: the schema's invariant, at least one active administrator, only
  the three roles, no empty user name, and no credential kept once the bootstrap is sealed.\<close>

definition user_ok :: "UserRecord \<Rightarrow> bool" where
  "user_ok u \<longleftrightarrow> valid_role (role u) \<and> username u \<noteq> []"

definition app_inv :: "app_state \<Rightarrow> bool" where
  "app_inv s \<longleftrightarrow>
     db_inv (database s) \<and> 1 \<le> count_active_admins (database s) \<and>
     list_all user_ok (rows (users (database s))) \<and>
     (\<not> is_pending (bootstrap s) \<longrightarrow> boot_password (bootstrap s) = None)"

definition db_ok :: "db \<Rightarrow> bool" where
  "db_ok d \<longleftrightarrow> db_inv d \<and> 1 \<le> count_active_admins d \<and> list_all user_ok (rows (users d))"

lemma app_inv_db: "app_inv s \<longleftrightarrow> db_ok (database s) \<and> (\<not> is_pending (bootstrap s) \<longrightarrow> boot_password (bootstrap s) = None)"
  by (auto simp: app_inv_def db_ok_def)

lemma app_inv_database [simp]: "app_inv s \<Longrightarrow> db_ok d \<Longrightarrow> app_inv (s\<lparr>database := d\<rparr>)"
  by (simp add: app_inv_db)

text \<open>Operations that leave the user table alone.\<close>

lemma db_ok_same_users: "db_ok d \<Longrightarrow> db_inv d' \<Longrightarrow> users d' = users d \<Longrightarrow> db_ok d'"
  by (simp add: db_ok_def count_active_admins_def)

lemma db_ok_set_user_permissions: "db_ok d \<Longrightarrow> db_ok (snd (set_user_permissions i ps d))"
  by (rule db_ok_same_users [where d = d]) (auto simp: db_ok_def set_user_permissions_inv)

lemma db_ok_override: "db_ok d \<Longrightarrow> db_ok (snd (override_permissions i po d))"
  by (simp add: override_permissions_def db_ok_set_user_permissions split: option.split)

lemma db_ok_audit: "db_ok d \<Longrightarrow> db_ok (snd (record_login_audit t n ip ag st rs d))"
  by (rule db_ok_same_users [where d = d])
     (auto simp: db_ok_def record_login_audit_inv, simp add: record_login_audit_def)

lemma db_ok_set_meta: "db_ok d \<Longrightarrow> db_ok (set_meta k v d)"
  by (rule db_ok_same_users [where d = d]) (auto simp: db_ok_def set_meta_inv, simp add: set_meta_def)

lemma db_ok_last_login:
  assumes "db_ok d"
  shows "db_ok (update_user_last_login i ts d)"
proof -
  let ?g = "\<lambda>u. if user_id u = i then u\<lparr>last_login := Some ts\<rparr> else u"
  have "length (filter is_active_admin (map ?g us)) = length (filter is_active_admin us)"
    "list_all user_ok (map ?g us) = list_all user_ok us" for us
    by (induction us) (auto simp: is_active_admin_def user_ok_def)
  then show ?thesis
    using assms by (simp add: db_ok_def update_user_last_login_inv)
       (simp add: count_active_admins_def update_user_last_login_def map_user_frame)
qed

lemma db_ok_create:
  assumes "db_ok d" "get_user_by_username d n = None" "valid_role r" "n \<noteq> []"
  shows "db_ok (snd (create_user t n h sl m r a d))"
proof -
  have inv: "db_inv d"
    using assms(1) by (simp add: db_ok_def)
  note free = create_user_free [OF inv assms(2), of t h sl m r a]
  have "db_inv (snd (create_user t n h sl m r a d))"
    using create_user_inv [OF inv] by (metis prod.collapse)
  moreover have "rows (users (snd (create_user t n h sl m r a d))) =
      rows (users d) @ [new_user t n h sl m r a (seq (users d) + 1)]"
    by (simp add: free insert_permissions_frame table_insert_def)
  ultimately show ?thesis
    using assms by (auto simp: db_ok_def count_active_admins_def user_ok_def)
qed

lemma db_ok_update:
  assumes "db_ok d" "get_user_by_id d i = Some u" "opt_all valid_role r"
    and "\<not> (is_active_admin u \<and> r \<noteq> None \<and> r \<noteq> Some ''admin'' \<and> count_active_admins d \<le> 1)"
    and "\<not> (is_active_admin u \<and> a = Some False \<and> count_active_admins d \<le> 1)"
  shows "db_ok (snd (update_user i m r a h sl d))"
proof -
  let ?d = "snd (update_user i m r a h sl d)"
  have inv: "db_inv d" and one: "1 \<le> count_active_admins d"
    using assms(1) by (simp_all add: db_ok_def)
  have "db_inv ?d"
    using update_user_inv [OF inv] by (metis prod.collapse)
  moreover have "1 \<le> count_active_admins ?d"
    by (rule accounts.guarded_update [OF inv assms(2) _ one assms(4,5)]) blast
  moreover have "users ?d = users (map_user i (updated_user m r a h sl) d)"
    using update_user_users [OF assms(2)] by (metis prod.collapse)
  then have "list_all user_ok (rows (users ?d))"
    using assms(1,3) by (auto simp: db_ok_def map_user_frame list_all_iff user_ok_def coalesce_def split: option.split)
  ultimately show ?thesis
    by (simp add: db_ok_def)
qed

lemma db_ok_delete:
  assumes "db_ok d" "get_user_by_id d i = Some u" "\<not> (is_active_admin u \<and> count_active_admins d \<le> 1)"
  shows "db_ok (snd (delete_user i d))"
proof -
  have "db_inv (snd (delete_user i d))"
    using assms(1) by (simp add: db_ok_def delete_user_inv)
  moreover have "1 \<le> count_active_admins (snd (delete_user i d))"
    using accounts.guarded_removal [OF _ assms(2) refl _ assms(3)] assms(1) by (simp add: db_ok_def)
  moreover have "list_all user_ok (rows (users (snd (delete_user i d))))"
    using assms(1) by (auto simp: db_ok_def delete_user_def delete_permissions_frame list_all_iff)
  ultimately show ?thesis
    by (simp add: db_ok_def)
qed

lemma login_keeps: "app_inv s \<Longrightarrow> app_inv (snd (login env req body s))"
proof -
  assume inv: "app_inv s"
  then have d: "db_ok (database s)"
    by (simp add: app_inv_db)
  have ack: "app_inv t \<Longrightarrow> app_inv (acknowledge_bootstrap t)" for t
    by (simp add: app_inv_db acknowledge_bootstrap_def db_ok_set_meta)
  show ?thesis
    using inv db_ok_audit [OF d] db_ok_last_login [OF db_ok_audit [OF d]]
    by (auto simp: login_def Let_def split_beta ack split: sum.split bool.split)
qed

lemma register_keeps: "app_inv s \<Longrightarrow> valid_register body \<Longrightarrow> app_inv (snd (register env body s))"
proof -
  assume inv: "app_inv s" and body: "valid_register body"
  have ok: "valid_role ''viewer''" "reg_username body \<noteq> []"
    using body by (auto simp: valid_role_def valid_register_def len_between_def)
  have d: "db_ok (database s)"
    using inv by (simp add: app_inv_db)
  show ?thesis
    using inv db_ok_create [OF d _ ok]
    by (auto simp: register_def Let_def split_beta split: option.split sum.split)
qed

lemma create_new_user_keeps:
  "app_inv s \<Longrightarrow> valid_create body \<Longrightarrow> app_inv (snd (create_new_user env req body s))"
proof -
  assume inv: "app_inv s" and body: "valid_create body"
  have ok: "valid_role (new_role body)" "new_username body \<noteq> []"
    using body by (auto simp: valid_create_def len_between_def)
  have d: "db_ok (database s)"
    using inv by (simp add: app_inv_db)
  show ?thesis
    using inv db_ok_create [OF d _ ok] db_ok_override [OF db_ok_create [OF d _ ok]]
    by (auto simp: create_new_user_def Let_def split_beta split: option.split sum.split)
qed

lemma update_existing_user_keeps:
  "app_inv s \<Longrightarrow> valid_update body \<Longrightarrow> app_inv (snd (update_existing_user env req uid body s))"
proof -
  assume inv: "app_inv s" and body: "valid_update body"
  have ok: "opt_all valid_role (upd_role body)"
    using body by (simp add: valid_update_def)
  have d: "db_ok (database s)"
    using inv by (simp add: app_inv_db)
  show ?thesis
    using inv db_ok_update [OF d _ ok] db_ok_override [OF db_ok_update [OF d _ ok]]
    unfolding update_existing_user_def Let_def split_beta by (auto split: option.split sum.split)
qed

lemma update_user_role_keeps:
  "app_inv s \<Longrightarrow> valid_role r \<Longrightarrow> app_inv (snd (update_user_role env req uid r s))"
proof -
  assume inv: "app_inv s" and r: "valid_role r"
  have d: "db_ok (database s)"
    using inv by (simp add: app_inv_db)
  have "db_ok d1" if "get_user_by_id (database s) uid = Some u"
    "\<not> (is_active_admin u \<and> r \<noteq> ''admin'' \<and> count_active_admins (database s) \<le> 1)"
    "update_user uid None (Some r) None None None (database s) = (x, d1)" for u x d1
    using db_ok_update [OF d that(1), of "Some r" None None None None] r that(2,3) by simp
  then show ?thesis
    using inv unfolding update_user_role_def Let_def by (auto split: option.split sum.split prod.split)
qed

lemma delete_existing_user_keeps: "app_inv s \<Longrightarrow> app_inv (snd (delete_existing_user env req uid s))"
proof -
  assume inv: "app_inv s"
  have d: "db_ok (database s)"
    using inv by (simp add: app_inv_db)
  have "db_ok d1" if "get_user_by_id (database s) uid = Some u"
    "\<not> (is_active_admin u \<and> count_active_admins (database s) \<le> 1)"
    "delete_user uid (database s) = (x, d1)" for u x d1
    using db_ok_delete [OF d that(1,2)] that(3) by simp
  then show ?thesis
    using inv unfolding delete_existing_user_def Let_def by (auto split: option.split sum.split prod.split bool.split)
qed

lemma acknowledge_keeps: "app_inv s \<Longrightarrow> app_inv (snd (acknowledge_bootstrap_credentials s))"
  by (simp add: acknowledge_bootstrap_credentials_def acknowledge_bootstrap_def app_inv_db db_ok_set_meta)

subsection \<open>Sequences of requests\<close>

text \<open>One request to an account endpoint, from any client, with any credentials, at any time.\<close>

inductive api_step :: "app_state \<Rightarrow> app_state \<Rightarrow> bool" where
  step_ack: "api_step s (snd (acknowledge_bootstrap_credentials s))"
| step_login: "valid_login body \<Longrightarrow> api_step s (snd (login env req body s))"
| step_register: "valid_register body \<Longrightarrow> api_step s (snd (register env body s))"
| step_create: "valid_create body \<Longrightarrow> api_step s (snd (create_new_user env req body s))"
| step_update: "valid_update body \<Longrightarrow> api_step s (snd (update_existing_user env req uid body s))"
| step_role: "valid_role r \<Longrightarrow> api_step s (snd (update_user_role env req uid r s))"
| step_delete: "api_step s (snd (delete_existing_user env req uid s))"

inductive_cases api_stepE: "api_step s s'"

lemma api_step_inv: "api_step s s' \<Longrightarrow> app_inv s \<Longrightarrow> app_inv s'"
  by (erule api_stepE)
     (simp_all add: acknowledge_keeps login_keeps register_keeps create_new_user_keeps
        update_existing_user_keeps update_user_role_keeps delete_existing_user_keeps)

lemma api_steps_inv: "api_step\<^sup>*\<^sup>* s s' \<Longrightarrow> app_inv s \<Longrightarrow> app_inv s'"
  by (induction rule: rtranclp_induct) (auto dest: api_step_inv)

lemma login_bootstrap:
  "bootstrap (snd (login env req body s)) = bootstrap s \<or> \<not> is_pending (bootstrap (snd (login env req body s)))"
  by (auto simp: login_def Let_def split_beta acknowledge_bootstrap_def split: sum.split bool.split)

lemma handlers_bootstrap:
  "bootstrap (snd (register env b1 s)) = bootstrap s"
  "bootstrap (snd (create_new_user env req b2 s)) = bootstrap s"
  "bootstrap (snd (update_existing_user env req uid b3 s)) = bootstrap s"
  "bootstrap (snd (update_user_role env req uid r s)) = bootstrap s"
  "bootstrap (snd (delete_existing_user env req uid s)) = bootstrap s"
  by (simp_all add: register_def create_new_user_def update_existing_user_def update_user_role_def
      delete_existing_user_def Let_def split_beta split: option.split sum.split bool.split)

lemma api_step_sealed: "api_step s s' \<Longrightarrow> \<not> is_pending (bootstrap s) \<Longrightarrow> \<not> is_pending (bootstrap s')"
proof (erule api_stepE)
  fix body env req
  assume "\<not> is_pending (bootstrap s)" "s' = snd (login env req body s)"
  then show ?thesis
    using login_bootstrap [of env req body s] by auto
qed (simp_all add: handlers_bootstrap acknowledge_bootstrap_credentials_def)

lemma api_steps_sealed:
  "api_step\<^sup>*\<^sup>* s s' \<Longrightarrow> \<not> is_pending (bootstrap s) \<Longrightarrow> \<not> is_pending (bootstrap s')"
  by (induction rule: rtranclp_induct) (auto dest: api_step_sealed)

subsection \<open>The audit trail\<close>

definition audit_grows :: "db \<Rightarrow> db \<Rightarrow> bool" where
  "audit_grows d d' \<longleftrightarrow> (\<exists>new. rows (login_audit d') = rows (login_audit d) @ new)"

lemma audit_grows_refl [simp]: "audit_grows d d"
  by (simp add: audit_grows_def)

lemma audit_grows_trans: "audit_grows d1 d2 \<Longrightarrow> audit_grows d2 d3 \<Longrightarrow> audit_grows d1 d3"
  by (auto simp: audit_grows_def)

lemma audit_frame [db_simps]:
  "login_audit (snd (create_user t n h sl m r a d)) = login_audit d"
  "login_audit (snd (update_user i m' r' a' h' s' d)) = login_audit d"
  "login_audit (snd (delete_user i d)) = login_audit d"
  "login_audit (snd (set_user_permissions i ps d)) = login_audit d"
  "login_audit (snd (override_permissions i po d)) = login_audit d"
  "login_audit (update_user_last_login i ts d) = login_audit d"
  "login_audit (set_meta k v d) = login_audit d"
  by (simp_all add: create_user_def update_user_unfold delete_user_def set_user_permissions_def
      override_permissions_def update_user_last_login_def set_meta_def Let_def insert_permissions_frame
      delete_permissions_frame map_user_frame split: option.split)

lemma login_audit_rows:
  "\<exists>new. rows (login_audit (database (snd (login env req body s)))) = rows (login_audit (database s)) @ new"
  by (auto simp: login_def Let_def split_beta acknowledge_bootstrap_def audit_frame record_login_audit_def
      table_insert_def split: sum.split bool.split)

lemma handlers_audit:
  "login_audit (database (snd (register env b1 s))) = login_audit (database s)"
  "login_audit (database (snd (create_new_user env req b2 s))) = login_audit (database s)"
  "login_audit (database (snd (update_existing_user env req uid b3 s))) = login_audit (database s)"
  "login_audit (database (snd (update_user_role env req uid r s))) = login_audit (database s)"
  "login_audit (database (snd (delete_existing_user env req uid s))) = login_audit (database s)"
  by (simp_all add: register_def create_new_user_def update_existing_user_def update_user_role_def
      delete_existing_user_def Let_def split_beta audit_frame split: option.split sum.split bool.split)

lemma api_step_audit:
  assumes "api_step s s'"
  shows "audit_grows (database s) (database s')"
  using assms
proof cases
  case (step_login body env req)
  then show ?thesis
    using login_audit_rows [of env req body s] by (simp add: audit_grows_def)
qed (simp_all add: audit_grows_def handlers_audit acknowledge_bootstrap_credentials_def
      acknowledge_bootstrap_def audit_frame)

lemma api_steps_audit: "api_step\<^sup>*\<^sup>* s s' \<Longrightarrow> audit_grows (database s) (database s')"
  by (induction rule: rtranclp_induct) (auto intro: audit_grows_trans api_step_audit)

subsection \<open>Callers\<close>

lemma active_user_SomeD:
  "active_user d n = Some u \<Longrightarrow> is_active u \<and> username u = n \<and> get_user_by_username d n = Some u"
  by (auto simp: active_user_def get_user_by_username_def split: option.splits if_splits dest!: find_Some_in)

lemma loopback_user_active: "is_active (loopback_user env d)"
  by (auto simp: loopback_user_def split: option.split dest: active_user_SomeD)

text \<open>A caller is a loopback client without credentials, the holder of the administrator
  password, or the holder of a verified token; the account behind it is active.\<close>

lemma get_current_user_cases:
  assumes "get_current_user env d req = Inr u"
  obtains (loopback) "get_client_ip req \<in> set loopback_names" "u = loopback_user env d"
      "request_token req = None \<or> request_token req = Some []"
  | (basic) "active_user d ''admin'' = Some u" "\<exists>enc. basic_credentials enc = Some (''admin'', AdminPassword env)"
  | (bearer) t where "request_token req = Some t" "active_user d (username u) = Some u"
      "verify_session_token (mac_fn env) (clock env) t (AdminPassword env) = Inr (Some (username u))"
proof -
  let ?h = "case header req ''authorization'' of None \<Rightarrow> [] | Some h \<Rightarrow> h"
  define b where "b = (if request_token req = None \<and> startswith ?h ''Basic ''
      then basic_user env d (strip (drop 6 ?h)) else None)"
  have eq: "(case b of Some u \<Rightarrow> Inr u | None \<Rightarrow>
      (case request_token req of
         Some token \<Rightarrow> if token \<noteq> [] then user_of_token env d token else anonymous_user env d req
       | None \<Rightarrow> anonymous_user env d req)) = Inr u"
    using assms by (simp add: get_current_user_def Let_def b_def)
  have anon: "anonymous_user env d req = Inr u \<Longrightarrow> get_client_ip req \<in> set loopback_names \<and> u = loopback_user env d"
    by (simp add: anonymous_user_def split: if_splits)
  show ?thesis
  proof (cases b)
    case (Some v)
    then have "basic_user env d (strip (drop 6 ?h)) = Some u"
      using eq by (simp add: b_def split: if_splits)
    then obtain p where "basic_credentials (strip (drop 6 ?h)) = Some (''admin'', p)" "p = AdminPassword env"
      "active_user d ''admin'' = Some u"
      by (auto simp: basic_user_def simp del: drop_Suc_Cons split: option.splits if_splits prod.splits)
    then show ?thesis
      by (intro basic) blast+
  next
    case None
    show ?thesis
    proof (cases "request_token req = None \<or> request_token req = Some []")
      case True
      then show ?thesis
        using eq None anon loopback by auto
    next
      case False
      then obtain t where t: "request_token req = Some t" "user_of_token env d t = Inr u"
        using eq None by (auto split: option.splits if_splits)
      then obtain n where n: "verify_session_token (mac_fn env) (clock env) t (AdminPassword env) = Inr (Some n)"
        "active_user d n = Some u"
        by (auto simp: user_of_token_def bind_result_Inr_iff split: option.splits)
      then have "n = username u"
        using active_user_SomeD by blast
      then show ?thesis
        using t n bearer by blast
    qed
  qed
qed

lemma current_user_active: "get_current_user env d req = Inr u \<Longrightarrow> is_active u"
  by (erule get_current_user_cases) (auto simp: loopback_user_active dest: active_user_SomeD)

lemma remote_without_token:
  assumes "get_client_ip req \<notin> set loopback_names" "request_token req = None"
    and "\<not> startswith (case header req ''authorization'' of None \<Rightarrow> [] | Some h \<Rightarrow> h) ''Basic ''"
  shows "get_current_user env d req = Inl (HTTPException 401 ''Authentication credentials required.'')"
  using assms by (simp add: get_current_user_def anonymous_user_def)

subsection \<open>Logging in\<close>

definition audit_entry :: "UserLoginRequest \<Rightarrow> string \<Rightarrow> db \<Rightarrow> db \<Rightarrow> bool" where
  "audit_entry body st d d' \<longleftrightarrow>
     (\<exists>a. rows (login_audit d') = rows (login_audit d) @ [a] \<and> audit_status a = st \<and>
          audit_username a = login_username body)"

lemma username_of_lookup: "get_user_by_username d n = Some u \<Longrightarrow> username u = n"
  by (auto simp: get_user_by_username_def dest!: find_Some_in)

lemma audit_entry_record:
  "audit_entry body st d (snd (record_login_audit t (login_username body) ip ag st rs d))"
  by (simp add: audit_entry_def record_login_audit_def table_insert_def)

lemma login_refused:
  assumes "login env req body s = (Inl e, s')"
  shows "users (database s') = users (database s) \<and> bootstrap s' = bootstrap s \<and>
    (e = TypeError \<and> s' = s \<or>
     e = HTTPException 401 ''Invalid username or password.'' \<and> audit_entry body ''FAILED'' (database s) (database s'))"
proof -
  have "check_login env body x = Inl f \<Longrightarrow> f = TypeError" for x f
    by (auto simp: check_login_def verify_password_def compare_digest_def split: option.splits if_splits)
  then show ?thesis
    using assms audit_entry_record [of body "''FAILED''" "database s"]
    by (auto simp: login_def Let_def split_beta split: sum.splits bool.splits if_splits)
       (simp_all add: record_login_audit_def)
qed

lemma login_granted:
  assumes "login env req body s = (Inr resp, s')"
  shows "\<exists>u. get_user_by_username (database s) (login_username body) = Some u \<and> is_active u \<and>
    verify_password (kdf_fn env) (login_password body) (salt u) (password_hash u) = Inr True \<and>
    login_name resp = username u \<and> login_role resp = role u \<and>
    session_token resp = generate_session_token (mac_fn env) (fresh_nonce env) (clock env) (username u)
      (AdminPassword env) 86400 \<and>
    audit_entry body ''SUCCESS'' (database s) (database s')"
proof -
  obtain u where u: "get_user_by_username (database s) (login_username body) = Some u" "is_active u"
    "verify_password (kdf_fn env) (login_password body) (salt u) (password_hash u) = Inr True"
    using assms
    by (auto simp: login_def Let_def split_beta check_login_def split: sum.splits bool.splits option.splits if_splits)
  have "check_login env body (Some u) = Inr True"
    using u by (simp add: check_login_def)
  then show ?thesis
    using assms u audit_entry_record [of body "''SUCCESS''" "database s"] username_of_lookup [OF u(1)]
    by (auto simp: login_def Let_def split_beta audit_entry_def acknowledge_bootstrap_def audit_frame)
qed

lemma login_succeeds:
  "check_login env body (get_user_by_username (database s) (login_username body)) = Inr True \<Longrightarrow>
     \<exists>resp s'. login env req body s = (Inr resp, s')"
  by (simp add: login_def Let_def split_beta)

lemma bearer_header_token:
  assumes "header req ''authorization'' = Some (''Bearer '' @ generate_session_token m n t u key ttl)"
  shows "request_token req = Some (generate_session_token m n t u key ttl)"
  using assms by (simp add: request_token_def startswith_def)

lemma issued_token_authenticates:
  assumes "header req ''authorization'' =
      Some (''Bearer '' @ generate_session_token (mac_fn env) nonce t0 name (AdminPassword env) ttl)"
    and "clock env \<le> of_int (py_trunc t0 + ttl)" "name \<noteq> []" "active_user d name = Some u"
  shows "get_current_user env d req = Inr u"
  using assms(2-4) bearer_header_token [OF assms(1)]
  by (simp add: get_current_user_def user_of_token_def verify_generated)

lemma login_then_request:
  assumes "app_inv s" "login env req body s = (Inr resp, s')"
    and "header req2 ''authorization'' = Some (''Bearer '' @ session_token resp)"
    and "mac_fn env2 = mac_fn env" "AdminPassword env2 = AdminPassword env"
    and "clock env2 \<le> of_int (py_trunc (clock env) + 86400)"
    and "active_user d2 (login_username body) = Some u"
  shows "get_current_user env2 d2 req2 = Inr u"
proof -
  obtain v where v: "get_user_by_username (database s) (login_username body) = Some v"
    "session_token resp = generate_session_token (mac_fn env) (fresh_nonce env) (clock env) (username v)
      (AdminPassword env) 86400"
    using login_granted [OF assms(2)] by blast
  have "username v = login_username body"
    by (rule username_of_lookup [OF v(1)])
  moreover have "username v \<noteq> []"
    using v(1) assms(1)
    by (auto simp: app_inv_def get_user_by_username_def list_all_iff user_ok_def dest!: find_Some_in)
  ultimately show ?thesis
    using issued_token_authenticates [of req2 env2 "fresh_nonce env" "clock env" "username v" 86400 d2 u]
      assms(3-7) v(2) by simp
qed

subsection \<open>Registering\<close>

lemma create_user_others:
  assumes "db_inv d" "get_user_by_username d n = None" "create_user t n h sl m r a d = (Inr u, d')"
    and "i \<noteq> user_id u"
  shows "get_user_by_id d' i = get_user_by_id d i"
proof -
  have "u = new_user t n h sl m r a (seq (users d) + 1)"
    "users d' = table_insert (new_user t n h sl m r a) (users d)"
    using assms(3) create_user_free [OF assms(1,2), of t h sl m r a] by (auto simp: insert_permissions_frame)
  then show ?thesis
    using assms(4) by (simp add: get_user_by_id_def table_insert_def find_append split: option.split)
qed

lemma viewer_permissions: "sort (default_perms ''viewer'') = [''feedback:submit'', ''logs:view'']"
  by (simp add: default_perms_cases)

lemma register_outcome:
  assumes "app_inv s" "register env body s = (Inr resp, s')"
  shows "resp_username resp = reg_username body \<and> resp_role resp = ''viewer'' \<and>
    resp_permissions resp = [''feedback:submit'', ''logs:view''] \<and>
    get_user_by_id (database s) (resp_id resp) = None \<and>
    (\<forall>i. i \<noteq> resp_id resp \<longrightarrow> get_user_by_id (database s') i = get_user_by_id (database s) i) \<and>
    count_active_admins (database s') = count_active_admins (database s)"
proof -
  let ?d = "database s"
  have inv: "db_inv ?d"
    using assms(1) by (simp add: app_inv_def)
  have free: "get_user_by_username ?d (reg_username body) = None"
    using assms(2) by (auto simp: register_def Let_def split: option.splits)
  obtain h sl where hs: "hash_password (kdf_fn env) (fresh_salt env) (reg_password body) None = (h, sl)"
    by fastforce
  let ?u = "new_user (clock_iso env) (reg_username body) h sl (reg_email body) ''viewer'' True (seq (users ?d) + 1)"
  obtain d' where c: "create_user (clock_iso env) (reg_username body) h sl (reg_email body) ''viewer'' True ?d = (Inr ?u, d')"
    using create_user_free [OF inv free] by blast
  have out: "resp = user_response d' ?u" "database s' = d'"
    using assms(2) free hs c by (auto simp: register_def Let_def)
  have "rows (users d') = rows (users ?d) @ [?u]"
    using create_user_free [OF inv free, of "clock_iso env" h sl "reg_email body" "''viewer''" True] c
    by (auto simp: insert_permissions_frame table_insert_def)
  then have "count_active_admins d' = count_active_admins ?d"
    by (simp add: count_active_admins_def is_active_admin_def)
  moreover have "get_user_by_id ?d (seq (users ?d) + 1) = None"
    using inv by (simp add: get_user_by_id_def db_inv_def find_fresh_id)
  ultimately show ?thesis
    using out create_user_others [OF inv free c] create_user_permissions [OF inv free c] viewer_permissions
    by (simp add: user_response_def)
qed

lemma register_conflict:
  "get_user_by_username (database s) (reg_username body) \<noteq> None \<Longrightarrow>
     register env body s = (Inl (conflict_error (reg_username body)), s)"
  by (auto simp: register_def Let_def)

subsection \<open>First start\<close>

lemma bootstrap_fresh:
  assumes "db_inv (database s)" "count_users (database s) = 0"
    and "\<not> is_pending (bootstrap s) \<longrightarrow> boot_password (bootstrap s) = None"
    and "bootstrap_admin_user env io xe gen pw ep (s, w) = (Inr u, s', w')"
  shows "app_inv s' \<and> username u = ''admin'' \<and> is_active_admin u"
proof -
  let ?d = "database s"
  have rows: "rows (users ?d) = []"
    using assms(2) by (simp add: count_users_def)
  then have free: "get_user_by_username ?d ''admin'' = None"
    by (simp add: get_user_by_username_def)
  obtain p h sl where hs: "(if pw = None \<or> pw = Some [] then gen else the pw) = p"
    "hash_password (kdf_fn env) (fresh_salt env) p None = (h, sl)"
    by fastforce
  let ?u = "new_user (clock_iso env) ''admin'' h sl ''admin@localhost'' ''admin'' True (seq (users ?d) + 1)"
  obtain d' where c: "create_user (clock_iso env) ''admin'' h sl ''admin@localhost'' ''admin'' True ?d = (Inr ?u, d')"
    using create_user_free [OF assms(1) free] by blast
  have "rows (users d') = [?u]"
    using create_user_free [OF assms(1) free, of "clock_iso env" h sl "''admin@localhost''" "''admin''" True] c rows
    by (auto simp: insert_permissions_frame table_insert_def)
  then have "db_ok d'"
    using create_user_inv [OF assms(1) c]
    by (simp add: db_ok_def count_active_admins_def is_active_admin_def user_ok_def valid_role_def)
  then have "app_inv (s\<lparr>database := d'\<rparr>)" "app_inv (set_bootstrap_pending n q (s\<lparr>database := d'\<rparr>))" for n q
    using assms(3) by (simp_all add: app_inv_db set_bootstrap_pending_def)
  moreover have "u = ?u" "s' = s\<lparr>database := d'\<rparr> \<or> (\<exists>n q. s' = set_bootstrap_pending n q (s\<lparr>database := d'\<rparr>))"
    using assms(2,4) free hs c
    by (auto simp: bootstrap_admin_user_def Let_def split: if_splits sum.splits)
  ultimately show ?thesis
    by (auto simp: is_active_admin_def)
qed

text \<open>Files that appear are private: anything new on the disk has mode \<open>0o600\<close>.\<close>

definition private_since :: "world \<Rightarrow> disk \<Rightarrow> bool" where
  "private_since w0 fs \<longleftrightarrow>
     (\<forall>q f. dict_get fs q = Some f \<longrightarrow> file_at w0 q = Some f \<or> f_mode f = 384)"

definition secure :: "world \<Rightarrow> world \<Rightarrow> bool" where
  "secure w0 w \<longleftrightarrow> private_since w0 (files w) \<and> extends (private_since w0) w0 w"

lemma secure_refl: "secure w w"
  by (simp add: secure_def private_since_def file_at_def)

lemma secure_observe: "secure w0 w \<Longrightarrow> private_since w0 fs \<Longrightarrow> secure w0 (observe fs w)"
  by (auto simp: secure_def observe_def extends_def)

lemma secure_put: "secure w0 w \<Longrightarrow> f_mode f = 384 \<Longrightarrow> secure w0 (put_file p f w)"
  unfolding put_file_def by (rule secure_observe) (auto simp: secure_def private_since_def)

lemma secure_unlink: "secure w0 w \<Longrightarrow> secure w0 (unlink_file p w)"
  unfolding unlink_file_def by (rule secure_observe) (auto simp: secure_def private_since_def dict_get_filter)

lemma secure_replace:
  assumes "secure w0 w" "file_at w src = Some f" "f_mode f = 384"
  shows "secure w0 (replace_file src dst w)"
proof -
  have "private_since w0 (dict_set dst f (dict_filter (\<lambda>q. q \<noteq> src) (files w)))"
    using assms by (auto simp: secure_def private_since_def dict_get_filter)
  then show ?thesis
    using assms(1,2) secure_observe by (simp add: replace_file_def file_at_def)
qed

lemma secure_stage: "secure w0 w \<Longrightarrow> secure w0 (snd (stage_tmp io tmp raw 384 w))"
  by (auto simp: stage_tmp_def Let_def intro!: secure_put)

lemma secure_try_unlink: "secure w0 w \<Longrightarrow> secure w0 (try_unlink io w p)"
  by (simp add: try_unlink_def secure_unlink)

lemma secure_fsync: "secure w0 w \<Longrightarrow> secure w0 (fsync_posix_directory io w)"
  by (auto simp: fsync_posix_directory_def secure_def extends_def)

lemma secure_atomic_write: "secure w (snd (atomic_write_file io target raw n False (Some 384) sd w))"
proof -
  let ?tmp = "tmp_path_of io target"
  let ?st = "stage_tmp io ?tmp raw 384 w"
  have st: "secure w (snd ?st)"
    by (rule secure_stage [OF secure_refl])
  have rep: "secure w (replace_file ?tmp target (snd ?st))" if "fst ?st"
    by (rule secure_replace [OF st stage_tmp_file [OF that]]) simp
  show ?thesis
    using st rep secure_refl
    by (auto simp: atomic_write_file_def resolve_target_mode_def abort_write_def split_beta Let_def
        intro: secure_try_unlink secure_fsync)
qed

lemma bootstrap_files_private:
  "bootstrap_admin_user env io xe gen pw ep (s, w) = (r, s', w') \<Longrightarrow> secure w w'"
  using secure_refl secure_atomic_write
  by (auto simp: bootstrap_admin_user_def export_credentials_to_file_def Let_def split_beta
      split: option.splits sum.splits if_splits list.splits)

subsection \<open>Correctness of the access layer\<close>

text \<open>A fresh installation and an environment on which the theorems are instantiated.\<close>

definition demo_env :: auth_env where
  "demo_env = \<lparr>mac_fn = (\<lambda>k m. k), kdf_fn = (\<lambda>p s n. p @ s), AdminPassword = ''pw'', clock = 1000,
     clock_iso = ''t'', fresh_salt = ''ab'', fresh_nonce = ''n''\<rparr>"

definition calm_io :: io_env where
  "calm_io = \<lparr>tmp_rand = ''x'', stamp = ''1'', now = 1, perf_start = 0, perf_end = 1, mkdir_fails = False,
     mktemp_fails = False, write_fails = False, fsync_fails = False, chmod_fails = False,
     mode_stat_fails = False, size_stat_fails = False, copy_fails = False, glob_fails = False,
     replace_fails = False, dir_open_fails = False, dir_fsync_fails = False, os_posix = True,
     key_stat_fails = (\<lambda>_. False), unlink_fails = (\<lambda>_. False)\<rparr>"

definition demo_xe :: export_env where
  "demo_xe = \<lparr>os_nt = False, etc_is_dir = True, etc_writable = True, home_dir = ''/root'',
     real_path = (\<lambda>p. (''/tmp'', p)), export_mkdir_fails = (\<lambda>_. False)\<rparr>"

definition fresh_state :: app_state where
  "fresh_state = \<lparr>database = empty_db,
     bootstrap = \<lparr>is_pending = False, boot_username = None, boot_password = None\<rparr>\<rparr>"

definition empty_world :: world where
  "empty_world = \<lparr>files = [], trace = [], dir_durable = True\<rparr>"

definition demo_admin :: UserRecord where
  "demo_admin = new_user ''t'' ''admin'' (hex_str ''secretab'') ''ab'' ''admin@localhost'' ''admin'' True 1"

definition demo_state :: app_state where
  "demo_state = fst (snd (bootstrap_admin_user demo_env calm_io demo_xe [] (Some ''secret'') None
     (fresh_state, empty_world)))"

definition demo_register :: UserRegisterRequest where
  "demo_register = \<lparr>reg_username = ''bob'', reg_password = ''hunter22'', reg_email = ''b@x.io''\<rparr>"

definition demo_login :: "string \<Rightarrow> UserLoginRequest" where
  "demo_login pw = \<lparr>login_username = ''admin'', login_password = pw\<rparr>"

definition remote_request :: http_request where
  "remote_request = \<lparr>headers = [(''cf-connecting-ip'', ''127.0.0.1'')], cookies = [], client_host = Some ''203.0.113.9''\<rparr>"

definition bearer_request :: "string \<Rightarrow> http_request" where
  "bearer_request tok = \<lparr>headers = [(''authorization'', ''Bearer '' @ tok)], cookies = [], client_host = Some ''203.0.113.9''\<rparr>"

lemma demo_bootstrap:
  "bootstrap_admin_user demo_env calm_io demo_xe [] (Some ''secret'') None (fresh_state, empty_world) =
     (Inr demo_admin, demo_state, empty_world)"
  by code_simp

lemma demo_state_inv: "app_inv demo_state"
proof -
  have "db_inv (database fresh_state)" "count_users (database fresh_state) = 0"
    by (simp_all add: fresh_state_def empty_db_inv) (simp add: empty_db_def count_users_def empty_table_def)
  then show ?thesis
    using bootstrap_fresh [OF _ _ _ demo_bootstrap] by (simp add: fresh_state_def)
qed

lemma demo_admin_active: "active_user (database demo_state) ''admin'' = Some demo_admin"
  by code_simp

text \<open>C1. From a fresh installation whose bootstrap succeeded, no sequence of requests to the
  account endpoints (with valid bodies, from any client) leaves the system without an active
  administrator; the schema's invariant holds throughout and every account has one of the
  three roles.\<close>

theorem admin_never_lost:
  assumes "db_inv (database s0)" "count_users (database s0) = 0"
    and "\<not> is_pending (bootstrap s0)" "boot_password (bootstrap s0) = None"
    and "bootstrap_admin_user env io xe gen pw ep (s0, w) = (Inr u, s, w')"
    and "api_step\<^sup>*\<^sup>* s s'"
  shows "1 \<le> count_active_admins (database s') \<and> db_inv (database s') \<and>
    list_all user_ok (rows (users (database s')))"
proof -
  have "app_inv s"
    using bootstrap_fresh [OF assms(1,2) _ assms(5)] assms(4) by simp
  then show ?thesis
    using api_steps_inv [OF assms(6)] by (simp add: app_inv_def)
qed

theorem admin_never_lost_witness:
  "1 \<le> count_active_admins (database (snd (register demo_env demo_register demo_state)))"
proof -
  have "valid_register demo_register"
    by code_simp
  then have "api_step\<^sup>*\<^sup>* demo_state (snd (register demo_env demo_register demo_state))"
    by (blast intro: step_register)
  moreover have "count_users (database fresh_state) = 0"
    by code_simp
  ultimately show ?thesis
    using admin_never_lost [OF _ _ _ _ demo_bootstrap] empty_db_inv by (simp add: fresh_state_def)
qed

text \<open>Once the bootstrap credentials have been acknowledged, no sequence of requests makes
  them available again: the endpoint answers 404 and the password is no longer in memory.\<close>

theorem bootstrap_sealed_forever:
  assumes "app_inv s" "api_step\<^sup>*\<^sup>* (acknowledge_bootstrap s) s'"
  shows "get_bootstrap_credentials s' =
      Inl (HTTPException 404 ''System setup is complete. Bootstrap credentials are no longer available.'') \<and>
    boot_password (bootstrap s') = None"
proof -
  have "app_inv (acknowledge_bootstrap s)"
    using assms(1) by (simp add: app_inv_db acknowledge_bootstrap_def db_ok_set_meta)
  then have "app_inv s'"
    by (rule api_steps_inv [OF assms(2)])
  moreover have "\<not> is_pending (bootstrap s')"
    by (rule api_steps_sealed [OF assms(2)]) (simp add: acknowledge_bootstrap_def)
  ultimately show ?thesis
    by (simp add: app_inv_def get_bootstrap_credentials_def)
qed

theorem bootstrap_sealed_forever_witness:
  "boot_password (bootstrap (snd (login demo_env remote_request (demo_login ''secret'')
     (acknowledge_bootstrap (set_bootstrap_pending ''admin'' ''secret'' demo_state))))) = None"
proof -
  have "app_inv (set_bootstrap_pending ''admin'' ''secret'' demo_state)"
    using demo_state_inv by (simp add: app_inv_db set_bootstrap_pending_def)
  moreover have "valid_login (demo_login ''secret'')"
    by code_simp
  ultimately show ?thesis
    using bootstrap_sealed_forever [of "set_bootstrap_pending ''admin'' ''secret'' demo_state"]
    by (blast intro: step_login)
qed

text \<open>A refused login issues no token and changes neither the accounts nor the bootstrap
  state; it is answered with 401 and leaves exactly one new row, marked FAILED, in the audit
  trail (only a stored digest that is not ASCII raises \<open>TypeError\<close> instead).\<close>

theorem failed_login_is_audited:
  assumes "login env req body s = (Inl e, s')"
  shows "users (database s') = users (database s) \<and> bootstrap s' = bootstrap s \<and>
    (e = TypeError \<and> s' = s \<or>
     e = HTTPException 401 ''Invalid username or password.'' \<and>
       audit_entry body ''FAILED'' (database s) (database s'))"
  by (rule login_refused [OF assms])

theorem failed_login_is_audited_witness:
  "audit_entry (demo_login ''wrong'') ''FAILED'' (database demo_state)
     (database (snd (login demo_env remote_request (demo_login ''wrong'') demo_state)))"
proof -
  have "fst (login demo_env remote_request (demo_login ''wrong'') demo_state) =
      Inl (HTTPException 401 ''Invalid username or password.'')"
    by code_simp
  then obtain s' where l: "login demo_env remote_request (demo_login ''wrong'') demo_state =
      (Inl (HTTPException 401 ''Invalid username or password.''), s')"
    by (metis prod.collapse)
  show ?thesis
    using failed_login_is_audited [OF l] by (simp add: l)
qed

text \<open>C4. A successful login is for an active account whose password digest matches; the token it
  returns authenticates exactly that account on later requests, in any database in which the
  account is still active, until 24 hours after the second in which it was issued.\<close>

theorem login_token_works:
  assumes "app_inv s" "login env req body s = (Inr resp, s')"
    and "header req2 ''authorization'' = Some (''Bearer '' @ session_token resp)"
    and "mac_fn env2 = mac_fn env" "AdminPassword env2 = AdminPassword env"
    and "clock env2 \<le> of_int (py_trunc (clock env) + 86400)"
    and "active_user d2 (login_username body) = Some u2"
  shows "get_current_user env2 d2 req2 = Inr u2 \<and>
    (\<exists>u. active_user (database s) (login_username body) = Some u \<and>
       verify_password (kdf_fn env) (login_password body) (salt u) (password_hash u) = Inr True)"
  using login_then_request [OF assms] login_granted [OF assms(2)] by (auto simp: active_user_def)

theorem login_token_works_witness:
  "\<exists>resp s'. login demo_env remote_request (demo_login ''secret'') demo_state = (Inr resp, s') \<and>
     get_current_user (demo_env\<lparr>clock := 87400\<rparr>) (database demo_state) (bearer_request (session_token resp)) = Inr demo_admin"
proof -
  have "check_login demo_env (demo_login ''secret'') (get_user_by_username (database demo_state) ''admin'') = Inr True"
    by code_simp
  then obtain resp s' where l: "login demo_env remote_request (demo_login ''secret'') demo_state = (Inr resp, s')"
    using login_succeeds [of demo_env "demo_login ''secret''" demo_state remote_request]
    by (auto simp: demo_login_def)
  have "header (bearer_request (session_token resp)) ''authorization'' = Some (''Bearer '' @ session_token resp)"
    by (simp add: header_def bearer_request_def)
  moreover have "clock (demo_env\<lparr>clock := 87400\<rparr>) \<le> of_int (py_trunc (clock demo_env) + 86400)"
    by (simp add: demo_env_def py_trunc_def)
  moreover have "active_user (database demo_state) (login_username (demo_login ''secret'')) = Some demo_admin"
    by (simp add: demo_login_def demo_admin_active)
  ultimately have "get_current_user (demo_env\<lparr>clock := 87400\<rparr>) (database demo_state)
      (bearer_request (session_token resp)) = Inr demo_admin"
    using login_token_works [OF demo_state_inv l, of "bearer_request (session_token resp)"
        "demo_env\<lparr>clock := 87400\<rparr>" "database demo_state" demo_admin] by simp
  then show ?thesis
    using l by blast
qed

text \<open>Self registration cannot escalate: it creates one account that was not there before,
  always with role viewer and exactly the two viewer permissions, and changes no other account
  and not the number of administrators.\<close>

theorem register_least_privilege:
  assumes "app_inv s" "register env body s = (Inr resp, s')"
  shows "resp_username resp = reg_username body \<and> resp_role resp = ''viewer'' \<and>
    resp_permissions resp = [''feedback:submit'', ''logs:view''] \<and>
    get_user_by_id (database s) (resp_id resp) = None \<and>
    (\<forall>i. i \<noteq> resp_id resp \<longrightarrow> get_user_by_id (database s') i = get_user_by_id (database s) i) \<and>
    count_active_admins (database s') = count_active_admins (database s)"
  by (rule register_outcome [OF assms])

theorem register_least_privilege_witness:
  "\<exists>resp s'. register demo_env demo_register demo_state = (Inr resp, s') \<and> resp_role resp = ''viewer''"
proof -
  have "\<not> isl (fst (register demo_env demo_register demo_state))"
    by code_simp
  then obtain resp s' where r: "register demo_env demo_register demo_state = (Inr resp, s')"
    by (metis isl_def obj_sumE prod.collapse)
  then show ?thesis
    using register_least_privilege [OF demo_state_inv r] by blast
qed

text \<open>C5. Whoever a request is resolved to is an active account: the owner of a token that
  verifies, the account \<open>admin\<close> for the holder of the administrator password, or, when there is
  no token, the loopback identity. A deactivated or deleted account cannot act.\<close>

theorem caller_is_active:
  assumes "get_current_user env d req = Inr u"
  shows "is_active u \<and>
    (active_user d (username u) = Some u \<or>
     get_client_ip req \<in> set loopback_names \<and> u = loopback_user env d \<and>
       (request_token req = None \<or> request_token req = Some []))"
  using assms
proof (cases rule: get_current_user_cases)
  case basic
  then show ?thesis
    using active_user_SomeD [of d "''admin''" u] by auto
qed (use current_user_active [OF assms] in auto)

theorem caller_is_active_witness:
  "is_active (loopback_user demo_env (database demo_state))"
proof -
  have "get_current_user demo_env (database demo_state) remote_request = Inr (loopback_user demo_env (database demo_state))"
    by (simp add: get_current_user_def request_token_def header_def remote_request_def startswith_def
        anonymous_user_def get_client_ip_def loopback_names_def)
  then show ?thesis
    using caller_is_active by blast
qed

definition may :: "string \<Rightarrow> auth_env \<Rightarrow> http_request \<Rightarrow> db \<Rightarrow> bool" where
  "may perm env req d \<longleftrightarrow>
     (case get_current_user env d req of
        Inr u \<Rightarrow> has_permission (role u) (get_user_permissions d (user_id u)) perm
      | Inl _ \<Rightarrow> False)"

lemma require_permission_may: "\<not> may perm env req d \<Longrightarrow> \<exists>e. require_permission perm env d req = Inl e"
  by (cases "get_current_user env d req") (auto simp: may_def require_permission_def)

text \<open>C6. Only a caller who holds \<open>users:manage\<close> (or is an administrator, or has the wildcard)
  changes anything through the four account management endpoints.\<close>

theorem account_changes_need_permission:
  assumes "\<not> may ''users:manage'' env req (database s)"
  shows "snd (create_new_user env req b1 s) = s \<and> snd (update_existing_user env req uid b2 s) = s \<and>
    snd (update_user_role env req uid r s) = s \<and> snd (delete_existing_user env req uid s) = s"
  using require_permission_may [OF assms]
  by (auto simp: create_new_user_def update_existing_user_def update_user_role_def delete_existing_user_def)

theorem account_changes_need_permission_witness:
  "snd (delete_existing_user demo_env (bearer_request ''a.b'') 1 demo_state) = demo_state"
proof -
  have "\<not> may ''users:manage'' demo_env (bearer_request ''a.b'') (database demo_state)"
    by code_simp
  then show ?thesis
    using account_changes_need_permission by blast
qed

lemma set_no_permissions: "get_user_permissions (snd (set_user_permissions i [] d)) i = []"
  by (simp add: set_user_permissions_def get_user_permissions_def delete_permissions_def Let_def)

lemma update_existing_user_Inr:
  assumes "update_existing_user env req uid body s = (Inr resp, s')"
  obtains x u h sl d1 d2 where "get_user_by_id (database s) uid = Some x"
    "update_user uid (upd_email body) (upd_role body) (upd_is_active body) h sl (database s) = (Some u, d1)"
    "override_permissions uid (upd_permissions body) d1 = (Inr (), d2)"
    "resp = user_response d2 u" "s' = s\<lparr>database := d2\<rparr>"
proof -
  let ?creds = "new_credentials env (upd_password body)"
  obtain x where x: "get_user_by_id (database s) uid = Some x"
    using assms by (auto simp: update_existing_user_def Let_def split: sum.splits option.splits)
  obtain uo d1 where u: "update_user uid (upd_email body) (upd_role body) (upd_is_active body)
      (map_option fst ?creds) (map_option snd ?creds) (database s) = (uo, d1)"
    by fastforce
  obtain r2 d2 where o: "override_permissions uid (upd_permissions body) d1 = (r2, d2)"
    by fastforce
  have "\<exists>v. uo = Some v \<and> r2 = Inr () \<and> resp = user_response d2 v \<and> s' = s\<lparr>database := d2\<rparr>"
    using assms unfolding update_existing_user_def Let_def
    by (simp add: x u o split: sum.splits option.splits if_splits)
  then show ?thesis
    using that [OF x] u o by blast
qed

text \<open>Taking away all explicit permissions of a user does not take away what the role grants:
  the endpoint answers with an empty list, but every permission in the role's defaults still
  passes the check.\<close>

theorem revocation_is_ineffective:
  assumes "update_existing_user env req uid body s = (Inr resp, s')" "upd_permissions body = Some []"
  shows "resp_permissions resp = [] \<and> resp_permissions resp = get_user_permissions (database s') uid \<and>
    list_all (has_permission (resp_role resp) (get_user_permissions (database s') uid)) (default_perms (resp_role resp))"
proof -
  obtain x u h sl d1 d2 where ok: "get_user_by_id (database s) uid = Some x"
    "update_user uid (upd_email body) (upd_role body) (upd_is_active body) h sl (database s) = (Some u, d1)"
    "override_permissions uid (upd_permissions body) d1 = (Inr (), d2)"
    "resp = user_response d2 u" "s' = s\<lparr>database := d2\<rparr>"
    by (rule update_existing_user_Inr [OF assms(1)])
  have "user_id u = uid"
    using get_user_by_id_SomeD [OF ok(1)] update_user_result [OF ok(1,2)] by auto
  moreover have "d2 = snd (set_user_permissions uid [] d1)"
    using ok(3) assms(2) by (simp add: override_permissions_def)
  ultimately have u: "resp = user_response (database s') u" "user_id u = uid"
    "database s' = snd (set_user_permissions uid [] d1)"
    using ok(4,5) by simp_all
  then have "get_user_permissions (database s') uid = []"
    by (simp add: set_no_permissions)
  then show ?thesis
    using u(1,2) by (simp add: user_response_def has_permission_def list_all_iff)
qed

definition revoke_all :: UserUpdateRequest where
  "revoke_all = \<lparr>upd_email = None, upd_role = Some ''operator'', upd_is_active = None, upd_password = None,
     upd_permissions = Some []\<rparr>"

theorem revocation_is_ineffective_witness:
  "\<exists>resp s'. update_existing_user demo_env remote_request 2 revoke_all
       (snd (register demo_env demo_register demo_state)) = (Inr resp, s') \<and> resp_permissions resp = []"
proof -
  let ?r = "update_existing_user demo_env remote_request 2 revoke_all (snd (register demo_env demo_register demo_state))"
  have "\<not> isl (fst ?r)"
    by code_simp
  then obtain resp s' where r: "?r = (Inr resp, s')"
    by (metis isl_def obj_sumE prod.collapse)
  then show ?thesis
    using revocation_is_ineffective [OF r] by (simp add: revoke_all_def)
qed

text \<open>C16. The client address is taken from headers the client controls: any request without
  credentials that carries \<open>CF-Connecting-IP: 127.0.0.1\<close> is treated as the local administrator,
  wherever it comes from.\<close>

theorem forwarded_header_is_trusted:
  assumes "header req ''cf-connecting-ip'' = Some ''127.0.0.1''"
    and "header req ''authorization'' = None" "dict_get (cookies req) ''pal_session_token'' = None"
  shows "get_current_user env d req = Inr (loopback_user env d) \<and>
    username (loopback_user env d) = ''admin'' \<and> is_active (loopback_user env d)"
proof -
  have "username (loopback_user env d) = ''admin''"
    by (auto simp: loopback_user_def split: option.split dest: active_user_SomeD)
  then show ?thesis
    using assms loopback_user_active
    by (simp add: get_current_user_def request_token_def startswith_def anonymous_user_def get_client_ip_def
        loopback_names_def)
qed

theorem forwarded_header_is_trusted_witness:
  "client_host remote_request = Some ''203.0.113.9'' \<and>
   get_current_user demo_env (database demo_state) remote_request = Inr demo_admin"
proof -
  have "loopback_user demo_env (database demo_state) = demo_admin"
    by (simp add: loopback_user_def demo_admin_active)
  then show ?thesis
    using forwarded_header_is_trusted [of remote_request demo_env "database demo_state"]
    by (simp add: remote_request_def header_def)
qed

text \<open>The audit trail is append only: no sequence of requests to the account endpoints removes
  or changes a row of it.\<close>

theorem audit_trail_append_only:
  assumes "api_step\<^sup>*\<^sup>* s s'"
  shows "\<exists>new. rows (login_audit (database s')) = rows (login_audit (database s)) @ new"
  using api_steps_audit [OF assms] by (simp add: audit_grows_def)

theorem audit_trail_append_only_witness:
  "\<exists>new. rows (login_audit (database (snd (login demo_env remote_request (demo_login ''wrong'') demo_state)))) =
     rows (login_audit (database demo_state)) @ new"
proof (rule audit_trail_append_only)
  have "valid_login (demo_login ''wrong'')"
    by code_simp
  then show "api_step\<^sup>*\<^sup>* demo_state (snd (login demo_env remote_request (demo_login ''wrong'') demo_state))"
    by (blast intro: step_login)
qed

text \<open>The bootstrap never exposes the generated password on disk: at every moment, also when a
  write fails half way, each file that is new on the disk has mode 0600.\<close>

theorem bootstrap_credentials_private:
  assumes "bootstrap_admin_user env io xe gen pw ep (s, w) = (r, s', w')"
  shows "private_since w (files w') \<and> extends (private_since w) w w'"
  using bootstrap_files_private [OF assms] by (simp add: secure_def)

theorem bootstrap_credentials_private_witness:
  "private_since empty_world (files empty_world)"
  using bootstrap_credentials_private [OF demo_bootstrap] by blast

end
