(* ===== verification/Ini_Parser.thy ===== *)
theory Ini_Parser
  imports Py_Numeric
begin

section \<open>The OptionSettings parser and serializer\<close>

text \<open>
  \<^verbatim>\<open>app/config_manager/parser.py\<close>: \<open>parse_ini_file\<close> reads the payload of
  \<open>OptionSettings=(...)\<close> with a regular expression and converts each value;
  \<open>serialize_ini_settings\<close> writes a dictionary back. The two regular expressions are
  modelled by the left-to-right scanners they denote. The main result is that reading what
  was written returns the dictionary up to \<open>norm_value\<close>, for every dictionary whose strings
  can be represented (\<open>wf_settings\<close>).
\<close>

subsection \<open>Values\<close>

datatype pyval = VBool bool | VInt int | VFloat pyfloat | VStr string | VNone

type_synonym settings = "(string, pyval) dict"

abbreviation dquote :: char where "dquote \<equiv> CHR 0x22"
abbreviation newline :: char where "newline \<equiv> CHR 0x0A"

text \<open>The groups of \<open>(\w+)=(?:"([^"]*)"|(\([^)]*\))|([^,]+))\<close>.\<close>

datatype raw_value = Quoted string | Parens string | Bare string

subsection \<open>Parsing\<close>

definition match_bare :: "string \<Rightarrow> (raw_value \<times> string) option" where
  "match_bare s =
     (let v = takeWhile (\<lambda>c. c \<noteq> CHR '','') s
      in if v = [] then None else Some (Bare v, dropWhile (\<lambda>c. c \<noteq> CHR '','') s))"

definition match_value :: "string \<Rightarrow> (raw_value \<times> string) option" where
  "match_value s =
     (case s of
        [] \<Rightarrow> None
      | c # r \<Rightarrow>
          if c = dquote \<and> dquote \<in> set r then
            Some (Quoted (takeWhile (\<lambda>x. x \<noteq> dquote) r), tl (dropWhile (\<lambda>x. x \<noteq> dquote) r))
          else if c = CHR ''('' \<and> CHR '')'' \<in> set r then
            Some (Parens (''('' @ takeWhile (\<lambda>x. x \<noteq> CHR '')'') r @ '')''),
              tl (dropWhile (\<lambda>x. x \<noteq> CHR '')'') r))
          else match_bare s)"

text \<open>One attempt of the pattern at the current position. A maximal run of word characters
  must be followed by an equals sign: no shorter run can be, so backtracking never helps.\<close>

definition match_at :: "string \<Rightarrow> (string \<times> raw_value \<times> string) option" where
  "match_at s =
     (let k = takeWhile is_word_char s
      in if k = [] then None
         else (case dropWhile is_word_char s of
                 [] \<Rightarrow> None
               | c # r \<Rightarrow> if c = CHR ''='' then map_option (Pair k) (match_value r) else None))"

lemma match_bare_length: "match_bare s = Some (v, rest) \<Longrightarrow> length rest < length s"
  by (cases s) (auto simp: match_bare_def Let_def less_Suc_eq_le length_dropWhile_le split: if_splits)

lemma match_value_length: "match_value s = Some (v, rest) \<Longrightarrow> length rest < length s"
  by (auto simp: match_value_def less_Suc_eq_le split: list.splits if_splits dest!: match_bare_length)
    (metis diff_le_self le_trans length_dropWhile_le)+

lemma match_at_length: "match_at s = Some (k, v, rest) \<Longrightarrow> length rest < length s"
proof -
  assume m: "match_at s = Some (k, v, rest)"
  then obtain r where r: "dropWhile is_word_char s = CHR ''='' # r" "match_value r = Some (v, rest)"
    by (auto simp: match_at_def Let_def split: if_splits list.splits)
  have "length r < length s"
    using length_dropWhile_le [of is_word_char s] r(1) by simp
  with match_value_length [OF r(2)] show ?thesis by simp
qed

text \<open>\<open>pattern.finditer(raw_str)\<close>: the non-overlapping matches from left to right.\<close>

function scan :: "string \<Rightarrow> (string \<times> raw_value) list" where
  "scan [] = []"
| "scan (c # cs) =
     (case match_at (c # cs) of
        Some (k, v, rest) \<Rightarrow> (k, v) # scan rest
      | None \<Rightarrow> scan cs)"
  by pat_completeness auto
termination
  by (relation "measure length") (auto dest: match_at_length)

declare scan.simps(2) [simp del]

definition convert_bare :: "string \<Rightarrow> pyval" where
  "convert_bare v =
     (let raw = strip v
      in if raw = ''True'' then VBool True
         else if raw = ''False'' then VBool False
         else if CHR ''.'' \<notin> set raw
              then (case py_int raw of Some i \<Rightarrow> VInt i | None \<Rightarrow> VStr raw)
              else (case py_float raw of Some f \<Rightarrow> VFloat f | None \<Rightarrow> VStr raw))"

fun convert_value :: "raw_value \<Rightarrow> pyval" where
  "convert_value (Quoted v) = VStr v"
| "convert_value (Parens v) = VStr v"
| "convert_value (Bare v) = convert_bare v"

definition option_payload :: "string \<Rightarrow> string option" where
  "option_payload content =
     (case after_first ''OptionSettings=('' content of
        None \<Rightarrow> None
      | Some r \<Rightarrow> before_last (CHR '')'') r)"

definition parse_ini_text :: "string \<Rightarrow> settings" where
  "parse_ini_text content =
     (case option_payload content of
        None \<Rightarrow> []
      | Some g \<Rightarrow> dict_assign [] (map (\<lambda>(k, v). (k, convert_value v)) (scan (strip g))))"

text \<open>The argument is the outcome of \<open>file_path.read_text(encoding="utf-8")\<close>. The three
  file errors give the empty dictionary; any other exception propagates.\<close>

definition parse_ini_file :: "string result \<Rightarrow> settings result" where
  "parse_ini_file content =
     (case content of
        Inr text \<Rightarrow> Inr (parse_ini_text text)
      | Inl e \<Rightarrow> if e = FileNotFoundError \<or> e = PermissionError \<or> e = OSError then Inr [] else Inl e)"

subsection \<open>Serializing\<close>

fun value_text :: "pyval \<Rightarrow> string" where
  "value_text (VBool b) = (if b then ''True'' else ''False'')"
| "value_text (VFloat f) = fmt6 f"
| "value_text (VInt i) = int_str i"
| "value_text (VStr s) =
     (if startswith s ''('' \<and> endswith s '')'' then s else [dquote] @ s @ [dquote])"
| "value_text VNone = [dquote] @ ''None'' @ [dquote]"

definition pair_text :: "string \<times> pyval \<Rightarrow> string" where
  "pair_text kv = fst kv @ ''='' @ value_text (snd kv)"

definition serialize_ini_settings :: "settings \<Rightarrow> string" where
  "serialize_ini_settings settings =
     ''[/Script/Pal.PalGameWorldSettings]'' @ [newline] @ ''OptionSettings=('' @
     join '','' (map pair_text settings) @ '')'' @ [newline]"

subsection \<open>Reading back what was written\<close>

definition is_paren_string :: "string \<Rightarrow> bool" where
  "is_paren_string s \<longleftrightarrow> startswith s ''('' \<and> endswith s '')''"

definition wf_string :: "string \<Rightarrow> bool" where
  "wf_string s \<longleftrightarrow> (if is_paren_string s then CHR '')'' \<notin> set (butlast s) else dquote \<notin> set s)"

fun wf_value :: "pyval \<Rightarrow> bool" where
  "wf_value (VStr s) = wf_string s"
| "wf_value _ = True"

definition wf_key :: "string \<Rightarrow> bool" where
  "wf_key k \<longleftrightarrow> k \<noteq> [] \<and> list_all is_word_char k"

definition wf_settings :: "settings \<Rightarrow> bool" where
  "wf_settings d \<longleftrightarrow> wf_dict d \<and> list_all (\<lambda>(k, v). wf_key k \<and> wf_value v) d"

text \<open>What a value becomes after one write and one read.\<close>

fun norm_value :: "pyval \<Rightarrow> pyval" where
  "norm_value (VFloat (PyFin neg m)) = VFloat (to_double neg (of_nat (micros m) / 10 ^ 6))"
| "norm_value (VFloat (PyInf neg)) = VStr (if neg then ''-inf'' else ''inf'')"
| "norm_value (VFloat PyNan) = VStr ''nan''"
| "norm_value VNone = VStr ''None''"
| "norm_value v = v"

fun raw_of :: "pyval \<Rightarrow> raw_value" where
  "raw_of (VStr s) = (if is_paren_string s then Parens s else Quoted s)"
| "raw_of VNone = Quoted ''None''"
| "raw_of v = Bare (value_text v)"

lemma paren_string_split:
  assumes "is_paren_string s"
  obtains m where "s = CHR ''('' # m @ [CHR '')'']"
proof -
  from assms obtain r where r: "s = CHR ''('' # r"
    by (cases s) (auto simp: is_paren_string_def)
  with assms have "r \<noteq> []" "last r = CHR '')''"
    by (auto simp: is_paren_string_def endswith_single_iff split: if_splits)
  then have "s = CHR ''('' # butlast r @ [CHR '')'']"
    using r by (metis append_butlast_last_id)
  then show ?thesis by (rule that)
qed

lemma match_value_quoted:
  "dquote \<notin> set s \<Longrightarrow> match_value (dquote # s @ dquote # rest) = Some (Quoted s, rest)"
  by (simp add: match_value_def takeWhile_until dropWhile_until)

lemma match_value_parens:
  "CHR '')'' \<notin> set m \<Longrightarrow>
     match_value (CHR ''('' # m @ CHR '')'' # rest) = Some (Parens (CHR ''('' # m @ '')''), rest)"
  by (simp add: match_value_def takeWhile_until dropWhile_until)

lemma match_value_bare:
  assumes "v \<noteq> []" "CHR '','' \<notin> set v" "hd v \<noteq> dquote" "hd v \<noteq> CHR ''(''"
    and "rest = [] \<or> hd rest = CHR '',''"
  shows "match_value (v @ rest) = Some (Bare v, rest)"
proof -
  have "takeWhile (\<lambda>c. c \<noteq> CHR '','') (v @ rest) = v \<and> dropWhile (\<lambda>c. c \<noteq> CHR '','') (v @ rest) = rest"
    using assms by (intro takeWhile_stop) (auto simp: list_all_iff)
  moreover obtain c cs where "v = c # cs" using assms(1) by (cases v) auto
  ultimately show ?thesis
    using assms(3,4) by (simp add: match_value_def match_bare_def)
qed

lemma int_str_chars: "c \<in> set (int_str i) \<Longrightarrow> is_digit c \<or> c = CHR ''-''"
  using nat_str_digits by (auto simp: int_str_def list_all_iff split: if_splits)

lemma int_str_not_Nil [simp]: "int_str i \<noteq> []"
  by (simp add: int_str_def)

lemma fmt6_fin_chars:
  "c \<in> set (fmt6 (PyFin neg m)) \<Longrightarrow> is_digit c \<or> c = CHR ''-'' \<or> c = CHR ''.''"
  using nat_str_digits pad6_digits by (auto simp: list_all_iff split: if_splits)

lemma digit_or_sign_ok:
  "is_digit c \<or> c = CHR ''-'' \<or> c = CHR ''.'' \<Longrightarrow>
     c \<noteq> CHR '','' \<and> c \<noteq> dquote \<and> c \<noteq> CHR ''('' \<and> c \<noteq> CHR ''T'' \<and> c \<noteq> CHR ''F'' \<and> \<not> is_space c"
  by (auto simp: is_digit_def is_space_def ord_def)

definition bare_ok :: "string \<Rightarrow> bool" where
  "bare_ok t \<longleftrightarrow> t \<noteq> [] \<and> CHR '','' \<notin> set t \<and> hd t \<noteq> dquote \<and> hd t \<noteq> CHR ''('' \<and> \<not> is_space (last t)"

lemma bare_ok_numeric:
  assumes "t \<noteq> []" "\<forall>c \<in> set t. is_digit c \<or> c = CHR ''-'' \<or> c = CHR ''.''"
  shows "bare_ok t"
  using assms by (auto simp: bare_ok_def dest!: digit_or_sign_ok dest: hd_in_set last_in_set)

lemma bare_ok_int: "bare_ok (int_str i)"
  by (rule bare_ok_numeric) (auto dest: int_str_chars)

lemma bare_ok_float: "bare_ok (fmt6 f)"
proof (cases f)
  case (PyFin neg m)
  have "bare_ok (fmt6 (PyFin neg m))"
    by (rule bare_ok_numeric) (simp, blast dest: fmt6_fin_chars)
  then show ?thesis by (simp only: PyFin)
qed (auto simp: bare_ok_def is_space_def ord_def)

lemma bare_ok_bool: "bare_ok (if b then ''True'' else ''False'')"
  by (simp add: bare_ok_def is_space_def ord_def)

lemma wf_string_cases:
  assumes "wf_string s"
  obtains (paren) m where "is_paren_string s" "s = CHR ''('' # m @ [CHR '')'']" "CHR '')'' \<notin> set m"
  | (quoted) "\<not> is_paren_string s" "dquote \<notin> set s"
proof (cases "is_paren_string s")
  case True
  then obtain m where m: "s = CHR ''('' # m @ [CHR '')'']" by (rule paren_string_split)
  with True assms have "CHR '')'' \<notin> set m" by (simp add: wf_string_def butlast_append)
  with True m show ?thesis by (rule paren)
next
  case False
  with assms show ?thesis by (intro quoted) (simp_all add: wf_string_def)
qed

lemma match_value_text:
  assumes "wf_value v" and rest: "rest = [] \<or> hd rest = CHR '',''"
  shows "match_value (value_text v @ rest) = Some (raw_of v, rest)"
proof (cases v)
  case (VStr s)
  with assms have "wf_string s" by simp
  then show ?thesis
  proof (cases rule: wf_string_cases)
    case (paren m)
    then show ?thesis using VStr match_value_parens [of m rest] by (simp add: is_paren_string_def)
  next
    case quoted
    then show ?thesis using VStr match_value_quoted [of s rest] by (auto simp: is_paren_string_def)
  qed
next
  case VNone
  then show ?thesis using match_value_quoted [of "''None''" rest] by simp
next
  case (VBool b)
  then show ?thesis
    using match_value_bare [OF _ _ _ _ rest] bare_ok_bool [of b] by (simp add: bare_ok_def)
next
  case (VInt i)
  then show ?thesis
    using match_value_bare [OF _ _ _ _ rest] bare_ok_int [of i] by (simp add: bare_ok_def)
next
  case (VFloat f)
  then show ?thesis
    using match_value_bare [OF _ _ _ _ rest] bare_ok_float [of f] by (simp add: bare_ok_def)
qed

lemma mem_neq: "x \<in> set s \<Longrightarrow> x \<notin> set t \<Longrightarrow> s \<noteq> t"
  by auto

lemma convert_int: "convert_bare (int_str i) = VInt i"
proof -
  have "CHR ''T'' \<notin> set (int_str i)" "CHR ''F'' \<notin> set (int_str i)" "CHR ''.'' \<notin> set (int_str i)"
    by (auto dest!: int_str_chars simp: is_digit_def ord_def)
  then have "int_str i \<noteq> ''True''" "int_str i \<noteq> ''False''" "CHR ''.'' \<notin> set (int_str i)"
    by force+
  then show ?thesis by (simp add: convert_bare_def py_int_int_str)
qed

lemma convert_float_fin:
  "convert_bare (fmt6 (PyFin neg m)) = VFloat (to_double neg (of_nat (micros m) / 10 ^ 6))"
proof -
  have dot: "CHR ''.'' \<in> set (fmt6 (PyFin neg m))" by simp
  then have "fmt6 (PyFin neg m) \<noteq> ''True''" "fmt6 (PyFin neg m) \<noteq> ''False''"
    using mem_neq [OF dot, of "''True''"] mem_neq [OF dot, of "''False''"] by simp_all
  with dot show ?thesis
    by (simp del: fmt6.simps add: convert_bare_def strip_fmt6 py_float_fmt6)
qed

lemma convert_words:
  "convert_bare ''True'' = VBool True" "convert_bare ''False'' = VBool False"
  "convert_bare ''inf'' = VStr ''inf''" "convert_bare ''-inf'' = VStr ''-inf''"
  "convert_bare ''nan'' = VStr ''nan''"
  by (code_simp)+

lemma convert_raw_of: "convert_value (raw_of v) = norm_value v"
proof (cases v)
  case (VFloat f)
  then show ?thesis
    by (cases f) (simp_all del: fmt6.simps(1) add: convert_float_fin convert_words)
next
  case (VBool b)
  then show ?thesis by (cases b) (simp_all add: convert_words)
qed (simp_all add: convert_int)

lemma scan_comma: "scan (CHR '','' # xs) = scan xs"
proof -
  have "\<not> is_word_char (CHR '','')" using word_char_not_punct by blast
  then show ?thesis by (simp add: scan.simps match_at_def)
qed

lemma scan_pair:
  assumes "wf_key k" "wf_value v" "rest = [] \<or> hd rest = CHR '',''"
  shows "scan (pair_text (k, v) @ rest) = (k, raw_of v) # scan rest"
proof -
  have "\<not> is_word_char (CHR ''='')" using word_char_not_punct by blast
  then have tw: "takeWhile is_word_char (k @ CHR ''='' # value_text v @ rest) = k \<and>
      dropWhile is_word_char (k @ CHR ''='' # value_text v @ rest) = CHR ''='' # value_text v @ rest"
    using assms(1) by (intro takeWhile_stop) (auto simp: wf_key_def)
  have "match_at (pair_text (k, v) @ rest) = Some (k, raw_of v, rest)"
    using tw assms(1) match_value_text [OF assms(2,3)]
    by (simp add: match_at_def pair_text_def wf_key_def)
  moreover obtain c cs where "pair_text (k, v) @ rest = c # cs"
    using assms(1) by (cases k) (auto simp: wf_key_def pair_text_def)
  ultimately show ?thesis by (simp add: scan.simps)
qed

lemma scan_join:
  "list_all (\<lambda>(k, v). wf_key k \<and> wf_value v) d \<Longrightarrow>
     scan (join '','' (map pair_text d)) = map (\<lambda>(k, v). (k, raw_of v)) d"
proof (induction d)
  case Nil
  then show ?case by simp
next
  case (Cons kv d)
  obtain k v where kv: "kv = (k, v)" by (cases kv)
  with Cons.prems have wf: "wf_key k" "wf_value v" by auto
  show ?case
  proof (cases "d = []")
    case True
    then show ?thesis using scan_pair [OF wf, of "[]"] by (simp add: kv)
  next
    case False
    then have "scan (join '','' (map pair_text (kv # d))) =
        scan (pair_text (k, v) @ CHR '','' # join '','' (map pair_text d))"
      by (simp add: join_Cons kv)
    also have "\<dots> = (k, raw_of v) # scan (join '','' (map pair_text d))"
      using scan_pair [OF wf, of "CHR '','' # join '','' (map pair_text d)"] by (simp add: scan_comma)
    finally show ?thesis using Cons by (simp add: kv)
  qed
qed

lemma value_text_last: "value_text v \<noteq> [] \<and> \<not> is_space (last (value_text v))"
proof (cases v)
  case (VStr s)
  have "\<not> is_space dquote" "\<not> is_space (CHR '')'')" by (simp_all add: is_space_def ord_def)
  with VStr show ?thesis by (auto simp: endswith_single_iff)
next
  case (VBool b)
  then show ?thesis using bare_ok_bool [of b] by (simp add: bare_ok_def)
next
  case (VInt i)
  then show ?thesis using bare_ok_int [of i] by (simp add: bare_ok_def)
next
  case (VFloat f)
  then show ?thesis using bare_ok_float [of f] by (simp add: bare_ok_def)
qed (simp add: is_space_def ord_def)

lemma join_pairs_trimmed:
  "list_all (\<lambda>(k, v). wf_key k \<and> wf_value v) d \<Longrightarrow> d \<noteq> [] \<Longrightarrow>
     join '','' (map pair_text d) \<noteq> [] \<and>
     \<not> is_space (hd (join '','' (map pair_text d))) \<and>
     \<not> is_space (last (join '','' (map pair_text d)))"
proof (induction d)
  case Nil
  then show ?case by simp
next
  case (Cons kv d)
  obtain k v where kv: "kv = (k, v)" by (cases kv)
  with Cons.prems obtain c cs where k: "k = c # cs" "is_word_char c"
    by (cases k) (auto simp: wf_key_def)
  have "pair_text kv \<noteq> [] \<and> \<not> is_space (hd (pair_text kv)) \<and> \<not> is_space (last (pair_text kv))"
    using k value_text_last [of v] by (simp add: kv pair_text_def word_char_not_space)
  with Cons show ?case by (cases "d = []") (simp_all add: join_Cons hd_append)
qed

lemma option_payload_serialized:
  "option_payload (serialize_ini_settings d) = Some (join '','' (map pair_text d))"
proof -
  have "after_first ''OptionSettings=('' (serialize_ini_settings d) =
      Some (join '','' (map pair_text d) @ CHR '')'' # [newline])"
    by (simp add: serialize_ini_settings_def)
  then show ?thesis by (simp add: option_payload_def before_last_snoc)
qed

lemma parse_serialize:
  assumes "wf_settings d"
  shows "parse_ini_text (serialize_ini_settings d) = map (\<lambda>(k, v). (k, norm_value v)) d"
proof -
  have wf: "list_all (\<lambda>(k, v). wf_key k \<and> wf_value v) d" and dist: "distinct (map fst d)"
    using assms by (simp_all add: wf_settings_def wf_dict_def)
  have "strip (join '','' (map pair_text d)) = join '','' (map pair_text d)"
    using join_pairs_trimmed [OF wf] by (cases "d = []") (auto intro: strip_id)
  moreover have "(\<lambda>(k :: string, v). (k, convert_value v)) \<circ> (\<lambda>(k, v). (k, raw_of v)) =
      (\<lambda>(k, v). (k, norm_value v))"
    by (auto simp: convert_raw_of)
  moreover have "dict_assign [] (map (\<lambda>(k, v). (k, norm_value v)) d) = map (\<lambda>(k, v). (k, norm_value v)) d"
    using dist by (subst dict_assign_fresh) (auto simp: comp_def case_prod_unfold)
  ultimately show ?thesis
    by (simp add: parse_ini_text_def option_payload_serialized scan_join [OF wf])
qed

subsection \<open>Correctness of the codec\<close>

text \<open>C12. Every representable settings dictionary survives being written and read back: the same
  keys in the same order, each value normalised (a float to six decimals, \<open>None\<close> to its text).
  Representable means: distinct keys of word characters, and strings without a double quote,
  or in parentheses without an inner closing parenthesis.\<close>

theorem ini_round_trip:
  assumes "wf_settings d"
  shows "parse_ini_text (serialize_ini_settings d) = map (\<lambda>(k, v). (k, norm_value v)) d"
  by (rule parse_serialize [OF assms])

definition demo_settings :: settings where
  "demo_settings = [(''ServerName'', VStr ''A, B=C''), (''ExpRate'', VInt (-3)), (''bIsPvP'', VBool True),
     (''CrossplayPlatforms'', VStr ''(Steam,Xbox)'')]"

theorem ini_round_trip_witness:
  "parse_ini_text (serialize_ini_settings demo_settings) = demo_settings"
proof -
  have "wf_settings demo_settings"
    by code_simp
  then show ?thesis
    using ini_round_trip [of demo_settings] by (simp add: demo_settings_def)
qed

end
