(* ===== verification/Settings_Schema.thy ===== *)
theory Settings_Schema
  imports Ini_Parser
begin

section \<open>Field metadata and the settings schema\<close>

text \<open>
  The two tables that describe the editable settings: \<open>SETTING_METADATA\<close> of
  \<^verbatim>\<open>app/config_manager/parser.py\<close> (what the dashboard shows) and
  \<open>GameplaySettingsSchema\<close> of \<^verbatim>\<open>app/api/schemas.py\<close> (what the server accepts), with the
  schema's validators. How Pydantic converts a value to the declared type and checks the declared
  constraints is a parameter \<open>coerce\<close> of the validation; what is used of it is \<open>coerce_ok\<close>: a
  value that passes has the declared type or is \<open>None\<close>, and no comparison with a declared bound
  fails. A comparison with NaN never fails, so NaN may pass.
  The lemmas show that both tables state the same bounds, and that an accepted payload
  holds known keys only, each number within the range the dashboard shows unless it is NaN, and
  each sanitized text free of quotes and line breaks.
\<close>

subsection \<open>Tables\<close>

datatype setting_type =
    TString
  | TBool
  | TSelect "string list"
  | TInt int int int
  | TFloat rat rat rat

datatype category =
    CrossplayMatchmaking
  | ProgressionLeveling
  | StaminaSurvival
  | CombatDeathRules
  | BaseCampsGuild
  | GatheringDrops

record setting_meta =
  meta_category :: category
  meta_type :: setting_type
  meta_label :: string

datatype field_type = FStr "nat option" | FBool | FInt int int | FFloat rat rat

text \<open>A decimal literal of the source as the float it denotes.\<close>

definition flt :: "rat \<Rightarrow> pyfloat" where
  "flt m = to_double False m"

definition meta_CrossplayMatchmaking :: "(string, setting_meta) dict" where
  "meta_CrossplayMatchmaking =
    [
     (''CrossplayPlatforms'', \<lparr>meta_category = CrossplayMatchmaking, meta_type = TString, meta_label = ''Allowed Crossplay Platforms''\<rparr>),
     (''AllowConnectPlatform'', \<lparr>meta_category = CrossplayMatchmaking, meta_type = TString, meta_label = ''Connect Platforms String''\<rparr>),
     (''bIsMultiplay'', \<lparr>meta_category = CrossplayMatchmaking, meta_type = TBool, meta_label = ''Community Multiplayer Mode''\<rparr>),
     (''bShowPlayerList'', \<lparr>meta_category = CrossplayMatchmaking, meta_type = TBool, meta_label = ''Show In-Game Player List''\<rparr>),
     (''bIsShowJoinLeftMessage'', \<lparr>meta_category = CrossplayMatchmaking, meta_type = TBool, meta_label = ''Show Join/Leave Notices''\<rparr>),
     (''ServerPlayerMaxNum'', \<lparr>meta_category = CrossplayMatchmaking, meta_type = TInt 1 32 1, meta_label = ''Max Server Player Capacity''\<rparr>),
     (''CoopPlayerMaxNum'', \<lparr>meta_category = CrossplayMatchmaking, meta_type = TInt 1 4 1, meta_label = ''Max Co-Op Party Size''\<rparr>),
     (''bUseBackupSaveData'', \<lparr>meta_category = CrossplayMatchmaking, meta_type = TBool, meta_label = ''Automatic World Backup Save Data''\<rparr>),
     (''ServerName'', \<lparr>meta_category = CrossplayMatchmaking, meta_type = TString, meta_label = ''Server Display Name''\<rparr>),
     (''ServerDescription'', \<lparr>meta_category = CrossplayMatchmaking, meta_type = TString, meta_label = ''Server Description''\<rparr>),
     (''Region'', \<lparr>meta_category = CrossplayMatchmaking, meta_type = TString, meta_label = ''Server Region''\<rparr>)]"

definition meta_ProgressionLeveling :: "(string, setting_meta) dict" where
  "meta_ProgressionLeveling =
    [
     (''Difficulty'', \<lparr>meta_category = ProgressionLeveling, meta_type = TSelect [''None'', ''Casual'', ''Normal'', ''Hard''], meta_label = ''World Difficulty Preset''\<rparr>),
     (''ExpRate'', \<lparr>meta_category = ProgressionLeveling, meta_type = TFloat (1 / 10) 20 (1 / 10), meta_label = ''Player & Pal EXP Multiplier''\<rparr>),
     (''PalCaptureRate'', \<lparr>meta_category = ProgressionLeveling, meta_type = TFloat (1 / 2) 5 (1 / 10), meta_label = ''Pal Capture Rate Multiplier''\<rparr>),
     (''PalEggDefaultHatchingTime'', \<lparr>meta_category = ProgressionLeveling, meta_type = TFloat 0 240 (1 / 2), meta_label = ''Egg Incubation Time (Hours; 0.0 = Instant)''\<rparr>),
     (''WorkSpeedRate'', \<lparr>meta_category = ProgressionLeveling, meta_type = TFloat (1 / 10) 10 (1 / 10), meta_label = ''Player Work Speed Rate''\<rparr>),
     (''DayTimeSpeedRate'', \<lparr>meta_category = ProgressionLeveling, meta_type = TFloat (1 / 10) 10 (1 / 10), meta_label = ''Day Time Speed Rate''\<rparr>),
     (''NightTimeSpeedRate'', \<lparr>meta_category = ProgressionLeveling, meta_type = TFloat (1 / 10) 10 (1 / 10), meta_label = ''Night Time Speed Rate''\<rparr>)]"

definition meta_StaminaSurvival :: "(string, setting_meta) dict" where
  "meta_StaminaSurvival =
    [
     (''PlayerStaminaDecreaceRate'', \<lparr>meta_category = StaminaSurvival, meta_type = TFloat (1 / 10) 5 (1 / 10), meta_label = ''Player Stamina Drain Rate''\<rparr>),
     (''PalStaminaDecreaceRate'', \<lparr>meta_category = StaminaSurvival, meta_type = TFloat (1 / 10) 5 (1 / 10), meta_label = ''Mount / Pal Stamina Drain Rate''\<rparr>),
     (''PlayerStomachDecreaceRate'', \<lparr>meta_category = StaminaSurvival, meta_type = TFloat (1 / 10) 5 (1 / 10), meta_label = ''Player Hunger Drain Rate''\<rparr>),
     (''PalStomachDecreaceRate'', \<lparr>meta_category = StaminaSurvival, meta_type = TFloat (1 / 10) 5 (1 / 10), meta_label = ''Pal Hunger Drain Rate''\<rparr>),
     (''PlayerAutoHPRegeneRate'', \<lparr>meta_category = StaminaSurvival, meta_type = TFloat (1 / 10) 10 (1 / 10), meta_label = ''Player Passive HP Regen''\<rparr>),
     (''PlayerAutoHPRegeneRateInSleep'', \<lparr>meta_category = StaminaSurvival, meta_type = TFloat (1 / 10) 10 (1 / 10), meta_label = ''Player Sleeping HP Regen''\<rparr>),
     (''PalAutoHPRegeneRate'', \<lparr>meta_category = StaminaSurvival, meta_type = TFloat (1 / 10) 10 (1 / 10), meta_label = ''Pal Passive HP Regen''\<rparr>),
     (''PalAutoHPRegeneRateInSleep'', \<lparr>meta_category = StaminaSurvival, meta_type = TFloat (1 / 10) 10 (1 / 10), meta_label = ''Pal Box / Sleep HP Regen''\<rparr>),
     (''bEnableNonLoginPenalty'', \<lparr>meta_category = StaminaSurvival, meta_type = TBool, meta_label = ''Non-Login Player Penalty''\<rparr>),
     (''bEnableFastTravel'', \<lparr>meta_category = StaminaSurvival, meta_type = TBool, meta_label = ''Fast Travel Statues & Points''\<rparr>),
     (''bIsStartLocationSelectByMap'', \<lparr>meta_category = StaminaSurvival, meta_type = TBool, meta_label = ''Respawn / Start Location Selection on Map''\<rparr>),
     (''bExistPlayerAfterLogout'', \<lparr>meta_category = StaminaSurvival, meta_type = TBool, meta_label = ''Player Body Persists in World After Logout''\<rparr>)]"

definition meta_CombatDeathRules :: "(string, setting_meta) dict" where
  "meta_CombatDeathRules =
    [
     (''DeathPenalty'', \<lparr>meta_category = CombatDeathRules, meta_type = TSelect [''None'', ''Item'', ''ItemAndEquipment'', ''All''], meta_label = ''Death Penalty (None = No Drop)''\<rparr>),
     (''bEnableInvaderEnemy'', \<lparr>meta_category = CombatDeathRules, meta_type = TBool, meta_label = ''Base Raids / Invader Attacks''\<rparr>),
     (''bEnablePlayerToPlayerDamage'', \<lparr>meta_category = CombatDeathRules, meta_type = TBool, meta_label = ''PvP Player-to-Player Damage''\<rparr>),
     (''bEnableFriendlyFire'', \<lparr>meta_category = CombatDeathRules, meta_type = TBool, meta_label = ''Guild Friendly Fire''\<rparr>),
     (''bEnableDefenseOtherGuildPlayer'', \<lparr>meta_category = CombatDeathRules, meta_type = TBool, meta_label = ''Defend Against Other Guild Players''\<rparr>),
     (''bInvisibleOtherGuildBaseCampAreaFX'', \<lparr>meta_category = CombatDeathRules, meta_type = TBool, meta_label = ''Hide Other Guild Base Perimeter FX''\<rparr>),
     (''PlayerDamageRateAttack'', \<lparr>meta_category = CombatDeathRules, meta_type = TFloat (1 / 10) 10 (1 / 10), meta_label = ''Player Outgoing Attack Multiplier''\<rparr>),
     (''PlayerDamageRateDefense'', \<lparr>meta_category = CombatDeathRules, meta_type = TFloat (1 / 10) 10 (1 / 10), meta_label = ''Player Incoming Damage Multiplier''\<rparr>),
     (''PalDamageRateAttack'', \<lparr>meta_category = CombatDeathRules, meta_type = TFloat (1 / 10) 10 (1 / 10), meta_label = ''Pal Outgoing Attack Multiplier''\<rparr>),
     (''PalDamageRateDefense'', \<lparr>meta_category = CombatDeathRules, meta_type = TFloat (1 / 10) 10 (1 / 10), meta_label = ''Pal Incoming Damage Multiplier''\<rparr>),
     (''PalDamageRateToPlayer'', \<lparr>meta_category = CombatDeathRules, meta_type = TFloat (1 / 10) 10 (1 / 10), meta_label = ''Wild Pal Damage Dealt to Players''\<rparr>),
     (''PalDamageRateFromPlayer'', \<lparr>meta_category = CombatDeathRules, meta_type = TFloat (1 / 10) 10 (1 / 10), meta_label = ''Player Damage Dealt to Wild Pals''\<rparr>),
     (''bEnableAimAssistPad'', \<lparr>meta_category = CombatDeathRules, meta_type = TBool, meta_label = ''Controller Aim Assist''\<rparr>),
     (''bEnableAimAssistKeyboard'', \<lparr>meta_category = CombatDeathRules, meta_type = TBool, meta_label = ''Keyboard/Mouse Aim Assist''\<rparr>)]"

definition meta_BaseCampsGuild :: "(string, setting_meta) dict" where
  "meta_BaseCampsGuild =
    [
     (''BaseCampMaxNum'', \<lparr>meta_category = BaseCampsGuild, meta_type = TInt 1 256 1, meta_label = ''Max World Base Camps''\<rparr>),
     (''BaseCampMaxNumInGuild'', \<lparr>meta_category = BaseCampsGuild, meta_type = TInt 1 20 1, meta_label = ''Max Base Camps Per Guild''\<rparr>),
     (''BaseCampWorkerMaxNum'', \<lparr>meta_category = BaseCampsGuild, meta_type = TInt 1 50 1, meta_label = ''Max Assigned Pals Per Base''\<rparr>),
     (''GuildPlayerMaxNum'', \<lparr>meta_category = BaseCampsGuild, meta_type = TInt 1 100 1, meta_label = ''Max Players Per Guild''\<rparr>),
     (''MaxBuildingLimitNum'', \<lparr>meta_category = BaseCampsGuild, meta_type = TInt 0 10000 100, meta_label = ''Max Total World Building Elements (0 = Unlimited)''\<rparr>),
     (''BuildObjectDamageRate'', \<lparr>meta_category = BaseCampsGuild, meta_type = TFloat (1 / 10) 10 (1 / 10), meta_label = ''Damage to Structures Multiplier''\<rparr>),
     (''BuildObjectDeteriorationDamageRate'', \<lparr>meta_category = BaseCampsGuild, meta_type = TFloat 0 10 (1 / 10), meta_label = ''Structure Decay Outside Base (0 = Disabled)''\<rparr>),
     (''AutoResetGuildNoOnlinePlayers'', \<lparr>meta_category = BaseCampsGuild, meta_type = TBool, meta_label = ''Auto-Disband Inactive Guilds''\<rparr>),
     (''AutoResetGuildTimeNoOnlinePlayers'', \<lparr>meta_category = BaseCampsGuild, meta_type = TFloat 0 720 1, meta_label = ''Inactive Guild Reset Timer (Hours)''\<rparr>)]"

definition meta_GatheringDrops :: "(string, setting_meta) dict" where
  "meta_GatheringDrops =
    [
     (''CollectionDropRate'', \<lparr>meta_category = GatheringDrops, meta_type = TFloat (1 / 2) 10 (1 / 10), meta_label = ''Harvesting / Node Drop Rate''\<rparr>),
     (''CollectionObjectHpRate'', \<lparr>meta_category = GatheringDrops, meta_type = TFloat (1 / 2) 10 (1 / 10), meta_label = ''Resource Node Durability (HP)''\<rparr>),
     (''CollectionObjectRespawnSpeedRate'', \<lparr>meta_category = GatheringDrops, meta_type = TFloat (1 / 2) 10 (1 / 10), meta_label = ''Resource Node Respawn Speed Rate''\<rparr>),
     (''EnemyDropItemRate'', \<lparr>meta_category = GatheringDrops, meta_type = TFloat (1 / 2) 10 (1 / 10), meta_label = ''Enemy Pal Item Drop Rate''\<rparr>),
     (''PalSpawnNumRate'', \<lparr>meta_category = GatheringDrops, meta_type = TFloat (1 / 2) 3 (1 / 10), meta_label = ''Pal Spawn Density Multiplier''\<rparr>),
     (''DropItemMaxNum'', \<lparr>meta_category = GatheringDrops, meta_type = TInt 0 5000 100, meta_label = ''Max Dropped Items in World''\<rparr>),
     (''DropItemMaxNum_UNKO'', \<lparr>meta_category = GatheringDrops, meta_type = TInt 0 500 10, meta_label = ''Max Dropped Waste / Dung in World''\<rparr>),
     (''DropItemAliveMaxHours'', \<lparr>meta_category = GatheringDrops, meta_type = TFloat 0 24 (1 / 2), meta_label = ''Dropped Item Despawn Timer (Hours)''\<rparr>),
     (''bActiveUNKO'', \<lparr>meta_category = GatheringDrops, meta_type = TBool, meta_label = ''Creature Waste / Dung Generation (UNKO)''\<rparr>),
     (''SupplyDropSpan'', \<lparr>meta_category = GatheringDrops, meta_type = TInt 0 1000 10, meta_label = ''Supply Drop Interval (Minutes; 0 = Disabled)''\<rparr>)]"

definition SETTING_METADATA :: "(string, setting_meta) dict" where
  "SETTING_METADATA =
     meta_CrossplayMatchmaking @ meta_ProgressionLeveling @ meta_StaminaSurvival @ meta_CombatDeathRules @ meta_BaseCampsGuild @ meta_GatheringDrops"

definition schema_CrossplayMatchmaking :: "(string \<times> field_type \<times> pyval) list" where
  "schema_CrossplayMatchmaking =
    [
     (''ServerName'', FStr (Some 128), VStr ''The Cool Kids Palworld Server''),
     (''ServerDescription'', FStr (Some 256), VStr ''''),
     (''Region'', FStr (Some 32), VStr ''''),
     (''CrossplayPlatforms'', FStr None, VStr ''(Steam,Xbox,PS5,Mac)''),
     (''AllowConnectPlatform'', FStr None, VStr ''(Steam,Xbox,PS5,Mac)''),
     (''bIsMultiplay'', FBool, VBool False),
     (''bShowPlayerList'', FBool, VBool False),
     (''bIsShowJoinLeftMessage'', FBool, VBool True),
     (''ServerPlayerMaxNum'', FInt 1 32, VInt 32),
     (''CoopPlayerMaxNum'', FInt 1 4, VInt 4),
     (''bUseBackupSaveData'', FBool, VBool True),
     (''RCONEnabled'', FBool, VBool False)]"

definition schema_ProgressionLeveling :: "(string \<times> field_type \<times> pyval) list" where
  "schema_ProgressionLeveling =
    [
     (''Difficulty'', FStr None, VStr ''None''),
     (''ExpRate'', FFloat (1 / 10) 20, VFloat (flt 1)),
     (''PalCaptureRate'', FFloat (1 / 2) 5, VFloat (flt 1)),
     (''PalEggDefaultHatchingTime'', FFloat 0 240, VFloat (flt 0)),
     (''WorkSpeedRate'', FFloat (1 / 10) 10, VFloat (flt 1)),
     (''DayTimeSpeedRate'', FFloat (1 / 10) 10, VFloat (flt 1)),
     (''NightTimeSpeedRate'', FFloat (1 / 10) 10, VFloat (flt 1))]"

definition schema_StaminaSurvival :: "(string \<times> field_type \<times> pyval) list" where
  "schema_StaminaSurvival =
    [
     (''PlayerStaminaDecreaceRate'', FFloat (1 / 10) 5, VFloat (flt 1)),
     (''PalStaminaDecreaceRate'', FFloat (1 / 10) 5, VFloat (flt 1)),
     (''PlayerStomachDecreaceRate'', FFloat (1 / 10) 5, VFloat (flt 1)),
     (''PalStomachDecreaceRate'', FFloat (1 / 10) 5, VFloat (flt 1)),
     (''PlayerAutoHPRegeneRate'', FFloat (1 / 10) 10, VFloat (flt 1)),
     (''PlayerAutoHPRegeneRateInSleep'', FFloat (1 / 10) 10, VFloat (flt 1)),
     (''PalAutoHPRegeneRate'', FFloat (1 / 10) 10, VFloat (flt 1)),
     (''PalAutoHPRegeneRateInSleep'', FFloat (1 / 10) 10, VFloat (flt 1)),
     (''bEnableNonLoginPenalty'', FBool, VBool True),
     (''bEnableFastTravel'', FBool, VBool True),
     (''bIsStartLocationSelectByMap'', FBool, VBool True),
     (''bExistPlayerAfterLogout'', FBool, VBool False)]"

definition schema_CombatDeathRules :: "(string \<times> field_type \<times> pyval) list" where
  "schema_CombatDeathRules =
    [
     (''DeathPenalty'', FStr None, VStr ''None''),
     (''bEnableInvaderEnemy'', FBool, VBool True),
     (''bEnablePlayerToPlayerDamage'', FBool, VBool False),
     (''bEnableFriendlyFire'', FBool, VBool False),
     (''bEnableDefenseOtherGuildPlayer'', FBool, VBool False),
     (''bInvisibleOtherGuildBaseCampAreaFX'', FBool, VBool False),
     (''PlayerDamageRateAttack'', FFloat (1 / 10) 10, VFloat (flt 1)),
     (''PlayerDamageRateDefense'', FFloat (1 / 10) 10, VFloat (flt 1)),
     (''PalDamageRateAttack'', FFloat (1 / 10) 10, VFloat (flt 1)),
     (''PalDamageRateDefense'', FFloat (1 / 10) 10, VFloat (flt 1)),
     (''PalDamageRateToPlayer'', FFloat (1 / 10) 10, VFloat (flt 1)),
     (''PalDamageRateFromPlayer'', FFloat (1 / 10) 10, VFloat (flt 1)),
     (''bEnableAimAssistPad'', FBool, VBool True),
     (''bEnableAimAssistKeyboard'', FBool, VBool False)]"

definition schema_BaseCampsGuild :: "(string \<times> field_type \<times> pyval) list" where
  "schema_BaseCampsGuild =
    [
     (''BaseCampMaxNum'', FInt 1 256, VInt 128),
     (''BaseCampMaxNumInGuild'', FInt 1 20, VInt 4),
     (''BaseCampWorkerMaxNum'', FInt 1 50, VInt 20),
     (''GuildPlayerMaxNum'', FInt 1 100, VInt 20),
     (''MaxBuildingLimitNum'', FInt 0 10000, VInt 0),
     (''BuildObjectDamageRate'', FFloat (1 / 10) 10, VFloat (flt 1)),
     (''BuildObjectDeteriorationDamageRate'', FFloat 0 10, VFloat (flt 1)),
     (''AutoResetGuildNoOnlinePlayers'', FBool, VBool False),
     (''AutoResetGuildTimeNoOnlinePlayers'', FFloat 0 720, VFloat (flt 72))]"

definition schema_GatheringDrops :: "(string \<times> field_type \<times> pyval) list" where
  "schema_GatheringDrops =
    [
     (''CollectionDropRate'', FFloat (1 / 2) 10, VFloat (flt 1)),
     (''CollectionObjectHpRate'', FFloat (1 / 2) 10, VFloat (flt 1)),
     (''CollectionObjectRespawnSpeedRate'', FFloat (1 / 2) 10, VFloat (flt 1)),
     (''EnemyDropItemRate'', FFloat (1 / 2) 10, VFloat (flt 1)),
     (''PalSpawnNumRate'', FFloat (1 / 2) 3, VFloat (flt 1)),
     (''DropItemMaxNum'', FInt 0 5000, VInt 3000),
     (''DropItemMaxNum_UNKO'', FInt 0 500, VInt 100),
     (''DropItemAliveMaxHours'', FFloat 0 24, VFloat (flt 1)),
     (''bActiveUNKO'', FBool, VBool False),
     (''SupplyDropSpan'', FInt 0 1000, VInt 180)]"

definition GameplaySettingsSchema :: "(string \<times> field_type \<times> pyval) list" where
  "GameplaySettingsSchema =
     schema_CrossplayMatchmaking @
     schema_ProgressionLeveling @
     schema_StaminaSurvival @
     schema_CombatDeathRules @
     schema_BaseCampsGuild @
     schema_GatheringDrops"

subsection \<open>Validation\<close>

fun signed :: "bool \<Rightarrow> rat \<Rightarrow> rat" where
  "signed neg m = (if neg then - m else m)"

fun fle :: "pyfloat \<Rightarrow> pyfloat \<Rightarrow> bool" where
  "fle PyNan _ = False"
| "fle _ PyNan = False"
| "fle (PyInf True) _ = True"
| "fle _ (PyInf False) = True"
| "fle (PyInf False) _ = False"
| "fle _ (PyInf True) = False"
| "fle (PyFin n1 m1) (PyFin n2 m2) = (signed n1 m1 \<le> signed n2 m2)"

fun has_type :: "field_type \<Rightarrow> pyval \<Rightarrow> bool" where
  "has_type _ VNone = True"
| "has_type (FStr _) (VStr _) = True"
| "has_type FBool (VBool _) = True"
| "has_type (FInt _ _) (VInt _) = True"
| "has_type (FFloat _ _) (VFloat _) = True"
| "has_type _ _ = False"

text \<open>The values a declared constraint refuses: it compares as Python does.\<close>

definition float_less :: "pyfloat \<Rightarrow> pyfloat \<Rightarrow> bool" where
  "float_less x y \<longleftrightarrow> x \<noteq> PyNan \<and> y \<noteq> PyNan \<and> \<not> fle y x"

fun violates :: "field_type \<Rightarrow> pyval \<Rightarrow> bool" where
  "violates (FStr (Some n)) (VStr s) = (n < length s)"
| "violates (FInt lo hi) (VInt i) = (i < lo \<or> hi < i)"
| "violates (FFloat lo hi) (VFloat x) = (float_less x (flt lo) \<or> float_less (flt hi) x)"
| "violates _ _ = False"

text \<open>The values within the bounds of a field, and those within the range of the dashboard.\<close>

fun in_bounds :: "field_type \<Rightarrow> pyval \<Rightarrow> bool" where
  "in_bounds (FStr (Some n)) (VStr s) = (length s \<le> n)"
| "in_bounds (FInt lo hi) (VInt i) = (lo \<le> i \<and> i \<le> hi)"
| "in_bounds (FFloat lo hi) (VFloat x) = (fle (flt lo) x \<and> fle x (flt hi))"
| "in_bounds _ _ = True"

fun in_range :: "setting_type \<Rightarrow> pyval \<Rightarrow> bool" where
  "in_range _ VNone = True"
| "in_range TString (VStr _) = True"
| "in_range (TSelect _) (VStr _) = True"
| "in_range TBool (VBool _) = True"
| "in_range (TInt lo hi _) (VInt i) = (lo \<le> i \<and> i \<le> hi)"
| "in_range (TFloat lo hi _) (VFloat x) = (fle (flt lo) x \<and> fle x (flt hi))"
| "in_range _ _ = False"

type_synonym coercion = "field_type \<Rightarrow> pyval \<Rightarrow> pyval option"

definition coerce_ok :: "coercion \<Rightarrow> bool" where
  "coerce_ok coerce \<longleftrightarrow> (\<forall>ty v w. coerce ty v = Some w \<longrightarrow> has_type ty w \<and> \<not> violates ty w)"

definition sanitize_strings :: "string option \<Rightarrow> string" where
  "sanitize_strings v =
     (case v of
        None \<Rightarrow> []
      | Some s \<Rightarrow> strip (filter (\<lambda>c. c \<notin> {CHR 0x0D, newline, CHR 0x09, dquote}) s))"

definition validate_death_penalty :: "string option \<Rightarrow> string" where
  "validate_death_penalty v =
     (case v of
        None \<Rightarrow> ''None''
      | Some s \<Rightarrow> if s \<in> set [''None'', ''Item'', ''ItemAndEquipment'', ''All''] then s else ''None'')"

fun opt_str :: "pyval \<Rightarrow> string option" where
  "opt_str (VStr s) = Some s"
| "opt_str _ = None"

definition sanitized_fields :: "string list" where
  "sanitized_fields = [''ServerName'', ''ServerDescription'', ''Region'']"

definition after_validator :: "string \<Rightarrow> pyval \<Rightarrow> pyval" where
  "after_validator name v =
     (if name \<in> set sanitized_fields then VStr (sanitize_strings (opt_str v))
      else if name = ''DeathPenalty'' then VStr (validate_death_penalty (opt_str v))
      else v)"

definition validate_field :: "coercion \<Rightarrow> string \<Rightarrow> field_type \<Rightarrow> pyval \<Rightarrow> pyval result" where
  "validate_field coerce name ty v =
     (case coerce ty v of
        None \<Rightarrow> Inl ValidationError
      | Some w \<Rightarrow> Inr (after_validator name w))"

text \<open>Validation of the request body followed by \<open>model_dump(exclude_unset=True)\<close>: the fields
  that were sent, in the order of the schema; keys the schema does not have are dropped.\<close>

fun validate_fields ::
  "coercion \<Rightarrow> (string \<times> field_type \<times> pyval) list \<Rightarrow> settings \<Rightarrow> settings result" where
  "validate_fields coerce [] payload = Inr []"
| "validate_fields coerce ((name, ty, dflt) # fs) payload =
     (case dict_get payload name of
        None \<Rightarrow> validate_fields coerce fs payload
      | Some v \<Rightarrow>
          bind_result (validate_field coerce name ty v) (\<lambda>w.
            bind_result (validate_fields coerce fs payload) (\<lambda>d. Inr ((name, w) # d))))"

definition dump_settings :: "coercion \<Rightarrow> settings \<Rightarrow> settings result" where
  "dump_settings coerce payload = validate_fields coerce GameplaySettingsSchema payload"

subsection \<open>The tables agree\<close>

fun bounds_agree :: "setting_type \<Rightarrow> field_type \<Rightarrow> bool" where
  "bounds_agree TString (FStr _) = True"
| "bounds_agree (TSelect _) (FStr _) = True"
| "bounds_agree TBool FBool = True"
| "bounds_agree (TInt lo hi _) (FInt lo' hi') = (lo = lo' \<and> hi = hi')"
| "bounds_agree (TFloat lo hi _) (FFloat lo' hi') = (lo = lo' \<and> hi = hi')"
| "bounds_agree _ _ = False"

definition agrees_in :: "(string \<times> field_type \<times> pyval) list \<Rightarrow> string \<times> setting_meta \<Rightarrow> bool" where
  "agrees_in fs km =
     (case dict_get fs (fst km) of
        None \<Rightarrow> False
      | Some (ty, _) \<Rightarrow> bounds_agree (meta_type (snd km)) ty)"

definition meta_agrees :: "string \<times> setting_meta \<Rightarrow> bool" where
  "meta_agrees km = agrees_in GameplaySettingsSchema km"

lemmas schema_groups =
  schema_CrossplayMatchmaking_def
  schema_ProgressionLeveling_def
  schema_StaminaSurvival_def
  schema_CombatDeathRules_def
  schema_BaseCampsGuild_def
  schema_GatheringDrops_def

lemma schema_distinct: "distinct (map fst GameplaySettingsSchema)"
  by (simp add: GameplaySettingsSchema_def schema_groups)

lemma agrees_in_group:
  assumes "set fs \<subseteq> set GameplaySettingsSchema" "list_all (agrees_in fs) ms"
  shows "list_all meta_agrees ms"
proof -
  have "meta_agrees km" if a: "agrees_in fs km" for km
  proof -
    from a obtain ty dflt where "dict_get fs (fst km) = Some (ty, dflt)"
      and b: "bounds_agree (meta_type (snd km)) ty"
      by (auto simp: agrees_in_def split: option.splits)
    then have "(fst km, ty, dflt) \<in> set GameplaySettingsSchema"
      using assms(1) by (blast dest: map_of_SomeD)
    then have "dict_get GameplaySettingsSchema (fst km) = Some (ty, dflt)"
      using schema_distinct by (rule map_of_is_SomeI [rotated])
    with b show ?thesis by (simp add: meta_agrees_def agrees_in_def)
  qed
  with assms(2) show ?thesis by (simp add: list_all_iff)
qed

lemma meta_agrees_CrossplayMatchmaking: "list_all meta_agrees meta_CrossplayMatchmaking"
  by (rule agrees_in_group [of schema_CrossplayMatchmaking])
    (simp_all add: GameplaySettingsSchema_def meta_CrossplayMatchmaking_def agrees_in_def schema_CrossplayMatchmaking_def)

lemma meta_agrees_ProgressionLeveling: "list_all meta_agrees meta_ProgressionLeveling"
  by (rule agrees_in_group [of schema_ProgressionLeveling])
    (simp_all add: GameplaySettingsSchema_def meta_ProgressionLeveling_def agrees_in_def schema_ProgressionLeveling_def)

lemma meta_agrees_StaminaSurvival: "list_all meta_agrees meta_StaminaSurvival"
  by (rule agrees_in_group [of schema_StaminaSurvival])
    (simp_all add: GameplaySettingsSchema_def meta_StaminaSurvival_def agrees_in_def schema_StaminaSurvival_def)

lemma meta_agrees_CombatDeathRules: "list_all meta_agrees meta_CombatDeathRules"
  by (rule agrees_in_group [of schema_CombatDeathRules])
    (simp_all add: GameplaySettingsSchema_def meta_CombatDeathRules_def agrees_in_def schema_CombatDeathRules_def)

lemma meta_agrees_BaseCampsGuild: "list_all meta_agrees meta_BaseCampsGuild"
  by (rule agrees_in_group [of schema_BaseCampsGuild])
    (simp_all add: GameplaySettingsSchema_def meta_BaseCampsGuild_def agrees_in_def schema_BaseCampsGuild_def)

lemma meta_agrees_GatheringDrops: "list_all meta_agrees meta_GatheringDrops"
  by (rule agrees_in_group [of schema_GatheringDrops])
    (simp_all add: GameplaySettingsSchema_def meta_GatheringDrops_def agrees_in_def schema_GatheringDrops_def)

lemmas metadata_agrees_by_category =
  meta_agrees_CrossplayMatchmaking
  meta_agrees_ProgressionLeveling
  meta_agrees_StaminaSurvival
  meta_agrees_CombatDeathRules
  meta_agrees_BaseCampsGuild
  meta_agrees_GatheringDrops

lemma metadata_agrees: "list_all meta_agrees SETTING_METADATA"
  by (simp add: SETTING_METADATA_def metadata_agrees_by_category)

lemma schema_death_penalty: "(''DeathPenalty'', ty, dflt) \<in> set GameplaySettingsSchema \<Longrightarrow> ty = FStr None"
  by (simp add: GameplaySettingsSchema_def schema_groups)

lemma schema_sanitized_type:
  "(name, ty, dflt) \<in> set GameplaySettingsSchema \<Longrightarrow> name \<in> set sanitized_fields \<Longrightarrow>
     ty = FStr (Some 128) \<or> ty = FStr (Some 256) \<or> ty = FStr (Some 32)"
  by (auto simp: sanitized_fields_def GameplaySettingsSchema_def schema_groups)

subsection \<open>Accepted payloads\<close>

lemma validate_fields_item:
  assumes "validate_fields coerce fs payload = Inr d" "(k, v) \<in> set d"
  shows "\<exists>ty dflt u w. (k, ty, dflt) \<in> set fs \<and> dict_get payload k = Some u \<and>
    coerce ty u = Some w \<and> v = after_validator k w"
  using assms
proof (induction coerce fs payload arbitrary: d rule: validate_fields.induct)
  case (1 coerce payload)
  then show ?case by simp
next
  case (2 coerce name ty dflt fs payload)
  show ?case
  proof (cases "dict_get payload name")
    case None
    with 2 show ?thesis by fastforce
  next
    case (Some u)
    with "2.prems"(1) obtain w d' where d: "validate_field coerce name ty u = Inr w"
      "validate_fields coerce fs payload = Inr d'" "d = (name, w) # d'"
      by (auto simp: bind_result_Inr_iff)
    show ?thesis
    proof (cases "(k, v) = (name, w)")
      case True
      with Some d(1) show ?thesis
        by (auto simp: validate_field_def split: option.splits if_splits)
    next
      case False
      with "2.prems"(2) d(3) have "(k, v) \<in> set d'" by auto
      with "2.IH"(2) [OF Some d(2)] show ?thesis by fastforce
    qed
  qed
qed

lemma validate_fields_keys:
  assumes "validate_fields coerce fs payload = Inr d"
  shows "set (dict_keys d) \<subseteq> set (map fst fs)"
proof
  fix k assume "k \<in> set (dict_keys d)"
  then obtain v where "(k, v) \<in> set d" by auto
  with validate_fields_item [OF assms] obtain ty dflt where "(k, ty, dflt) \<in> set fs" by blast
  then show "k \<in> set (map fst fs)" by force
qed

lemma validate_fields_wf:
  "validate_fields coerce fs payload = Inr d \<Longrightarrow> distinct (map fst fs) \<Longrightarrow> wf_dict d"
proof (induction coerce fs payload arbitrary: d rule: validate_fields.induct)
  case (2 coerce name ty dflt fs payload)
  show ?case
  proof (cases "dict_get payload name")
    case None
    with 2 show ?thesis by simp
  next
    case (Some u)
    with "2.prems"(1) obtain w d' where
      d: "validate_fields coerce fs payload = Inr d'" "d = (name, w) # d'"
      by (auto simp: bind_result_Inr_iff)
    from "2.IH"(2) [OF Some d(1)] "2.prems"(2) have "wf_dict d'" by simp
    moreover have "name \<notin> set (dict_keys d')"
      using validate_fields_keys [OF d(1)] "2.prems"(2) by auto
    ultimately show ?thesis by (simp add: d(2) wf_dict_def)
  qed
qed simp

lemma length_sanitize_strings: "length (sanitize_strings (Some s)) \<le> length s"
  unfolding sanitize_strings_def option.case
  by (rule order_trans [OF length_strip_le length_filter_le])

lemma after_validator_typed:
  assumes "has_type ty w" "\<not> violates ty w" "(name, ty, dflt) \<in> set GameplaySettingsSchema"
  shows "has_type ty (after_validator name w) \<and> \<not> violates ty (after_validator name w)"
proof (cases "name \<in> set sanitized_fields")
  case True
  then obtain n where ty: "ty = FStr (Some n)"
    using schema_sanitized_type [OF assms(3)] by blast
  show ?thesis
  proof (cases w)
    case (VStr s)
    with ty assms(2) have "length s \<le> n" by simp
    with length_sanitize_strings [of s] have "length (sanitize_strings (Some s)) \<le> n"
      by (rule order_trans)
    with True ty VStr show ?thesis by (simp add: after_validator_def)
  qed (use True ty assms(1) in \<open>simp_all add: after_validator_def sanitize_strings_def\<close>)
next
  case False
  show ?thesis
  proof (cases "name = ''DeathPenalty''")
    case True
    with assms(3) have "ty = FStr None" using schema_death_penalty by blast
    with False True show ?thesis by (simp add: after_validator_def)
  qed (use False assms(1,2) in \<open>simp add: after_validator_def\<close>)
qed

lemma fle_if_not_less: "\<not> float_less x y \<Longrightarrow> x \<noteq> PyNan \<Longrightarrow> y \<noteq> PyNan \<Longrightarrow> fle y x"
  by (simp add: float_less_def)

lemma flt_number: "flt m \<noteq> PyNan"
  by (auto simp: flt_def to_double_def Let_def)

lemma respects_bounds:
  assumes "has_type ty v" "\<not> violates ty v"
  shows "in_bounds ty v \<or> v = VFloat PyNan"
  using assms fle_if_not_less flt_number by (cases "(ty, v)" rule: violates.cases) auto

lemma respects_range:
  assumes "bounds_agree st ty" "has_type ty v" "in_bounds ty v \<or> v = VFloat PyNan"
  shows "in_range st v \<or> v = VFloat PyNan"
  using assms by (cases "(st, ty)" rule: bounds_agree.cases; cases v) auto

lemma schema_of_metadata:
  assumes "dict_get SETTING_METADATA k = Some m" "(k, ty, dflt) \<in> set GameplaySettingsSchema"
  shows "bounds_agree (meta_type m) ty"
proof -
  have "dict_get GameplaySettingsSchema k = Some (ty, dflt)"
    using assms(2) schema_distinct by (rule map_of_is_SomeI [rotated])
  moreover have "meta_agrees (k, m)"
    using metadata_agrees map_of_SomeD [OF assms(1)] by (auto simp: list_all_iff)
  ultimately show ?thesis by (simp add: meta_agrees_def agrees_in_def)
qed

lemma sanitize_strings_clean:
  "c \<in> set (sanitize_strings v) \<Longrightarrow> c \<noteq> dquote \<and> c \<noteq> newline \<and> c \<noteq> CHR 0x0D \<and> c \<noteq> CHR 0x09"
  by (auto simp: sanitize_strings_def split: option.splits dest: set_strip_subset [THEN subsetD])

subsection \<open>Correctness of the tables and of validation\<close>

text \<open>C15. The two descriptions of the editable settings agree: every setting of
  \<open>SETTING_METADATA\<close> is a field of \<open>GameplaySettingsSchema\<close> of the same type, and the range the
  dashboard offers for a number is the range the server accepts.\<close>

theorem metadata_matches_schema: "list_all meta_agrees SETTING_METADATA"
  by (rule metadata_agrees)

text \<open>C14. An accepted settings payload contains only fields of the schema, each at most once and
  only if it was sent, with the declared type; every number and text respects the bounds of the schema and
  the range the dashboard shows for the setting, save for NaN, which no comparison refuses; the
  sanitized texts hold no quote, line break or tab.\<close>

theorem accepted_payload_in_bounds:
  assumes "coerce_ok coerce" "dump_settings coerce payload = Inr d" "(k, v) \<in> set d"
  shows "wf_dict d \<and> dict_get payload k \<noteq> None \<and>
    (\<exists>ty dflt. (k, ty, dflt) \<in> set GameplaySettingsSchema \<and> has_type ty v \<and> (in_bounds ty v \<or> v = VFloat PyNan)) \<and>
    (\<forall>m. dict_get SETTING_METADATA k = Some m \<longrightarrow> in_range (meta_type m) v \<or> v = VFloat PyNan) \<and>
    (k \<in> set sanitized_fields \<longrightarrow>
       (\<exists>s. v = VStr s \<and> dquote \<notin> set s \<and> newline \<notin> set s \<and> CHR 0x0D \<notin> set s \<and> CHR 0x09 \<notin> set s))"
proof -
  have d: "validate_fields coerce GameplaySettingsSchema payload = Inr d"
    using assms(2) by (simp add: dump_settings_def)
  obtain ty dflt u w where it: "(k, ty, dflt) \<in> set GameplaySettingsSchema" "dict_get payload k = Some u"
    "coerce ty u = Some w" "v = after_validator k w"
    using validate_fields_item [OF d assms(3)] by blast
  have "has_type ty v" "\<not> violates ty v"
    using assms(1) it(3,4) after_validator_typed [OF _ _ it(1)] by (auto simp: coerce_ok_def)
  then have b: "has_type ty v" "in_bounds ty v \<or> v = VFloat PyNan" using respects_bounds by blast+
  moreover have "\<forall>m. dict_get SETTING_METADATA k = Some m \<longrightarrow> in_range (meta_type m) v \<or> v = VFloat PyNan"
    using respects_range [OF schema_of_metadata [OF _ it(1)] b] by blast
  moreover have "k \<in> set sanitized_fields \<Longrightarrow> \<exists>s. v = VStr s \<and> dquote \<notin> set s \<and> newline \<notin> set s \<and>
      CHR 0x0D \<notin> set s \<and> CHR 0x09 \<notin> set s"
    using it(4) sanitize_strings_clean by (auto simp: after_validator_def)
  ultimately show ?thesis
    using validate_fields_wf [OF d schema_distinct] it(1,2) by blast
qed

text \<open>A conversion that accepts exactly the values that already have the declared type and violate no
  constraint.\<close>

definition strict_coerce :: coercion where
  "strict_coerce ty v = (if has_type ty v \<and> \<not> violates ty v then Some v else None)"

definition demo_payload :: settings where
  "demo_payload = [(''ServerName'', VStr [CHR ''A'', dquote, newline])]"

lemma validate_fields_absent:
  "list_all (\<lambda>f. dict_get payload (fst f) = None) fs \<Longrightarrow> validate_fields coerce fs payload = Inr []"
  by (induction fs) auto

lemma validate_fields_one:
  assumes "distinct (map fst fs)" "(name, ty, dflt) \<in> set fs" "validate_field coerce name ty v = Inr w"
  shows "validate_fields coerce fs [(name, v)] = Inr [(name, w)]"
  using assms(1,2)
proof (induction fs)
  case (Cons f fs)
  obtain n t df where f: "f = (n, t, df)"
    by (cases f) auto
  show ?case
  proof (cases "n = name")
    case True
    then have "t = ty" "name \<notin> fst ` set fs"
      using Cons.prems f by force+
    moreover have "validate_fields coerce fs [(name, v)] = Inr []"
      using \<open>name \<notin> fst ` set fs\<close> by (intro validate_fields_absent) (auto simp: list_all_iff)
    ultimately show ?thesis
      using True f assms(3) by simp
  next
    case False
    then show ?thesis
      using Cons f by auto
  qed
qed simp

text \<open>Such a conversion lets NaN through, which is then written as a text.\<close>

lemma nan_accepted:
  "dump_settings strict_coerce [(''ExpRate'', VFloat PyNan)] = Inr [(''ExpRate'', VFloat PyNan)]"
  "norm_value (VFloat PyNan) = VStr ''nan''"
proof -
  have "(''ExpRate'', FFloat (1 / 10) 20, VFloat (flt 1)) \<in> set GameplaySettingsSchema"
    by (simp add: GameplaySettingsSchema_def schema_groups)
  then show "dump_settings strict_coerce [(''ExpRate'', VFloat PyNan)] = Inr [(''ExpRate'', VFloat PyNan)]"
    unfolding dump_settings_def
    by (rule validate_fields_one [OF schema_distinct])
       (simp add: validate_field_def strict_coerce_def float_less_def after_validator_def sanitized_fields_def)
qed simp

theorem accepted_payload_in_bounds_witness:
  "\<exists>d. dump_settings strict_coerce demo_payload = Inr d \<and> wf_dict d"
proof -
  have "coerce_ok strict_coerce"
    by (auto simp: coerce_ok_def strict_coerce_def)
  moreover have "(''ServerName'', FStr (Some 128), VStr ''The Cool Kids Palworld Server'') \<in> set GameplaySettingsSchema"
    by (simp add: GameplaySettingsSchema_def schema_groups)
  moreover have "validate_field strict_coerce ''ServerName'' (FStr (Some 128)) (VStr [CHR ''A'', dquote, newline]) =
      Inr (VStr ''A'')"
    by code_simp
  ultimately have "coerce_ok strict_coerce"
    "dump_settings strict_coerce demo_payload = Inr [(''ServerName'', VStr ''A'')]"
    using validate_fields_one [OF schema_distinct] by (simp_all add: dump_settings_def demo_payload_def)
  then show ?thesis
    using accepted_payload_in_bounds [of strict_coerce demo_payload "[(''ServerName'', VStr ''A'')]"
        "''ServerName''" "VStr ''A''"] by auto
qed

end
