(* ===== verification/Config_Pipeline.thy ===== *)
theory Config_Pipeline
  imports Settings_Schema Atomic_IO
begin

section \<open>The configuration pipeline\<close>

text \<open>
  \<^verbatim>\<open>app/config_manager/pipeline.py\<close>: \<open>ConfigPipeline\<close> separates the protected
  administrative keys from the public settings and merges public edits into the file on
  disk. The disk is that of \<^verbatim>\<open>Atomic_IO\<close>; a read may fail with the exception given as the
  \<open>fault\<close> argument. The serializer and parser enter the proofs through the locale
  \<open>settings_codec\<close>, whose law is that reading back a representable dictionary normalises
  its values.
\<close>

subsection \<open>Reading text files\<close>

text \<open>Text mode turns every \<open>\r\n\<close> and \<open>\r\<close> into \<open>\n\<close>.\<close>

fun universal_newlines :: "string \<Rightarrow> string" where
  "universal_newlines [] = []"
| "universal_newlines (c # cs) =
     (if c = CHR 0x0D
      then newline # (case cs of [] \<Rightarrow> []
                      | d # ds \<Rightarrow> if d = newline then universal_newlines ds else universal_newlines cs)
      else c # universal_newlines cs)"

definition read_text :: "py_error option \<Rightarrow> world \<Rightarrow> path \<Rightarrow> string result" where
  "read_text fault w p =
     (case fault of
        Some e \<Rightarrow> Inl e
      | None \<Rightarrow>
          (case file_at w p of
             None \<Rightarrow> Inl FileNotFoundError
           | Some f \<Rightarrow>
               (case utf8_decode (f_data f) of
                  None \<Rightarrow> Inl UnicodeDecodeError
                | Some s \<Rightarrow> Inr (universal_newlines s))))"

subsection \<open>The pipeline\<close>

definition PROTECTED_ADMIN_KEYS :: "string list" where
  "PROTECTED_ADMIN_KEYS =
     [''AdminPassword'', ''ServerPassword'', ''BanListURL'', ''PublicPort'', ''PublicIP'',
      ''RCONEnabled'', ''RCONPort'', ''RESTAPIEnabled'', ''RESTAPIPort'', ''bUseAuth'']"

definition is_protected :: "string \<Rightarrow> bool" where
  "is_protected k \<longleftrightarrow> k \<in> set PROTECTED_ADMIN_KEYS"

definition path_exists :: "world \<Rightarrow> path \<Rightarrow> bool" where
  "path_exists w p \<longleftrightarrow> file_at w p \<noteq> None"

definition read_to_json :: "py_error option \<Rightarrow> world \<Rightarrow> path \<Rightarrow> (settings \<times> settings) result" where
  "read_to_json fault w ini_path =
     (if \<not> path_exists w ini_path then Inl FileNotFoundError
      else bind_result (parse_ini_file (read_text fault w ini_path)) (\<lambda>full_state.
        Inr (dict_filter (\<lambda>k. \<not> is_protected k) full_state, dict_filter is_protected full_state)))"

definition get_public_view :: "py_error option \<Rightarrow> world \<Rightarrow> path \<Rightarrow> settings result" where
  "get_public_view fault w ini_path =
     (if \<not> path_exists w ini_path then Inr []
      else bind_result (read_to_json fault w ini_path) (\<lambda>(public_view, _). Inr public_view))"

definition merge_settings :: "settings \<Rightarrow> settings \<Rightarrow> settings \<Rightarrow> settings" where
  "merge_settings live_full live_protected incoming =
     dict_assign (dict_assign live_full (dict_filter (\<lambda>k. \<not> is_protected k) incoming)) live_protected"

definition merge_and_serialize ::
  "py_error option \<Rightarrow> py_error option \<Rightarrow> world \<Rightarrow> path \<Rightarrow> settings \<Rightarrow> string result" where
  "merge_and_serialize fault1 fault2 w ini_path incoming =
     (if path_exists w ini_path then
        bind_result (read_to_json fault1 w ini_path) (\<lambda>(_, live_protected).
          bind_result (parse_ini_file (read_text fault2 w ini_path)) (\<lambda>live_full.
            Inr (serialize_ini_settings (merge_settings live_full live_protected incoming))))
      else Inr (serialize_ini_settings (merge_settings [] [] incoming)))"

definition save_and_serialize ::
  "io_env \<Rightarrow> py_error option \<Rightarrow> py_error option \<Rightarrow> path \<Rightarrow> settings \<Rightarrow> int \<Rightarrow> bool \<Rightarrow> bool \<Rightarrow> world \<Rightarrow>
     path result \<times> world" where
  "save_and_serialize env fault1 fault2 ini_path incoming max_backups make_backup sync_directory w =
     (case merge_and_serialize fault1 fault2 w ini_path incoming of
        Inl e \<Rightarrow> (Inl e, w)
      | Inr serialized \<Rightarrow> atomic_write_ini env ini_path serialized max_backups make_backup sync_directory w)"

definition atomic_save ::
  "io_env \<Rightarrow> path \<Rightarrow> string \<Rightarrow> int \<Rightarrow> bool \<Rightarrow> bool \<Rightarrow> world \<Rightarrow> path result \<times> world" where
  "atomic_save env ini_path serialized_content max_backups make_backup sync_directory w =
     atomic_write_ini env ini_path serialized_content max_backups make_backup sync_directory w"

subsection \<open>Text that survives the disk\<close>

lemma universal_newlines_id: "CHR 0x0D \<notin> set s \<Longrightarrow> universal_newlines s = s"
  by (induction s) auto

lemma read_text_written:
  assumes "file_at w p = Some f" "f_data f = utf8_encode s" "CHR 0x0D \<notin> set s"
  shows "read_text None w p = Inr s"
  using assms by (simp add: read_text_def utf8_decode_encode universal_newlines_id)

subsection \<open>The codec interface\<close>

text \<open>What the pipeline relies on: an encoder and a decoder of settings such that decoding an
  encoded, representable dictionary gives the same keys with normalised values.\<close>

locale settings_codec =
  fixes encode :: "settings \<Rightarrow> string"
    and decode :: "string \<Rightarrow> settings"
    and norm :: "pyval \<Rightarrow> pyval"
    and wf :: "settings \<Rightarrow> bool"
  assumes decode_encode: "wf d \<Longrightarrow> decode (encode d) = map (\<lambda>(k, v). (k, norm v)) d"
begin

lemma lookup_decode_encode:
  assumes "wf d"
  shows "dict_get (decode (encode d)) k = map_option norm (dict_get d k)"
proof -
  have "dict_get (map (\<lambda>(k, v). (k, norm v)) d) k = map_option norm (dict_get d k)"
    by (induction d) auto
  with assms show ?thesis by (simp add: decode_encode)
qed

lemma lookup_agree:
  assumes "wf d" "dict_get d k = dict_get d' k" "dict_get d' k = Some v" "norm v = v"
  shows "dict_get (decode (encode d)) k = dict_get d' k"
  using assms by (simp add: lookup_decode_encode)

end

interpretation ini: settings_codec serialize_ini_settings parse_ini_text norm_value wf_settings
  by unfold_locales (rule parse_serialize)

subsection \<open>Merging\<close>

lemma map_of_rev_distinct: "distinct (map fst xs) \<Longrightarrow> map_of (rev xs) = map_of xs"
  by (rule map_of_inject_set [THEN iffD2]) (simp_all add: rev_map [symmetric])

lemma dict_get_assign_wf:
  "wf_dict items \<Longrightarrow> dict_get (dict_assign d items) k =
     (case dict_get items k of Some v \<Rightarrow> Some v | None \<Rightarrow> dict_get d k)"
  by (simp add: dict_get_assign map_of_rev_distinct wf_dict_def)

lemma merge_settings_lookup:
  assumes "wf_dict live" "wf_dict incoming"
  shows "dict_get (merge_settings live (dict_filter is_protected live) incoming) k =
    (if is_protected k then dict_get live k
     else (case dict_get incoming k of Some v \<Rightarrow> Some v | None \<Rightarrow> dict_get live k))"
  using assms
  by (auto simp: merge_settings_def dict_get_assign_wf wf_dict_filter dict_get_filter split: option.splits)

lemma list_all_dict_set:
  "list_all P d \<Longrightarrow> P (k, v) \<Longrightarrow> list_all P (dict_set k v d)"
  by (induction d) auto

lemma wf_settings_assign:
  "wf_settings d \<Longrightarrow> list_all (\<lambda>(k, v). wf_key k \<and> wf_value v) items \<Longrightarrow> wf_settings (dict_assign d items)"
proof (induction items arbitrary: d)
  case (Cons kv items)
  obtain k v where kv: "kv = (k, v)" by (cases kv)
  with Cons.prems have "wf_settings (dict_set k v d)"
    by (auto simp: wf_settings_def intro: list_all_dict_set)
  with Cons kv show ?case by simp
qed simp

lemma wf_settings_filter: "wf_settings d \<Longrightarrow> wf_settings (dict_filter P d)"
  by (auto simp: wf_settings_def dict_filter_def list_all_iff intro: wf_dict_filter [unfolded dict_filter_def])

lemma wf_settings_merge:
  "wf_settings live \<Longrightarrow> wf_settings incoming \<Longrightarrow>
     wf_settings (merge_settings live (dict_filter is_protected live) incoming)"
  unfolding merge_settings_def
  by (intro wf_settings_assign) (auto simp: wf_settings_def dict_filter_def list_all_iff)

lemma wf_dict_parse: "wf_dict (parse_ini_text t)"
  by (auto simp: parse_ini_text_def split: option.splits)

text \<open>The text that is written when the file exists and can be read.\<close>

lemma merge_and_serialize_live:
  assumes "read_text None w p = Inr t"
  shows "merge_and_serialize None None w p incoming =
    Inr (serialize_ini_settings
      (merge_settings (parse_ini_text t) (dict_filter is_protected (parse_ini_text t)) incoming))"
proof -
  have "path_exists w p"
    using assms by (auto simp: read_text_def path_exists_def split: option.splits)
  with assms show ?thesis
    by (simp add: merge_and_serialize_def read_to_json_def parse_ini_file_def)
qed

lemma atomic_write_ini_Inr:
  assumes "tmp_ok env p w" "atomic_write_ini env p s n mb sd w = (Inr q, w')"
  shows "\<exists>f. file_at w' p = Some f \<and> f_data f = utf8_encode s"
proof -
  obtain r where r: "atomic_write_file env p (utf8_encode s) n mb None sd w = (Inr r, w')"
    using assms(2) by (auto simp: atomic_write_ini_def split: prod.splits sum.splits)
  with atomic_write_old_or_new [OF assms(1) r] show ?thesis
    by (auto simp: new_content_def split: option.splits)
qed

lemma save_and_reread:
  assumes "read_text None w p = Inr t" "tmp_ok env p w"
    and "wf_settings (parse_ini_text t)" "wf_settings incoming"
    and "save_and_serialize env None None p incoming n mb sd w = (Inr q, w')"
    and "CHR 0x0D \<notin> set (serialize_ini_settings
      (merge_settings (parse_ini_text t) (dict_filter is_protected (parse_ini_text t)) incoming))"
  shows "\<exists>t'. read_text None w' p = Inr t' \<and>
    dict_get (parse_ini_text t') k =
      map_option norm_value
        (if is_protected k then dict_get (parse_ini_text t) k
         else (case dict_get incoming k of Some v \<Rightarrow> Some v | None \<Rightarrow> dict_get (parse_ini_text t) k))"
proof -
  define m where "m = merge_settings (parse_ini_text t) (dict_filter is_protected (parse_ini_text t)) incoming"
  have "atomic_write_ini env p (serialize_ini_settings m) n mb sd w = (Inr q, w')"
    using assms(5) by (simp add: save_and_serialize_def merge_and_serialize_live [OF assms(1)] m_def)
  then obtain f where "file_at w' p = Some f" "f_data f = utf8_encode (serialize_ini_settings m)"
    using atomic_write_ini_Inr [OF assms(2)] by blast
  then have "read_text None w' p = Inr (serialize_ini_settings m)"
    using assms(6) by (intro read_text_written) (simp_all add: m_def)
  moreover have "wf_settings m" unfolding m_def by (rule wf_settings_merge [OF assms(3,4)])
  moreover have "wf_dict incoming" using assms(4) by (simp add: wf_settings_def)
  ultimately show ?thesis
    by (simp add: ini.lookup_decode_encode m_def merge_settings_lookup [OF wf_dict_parse])
qed

subsection \<open>Correctness of the pipeline\<close>

text \<open>C2. Saving public edits preserves the protected settings end to end: after a successful save,
  reading the file back gives every protected key the value it had before, every edited public
  key the new value and every other key its old value (up to the normalisation of one write),
  provided the dictionaries involved are representable.\<close>

theorem save_preserves_protected:
  assumes "read_text None w p = Inr t" "tmp_ok env p w"
    and "wf_settings (parse_ini_text t)" "wf_settings incoming"
    and "save_and_serialize env None None p incoming n mb sd w = (Inr q, w')"
    and "CHR 0x0D \<notin> set (serialize_ini_settings
      (merge_settings (parse_ini_text t) (dict_filter is_protected (parse_ini_text t)) incoming))"
  shows "\<exists>t'. read_text None w' p = Inr t' \<and>
    dict_get (parse_ini_text t') k =
      map_option norm_value
        (if is_protected k then dict_get (parse_ini_text t) k
         else (case dict_get incoming k of Some v \<Rightarrow> Some v | None \<Rightarrow> dict_get (parse_ini_text t) k))"
  by (rule save_and_reread [OF assms])

definition demo_live :: settings where
  "demo_live = [(''AdminPassword'', VStr ''pw''), (''ServerName'', VStr ''old'')]"

definition demo_incoming :: settings where
  "demo_incoming = [(''AdminPassword'', VStr ''evil''), (''ServerName'', VStr ''new'')]"

definition demo_ini_world :: world where
  "demo_ini_world = \<lparr>files = [(demo_target, demo_file (utf8_encode (serialize_ini_settings demo_live)) 5)],
     trace = [], dir_durable = True\<rparr>"

lemma demo_wf: "wf_settings demo_live" "wf_settings demo_incoming"
  by code_simp+

lemma demo_live_on_disk:
  "read_text None demo_ini_world demo_target = Inr (serialize_ini_settings demo_live)"
  "tmp_ok demo_io demo_target demo_ini_world"
  "parse_ini_text (serialize_ini_settings demo_live) = demo_live"
  "wf_settings demo_live"
proof -
  have cr: "CHR 0x0D \<notin> set (serialize_ini_settings demo_live)"
    by code_simp
  show "read_text None demo_ini_world demo_target = Inr (serialize_ini_settings demo_live)"
    by (rule read_text_written [where f = "demo_file (utf8_encode (serialize_ini_settings demo_live)) 5", OF _ _ cr])
       (simp_all add: demo_ini_world_def file_at_def demo_file_def)
  show "tmp_ok demo_io demo_target demo_ini_world"
    by (simp add: tmp_ok_def tmp_path_of_def demo_io_def demo_target_def file_at_def demo_ini_world_def
        is_backup_of_def startswith_def backup_prefix_def)
  show "parse_ini_text (serialize_ini_settings demo_live) = demo_live"
    using parse_serialize [OF demo_wf(1)] by (simp add: demo_live_def)
qed (rule demo_wf)

lemma demo_save_succeeds:
  "\<exists>q w'. save_and_serialize demo_io None None demo_target incoming 5 True True demo_ini_world = (Inr q, w')"
proof -
  have "\<exists>q w'. atomic_write_ini demo_io demo_target x 5 True True demo_ini_world = (Inr q, w')" for x
    by (rule atomic_write_ini_no_faults) (simp_all add: demo_io_def)
  then show ?thesis
    using merge_and_serialize_live [OF demo_live_on_disk(1)] by (fastforce simp: save_and_serialize_def)
qed

theorem save_preserves_protected_witness:
  "\<exists>t'. read_text None (snd (save_and_serialize demo_io None None demo_target demo_incoming 5 True True demo_ini_world))
      demo_target = Inr t' \<and> dict_get (parse_ini_text t') ''AdminPassword'' = Some (VStr ''pw'')"
proof -
  note live = demo_live_on_disk
  have m: "merge_settings demo_live (dict_filter is_protected demo_live) demo_incoming =
      [(''AdminPassword'', VStr ''pw''), (''ServerName'', VStr ''new'')]"
    by code_simp
  have cr: "CHR 0x0D \<notin> set (serialize_ini_settings [(''AdminPassword'', VStr ''pw''), (''ServerName'', VStr ''new'')])"
    by code_simp
  obtain q w' where s: "save_and_serialize demo_io None None demo_target demo_incoming 5 True True demo_ini_world = (Inr q, w')"
    using demo_save_succeeds by blast
  show ?thesis
    using save_preserves_protected [OF live(1,2) _ demo_wf(2) s, of "''AdminPassword''"] cr
    unfolding live(3) m using demo_wf by (simp add: s is_protected_def PROTECTED_ADMIN_KEYS_def) (simp add: demo_live_def)
qed

text \<open>The public view never shows a protected key and shows every other setting of the file
  unchanged.\<close>

theorem public_view_hides_protected:
  assumes "read_text None w p = Inr t"
  shows "\<exists>v. get_public_view None w p = Inr v \<and>
    dict_get v k = (if is_protected k then None else dict_get (parse_ini_text t) k)"
proof -
  have "path_exists w p"
    using assms by (auto simp: read_text_def path_exists_def split: option.splits)
  then show ?thesis
    using assms by (simp add: get_public_view_def read_to_json_def parse_ini_file_def dict_get_filter)
qed

theorem public_view_hides_protected_witness:
  "\<exists>v. get_public_view None demo_world demo_target = Inr v \<and> dict_get v ''AdminPassword'' = None"
proof -
  have "utf8_decode (utf8_encode ''old'') = Some ''old''"
    by (rule utf8_decode_encode)
  then have "read_text None demo_world demo_target = Inr ''old''"
    by (intro read_text_written [of _ _ "demo_file ''old'' 5"])
       (simp_all add: demo_world_def file_at_def demo_file_def utf8_encode_Cons ord_def)
  then show ?thesis
    using public_view_hides_protected [of demo_world demo_target "''old''" "''AdminPassword''"]
    by (simp add: is_protected_def PROTECTED_ADMIN_KEYS_def)
qed

subsection \<open>Texts that the serializer does not quote\<close>

lemma dict_set_same: "dict_get d k = Some v \<Longrightarrow> dict_set k v d = d"
  by (induction d) (auto split: if_splits)

lemma dict_assign_same:
  "list_all (\<lambda>(k, v). dict_get d k = Some v) items \<Longrightarrow> dict_assign d items = d"
  by (induction items) (auto simp: dict_set_same)

lemma dict_set_at:
  "k \<notin> fst ` set pre \<Longrightarrow> dict_set k v (pre @ (k, u) # post) = pre @ (k, v) # post"
  by (induction pre) auto

lemma merge_one_edit:
  assumes "wf_dict (pre @ (k, u) # post)" "\<not> is_protected k"
  shows "merge_settings (pre @ (k, u) # post) (dict_filter is_protected (pre @ (k, u) # post)) [(k, v)] =
    pre @ (k, v) # post"
proof -
  have dist: "distinct (map fst (pre @ (k, v) # post))" and "k \<notin> fst ` set pre"
    using assms(1) by (auto simp: wf_dict_def)
  then have set: "dict_set k v (pre @ (k, u) # post) = pre @ (k, v) # post"
    by (intro dict_set_at)
  have "list_all (\<lambda>(l, x). dict_get (pre @ (k, v) # post) l = Some x)
      (dict_filter is_protected (pre @ (k, u) # post))"
    using dist assms(2) map_of_is_SomeI [OF dist] by (fastforce simp: list_all_iff dict_filter_def)
  then show ?thesis
    using assms(2) set by (simp add: merge_settings_def dict_assign_same dict_filter_def)
qed

lemma join_split: "join s (xs @ (a @ s @ b) # ys) = join s (xs @ a # b # ys)"
  by (induction xs) (cases ys; simp add: join_Cons)+

lemma parse_pairs:
  assumes "list_all (\<lambda>(k, v). wf_key k \<and> wf_value v) d"
  shows "parse_ini_text (serialize_ini_settings d) = dict_assign [] (map (\<lambda>(k, v). (k, norm_value v)) d)"
proof -
  have "strip (join '','' (map pair_text d)) = join '','' (map pair_text d)"
    using join_pairs_trimmed [OF assms] by (cases "d = []") (auto intro: strip_id)
  moreover have "(\<lambda>(k :: string, v). (k, convert_value v)) \<circ> (\<lambda>(k, v). (k, raw_of v)) =
      (\<lambda>(k, v). (k, norm_value v))"
    by (auto simp: convert_raw_of)
  ultimately show ?thesis
    by (simp add: parse_ini_text_def option_payload_serialized scan_join [OF assms])
qed

lemma protected_word: "is_protected k \<Longrightarrow> wf_key k"
  by (auto simp: is_protected_def PROTECTED_ADMIN_KEYS_def) code_simp+

definition smuggling_text :: "string \<Rightarrow> string \<Rightarrow> string \<Rightarrow> string" where
  "smuggling_text m key x = ''('' @ m @ ''),'' @ key @ ''=('' @ x @ '')''"

lemma smuggling_pair:
  "pair_text (k, VStr (smuggling_text m key x)) =
     pair_text (k, VStr (''('' @ m @ '')'')) @ '','' @ pair_text (key, VStr (''('' @ x @ '')''))"
  by (simp add: pair_text_def smuggling_text_def endswith_single_iff)

lemma serialize_smuggling:
  "serialize_ini_settings (pre @ (k, VStr (smuggling_text m key x)) # post) =
     serialize_ini_settings (pre @ (k, VStr (''('' @ m @ '')'')) # (key, VStr (''('' @ x @ '')'')) # post)"
  by (simp only: serialize_ini_settings_def map_append list.map smuggling_pair join_split)

lemma wf_paren_text: "CHR '')'' \<notin> set m \<Longrightarrow> wf_value (VStr (''('' @ m @ '')''))"
  by (simp add: wf_string_def is_paren_string_def endswith_single_iff butlast_append)

lemma smuggled_lookup:
  assumes "list_all (\<lambda>(k, v). wf_key k \<and> wf_value v) (pre @ (k, u) # post)"
    and "is_protected key" "key \<notin> fst ` set post" "CHR '')'' \<notin> set m" "CHR '')'' \<notin> set x"
  shows "dict_get (parse_ini_text (serialize_ini_settings
      (pre @ (k, VStr (smuggling_text m key x)) # post))) key = Some (VStr (''('' @ x @ '')''))"
proof -
  have "list_all (\<lambda>(k, v). wf_key k \<and> wf_value v)
      (pre @ (k, VStr (''('' @ m @ '')'')) # (key, VStr (''('' @ x @ '')'')) # post)"
    using assms(1) wf_paren_text [OF assms(4)] wf_paren_text [OF assms(5)] protected_word [OF assms(2)]
    by simp
  moreover have "map_of (rev (map (\<lambda>(k, v). (k, norm_value v)) post)) key = None"
    using assms(3) by (force simp: map_of_eq_None_iff)
  ultimately show ?thesis
    by (simp add: serialize_smuggling parse_pairs dict_get_assign map_add_def)
qed

text \<open>C17. A public text that the request validation accepts can overwrite a protected setting. The
  serializer writes a string in parentheses without quotes and without escaping, so the text
  \<open>(m),KEY=(x)\<close>, sent for a public key of the file that no later entry for the protected \<open>KEY\<close>
  follows, makes the next reader see the value \<open>(x)\<close> for \<open>KEY\<close>: after every successful save of
  that one edit the file on disk holds the new protected value.\<close>

theorem public_text_overwrites_protected:
  assumes "read_text None w p = Inr t" "tmp_ok env p w"
    and "parse_ini_text t = pre @ (k, u) # post" "wf_settings (parse_ini_text t)"
    and "\<not> is_protected k" "is_protected key" "key \<notin> fst ` set post"
    and "CHR '')'' \<notin> set m" "CHR '')'' \<notin> set x"
    and "dump_settings coerce payload = Inr [(k, VStr (smuggling_text m key x))]"
    and "save_and_serialize env None None p [(k, VStr (smuggling_text m key x))] n mb sd w = (Inr q, w')"
    and "CHR 0x0D \<notin> set (serialize_ini_settings (pre @ (k, VStr (smuggling_text m key x)) # post))"
  shows "\<exists>t'. read_text None w' p = Inr t' \<and> dict_get (parse_ini_text t') key = Some (VStr (''('' @ x @ '')''))"
proof -
  define d where "d = pre @ (k, VStr (smuggling_text m key x)) # post"
  have wf: "wf_settings (pre @ (k, u) # post)"
    using assms(3,4) by simp
  then have "wf_dict (pre @ (k, u) # post)"
    by (simp add: wf_settings_def)
  from merge_one_edit [OF this assms(5)]
  have "atomic_write_ini env p (serialize_ini_settings d) n mb sd w = (Inr q, w')"
    using assms(11) by (simp add: save_and_serialize_def merge_and_serialize_live [OF assms(1)] assms(3) d_def)
  then obtain f where "file_at w' p = Some f" "f_data f = utf8_encode (serialize_ini_settings d)"
    using atomic_write_ini_Inr [OF assms(2)] by blast
  then have "read_text None w' p = Inr (serialize_ini_settings d)"
    using assms(12) by (intro read_text_written) (simp_all add: d_def)
  moreover have "dict_get (parse_ini_text (serialize_ini_settings d)) key = Some (VStr (''('' @ x @ '')''))"
    unfolding d_def using wf assms(6-9) by (intro smuggled_lookup [where u = u]) (simp_all add: wf_settings_def)
  ultimately show ?thesis by blast
qed

theorem public_text_overwrites_protected_witness:
  "\<exists>t'. read_text None (snd (save_and_serialize demo_io None None demo_target
        [(''ServerName'', VStr ''(x),AdminPassword=(evil)'')] 5 True True demo_ini_world)) demo_target = Inr t' \<and>
      dict_get (parse_ini_text t') ''AdminPassword'' = Some (VStr ''(evil)'')"
proof -
  let ?in = "[(''ServerName'', VStr (smuggling_text ''x'' ''AdminPassword'' ''evil''))]"
  note live = demo_live_on_disk
  have "(''ServerName'', FStr (Some 128), VStr ''The Cool Kids Palworld Server'') \<in> set GameplaySettingsSchema"
    by (simp add: GameplaySettingsSchema_def schema_groups)
  moreover have "validate_field strict_coerce ''ServerName'' (FStr (Some 128))
      (VStr (smuggling_text ''x'' ''AdminPassword'' ''evil'')) =
      Inr (VStr (smuggling_text ''x'' ''AdminPassword'' ''evil''))"
    by code_simp
  ultimately have dump: "dump_settings strict_coerce ?in = Inr ?in"
    unfolding dump_settings_def by (intro validate_fields_one [OF schema_distinct])
  obtain q w' where s: "save_and_serialize demo_io None None demo_target ?in 5 True True demo_ini_world = (Inr q, w')"
    using demo_save_succeeds by blast
  have "parse_ini_text (serialize_ini_settings demo_live) =
      [(''AdminPassword'', VStr ''pw'')] @ (''ServerName'', VStr ''old'') # []"
    using live(3) by (simp add: demo_live_def)
  moreover have "CHR 0x0D \<notin> set (serialize_ini_settings ([(''AdminPassword'', VStr ''pw'')] @
      (''ServerName'', VStr (smuggling_text ''x'' ''AdminPassword'' ''evil'')) # []))"
    by code_simp
  ultimately have "\<exists>t'. read_text None w' demo_target = Inr t' \<and>
      dict_get (parse_ini_text t') ''AdminPassword'' = Some (VStr (''('' @ ''evil'' @ '')''))"
    using public_text_overwrites_protected [OF live(1,2) _ _ _ _ _ _ _ dump s,
        of "[(''AdminPassword'', VStr ''pw'')]" "VStr ''old''" "[]"] live(4)
    unfolding live(3) by (simp add: is_protected_def PROTECTED_ADMIN_KEYS_def)
  with s show ?thesis
    by (simp add: smuggling_text_def)
qed

end
