(* ===== verification/Engine_Lifecycle.thy ===== *)
theory Engine_Lifecycle
  imports Json Config_Pipeline
begin

section \<open>The reboot lifecycle of the game server\<close>

text \<open>
  \<open>PalEngine\<close> of \<^verbatim>\<open>app/engine/service.py\<close>: the calls to the game server's REST interface and
  the countdown, save, restart and probing sequence with its lock file, update flags, staged
  configuration and cancellation. What the outside does (HTTP answers, file errors, the
  moments at which an administrator cancels, broken sockets) is an environment; every visible
  effect is appended to a trace of events. The countdown is a recursive function on the
  remaining seconds, so its termination is proved with its definition.
\<close>

subsection \<open>The REST interface\<close>

text \<open>A response has a status and, when it parses, a JSON body.\<close>

datatype http_outcome =
    Response int "json option"
  | TimeoutException
  | ConnectError
  | HTTPError string

record ReadinessInfo =
  ready :: bool
  version :: json
  server_name_info :: json
  diagnostic_code :: string
  diagnostic_message :: string

definition not_ready :: "string \<Rightarrow> string \<Rightarrow> string \<Rightarrow> ReadinessInfo" where
  "not_ready name code message =
     \<lparr>ready = False, version = JNull, server_name_info = JStr name, diagnostic_code = code,
      diagnostic_message = message\<rparr>"

definition check_readiness :: "string \<Rightarrow> int \<Rightarrow> http_outcome \<Rightarrow> ReadinessInfo result" where
  "check_readiness name rest_port out =
     (case out of
        Response st body \<Rightarrow>
          if st = 200 then
            bind_result (body_object body) (\<lambda>info.
              Inr \<lparr>ready = True, version = json_get info ''version'' JNull,
                   server_name_info = json_get info ''servername'' (JStr name),
                   diagnostic_code = ''OK'', diagnostic_message = ''Palworld REST API operational.''\<rparr>)
          else if st = 401 then
            Inr (not_ready name ''UNAUTHORIZED''
              (''Authentication failed (HTTP 401). '' @
               ''Verify AdminPassword in PalWorldSettings.ini matches engine configuration.''))
          else
            Inr (not_ready name ''ERROR''
              (''Palworld REST probe returned unexpected HTTP status '' @ int_str st @ ''.''))
      | TimeoutException \<Rightarrow>
          Inr (not_ready name ''TIMEOUT''
            ''Palworld REST probe timed out after 2.0s (server may be hanging or booting).'')
      | ConnectError \<Rightarrow>
          Inr (not_ready name ''CONNECTION_REFUSED''
            (''Connection refused on port '' @ int_str rest_port @ ''. Palworld server is offline or starting.''))
      | HTTPError err \<Rightarrow>
          Inr (not_ready name ''ERROR'' (''HTTP probe communication error: '' @ err)))"

definition get_raw_players :: "http_outcome \<Rightarrow> json list result" where
  "get_raw_players out =
     (case out of
        Response st body \<Rightarrow>
          if st = 200 then
            bind_result (body_object body) (\<lambda>d.
              case json_get d ''players'' (JArr []) of JArr ps \<Rightarrow> Inr ps | _ \<Rightarrow> Inr [])
          else Inr []
      | _ \<Rightarrow> Inr [])"

definition status_ok :: "http_outcome \<Rightarrow> bool" where
  "status_ok out = (case out of Response st _ \<Rightarrow> st = 200 | _ \<Rightarrow> False)"

subsection \<open>State and environment\<close>

datatype phase = IDLE | COUNTDOWN | SAVING | MAINTENANCE | PROBING

record lifecycle =
  phase :: phase
  remaining_seconds :: int
  total_seconds :: int
  current_broadcast :: string
  is_updating :: bool

datatype event =
    Announce string
  | DiscordBroadcast string
  | DiscordCountdown string bool string string
  | DiscordCancelled string
  | DiscordComplete
  | DiscordPlayer string string string
  | PostAction string string
  | Lifecycle lifecycle
  | SaveWorld
  | WriteStaged path
  | RestartService string
  | Probe bool

record engine =
  lifecycle_state :: lifecycle
  staged_ini :: "string option"
  cancel_event :: bool
  cancel_reason :: string
  lock_mtime :: "rat option"
  update_flags :: "(string, string) dict"
  disk_world :: world
  sockets :: "nat list"
  events :: "event list"

record engine_env =
  wall_clock :: rat
  lock_stat_error :: "py_error option"
  lock_stale_unlink_error :: "py_error option"
  lock_touch_error :: "py_error option"
  lock_release_fails :: bool
  flag_write_fails :: "string \<Rightarrow> bool"
  flag_unlink_fails :: "string \<Rightarrow> bool"
  first_cancel :: "string option"
  cancels :: "int \<Rightarrow> string option"
  announce_reply :: http_outcome
  save_reply :: http_outcome
  probe_reply :: "nat \<Rightarrow> http_outcome"
  ws_broken :: "nat \<Rightarrow> bool"
  io_of :: "path \<Rightarrow> io_env"
  home :: string
  ini_path :: path
  update_flag :: string
  service_name :: string
  server_name :: string
  rest_port :: int

definition idle_state :: lifecycle where
  "idle_state = \<lparr>phase = IDLE, remaining_seconds = 0, total_seconds = 0, current_broadcast = [], is_updating = False\<rparr>"

definition emit :: "event \<Rightarrow> engine \<Rightarrow> engine" where
  "emit e s = s\<lparr>events := events s @ [e]\<rparr>"

definition register_socket :: "nat \<Rightarrow> engine \<Rightarrow> engine" where
  "register_socket ws s = s\<lparr>sockets := (if ws \<in> set (sockets s) then sockets s else sockets s @ [ws])\<rparr>"

definition unregister_socket :: "nat \<Rightarrow> engine \<Rightarrow> engine" where
  "unregister_socket ws s = s\<lparr>sockets := filter (\<lambda>w. w \<noteq> ws) (sockets s)\<rparr>"

text \<open>The broadcast of the lifecycle state; sockets that fail are dropped.\<close>

definition broadcast_ws :: "engine_env \<Rightarrow> engine \<Rightarrow> engine" where
  "broadcast_ws env s =
     (emit (Lifecycle (lifecycle_state s)) s)\<lparr>sockets := filter (\<lambda>w. \<not> ws_broken env w) (sockets s)\<rparr>"

definition send_broadcast :: "engine_env \<Rightarrow> string \<Rightarrow> bool \<Rightarrow> engine \<Rightarrow> bool \<times> engine" where
  "send_broadcast env message mirror_discord s =
     (let s1 = emit (Announce message) s
      in (status_ok (announce_reply env),
          if mirror_discord then emit (DiscordBroadcast message) s1 else s1))"

definition kick_player :: "http_outcome \<Rightarrow> string \<Rightarrow> string \<Rightarrow> engine \<Rightarrow> bool \<times> engine" where
  "kick_player out player_id message s =
     (let s1 = emit (PostAction ''kick'' player_id) s
      in if status_ok out then (True, emit (DiscordPlayer ''kick'' player_id message) s1) else (False, s1))"

definition ban_player :: "http_outcome \<Rightarrow> string \<Rightarrow> string \<Rightarrow> engine \<Rightarrow> bool \<times> engine" where
  "ban_player out player_id message s =
     (let s1 = emit (PostAction ''ban'' player_id) s
      in if status_ok out then (True, emit (DiscordPlayer ''ban'' player_id message) s1) else (False, s1))"

definition unban_player :: "http_outcome \<Rightarrow> string \<Rightarrow> engine \<Rightarrow> bool \<times> engine" where
  "unban_player out player_id s = (status_ok out, emit (PostAction ''unban'' player_id) s)"

definition trigger_save :: "http_outcome \<Rightarrow> engine \<Rightarrow> bool \<times> engine" where
  "trigger_save out s = (status_ok out, emit SaveWorld s)"

subsection \<open>Lock file and update flags\<close>

definition reboot_active_error :: py_error where
  "reboot_active_error = RuntimeError ''Reboot countdown sequence is already active.''"

text \<open>The age test of an existing lock file; the flag tells whether the file is still there.\<close>

definition inspect_lock :: "engine_env \<Rightarrow> engine \<Rightarrow> unit result \<times> engine" where
  "inspect_lock env s =
     (case lock_mtime s of
        None \<Rightarrow> (Inr (), s)
      | Some mtime \<Rightarrow>
          if lock_stat_error env \<noteq> None then (Inl reboot_active_error, s)
          else if 900 < wall_clock env - mtime then
            (if lock_stale_unlink_error env \<noteq> None then (Inl reboot_active_error, s)
             else (Inr (), s\<lparr>lock_mtime := None\<rparr>))
          else (Inr (), s))"

definition check_and_acquire_lock :: "engine_env \<Rightarrow> engine \<Rightarrow> unit result \<times> engine" where
  "check_and_acquire_lock env s =
     (case inspect_lock env s of
        (Inl e, s1) \<Rightarrow> (Inl e, s1)
      | (Inr _, s1) \<Rightarrow>
          (case lock_touch_error env of
             Some e \<Rightarrow> (Inl e, s1)
           | None \<Rightarrow> (Inr (), s1\<lparr>lock_mtime := Some (wall_clock env)\<rparr>)))"

definition candidate_flags :: "engine_env \<Rightarrow> string list" where
  "candidate_flags env = [update_flag env, ''/var/lib/palmanager/update_requested'', ''/home/steam/.update_requested'']"

definition set_flag :: "engine_env \<Rightarrow> engine \<Rightarrow> string \<Rightarrow> engine" where
  "set_flag env s p =
     (if flag_write_fails env p then s
      else s\<lparr>update_flags := dict_set p [CHR ''1'', CHR 0x0A] (update_flags s)\<rparr>)"

definition set_update_flags :: "engine_env \<Rightarrow> engine \<Rightarrow> engine" where
  "set_update_flags env s = foldl (set_flag env) s (candidate_flags env)"

definition clear_flag :: "engine_env \<Rightarrow> engine \<Rightarrow> string \<Rightarrow> engine" where
  "clear_flag env s p =
     (if dict_get (update_flags s) p = None \<or> flag_write_fails env p then s
      else if flag_unlink_fails env p then s\<lparr>update_flags := dict_set p [] (update_flags s)\<rparr>
      else s\<lparr>update_flags := dict_filter (\<lambda>q. q \<noteq> p) (update_flags s)\<rparr>)"

definition clear_update_flags :: "engine_env \<Rightarrow> engine \<Rightarrow> engine" where
  "clear_update_flags env s = foldl (clear_flag env) s (candidate_flags env)"

subsection \<open>The countdown\<close>

definition format_countdown_string :: "int \<Rightarrow> string" where
  "format_countdown_string remaining =
     (if 60 \<le> remaining
      then (let mins = remaining div 60 in int_str mins @ '' minute'' @ (if 1 < mins then ''s'' else []))
      else int_str remaining @ '' seconds'')"

definition COUNTDOWN_DISCORD_INTERVALS :: "int list" where
  "COUNTDOWN_DISCORD_INTERVALS = [600, 300, 60]"

definition COUNTDOWN_ALL_INTERVALS :: "int list" where
  "COUNTDOWN_ALL_INTERVALS = [600, 300, 180, 120, 60, 30, 15, 10, 5, 4, 3, 2, 1]"

text \<open>The arguments of one reboot request.\<close>

record reboot_request =
  countdown_seconds :: int
  trigger_update :: bool
  update_version_tag :: string
  custom_message :: string

definition announcement :: "reboot_request \<Rightarrow> int \<Rightarrow> string" where
  "announcement rq remaining =
     (let time_str = format_countdown_string remaining;
          base_msg =
            (if trigger_update rq
             then ''Server updating'' @ (if update_version_tag rq \<noteq> [] then '' to '' @ update_version_tag rq else []) @
                  '' and restarting in '' @ time_str @ ''.''
             else ''Server maintenance restart in '' @ time_str @ ''.'')
      in if custom_message rq \<noteq> [] then custom_message rq @ '' - '' @ base_msg else base_msg)"

definition announced :: "reboot_request \<Rightarrow> int \<Rightarrow> bool" where
  "announced rq remaining \<longleftrightarrow> remaining \<in> set COUNTDOWN_ALL_INTERVALS \<or> remaining = countdown_seconds rq"

definition tick :: "engine_env \<Rightarrow> reboot_request \<Rightarrow> int \<Rightarrow> engine \<Rightarrow> engine" where
  "tick env rq remaining s =
     (let s1 = s\<lparr>lifecycle_state := (lifecycle_state s)\<lparr>remaining_seconds := remaining\<rparr>\<rparr>;
          s2 = (if announced rq remaining then
                  (let msg = announcement rq remaining;
                       sa = s1\<lparr>lifecycle_state := (lifecycle_state s1)\<lparr>current_broadcast := msg\<rparr>\<rparr>;
                       (_, sb) = send_broadcast env msg False sa
                   in if remaining \<in> set COUNTDOWN_DISCORD_INTERVALS \<or> remaining = countdown_seconds rq
                      then emit (DiscordCountdown (format_countdown_string remaining) (trigger_update rq)
                                   (update_version_tag rq) (custom_message rq)) sb
                      else sb)
                else s1)
      in broadcast_ws env s2)"

text \<open>The answer tells whether there was a countdown to cancel.\<close>

definition cancel_countdown :: "string \<Rightarrow> engine \<Rightarrow> bool \<times> engine" where
  "cancel_countdown reason s =
     (if phase (lifecycle_state s) \<noteq> COUNTDOWN then (False, s)
      else (True, s\<lparr>cancel_reason := reason, cancel_event := True\<rparr>))"

definition deliver_cancel :: "string option \<Rightarrow> engine \<Rightarrow> engine" where
  "deliver_cancel c s = (case c of None \<Rightarrow> s | Some reason \<Rightarrow> snd (cancel_countdown reason s))"

text \<open>The loop: the event is tested before a tick and while the tick waits; \<open>cancels n\<close> is the
  request that arrives while \<open>n\<close> seconds remain, if any.\<close>

function run_countdown_loop :: "engine_env \<Rightarrow> reboot_request \<Rightarrow> int \<Rightarrow> engine \<Rightarrow> bool \<times> engine" where
  "run_countdown_loop env rq remaining s =
     (if remaining \<le> 0 then (True, s)
      else if cancel_event s then (False, s)
      else (let s1 = deliver_cancel (cancels env remaining) (tick env rq remaining s)
            in if cancel_event s1 then (False, s1)
               else run_countdown_loop env rq (remaining - 1) s1))"
  by pat_completeness auto
termination
  by (relation "measure (\<lambda>(_, _, remaining, _). nat remaining)") auto

declare run_countdown_loop.simps [simp del]

subsection \<open>Staged configuration\<close>

definition stage_settings :: "string \<Rightarrow> engine \<Rightarrow> engine" where
  "stage_settings serialized s = s\<lparr>staged_ini := Some serialized\<rparr>"

definition staged_name :: string where
  "staged_name = ''staged_PalWorldSettings.ini''"

definition staged_candidates :: "engine_env \<Rightarrow> path list" where
  "staged_candidates env =
     [(''/var/lib/palmanager'', staged_name), (home env @ ''/.palmanager'', staged_name),
      (''/home/steam'', ''.'' @ staged_name)]"

definition write_staged :: "engine_env \<Rightarrow> bool \<Rightarrow> string \<Rightarrow> engine \<Rightarrow> path \<Rightarrow> engine" where
  "write_staged env make_backup text s p =
     (let (_, w) = atomic_write_ini (io_of env p) p text 5 make_backup True (disk_world s)
      in emit (WriteStaged p) (s\<lparr>disk_world := w\<rparr>))"

definition apply_staged_configuration :: "engine_env \<Rightarrow> engine \<Rightarrow> engine" where
  "apply_staged_configuration env s =
     (case staged_ini s of
        None \<Rightarrow> s
      | Some text \<Rightarrow>
          if text = [] then s
          else (foldl (write_staged env False text) (write_staged env True text s (ini_path env))
                  (staged_candidates env))\<lparr>staged_ini := None\<rparr>)"

subsection \<open>Restart\<close>

definition enter_phase :: "engine_env \<Rightarrow> phase \<Rightarrow> string \<Rightarrow> engine \<Rightarrow> engine" where
  "enter_phase env ph message s =
     broadcast_ws env
       (s\<lparr>lifecycle_state := (lifecycle_state s)\<lparr>phase := ph, current_broadcast := message\<rparr>\<rparr>)"

text \<open>At most \<open>n\<close> probes, numbered from \<open>k\<close>; an exception of a probe propagates.\<close>

fun probe_loop :: "engine_env \<Rightarrow> nat \<Rightarrow> nat \<Rightarrow> engine \<Rightarrow> unit result \<times> engine" where
  "probe_loop env 0 k s = (Inr (), s)"
| "probe_loop env (Suc n) k s =
     (case check_readiness (server_name env) (rest_port env) (probe_reply env k) of
        Inl e \<Rightarrow> (Inl e, s)
      | Inr r \<Rightarrow>
          if ready r then (Inr (), emit DiscordComplete (emit (Probe True) s))
          else probe_loop env n (Suc k) (emit (Probe False) s))"

definition restart_and_await_readiness :: "engine_env \<Rightarrow> engine \<Rightarrow> unit result \<times> engine" where
  "restart_and_await_readiness env s =
     (let s1 = enter_phase env SAVING ''Saving world state to disk...'' s;
          (_, s2) = send_broadcast env ''Server restarting NOW. Saving progress.'' True s1;
          (_, s3) = trigger_save (save_reply env) s2;
          s4 = enter_phase env MAINTENANCE ''Executing systemctl restart & backup hooks...'' s3;
          s5 = apply_staged_configuration env s4;
          s6 = emit (RestartService (service_name env)) s5;
          s7 = enter_phase env PROBING ''Probing engine initialization and readiness...'' s6
      in probe_loop env 90 0 s7)"

definition release_reboot_lock :: "engine_env \<Rightarrow> engine \<Rightarrow> engine" where
  "release_reboot_lock env s =
     s\<lparr>lock_mtime := (if lock_release_fails env then lock_mtime s else None), lifecycle_state := idle_state\<rparr>"

definition cancelled_message :: "string \<Rightarrow> string" where
  "cancelled_message reason =
     (if reason \<noteq> [] then ''Server restart CANCELLED: '' @ reason else ''Server restart CANCELLED.'')"

definition instant_message :: "reboot_request \<Rightarrow> string" where
  "instant_message rq =
     (let desc = (if trigger_update rq then ''Server updating and restarting immediately.''
                  else ''Server restarting immediately.'')
      in if custom_message rq \<noteq> [] then custom_message rq @ '' - '' @ desc else desc)"

definition start_countdown :: "engine_env \<Rightarrow> reboot_request \<Rightarrow> engine \<Rightarrow> engine" where
  "start_countdown env rq s =
     deliver_cancel (first_cancel env)
       (broadcast_ws env
         (s\<lparr>lifecycle_state := \<lparr>phase = COUNTDOWN, remaining_seconds = countdown_seconds rq,
              total_seconds = countdown_seconds rq,
              current_broadcast = (if custom_message rq \<noteq> [] then custom_message rq
                                   else ''Initiating countdown sequence...''),
              is_updating = trigger_update rq\<rparr>\<rparr>))"

text \<open>The signal is cleared and the update flags are set.\<close>

definition prepared_engine :: "engine_env \<Rightarrow> reboot_request \<Rightarrow> engine \<Rightarrow> engine" where
  "prepared_engine env rq s =
     (let s1 = s\<lparr>cancel_event := False, cancel_reason := []\<rparr>
      in if trigger_update rq then set_update_flags env s1 else s1)"

text \<open>The body of the \<open>try\<close> block.\<close>

definition reboot_procedure :: "engine_env \<Rightarrow> reboot_request \<Rightarrow> engine \<Rightarrow> unit result \<times> engine" where
  "reboot_procedure env rq s =
     (let s2 = prepared_engine env rq s
      in if 0 < countdown_seconds rq then
           (case run_countdown_loop env rq (countdown_seconds rq) (start_countdown env rq s2) of
              (True, s3) \<Rightarrow> restart_and_await_readiness env s3
            | (False, s3) \<Rightarrow>
                (let (_, s4) = send_broadcast env (cancelled_message (cancel_reason s3)) False s3;
                     s5 = emit (DiscordCancelled (cancel_reason s4)) s4
                 in (Inr (), clear_update_flags env s5)))
         else
           (let (_, s3) = send_broadcast env (instant_message rq) False s2;
                s4 = emit (DiscordCountdown ''immediately'' (trigger_update rq) (update_version_tag rq)
                             (custom_message rq)) s3
            in restart_and_await_readiness env s4))"

definition execute_countdown_and_reboot ::
  "engine_env \<Rightarrow> reboot_request \<Rightarrow> engine \<Rightarrow> unit result \<times> engine" where
  "execute_countdown_and_reboot env rq s =
     (case check_and_acquire_lock env s of
        (Inl e, s1) \<Rightarrow> (Inl e, s1)
      | (Inr _, s1) \<Rightarrow>
          (case reboot_procedure env rq s1 of
             (r, s2) \<Rightarrow> (r, broadcast_ws env (release_reboot_lock env s2))))"

subsection \<open>The countdown loop\<close>

lemma emit_sel [simp]:
  "events (emit e s) = events s @ [e]" "lifecycle_state (emit e s) = lifecycle_state s"
  "staged_ini (emit e s) = staged_ini s" "cancel_event (emit e s) = cancel_event s"
  "cancel_reason (emit e s) = cancel_reason s" "lock_mtime (emit e s) = lock_mtime s"
  "update_flags (emit e s) = update_flags s" "disk_world (emit e s) = disk_world s"
  by (simp_all add: emit_def)

lemma broadcast_ws_sel [simp]:
  "events (broadcast_ws env s) = events s @ [Lifecycle (lifecycle_state s)]"
  "lifecycle_state (broadcast_ws env s) = lifecycle_state s"
  "staged_ini (broadcast_ws env s) = staged_ini s" "cancel_event (broadcast_ws env s) = cancel_event s"
  "cancel_reason (broadcast_ws env s) = cancel_reason s" "lock_mtime (broadcast_ws env s) = lock_mtime s"
  "update_flags (broadcast_ws env s) = update_flags s" "disk_world (broadcast_ws env s) = disk_world s"
  by (simp_all add: broadcast_ws_def)

lemma send_broadcast_sel [simp]:
  "snd (send_broadcast env m False s) = emit (Announce m) s"
  "snd (send_broadcast env m True s) = emit (DiscordBroadcast m) (emit (Announce m) s)"
  by (simp_all add: send_broadcast_def)

text \<open>What a tick and a cancellation leave alone.\<close>

definition same_store :: "engine \<Rightarrow> engine \<Rightarrow> bool" where
  "same_store s s' \<longleftrightarrow>
     staged_ini s' = staged_ini s \<and> lock_mtime s' = lock_mtime s \<and> update_flags s' = update_flags s \<and>
     disk_world s' = disk_world s"

lemma same_store_refl [simp]: "same_store s s"
  by (simp add: same_store_def)

lemma same_store_trans: "same_store s1 s2 \<Longrightarrow> same_store s2 s3 \<Longrightarrow> same_store s1 s3"
  by (simp add: same_store_def)

definition tick_events :: "reboot_request \<Rightarrow> int \<Rightarrow> lifecycle \<Rightarrow> event list" where
  "tick_events rq n lc =
     (if announced rq n then
        Announce (announcement rq n) #
        (if n \<in> set COUNTDOWN_DISCORD_INTERVALS \<or> n = countdown_seconds rq
         then [DiscordCountdown (format_countdown_string n) (trigger_update rq) (update_version_tag rq) (custom_message rq)]
         else [])
      else []) @ [Lifecycle lc]"

lemma tick_sel:
  "events (tick env rq n s) = events s @ tick_events rq n (lifecycle_state (tick env rq n s))"
  "cancel_event (tick env rq n s) = cancel_event s"
  "phase (lifecycle_state (tick env rq n s)) = phase (lifecycle_state s)"
  "same_store s (tick env rq n s)"
  by (simp_all add: tick_def tick_events_def Let_def split_beta same_store_def)

lemma deliver_cancel_sel:
  "events (deliver_cancel c s) = events s" "same_store s (deliver_cancel c s)"
  "phase (lifecycle_state (deliver_cancel c s)) = phase (lifecycle_state s)"
  "phase (lifecycle_state s) = COUNTDOWN \<Longrightarrow> cancel_event (deliver_cancel c s) \<longleftrightarrow> cancel_event s \<or> c \<noteq> None"
  by (auto simp: deliver_cancel_def cancel_countdown_def same_store_def split: option.split)

text \<open>The effects of the countdown proper.\<close>

fun countdown_event :: "event \<Rightarrow> bool" where
  "countdown_event (Announce m) = True"
| "countdown_event (DiscordCountdown a b c d) = True"
| "countdown_event (Lifecycle l) = True"
| "countdown_event _ = False"

lemma tick_events_countdown: "list_all countdown_event (tick_events rq n lc)"
  by (simp add: tick_events_def)

text \<open>What players and server notice: the announcements and the effects on the game server and on files,
  in the order in which they happen.\<close>

fun milestone :: "event \<Rightarrow> bool" where
  "milestone (Announce m) = True"
| "milestone SaveWorld = True"
| "milestone (WriteStaged p) = True"
| "milestone (RestartService n) = True"
| "milestone _ = False"

definition milestones :: "event list \<Rightarrow> event list" where
  "milestones es = filter milestone es"

lemma milestones_simps [simp]:
  "milestones [] = []" "milestones (e # es) = (if milestone e then e # milestones es else milestones es)"
  "milestones (xs @ ys) = milestones xs @ milestones ys"
  by (simp_all add: milestones_def)

lemma milestones_tick:
  "milestones (tick_events rq n lc) = (if announced rq n then [Announce (announcement rq n)] else [])"
  by (simp add: tick_events_def)

lemma loop_frame:
  "run_countdown_loop env rq n s = (b, s') \<Longrightarrow>
     same_store s s' \<and> (\<exists>es. events s' = events s @ es \<and> list_all countdown_event es)"
proof (induction env rq n s rule: run_countdown_loop.induct)
  case (1 env rq n s)
  let ?s1 = "deliver_cancel (cancels env n) (tick env rq n s)"
  have s1: "same_store s ?s1" "\<exists>es. events ?s1 = events s @ es \<and> list_all countdown_event es"
    using same_store_trans [OF tick_sel(4) deliver_cancel_sel(2)] tick_events_countdown
    by (auto simp: tick_sel deliver_cancel_sel)
  show ?case
  proof (cases "n \<le> 0 \<or> cancel_event s")
    case True
    then show ?thesis
      using "1.prems" by (auto simp: run_countdown_loop.simps [of env rq n s] split: if_splits)
  next
    case False
    show ?thesis
    proof (cases "cancel_event ?s1")
      case True
      then have "s' = ?s1"
        using "1.prems" False by (auto simp: run_countdown_loop.simps [of env rq n s] Let_def)
      then show ?thesis
        using s1 by simp
    next
      case go: False
      then have "run_countdown_loop env rq (n - 1) ?s1 = (b, s')"
        using "1.prems" False by (auto simp: run_countdown_loop.simps [of env rq n s] Let_def)
      then show ?thesis
        using "1.IH" [of ?s1] False go s1 same_store_trans by fastforce
    qed
  qed
qed

lemma loop_completes_iff:
  assumes "phase (lifecycle_state s) = COUNTDOWN" "\<not> cancel_event s"
  shows "fst (run_countdown_loop env rq n s) \<longleftrightarrow> (\<forall>k. 1 \<le> k \<longrightarrow> k \<le> n \<longrightarrow> cancels env k = None)"
  using assms
proof (induction env rq n s rule: run_countdown_loop.induct)
  case (1 env rq n s)
  let ?s1 = "deliver_cancel (cancels env n) (tick env rq n s)"
  have s1: "phase (lifecycle_state ?s1) = COUNTDOWN" "cancel_event ?s1 \<longleftrightarrow> cancels env n \<noteq> None"
    using "1.prems" by (simp_all add: tick_sel deliver_cancel_sel)
  show ?case
  proof (cases "n \<le> 0")
    case True
    then show ?thesis
      by (simp add: run_countdown_loop.simps [of env rq n s])
  next
    case pos: False
    show ?thesis
    proof (cases "cancels env n")
      case None
      then have "fst (run_countdown_loop env rq n s) = fst (run_countdown_loop env rq (n - 1) ?s1)"
        using pos "1.prems" s1(2) by (subst run_countdown_loop.simps) (simp add: Let_def)
      also have "\<dots> \<longleftrightarrow> (\<forall>k. 1 \<le> k \<longrightarrow> k \<le> n - 1 \<longrightarrow> cancels env k = None)"
        using "1.IH" [of ?s1] pos "1.prems" s1 None by simp
      also have "\<dots> \<longleftrightarrow> (\<forall>k. 1 \<le> k \<longrightarrow> k \<le> n \<longrightarrow> cancels env k = None)"
        using None by (metis order_le_less zle_diff1_eq)
      finally show ?thesis .
    next
      case (Some r)
      have "fst (run_countdown_loop env rq n s) = False"
        using pos "1.prems" s1(2) Some by (subst run_countdown_loop.simps) (simp add: Let_def)
      moreover have "(\<forall>k. 1 \<le> k \<longrightarrow> k \<le> n \<longrightarrow> cancels env k = None) = False"
        using pos Some by (auto intro!: exI [of _ n])
      ultimately show ?thesis
        by (simp only:)
    qed
  qed
qed

lemma loop_milestones:
  assumes "run_countdown_loop env rq n s = (True, s')"
  shows "milestones (events s') = milestones (events s) @ map (\<lambda>k. Announce (announcement rq k)) (filter (announced rq) (rev [1..n]))"
  using assms
proof (induction env rq n s rule: run_countdown_loop.induct)
  case (1 env rq n s)
  let ?s1 = "deliver_cancel (cancels env n) (tick env rq n s)"
  show ?case
  proof (cases "n \<le> 0")
    case True
    then show ?thesis
      using "1.prems" by (simp add: run_countdown_loop.simps [of env rq n s])
  next
    case pos: False
    then have run: "\<not> cancel_event s" "\<not> cancel_event ?s1" "run_countdown_loop env rq (n - 1) ?s1 = (True, s')"
      using "1.prems" by (auto simp: run_countdown_loop.simps [of env rq n s] Let_def split: if_splits)
    have "[1..n] = [1..n - 1] @ [n]"
      using pos by (simp add: upto_rec2)
    then show ?thesis
      using "1.IH" [of ?s1] pos run by (simp add: tick_sel deliver_cancel_sel milestones_tick)
  qed
qed

subsection \<open>The whole sequence\<close>

text \<open>The effects on the game server and on files.\<close>

fun core_event :: "event \<Rightarrow> bool" where
  "core_event SaveWorld = True"
| "core_event (WriteStaged p) = True"
| "core_event (RestartService n) = True"
| "core_event _ = False"

definition core :: "event list \<Rightarrow> event list" where
  "core es = filter core_event es"

lemma core_append [simp]: "core (xs @ ys) = core xs @ core ys"
  by (simp add: core_def)

lemma core_countdown: "list_all countdown_event es \<Longrightarrow> core es = []"
proof -
  have "countdown_event e \<Longrightarrow> \<not> core_event e" for e
    by (cases e) simp_all
  then show "list_all countdown_event es \<Longrightarrow> core es = []"
    by (auto simp: core_def list_all_iff filter_empty_conv)
qed

lemma probe_loop_core: "probe_loop env n k s = (r, s') \<Longrightarrow> core (events s') = core (events s)"
  by (induction env n k s arbitrary: rule: probe_loop.induct)
     (auto simp: core_def split: sum.splits if_splits)

lemma probe_loop_store: "probe_loop env n k s = (r, s') \<Longrightarrow> same_store s s'"
  by (induction env n k s arbitrary: rule: probe_loop.induct)
     (auto simp: same_store_def split: sum.splits if_splits)

definition staged_writes :: "engine_env \<Rightarrow> engine \<Rightarrow> event list" where
  "staged_writes env s =
     (if staged_ini s = None \<or> staged_ini s = Some [] then []
      else map WriteStaged (ini_path env # staged_candidates env))"

lemma write_staged_events: "events (write_staged env b t s p) = events s @ [WriteStaged p]"
  by (simp add: write_staged_def split_beta)

lemma foldl_write_staged_events:
  "events (foldl (write_staged env b t) s ps) = events s @ map WriteStaged ps"
  by (induction ps arbitrary: s) (simp_all add: write_staged_events)

lemma apply_staged_events:
  "events (apply_staged_configuration env s) = events s @ staged_writes env s"
  by (simp add: apply_staged_configuration_def staged_writes_def foldl_write_staged_events write_staged_events
      split: option.split)

lemma apply_staged_lifecycle:
  "lifecycle_state (apply_staged_configuration env s) = lifecycle_state s"
proof -
  have "lifecycle_state (write_staged env b t s p) = lifecycle_state s" for b t s p
    by (simp add: write_staged_def split_beta)
  then have "lifecycle_state (foldl (write_staged env b t) s ps) = lifecycle_state s" for b t s ps
    by (induction ps arbitrary: s) simp_all
  then show ?thesis
    by (simp add: apply_staged_configuration_def \<open>\<And>s p b t. lifecycle_state (write_staged env b t s p) = lifecycle_state s\<close>
        split: option.split)
qed

lemma enter_phase_sel [simp]:
  "core (events (enter_phase env ph m s)) = core (events s)" "staged_ini (enter_phase env ph m s) = staged_ini s"
  by (simp_all add: enter_phase_def core_def)

lemma core_simps [simp]: "core [] = []" "core (e # es) = (if core_event e then e # core es else core es)"
  by (simp_all add: core_def)

lemma core_milestones: "core es = filter core_event (milestones es)"
proof -
  have "core_event e \<Longrightarrow> milestone e" for e by (cases e) auto
  then show ?thesis by (induction es) auto
qed

lemma restart_core:
  assumes "restart_and_await_readiness env s = (r, s')"
  shows "core (events s') = core (events s) @ [SaveWorld] @ staged_writes env s @ [RestartService (service_name env)]"
proof -
  have w: "core (staged_writes env t) = staged_writes env t" for t
    by (auto simp: core_def staged_writes_def)
  define s3 where "s3 = emit SaveWorld (emit (DiscordBroadcast ''Server restarting NOW. Saving progress.'')
    (emit (Announce ''Server restarting NOW. Saving progress.'')
      (enter_phase env SAVING ''Saving world state to disk...'' s)))"
  define s4 where "s4 = enter_phase env MAINTENANCE ''Executing systemctl restart & backup hooks...'' s3"
  define s7 where "s7 = enter_phase env PROBING ''Probing engine initialization and readiness...''
    (emit (RestartService (service_name env)) (apply_staged_configuration env s4))"
  have "probe_loop env 90 0 s7 = (r, s')"
    using assms by (simp add: restart_and_await_readiness_def Let_def split_beta trigger_save_def s3_def s4_def s7_def)
  then have "core (events s') = core (events s7)"
    by (rule probe_loop_core)
  also have "\<dots> = core (events s4) @ staged_writes env s4 @ [RestartService (service_name env)]"
    by (simp add: s7_def apply_staged_events w)
  also have "staged_writes env s4 = staged_writes env s"
    by (simp add: s4_def s3_def staged_writes_def)
  also have "core (events s4) = core (events s) @ [SaveWorld]"
    by (simp add: s4_def s3_def)
  finally show ?thesis
    by simp
qed

lemma acquire_store:
  "check_and_acquire_lock env s = (r, s1) \<Longrightarrow>
     events s1 = events s \<and> staged_ini s1 = staged_ini s \<and> disk_world s1 = disk_world s \<and>
     update_flags s1 = update_flags s \<and> lifecycle_state s1 = lifecycle_state s"
  by (auto simp: check_and_acquire_lock_def inspect_lock_def split: option.splits prod.splits sum.splits if_splits)

definition only_flags :: "engine \<Rightarrow> engine \<Rightarrow> bool" where
  "only_flags s s' \<longleftrightarrow>
     events s' = events s \<and> staged_ini s' = staged_ini s \<and> disk_world s' = disk_world s \<and>
     lock_mtime s' = lock_mtime s \<and> cancel_event s' = cancel_event s"

lemma only_flags_foldl:
  assumes "\<And>s p. only_flags s (f s p)"
  shows "only_flags s (foldl f s ps)"
proof (induction ps arbitrary: s)
  case (Cons p ps)
  show ?case
    using Cons [of "f s p"] assms [of s p] by (simp add: only_flags_def)
qed (simp add: only_flags_def)

lemma set_flags_store: "only_flags s (set_update_flags env s)"
  unfolding set_update_flags_def by (rule only_flags_foldl) (simp add: set_flag_def only_flags_def)

lemma clear_flags_store: "only_flags s (clear_update_flags env s)"
  unfolding clear_update_flags_def by (rule only_flags_foldl) (simp add: clear_flag_def only_flags_def)

lemma clear_flag_absent:
  assumes "\<not> flag_write_fails env p" "\<not> flag_unlink_fails env p"
  shows "dict_get (update_flags (clear_flag env s p)) q = (if q = p then None else dict_get (update_flags s) q)"
  using assms by (auto simp: clear_flag_def dict_get_filter)

lemma clear_update_flags_absent:
  assumes "\<And>p. \<not> flag_write_fails env p" "\<And>p. \<not> flag_unlink_fails env p" "p \<in> set (candidate_flags env)"
  shows "dict_get (update_flags (clear_update_flags env s)) p = None"
  using assms by (auto simp: clear_update_flags_def candidate_flags_def clear_flag_absent)

lemma start_countdown_sel:
  "phase (lifecycle_state (start_countdown env rq s)) = COUNTDOWN"
  "cancel_event (start_countdown env rq s) \<longleftrightarrow> cancel_event s \<or> first_cancel env \<noteq> None"
  "same_store s (start_countdown env rq s)"
  "core (events (start_countdown env rq s)) = core (events s)"
  "milestones (events (start_countdown env rq s)) = milestones (events s)"
  by (auto simp: start_countdown_def deliver_cancel_def cancel_countdown_def same_store_def core_def
      split: option.split)

lemma probe_loop_milestones:
  "probe_loop env n k s = (r, s') \<Longrightarrow> milestones (events s') = milestones (events s)"
  by (induction env n k s arbitrary: rule: probe_loop.induct) (auto split: sum.splits if_splits)

lemma milestones_enter_phase [simp]:
  "milestones (events (enter_phase env ph m s)) = milestones (events s)"
  by (simp add: enter_phase_def)

lemma restart_milestones:
  assumes "restart_and_await_readiness env s = (r, s')"
  shows "milestones (events s') = milestones (events s) @
    [Announce ''Server restarting NOW. Saving progress.'', SaveWorld] @ staged_writes env s @ [RestartService (service_name env)]"
proof -
  have w: "milestones (staged_writes env t) = staged_writes env t" for t
    by (auto simp: milestones_def staged_writes_def)
  define s3 where "s3 = emit SaveWorld (emit (DiscordBroadcast ''Server restarting NOW. Saving progress.'')
    (emit (Announce ''Server restarting NOW. Saving progress.'')
      (enter_phase env SAVING ''Saving world state to disk...'' s)))"
  define s4 where "s4 = enter_phase env MAINTENANCE ''Executing systemctl restart & backup hooks...'' s3"
  define s7 where "s7 = enter_phase env PROBING ''Probing engine initialization and readiness...''
    (emit (RestartService (service_name env)) (apply_staged_configuration env s4))"
  have "probe_loop env 90 0 s7 = (r, s')"
    using assms by (simp add: restart_and_await_readiness_def Let_def split_beta trigger_save_def s3_def s4_def s7_def)
  then have "milestones (events s') = milestones (events s7)"
    by (rule probe_loop_milestones)
  also have "\<dots> = milestones (events s4) @ staged_writes env s4 @ [RestartService (service_name env)]"
    by (simp add: s7_def apply_staged_events w)
  also have "staged_writes env s4 = staged_writes env s"
    by (simp add: s4_def s3_def staged_writes_def)
  also have "milestones (events s4) = milestones (events s) @ [Announce ''Server restarting NOW. Saving progress.'', SaveWorld]"
    by (simp add: s4_def s3_def)
  finally show ?thesis
    by simp
qed

lemma prepared_engine_sel:
  "events (prepared_engine env rq s) = events s" "staged_ini (prepared_engine env rq s) = staged_ini s"
  "disk_world (prepared_engine env rq s) = disk_world s" "cancel_event (prepared_engine env rq s) = False"
  using set_flags_store [of "s\<lparr>cancel_event := False, cancel_reason := []\<rparr>" env]
  by (simp_all add: prepared_engine_def only_flags_def Let_def)

lemma reboot_procedure_unfold:
  "0 < countdown_seconds rq \<Longrightarrow> reboot_procedure env rq s =
     (case run_countdown_loop env rq (countdown_seconds rq) (start_countdown env rq (prepared_engine env rq s)) of
        (True, s3) \<Rightarrow> restart_and_await_readiness env s3
      | (False, s3) \<Rightarrow>
          (Inr (), clear_update_flags env
             (emit (DiscordCancelled (cancel_reason s3)) (emit (Announce (cancelled_message (cancel_reason s3))) s3))))"
proof (cases "run_countdown_loop env rq (countdown_seconds rq) (start_countdown env rq (prepared_engine env rq s))")
  case (Pair b s3)
  assume "0 < countdown_seconds rq"
  then show ?thesis
    using Pair by (cases b) (simp_all add: reboot_procedure_def Let_def split_beta)
qed

lemma reboot_cancelled:
  assumes "0 < countdown_seconds rq"
    and "first_cancel env \<noteq> None \<or> (\<exists>k. 1 \<le> k \<and> k \<le> countdown_seconds rq \<and> cancels env k \<noteq> None)"
    and "reboot_procedure env rq s = (r, s')"
  shows "r = Inr () \<and> core (events s') = core (events s) \<and> staged_ini s' = staged_ini s \<and>
    disk_world s' = disk_world s \<and> (\<exists>t. s' = clear_update_flags env t)"
proof -
  let ?n = "countdown_seconds rq"
  let ?s0 = "start_countdown env rq (prepared_engine env rq s)"
  obtain b s3 where l: "run_countdown_loop env rq ?n ?s0 = (b, s3)"
    by fastforce
  have "\<not> b"
  proof (cases "first_cancel env")
    case None
    then have "\<not> cancel_event ?s0"
      by (simp add: start_countdown_sel prepared_engine_sel)
    then show ?thesis
      using loop_completes_iff [where env = env and rq = rq and n = ?n and s = ?s0] start_countdown_sel(1)
        assms(2) None l by auto
  next
    case (Some c)
    then have "cancel_event ?s0"
      by (simp add: start_countdown_sel)
    then show ?thesis
      using l assms(1) by (simp add: run_countdown_loop.simps [of env rq ?n])
  qed
  then have s': "r = Inr ()" "s' = clear_update_flags env
      (emit (DiscordCancelled (cancel_reason s3)) (emit (Announce (cancelled_message (cancel_reason s3))) s3))"
    using assms(3) l by (simp_all add: reboot_procedure_unfold [OF assms(1)])
  obtain es where es: "events s3 = events ?s0 @ es" "core es = []" "same_store ?s0 s3"
    using loop_frame [OF l] core_countdown by blast
  then show ?thesis
    using s' clear_flags_store [of "emit (DiscordCancelled (cancel_reason s3))
        (emit (Announce (cancelled_message (cancel_reason s3))) s3)" env]
      start_countdown_sel [where env = env and rq = rq and s = "prepared_engine env rq s"]
    by (auto simp: only_flags_def same_store_def prepared_engine_sel)
qed

lemma reboot_completed:
  assumes "0 < countdown_seconds rq" "first_cancel env = None"
    and "\<And>k. 1 \<le> k \<Longrightarrow> k \<le> countdown_seconds rq \<Longrightarrow> cancels env k = None"
    and "reboot_procedure env rq s = (r, s')"
  shows "milestones (events s') = milestones (events s) @
      map (\<lambda>k. Announce (announcement rq k)) (filter (announced rq) (rev [1..countdown_seconds rq])) @
      [Announce ''Server restarting NOW. Saving progress.'', SaveWorld] @ staged_writes env s @ [RestartService (service_name env)]"
proof -
  let ?n = "countdown_seconds rq"
  let ?s0 = "start_countdown env rq (prepared_engine env rq s)"
  have "\<not> cancel_event ?s0"
    using assms(2) by (simp add: start_countdown_sel prepared_engine_sel)
  then have "fst (run_countdown_loop env rq ?n ?s0)"
    using loop_completes_iff [where env = env and rq = rq and n = ?n and s = ?s0] start_countdown_sel(1) assms(3)
    by blast
  then obtain s3 where l: "run_countdown_loop env rq ?n ?s0 = (True, s3)"
    by (metis prod.collapse)
  then have run: "restart_and_await_readiness env s3 = (r, s')"
    using assms(4) by (simp add: reboot_procedure_unfold [OF assms(1)])
  obtain es where es: "events s3 = events ?s0 @ es" "core es = []" "same_store ?s0 s3"
    using loop_frame [OF l] core_countdown by blast
  then have "staged_writes env s3 = staged_writes env s"
    using start_countdown_sel(3) [of "prepared_engine env rq s" env rq]
    by (simp add: staged_writes_def same_store_def prepared_engine_sel)
  then show ?thesis
    using restart_milestones [OF run] loop_milestones [OF l] by (simp add: start_countdown_sel prepared_engine_sel)
qed

lemma reboot_completed_core:
  assumes "0 < countdown_seconds rq" "first_cancel env = None"
    and "\<And>k. 1 \<le> k \<Longrightarrow> k \<le> countdown_seconds rq \<Longrightarrow> cancels env k = None"
    and "reboot_procedure env rq s = (r, s')"
  shows "core (events s') = core (events s) @ [SaveWorld] @ staged_writes env s @ [RestartService (service_name env)]"
proof -
  have "filter core_event (staged_writes env s) = staged_writes env s" by (auto simp: staged_writes_def)
  moreover have "filter core_event (map (\<lambda>k. Announce (f k)) ks) = []" for f and ks :: "int list" by (induction ks) simp_all
  ultimately show ?thesis
    using arg_cong [OF reboot_completed [OF assms(1,2) _ assms(4)], of "filter core_event"] assms(3) by (simp add: core_milestones)
qed

subsection \<open>Properties\<close>

lemma acquire_ok:
  "fst (check_and_acquire_lock env s) = Inr () \<Longrightarrow>
     execute_countdown_and_reboot env rq s =
       (fst (reboot_procedure env rq (snd (check_and_acquire_lock env s))),
        broadcast_ws env (release_reboot_lock env (snd (reboot_procedure env rq (snd (check_and_acquire_lock env s))))))"
  by (simp add: execute_countdown_and_reboot_def split_beta split: prod.split)

lemma release_sel [simp]:
  "events (release_reboot_lock env s) = events s" "staged_ini (release_reboot_lock env s) = staged_ini s"
  "disk_world (release_reboot_lock env s) = disk_world s" "update_flags (release_reboot_lock env s) = update_flags s"
  by (simp_all add: release_reboot_lock_def)

lemma apply_staged_lock: "lock_mtime (apply_staged_configuration env s) = lock_mtime s"
proof -
  have w: "lock_mtime (write_staged env b t s p) = lock_mtime s" for b t s p
    by (simp add: write_staged_def split_beta emit_def)
  have "lock_mtime (foldl (write_staged env b t) s ps) = lock_mtime s" for b t s ps
    by (induction ps arbitrary: s) (simp_all add: w)
  then show ?thesis by (simp add: apply_staged_configuration_def w split: option.split)
qed

lemma probe_loop_lock: "probe_loop env n k s = (r, s') \<Longrightarrow> lock_mtime s' = lock_mtime s"
  by (induction env n k s arbitrary: rule: probe_loop.induct) (auto split: sum.splits if_splits)

lemma restart_lock: "restart_and_await_readiness env s = (r, s') \<Longrightarrow> lock_mtime s' = lock_mtime s"
  by (auto simp: restart_and_await_readiness_def Let_def split_beta trigger_save_def enter_phase_def apply_staged_lock
      dest!: probe_loop_lock)

lemma reboot_procedure_lock:
  assumes "reboot_procedure env rq s = (r, s')"
  shows "lock_mtime s' = lock_mtime s"
proof -
  have p: "lock_mtime (prepared_engine env rq s) = lock_mtime s"
    using set_flags_store [of "s\<lparr>cancel_event := False, cancel_reason := []\<rparr>" env] by (simp add: prepared_engine_def only_flags_def Let_def)
  show ?thesis
  proof (cases "0 < countdown_seconds rq")
    case True
    obtain b s3 where l: "run_countdown_loop env rq (countdown_seconds rq) (start_countdown env rq (prepared_engine env rq s)) = (b, s3)"
      by fastforce
    have "lock_mtime s3 = lock_mtime s"
      using loop_frame [OF l] start_countdown_sel(3) [of "prepared_engine env rq s" env rq] p by (simp add: same_store_def)
    then show ?thesis
      using assms l restart_lock clear_flags_store
      by (cases b) (auto simp: reboot_procedure_unfold [OF True] only_flags_def)
  next
    case False
    then show ?thesis using assms p by (auto simp: reboot_procedure_def Let_def split_beta dest!: restart_lock)
  qed
qed

text \<open>C9. A reboot that acquired its lock always ends with an idle lifecycle, which is the last thing it broadcasts,
  whatever the game server, the supervisor and the disk do, and with the lock file removed; it
  remains exactly when its removal itself fails.\<close>

theorem reboot_always_releases:
  assumes "execute_countdown_and_reboot env rq s = (r, s')" "fst (check_and_acquire_lock env s) = Inr ()"
  shows "lifecycle_state s' = idle_state \<and> (\<exists>es. events s' = es @ [Lifecycle idle_state]) \<and>
    (lock_mtime s' = None \<longleftrightarrow> \<not> lock_release_fails env)"
proof -
  let ?s1 = "snd (check_and_acquire_lock env s)"
  obtain s2 where p: "reboot_procedure env rq ?s1 = (r, s2)" and s': "s' = broadcast_ws env (release_reboot_lock env s2)"
    using assms by (simp add: acquire_ok [OF assms(2)] prod_eq_iff)
  have "lock_mtime ?s1 \<noteq> None"
    using assms(2) by (auto simp: check_and_acquire_lock_def split: sum.splits prod.splits option.splits)
  then show ?thesis using reboot_procedure_lock [OF p] s' by (auto simp: release_reboot_lock_def)
qed

text \<open>C8. A reboot cancelled by the administrator at any second of its countdown neither saves,
  nor writes the staged configuration, nor restarts the service; the staged configuration is kept,
  and no update flag is left where the flag files can be written and removed.\<close>

theorem cancelled_reboot_is_harmless:
  assumes "execute_countdown_and_reboot env rq s = (r, s')"
    and "fst (check_and_acquire_lock env s) = Inr ()" "0 < countdown_seconds rq"
    and "first_cancel env \<noteq> None \<or> (\<exists>k. 1 \<le> k \<and> k \<le> countdown_seconds rq \<and> cancels env k \<noteq> None)"
  shows "r = Inr () \<and> core (events s') = core (events s) \<and> staged_ini s' = staged_ini s \<and>
    disk_world s' = disk_world s \<and>
    ((\<forall>p. \<not> flag_write_fails env p \<and> \<not> flag_unlink_fails env p) \<longrightarrow>
       (\<forall>p \<in> set (candidate_flags env). dict_get (update_flags s') p = None))"
proof -
  let ?s1 = "snd (check_and_acquire_lock env s)"
  obtain s2 where p: "reboot_procedure env rq ?s1 = (r, s2)"
    and s': "s' = broadcast_ws env (release_reboot_lock env s2)"
    using assms(1) by (simp add: acquire_ok [OF assms(2)] prod_eq_iff)
  have "fst (check_and_acquire_lock env s) = Inr () \<and> check_and_acquire_lock env s = (Inr (), ?s1)"
    using assms(2) by (simp add: prod_eq_iff)
  then have a: "events ?s1 = events s" "staged_ini ?s1 = staged_ini s" "disk_world ?s1 = disk_world s"
    using acquire_store [of env s] by blast+
  have c: "r = Inr ()" "core (events s2) = core (events ?s1)" "staged_ini s2 = staged_ini ?s1"
    "disk_world s2 = disk_world ?s1" "\<exists>t. s2 = clear_update_flags env t"
    using reboot_cancelled [OF assms(3,4) p] by simp_all
  show ?thesis
    using c a s' clear_update_flags_absent [of env] by auto
qed

text \<open>C7. Seen in one trace, a countdown that nobody cancels first makes exactly the scheduled announcements,
  then announces the restart, saves the world once, writes the staged configuration and
  restarts the service once, in this order and with nothing else between.\<close>

theorem completed_reboot_sequence:
  assumes "execute_countdown_and_reboot env rq s = (r, s')"
    and "fst (check_and_acquire_lock env s) = Inr ()" "0 < countdown_seconds rq" "first_cancel env = None"
    and "\<And>k. 1 \<le> k \<Longrightarrow> k \<le> countdown_seconds rq \<Longrightarrow> cancels env k = None"
  shows "milestones (events s') = milestones (events s) @
      map (\<lambda>k. Announce (announcement rq k)) (filter (announced rq) (rev [1..countdown_seconds rq])) @
      [Announce ''Server restarting NOW. Saving progress.'', SaveWorld] @
      staged_writes env s @ [RestartService (service_name env)]"
proof -
  let ?s1 = "snd (check_and_acquire_lock env s)"
  obtain s2 where p: "reboot_procedure env rq ?s1 = (r, s2)"
    and s': "s' = broadcast_ws env (release_reboot_lock env s2)"
    using assms(1) by (simp add: acquire_ok [OF assms(2)] prod_eq_iff)
  have "check_and_acquire_lock env s = (Inr (), ?s1)"
    using assms(2) by (simp add: prod_eq_iff)
  then have a: "events ?s1 = events s" "staged_ini ?s1 = staged_ini s"
    using acquire_store [of env s] by blast+
  show ?thesis
    using reboot_completed [OF assms(3-5) p] a s' by (simp add: staged_writes_def)
qed

lemma probe_loop_ready:
  assumes "check_readiness (server_name env) (rest_port env) (probe_reply env (k + j)) = Inr info" "ready info" "j < n"
    and "\<And>i. i < j \<Longrightarrow> \<exists>r. check_readiness (server_name env) (rest_port env) (probe_reply env (k + i)) = Inr r \<and> \<not> ready r"
  shows "\<exists>t. probe_loop env n k s = (Inr (), t) \<and>
    events t = events s @ replicate j (Probe False) @ [Probe True, DiscordComplete]"
  using assms
proof (induction n arbitrary: j k s)
  case (Suc n)
  show ?case
  proof (cases j)
    case 0
    then show ?thesis
      using Suc.prems(1,2) by simp
  next
    case (Suc i)
    obtain r where r: "check_readiness (server_name env) (rest_port env) (probe_reply env k) = Inr r" "\<not> ready r"
      using Suc.prems(4) [of 0] Suc by auto
    have "\<exists>r. check_readiness (server_name env) (rest_port env) (probe_reply env (Suc k + l)) = Inr r \<and> \<not> ready r"
      if "l < i" for l
      using Suc.prems(4) [of "Suc l"] that Suc by simp
    then show ?thesis
      using Suc.IH [of "Suc k" i "emit (Probe False) s"] Suc.prems(1-3) Suc r by auto
  qed
qed simp

lemma restart_ready:
  assumes "check_readiness (server_name env) (rest_port env) (probe_reply env j) = Inr info" "ready info" "j < 90"
    and "\<And>i. i < j \<Longrightarrow> \<exists>r. check_readiness (server_name env) (rest_port env) (probe_reply env i) = Inr r \<and> \<not> ready r"
  shows "\<exists>t es. restart_and_await_readiness env s = (Inr (), t) \<and>
    events t = es @ replicate j (Probe False) @ [Probe True, DiscordComplete]"
  using probe_loop_ready [of env 0 j info 90] assms
  by (fastforce simp: restart_and_await_readiness_def Let_def split_beta trigger_save_def)

text \<open>C10. A countdown that nobody cancels, and an immediate restart, end with the completion
  notice as soon as one of the first ninety probes finds the server ready.\<close>

theorem reboot_eventually_completes:
  assumes "fst (check_and_acquire_lock env s) = Inr ()" "first_cancel env = None"
    and "\<And>k. 1 \<le> k \<Longrightarrow> k \<le> countdown_seconds rq \<Longrightarrow> cancels env k = None"
    and "check_readiness (server_name env) (rest_port env) (probe_reply env j) = Inr info" "ready info" "j < 90"
    and "\<And>i. i < j \<Longrightarrow> \<exists>r. check_readiness (server_name env) (rest_port env) (probe_reply env i) = Inr r \<and> \<not> ready r"
  shows "\<exists>s' es. execute_countdown_and_reboot env rq s = (Inr (), s') \<and>
    events s' = es @ replicate j (Probe False) @ [Probe True, DiscordComplete, Lifecycle idle_state]"
proof -
  let ?s1 = "snd (check_and_acquire_lock env s)"
  have ready: "\<exists>t es. restart_and_await_readiness env s = (Inr (), t) \<and>
      events t = es @ replicate j (Probe False) @ [Probe True, DiscordComplete]" for s
    using restart_ready [OF assms(4-7)] by blast
  have "\<exists>s3. reboot_procedure env rq ?s1 = restart_and_await_readiness env s3"
  proof (cases "0 < countdown_seconds rq")
    case True
    let ?s0 = "start_countdown env rq (prepared_engine env rq ?s1)"
    have "\<not> cancel_event ?s0"
      using assms(2) by (simp add: start_countdown_sel prepared_engine_sel)
    then have "fst (run_countdown_loop env rq (countdown_seconds rq) ?s0)"
      using loop_completes_iff [where env = env and rq = rq and n = "countdown_seconds rq" and s = ?s0]
        start_countdown_sel(1) assms(3) by blast
    then show ?thesis
      by (cases "run_countdown_loop env rq (countdown_seconds rq) ?s0") (auto simp: reboot_procedure_unfold [OF True])
  next
    case False
    then show ?thesis
      by (auto simp: reboot_procedure_def Let_def split_beta)
  qed
  then obtain t es where "reboot_procedure env rq ?s1 = (Inr (), t)"
    "events t = es @ replicate j (Probe False) @ [Probe True, DiscordComplete]"
    using ready by metis
  then show ?thesis
    by (simp add: acquire_ok [OF assms(1)] release_reboot_lock_def)
qed

text \<open>One lifecycle broadcast per tick measures the duration of the loop in seconds.\<close>

fun lifecycle_event :: "event \<Rightarrow> bool" where
  "lifecycle_event (Lifecycle l) = True"
| "lifecycle_event _ = False"

definition broadcasts :: "event list \<Rightarrow> nat" where
  "broadcasts es = length (filter lifecycle_event es)"

lemma broadcasts_append [simp]: "broadcasts (xs @ ys) = broadcasts xs + broadcasts ys"
  by (simp add: broadcasts_def)

lemma broadcasts_tick: "broadcasts (tick_events rq n lc) = 1"
  by (simp add: broadcasts_def tick_events_def)

text \<open>The countdown loop ends after at most as many ticks as seconds were requested, and
  after exactly that many when it runs to completion.\<close>

theorem countdown_duration:
  assumes "run_countdown_loop env rq n s = (b, s')"
  shows "broadcasts (events s') \<le> broadcasts (events s) + nat n \<and>
    (b \<longrightarrow> broadcasts (events s') = broadcasts (events s) + nat n)"
  using assms
proof (induction env rq n s rule: run_countdown_loop.induct)
  case (1 env rq n s)
  let ?s1 = "deliver_cancel (cancels env n) (tick env rq n s)"
  have s1: "broadcasts (events ?s1) = broadcasts (events s) + 1"
    by (simp add: tick_sel deliver_cancel_sel broadcasts_tick)
  consider "n \<le> 0" "b" "s' = s" | "0 < n" "\<not> b" "s' = s" | "0 < n" "\<not> b" "s' = ?s1"
    | "0 < n" "\<not> cancel_event s" "\<not> cancel_event ?s1" "run_countdown_loop env rq (n - 1) ?s1 = (b, s')"
    using "1.prems" by (auto simp: run_countdown_loop.simps [of env rq n s] Let_def split: if_splits)
  then show ?case
  proof cases
    case 4
    have "Suc (nat (n - 1)) = nat n"
      using 4(1) by simp
    then show ?thesis
      using "1.IH" [of ?s1] 4 s1 by auto
  qed (use s1 in auto)
qed

text \<open>A fresh lock file does not keep a second request out, although the sequence documents
  a \<open>RuntimeError\<close> for that case: with the lock held and at most fifteen minutes old, an
  uncancelled second request saves and restarts the server once more.\<close>

theorem held_lock_does_not_exclude:
  assumes "lock_mtime s = Some t" "wall_clock env - t \<le> 900" "lock_stat_error env = None"
    "lock_touch_error env = None" "0 < countdown_seconds rq" "first_cancel env = None"
    and "\<And>k. 1 \<le> k \<Longrightarrow> k \<le> countdown_seconds rq \<Longrightarrow> cancels env k = None"
    and "execute_countdown_and_reboot env rq s = (r, s')"
  shows "core (events s') = core (events s) @ [SaveWorld] @ staged_writes env s @ [RestartService (service_name env)]"
proof -
  let ?s1 = "s\<lparr>lock_mtime := Some (wall_clock env)\<rparr>"
  have a: "check_and_acquire_lock env s = (Inr (), ?s1)"
    using assms(1-4) by (simp add: check_and_acquire_lock_def inspect_lock_def)
  obtain s2 where p: "reboot_procedure env rq ?s1 = (r, s2)"
    and s': "s' = broadcast_ws env (release_reboot_lock env s2)"
    using assms(8) by (simp add: acquire_ok a prod_eq_iff)
  show "core (events s') = core (events s) @ [SaveWorld] @ staged_writes env s @ [RestartService (service_name env)]"
    using reboot_completed_core [OF assms(5-7) p] s' by (simp add: staged_writes_def)
qed

subsection \<open>Witnesses\<close>

definition demo_engine_env :: engine_env where
  "demo_engine_env =
     \<lparr>wall_clock = 1000, lock_stat_error = None, lock_stale_unlink_error = None, lock_touch_error = None,
      lock_release_fails = False, flag_write_fails = (\<lambda>p. False), flag_unlink_fails = (\<lambda>p. False),
      first_cancel = None, cancels = (\<lambda>n. None), announce_reply = Response 200 None,
      save_reply = Response 200 None, probe_reply = (\<lambda>k. if k < 2 then ConnectError else Response 200 (Some (JObj []))),
      ws_broken = (\<lambda>n. False), io_of = (\<lambda>p. demo_io), home = ''/home/pal'', ini_path = (''/srv'', ''PalWorldSettings.ini''),
      update_flag = ''/srv/.update'', service_name = ''palworld'', server_name = ''Pal'', rest_port = 8212\<rparr>"

definition demo_engine :: engine where
  "demo_engine =
     \<lparr>lifecycle_state = idle_state, staged_ini = None, cancel_event = False, cancel_reason = [],
      lock_mtime = None, update_flags = [], disk_world = demo_world, sockets = [1], events = []\<rparr>"

definition demo_request :: reboot_request where
  "demo_request = \<lparr>countdown_seconds = 3, trigger_update = True, update_version_tag = ''v1'', custom_message = []\<rparr>"

lemma demo_acquire: "check_and_acquire_lock demo_engine_env demo_engine = (Inr (), demo_engine\<lparr>lock_mtime := Some 1000\<rparr>)"
  by (simp add: check_and_acquire_lock_def inspect_lock_def demo_engine_def demo_engine_env_def)

definition cancelling_env :: engine_env where
  "cancelling_env = demo_engine_env\<lparr>cancels := (\<lambda>n. if n = 2 then Some ''raid'' else None)\<rparr>"

lemma demo_sel [simp]:
  "lock_release_fails demo_engine_env = False" "first_cancel demo_engine_env = None" "cancels demo_engine_env = (\<lambda>n. None)"
  "lock_stat_error demo_engine_env = None" "lock_touch_error demo_engine_env = None" "wall_clock demo_engine_env = 1000"
  "service_name demo_engine_env = ''palworld''" "events demo_engine = []" "staged_ini demo_engine = None"
  "disk_world demo_engine = demo_world" "countdown_seconds demo_request = 3" "lock_mtime demo_engine = None"
  by (simp_all add: demo_engine_env_def demo_engine_def demo_request_def)

lemma reboot_always_releases_witness:
  "lock_mtime (snd (execute_countdown_and_reboot demo_engine_env demo_request demo_engine)) = None"
  using reboot_always_releases [of demo_engine_env demo_request demo_engine, OF prod.collapse [symmetric]] demo_acquire
  by (simp add: demo_engine_env_def)

lemma cancelled_reboot_is_harmless_witness:
  "core (events (snd (execute_countdown_and_reboot cancelling_env demo_request demo_engine))) = []"
proof -
  have c: "first_cancel cancelling_env = None" "cancels cancelling_env 2 \<noteq> None"
    "fst (check_and_acquire_lock cancelling_env demo_engine) = Inr ()"
    by (simp_all add: cancelling_env_def check_and_acquire_lock_def inspect_lock_def)
  show ?thesis
    using cancelled_reboot_is_harmless [of cancelling_env demo_request demo_engine, OF prod.collapse [symmetric] c(3)] c(2)
    by (force simp: core_def)
qed

lemma completed_reboot_sequence_witness:
  "milestones (events (snd (execute_countdown_and_reboot demo_engine_env demo_request (demo_engine\<lparr>staged_ini := Some ''x''\<rparr>)))) =
     map (\<lambda>k. Announce (announcement demo_request k)) [3, 2, 1] @
     [Announce ''Server restarting NOW. Saving progress.'', SaveWorld] @
     map WriteStaged ((''/srv'', ''PalWorldSettings.ini'') # staged_candidates demo_engine_env) @ [RestartService ''palworld'']"
proof -
  have k: "filter (announced demo_request) (rev [1..3]) = [3, 2, 1]" by code_simp
  show ?thesis
    using completed_reboot_sequence [of demo_engine_env demo_request "demo_engine\<lparr>staged_ini := Some ''x''\<rparr>", OF prod.collapse [symmetric]]
    by (simp add: check_and_acquire_lock_def inspect_lock_def staged_writes_def k) (simp add: demo_engine_env_def)
qed

lemma reboot_eventually_completes_witness:
  "\<exists>s' es. execute_countdown_and_reboot demo_engine_env demo_request demo_engine = (Inr (), s') \<and>
     events s' = es @ [Probe False, Probe False, Probe True, DiscordComplete, Lifecycle idle_state]"
proof -
  have a: "fst (check_and_acquire_lock demo_engine_env demo_engine) = Inr ()"
    by (simp add: demo_acquire)
  have "\<exists>info. check_readiness (server_name demo_engine_env) (rest_port demo_engine_env) (probe_reply demo_engine_env 2) = Inr info \<and> ready info"
    "\<And>i. i < 2 \<Longrightarrow> \<exists>r. check_readiness (server_name demo_engine_env) (rest_port demo_engine_env) (probe_reply demo_engine_env i) = Inr r \<and> \<not> ready r"
    by (simp_all add: demo_engine_env_def check_readiness_def body_object_def not_ready_def)
  then show ?thesis
    using reboot_eventually_completes [of demo_engine_env demo_engine demo_request 2, OF a]
    by (auto simp: numeral_2_eq_2)
qed

lemma countdown_duration_witness:
  "broadcasts (events (snd (run_countdown_loop demo_engine_env demo_request 3 demo_engine))) \<le> 3"
  using countdown_duration [of demo_engine_env demo_request 3 demo_engine, OF prod.collapse [symmetric]]
  by (simp add: broadcasts_def)

lemma held_lock_does_not_exclude_witness:
  "core (events (snd (execute_countdown_and_reboot demo_engine_env demo_request (demo_engine\<lparr>lock_mtime := Some 990\<rparr>)))) =
     [SaveWorld, RestartService ''palworld'']"
  using held_lock_does_not_exclude [of "demo_engine\<lparr>lock_mtime := Some 990\<rparr>" 990 demo_engine_env demo_request, OF _ _ _ _ _ _ _ prod.collapse [symmetric]]
  by (simp add: staged_writes_def core_def)

end
