(* ===== verification/Py_Datetime.thy ===== *)
theory Py_Datetime
  imports Py_Numeric "HOL-Library.Char_ord" "HOL-Library.List_Lexorder"
begin

section \<open>UTC timestamps\<close>

text \<open>
  The part of Python's \<open>datetime\<close> the sources use: the proleptic Gregorian calendar and
  \<open>isoformat()\<close> of an aware UTC time. A time is the number of microseconds since
  the first of January of year 1. The main fact is that the texts are ordered as the times,
  which the queries that compare timestamps as text rely on.
\<close>

subsection \<open>Calendar\<close>

definition is_leap :: "nat \<Rightarrow> bool" where
  "is_leap y \<longleftrightarrow> 4 dvd y \<and> (\<not> 100 dvd y \<or> 400 dvd y)"

definition days_before_year :: "nat \<Rightarrow> nat" where
  "days_before_year y = (let p = y - 1 in 365 * p + p div 4 + p div 400 - p div 100)"

definition year_length :: "nat \<Rightarrow> nat" where
  "year_length y = (if is_leap y then 366 else 365)"

definition month_starts :: "bool \<Rightarrow> nat list" where
  "month_starts leap =
     (if leap then [0, 31, 60, 91, 121, 152, 182, 213, 244, 274, 305, 335]
      else [0, 31, 59, 90, 120, 151, 181, 212, 243, 273, 304, 334])"

text \<open>The year and the day of the year of a day number, by the cycles of 400, 100, 4 and 1 years.\<close>

definition year_of_day :: "nat \<Rightarrow> nat \<times> nat" where
  "year_of_day n =
     (let a = n div 146097; r1 = n mod 146097;
          c = min 3 (r1 div 36524); r2 = r1 - 36524 * c;
          q = r2 div 1461; r3 = r2 mod 1461;
          y = min 3 (r3 div 365)
      in (400 * a + 100 * c + 4 * q + y + 1, r3 - 365 * y))"

definition month_of_day :: "bool \<Rightarrow> nat \<Rightarrow> nat \<times> nat" where
  "month_of_day leap d =
     (let m = length (takeWhile (\<lambda>s. s \<le> d) (month_starts leap))
      in (m, d - month_starts leap ! (m - 1) + 1))"

definition date_of_day :: "nat \<Rightarrow> nat \<times> nat \<times> nat" where
  "date_of_day n =
     (let (y, d) = year_of_day n in (y, month_of_day (is_leap y) d))"

lemma dvd_block: "0 < r \<Longrightarrow> r \<le> k \<Longrightarrow> k dvd k * x + r \<longleftrightarrow> r = (k::nat)"
  using dvd_imp_le [of k r] by (auto simp: dvd_add_right_iff)

lemma cycle_year:
  assumes "c \<le> 3" "q \<le> 24" "p \<le> (3::nat)"
  shows "days_before_year (400 * a + 100 * c + 4 * q + p + 1) = 146097 * a + 36524 * c + 1461 * q + 365 * p"
    and "is_leap (400 * a + 100 * c + 4 * q + p + 1) \<longleftrightarrow> p = 3 \<and> (q \<noteq> 24 \<or> c = 3)"
proof -
  let ?y = "400 * a + 100 * c + 4 * q + p"
  have "?y div 4 = 100 * a + 25 * c + q" "?y div 100 = 4 * a + c" "?y div 400 = a"
    using assms by (simp_all add: div_nat_eqI)
  then show "days_before_year (?y + 1) = 146097 * a + 36524 * c + 1461 * q + 365 * p"
    by (simp add: days_before_year_def)
  have "4 dvd ?y + 1 \<longleftrightarrow> p = 3"
    using dvd_block [of "p + 1" 4 "100 * a + 25 * c + q"] assms by (simp add: algebra_simps)
  moreover have "100 dvd ?y + 1 \<longleftrightarrow> q = 24 \<and> p = 3"
  proof -
    have "4 * q + p + 1 = 100 \<longleftrightarrow> q = 24 \<and> p = 3"
      using assms by (intro iffI conjI) linarith+
    then show ?thesis
      using dvd_block [of "4 * q + p + 1" 100 "4 * a + c"] assms by (simp add: algebra_simps)
  qed
  moreover have "400 dvd ?y + 1 \<longleftrightarrow> c = 3 \<and> q = 24 \<and> p = 3"
  proof -
    have "100 * c + 4 * q + p + 1 = 400 \<longleftrightarrow> c = 3 \<and> q = 24 \<and> p = 3"
      using assms by (intro iffI conjI) linarith+
    then show ?thesis
      using dvd_block [of "100 * c + 4 * q + p + 1" 400 a] assms by (simp add: algebra_simps)
  qed
  ultimately show "is_leap (?y + 1) \<longleftrightarrow> p = 3 \<and> (q \<noteq> 24 \<or> c = 3)"
    by (auto simp: is_leap_def)
qed

text \<open>One step of the cycle decomposition: the last of the \<open>k\<close> shorter cycles takes the surplus.\<close>

lemma capped_div:
  assumes "r < (k + 1) * m + e" "e \<le> m" "0 < (m::nat)"
  shows "min k (r div m) * m \<le> r" "r - min k (r div m) * m < m \<or> min k (r div m) = k \<and> r - min k (r div m) * m < m + e"
proof -
  show "min k (r div m) * m \<le> r"
    by (metis div_times_less_eq_dividend le_trans min.cobounded2 mult_le_mono1)
  show "r - min k (r div m) * m < m \<or> min k (r div m) = k \<and> r - min k (r div m) * m < m + e"
  proof (cases "r div m \<le> k")
    case True
    then have "r - min k (r div m) * m = r mod m"
      by (simp add: min_def minus_div_mult_eq_mod)
    then show ?thesis
      using assms(3) by simp
  next
    case False
    have "r - k * m < m + e"
      using assms(1,3) by (simp add: add_mult_distrib)
    then show ?thesis
      using False by (simp add: min_def)
  qed
qed

lemma year_of_day_correct:
  assumes "year_of_day n = (y, d)"
  shows "1 \<le> y \<and> n = days_before_year y + d \<and> d < year_length y"
proof -
  define a where "a = n div 146097"
  define r1 where "r1 = n mod 146097"
  define c where "c = min 3 (r1 div 36524)"
  define r2 where "r2 = r1 - 36524 * c"
  define q where "q = r2 div 1461"
  define r3 where "r3 = r2 mod 1461"
  define p where "p = min 3 (r3 div 365)"
  have y: "y = 400 * a + 100 * c + 4 * q + p + 1" and d: "d = r3 - 365 * p"
    using assms unfolding year_of_day_def Let_def a_def [symmetric] r1_def [symmetric] c_def [symmetric]
      r2_def [symmetric] q_def [symmetric] r3_def [symmetric] p_def [symmetric] by simp_all
  have n: "n = 146097 * a + r1" "r1 < 146097"
    unfolding a_def r1_def by simp_all
  have c: "c \<le> 3" "36524 * c \<le> r1" "r2 < 36524 \<or> c = 3 \<and> r2 < 36524 + 1"
    using capped_div [of r1 3 36524 1] n(2) unfolding c_def r2_def by (simp_all add: mult.commute)
  have r2: "r2 = 1461 * q + r3" "r3 < 1461"
    unfolding q_def r3_def by simp_all
  have q: "q \<le> 24"
    using c(3) r2 by linarith
  have p: "p \<le> 3" "365 * p \<le> r3" "d < 365 \<or> p = 3 \<and> d < 365 + 1"
    using capped_div [of r3 3 365 1] r2(2) unfolding p_def d by (simp_all add: mult.commute)
  have r1: "r1 = 36524 * c + r2"
    using c(2) unfolding r2_def by simp
  have r3: "r3 = 365 * p + d"
    using p(2) unfolding d by simp
  have "n = 146097 * a + 36524 * c + 1461 * q + 365 * p + d"
    using n(1) r1 r2(1) r3 by linarith
  moreover have "d < 365 \<or> p = 3 \<and> d < 366 \<and> (q \<noteq> 24 \<or> c = 3)"
  proof (cases "q = 24 \<and> c \<noteq> 3 \<and> p = 3")
    case True
    then have "r2 < 36524"
      using c(3) by simp
    then have "d < 365"
      using True r2(1) r3 by linarith
    then show ?thesis ..
  next
    case False
    then show ?thesis
      using p by auto
  qed
  ultimately show ?thesis
    using cycle_year [OF c(1) q p(1), of a] unfolding y year_length_def by auto
qed

lemma days_before_eq: "days_before_year (Suc p) + p div 100 = 365 * p + p div 4 + p div 400"
proof -
  have "p div 100 \<le> 365 * p + p div 4 + p div 400"
    by (rule order_trans [of _ p]) simp_all
  then show ?thesis
    by (simp add: days_before_year_def)
qed

lemma days_before_Suc: "1 \<le> y \<Longrightarrow> days_before_year (Suc y) = days_before_year y + year_length y"
proof -
  assume "1 \<le> y"
  then obtain p where y: "y = Suc p"
    by (cases y) auto
  have dvd: "100 dvd y \<Longrightarrow> 4 dvd y" "400 dvd y \<Longrightarrow> 100 dvd y"
    by presburger+
  have step: "y div k = p div k + of_bool (k dvd y)" for k
    unfolding y by (simp add: div_Suc mod_eq_0_iff_dvd)
  have "year_length y + of_bool (100 dvd y) = 365 + of_bool (4 dvd y) + of_bool (400 dvd y)"
  proof -
    have "(B \<longrightarrow> A) \<Longrightarrow> (C \<longrightarrow> B) \<Longrightarrow>
        (if A \<and> (\<not> B \<or> C) then 366 else 365 :: nat) + of_bool B = 365 + of_bool A + of_bool C" for A B C
      by (cases A; cases B; cases C) simp_all
    from this [of "100 dvd y" "4 dvd y" "400 dvd y"] show ?thesis
      using dvd unfolding year_length_def is_leap_def by blast
  qed
  then show ?thesis
    using days_before_eq [of y] days_before_eq [of p, folded y] step [of 4] step [of 100] step [of 400] y by linarith
qed

lemma days_before_mono: "1 \<le> y \<Longrightarrow> y < z \<Longrightarrow> days_before_year y + year_length y \<le> days_before_year z"
proof (induction z)
  case (Suc z)
  then show ?case
    using days_before_Suc [of z] by (cases "y = z") (auto simp: days_before_Suc)
qed simp

lemma year_of_day_mono:
  assumes "m < n" "year_of_day m = (y, d)" "year_of_day n = (z, e)"
  shows "y < z \<or> y = z \<and> d < e"
proof -
  have m: "1 \<le> y" "m = days_before_year y + d" and n: "1 \<le> z" "n = days_before_year z + e" "e < year_length z"
    using year_of_day_correct assms(2,3) by blast+
  have "\<not> z < y"
    using days_before_mono [of z y] m n assms(1) by linarith
  then show ?thesis
    using m n assms(1) by (cases "y = z") auto
qed

lemma year_of_day_inj: "year_of_day m = year_of_day n \<Longrightarrow> m = n"
  using year_of_day_correct by (metis surj_pair)


subsection \<open>Months\<close>

lemma takeWhile_le_mono: "d \<le> e \<Longrightarrow> length (takeWhile (\<lambda>s. s \<le> (d::nat)) xs) \<le> length (takeWhile (\<lambda>s. s \<le> e) xs)"
  by (induction xs) auto

lemma month_starts_bounds: "length (month_starts l) = 12" "hd (month_starts l) = 0" "month_starts l \<noteq> []"
  by (simp_all add: month_starts_def)

lemma month_start_le: "0 < length (takeWhile (\<lambda>s. s \<le> d) xs) \<Longrightarrow> xs ! (length (takeWhile (\<lambda>s. s \<le> d) xs) - 1) \<le> (d::nat)"
  using nth_mem [of "length (takeWhile (\<lambda>s. s \<le> d) xs) - 1" "takeWhile (\<lambda>s. s \<le> d) xs"]
  by (metis diff_less nth_mem set_takeWhileD takeWhile_nth zero_less_one)

lemma month_pos: "0 < length (takeWhile (\<lambda>s. s \<le> d) (month_starts l))"
  by (cases "month_starts l") (use month_starts_bounds in \<open>auto simp: month_starts_def split: if_splits\<close>)

lemma month_of_day_bounds: "d < (if l then 366 else 365) \<Longrightarrow> month_of_day l d = (m, k) \<Longrightarrow> 1 \<le> m \<and> m \<le> 12 \<and> 1 \<le> k \<and> k \<le> 31"
  by (auto simp: month_of_day_def month_starts_def Let_def split: if_splits)

lemma month_of_day_mono:
  assumes "d < e" "month_of_day l d = (m, k)" "month_of_day l e = (n, j)"
  shows "m < n \<or> m = n \<and> k < j"
proof -
  have m: "m = length (takeWhile (\<lambda>s. s \<le> d) (month_starts l))" "k = d - month_starts l ! (m - 1) + 1"
    and n: "n = length (takeWhile (\<lambda>s. s \<le> e) (month_starts l))" "j = e - month_starts l ! (n - 1) + 1"
    using assms(2,3) by (auto simp: month_of_day_def Let_def)
  have "m \<le> n"
    using assms(1) takeWhile_le_mono [of d e] by (simp add: m n)
  moreover have "m = n \<Longrightarrow> k < j"
    using m n assms(1) month_start_le [of d "month_starts l"] month_pos [of d l] by simp
  ultimately show ?thesis
    by linarith
qed

subsection \<open>Text of fixed width\<close>

primrec pad :: "nat \<Rightarrow> nat \<Rightarrow> string" where
  "pad 0 n = []"
| "pad (Suc w) n = pad w (n div 10) @ [digit_char (n mod 10)]"

lemma length_pad [simp]: "length (pad w n) = w"
  by (induction w arbitrary: n) simp_all

lemma less_append_iff:
  "length xs = length ys \<Longrightarrow> xs @ us < ys @ vs \<longleftrightarrow> xs < ys \<or> xs = ys \<and> us < (vs :: string)"
  by (induction xs ys rule: list_induct2) auto

lemma digit_char_less: "a < 10 \<Longrightarrow> b < 10 \<Longrightarrow> digit_char a < digit_char b \<longleftrightarrow> a < b"
  unfolding less_char_def by (metis nat_add_left_cancel_less ord_def ord_digit_char)

lemma digit_char_inj: "a < 10 \<Longrightarrow> b < 10 \<Longrightarrow> digit_char a = digit_char b \<longleftrightarrow> a = b"
  by (metis nat_add_left_cancel_less nat_neq_iff ord_digit_char)

lemma pad_inj: "m < 10 ^ w \<Longrightarrow> n < 10 ^ w \<Longrightarrow> pad w m = pad w n \<longleftrightarrow> m = n"
proof (induction w arbitrary: m n)
  case (Suc w)
  have "m div 10 < 10 ^ w" "n div 10 < 10 ^ w"
    using Suc.prems by (simp_all add: less_mult_imp_div_less mult.commute)
  then have "pad (Suc w) m = pad (Suc w) n \<longleftrightarrow> m div 10 = n div 10 \<and> m mod 10 = n mod 10"
    using Suc.IH by (simp add: digit_char_inj)
  then show ?case
    by (metis div_mult_mod_eq)
qed simp

lemma pad_less: "m < 10 ^ w \<Longrightarrow> n < 10 ^ w \<Longrightarrow> pad w m < pad w n \<longleftrightarrow> m < n"
proof (induction w arbitrary: m n)
  case (Suc w)
  have b: "m div 10 < 10 ^ w" "n div 10 < 10 ^ w"
    using Suc.prems by (simp_all add: less_mult_imp_div_less mult.commute)
  then have "pad (Suc w) m < pad (Suc w) n \<longleftrightarrow> m div 10 < n div 10 \<or> m div 10 = n div 10 \<and> m mod 10 < n mod 10"
    using Suc.IH by (simp add: less_append_iff digit_char_less pad_inj)
  also have "\<dots> \<longleftrightarrow> m < n"
    using div_mult_mod_eq [of m 10] div_mult_mod_eq [of n 10] mod_less_divisor [of 10 m] mod_less_divisor [of 10 n]
    by linarith
  finally show ?case .
qed simp


subsection \<open>ISO format\<close>

text \<open>Microseconds are written only when they are not zero.\<close>

definition clock_of :: "nat \<Rightarrow> nat \<times> nat \<times> nat" where
  "clock_of sec = (sec div 3600, sec mod 3600 div 60, sec mod 60)"

definition date_text :: "nat \<times> nat \<times> nat \<Rightarrow> string" where
  "date_text date = (case date of (y, m, d) \<Rightarrow> pad 4 y @ ''-'' @ pad 2 m @ ''-'' @ pad 2 d)"

definition clock_text :: "nat \<times> nat \<times> nat \<Rightarrow> string" where
  "clock_text hms = (case hms of (h, m, s) \<Rightarrow> pad 2 h @ '':'' @ pad 2 m @ '':'' @ pad 2 s)"

definition fraction_text :: "nat \<Rightarrow> string" where
  "fraction_text us = (if us = 0 then [] else ''.'' @ pad 6 us) @ ''+00:00''"

definition isoformat :: "nat \<Rightarrow> string" where
  "isoformat t =
     (let us = t mod 1000000; s = t div 1000000
      in date_text (date_of_day (s div 86400)) @ ''T'' @ clock_text (clock_of (s mod 86400)) @ fraction_text us)"

text \<open>The last representable time is the end of year 9999.\<close>

definition max_time :: nat where
  "max_time = 3652059 * 86400 * 1000000"

lemma length_date_text: "length (date_text d) = 10"
  by (simp add: date_text_def split: prod.split)

lemma length_clock_text: "length (clock_text d) = 8"
  by (simp add: clock_text_def split: prod.split)

fun lex3 :: "nat \<times> nat \<times> nat \<Rightarrow> nat \<times> nat \<times> nat \<Rightarrow> bool" where
  "lex3 (a, b, c) (x, y, z) \<longleftrightarrow> a < x \<or> a = x \<and> (b < y \<or> b = y \<and> c < z)"

lemma date_of_day_bounds:
  assumes "n < 3652059" "date_of_day n = (y, m, d)"
  shows "y < 10 ^ 4 \<and> m < 10 ^ 2 \<and> d < 10 ^ 2"
proof -
  obtain k where k: "year_of_day n = (y, k)" "month_of_day (is_leap y) k = (m, d)"
    using assms(2) by (auto simp: date_of_day_def split: prod.splits)
  have c: "1 \<le> y" "n = days_before_year y + k" "k < year_length y"
    using year_of_day_correct [OF k(1)] by simp_all
  have "days_before_year 10000 = 3652059"
    by (simp add: days_before_year_def)
  then have "y < 10000"
    using days_before_mono [of 10000 y] c assms(1) by (cases y "10000 :: nat" rule: linorder_cases) auto
  then show ?thesis
    using month_of_day_bounds [of k "is_leap y" m d] c(3) k(2) by (simp add: year_length_def)
qed

lemma date_of_day_mono:
  assumes "m < n"
  shows "lex3 (date_of_day m) (date_of_day n)"
proof -
  obtain y d where y: "year_of_day m = (y, d)"
    by fastforce
  obtain z e where z: "year_of_day n = (z, e)"
    by fastforce
  obtain a b where a: "month_of_day (is_leap y) d = (a, b)"
    by fastforce
  obtain a' b' where a': "month_of_day (is_leap z) e = (a', b')"
    by fastforce
  show ?thesis
    using year_of_day_mono [OF assms y z] month_of_day_mono [of d e "is_leap y" a b a' b'] a a'
    by (auto simp: date_of_day_def y z)
qed

lemma lex3_total: "lex3 p q \<or> p = q \<or> lex3 q p"
  by (cases p; cases q) auto

lemma lex3_asym: "lex3 p q \<Longrightarrow> p \<noteq> q \<and> \<not> lex3 q p"
  by (cases p; cases q) auto

lemma date_of_day_iff:
  "lex3 (date_of_day m) (date_of_day n) \<longleftrightarrow> m < n"
  "date_of_day m = date_of_day n \<longleftrightarrow> m = n"
  using date_of_day_mono lex3_asym by (metis nat_neq_iff)+

lemma date_text_less:
  assumes "m < 3652059" "n < 3652059"
  shows "date_text (date_of_day m) < date_text (date_of_day n) \<longleftrightarrow> m < n"
    and "date_text (date_of_day m) = date_text (date_of_day n) \<longleftrightarrow> m = n"
proof -
  obtain y a d where m: "date_of_day m = (y, a, d)"
    by (metis prod_cases3)
  obtain z b e where n: "date_of_day n = (z, b, e)"
    by (metis prod_cases3)
  have bounds: "y < 10 ^ 4" "a < 10 ^ 2" "d < 10 ^ 2" "z < 10 ^ 4" "b < 10 ^ 2" "e < 10 ^ 2"
    using date_of_day_bounds assms m n by blast+
  have "date_text (date_of_day m) < date_text (date_of_day n) \<longleftrightarrow> lex3 (y, a, d) (z, b, e)"
    unfolding m n date_text_def prod.case
    by (simp add: less_append_iff pad_less [OF bounds(1,4)] pad_less [OF bounds(2,5)] pad_less [OF bounds(3,6)]
        pad_inj [OF bounds(1,4)] pad_inj [OF bounds(2,5)])
  then show "date_text (date_of_day m) < date_text (date_of_day n) \<longleftrightarrow> m < n"
    using date_of_day_iff(1) [of m n] m n by simp
  have "date_text (date_of_day m) = date_text (date_of_day n) \<longleftrightarrow> (y, a, d) = (z, b, e)"
    unfolding m n date_text_def prod.case
    by (simp add: pad_inj [OF bounds(1,4)] pad_inj [OF bounds(2,5)] pad_inj [OF bounds(3,6)])
  then show "date_text (date_of_day m) = date_text (date_of_day n) \<longleftrightarrow> m = n"
    using date_of_day_iff(2) [of m n] m n by simp
qed

lemma clock_text_less:
  assumes "m < 86400" "n < 86400"
  shows "clock_text (clock_of m) < clock_text (clock_of n) \<longleftrightarrow> m < n"
    and "clock_text (clock_of m) = clock_text (clock_of n) \<longleftrightarrow> m = n"
proof -
  have b: "k div 3600 < 10 ^ 2" "k mod 3600 div 60 < 10 ^ 2" "k mod 60 < 10 ^ 2" if "k < 86400" for k :: nat
    using that by (simp_all add: less_mult_imp_div_less)
  note bounds = b [OF assms(1)] b [OF assms(2)]
  have split: "k = 3600 * (k div 3600) + 60 * (k mod 3600 div 60) + k mod 60" for k :: nat
  proof -
    have "k mod 3600 mod 60 = k mod 60"
      by (simp add: mod_mod_cancel)
    then show ?thesis
      using div_mult_mod_eq [of k 3600] div_mult_mod_eq [of "k mod 3600" 60] by linarith
  qed
  have small: "k mod 3600 div 60 < 60" "k mod 60 < 60" for k :: nat
    by (simp_all add: less_mult_imp_div_less)
  have "lex3 (clock_of m) (clock_of n) \<longleftrightarrow> m < n"
    unfolding clock_of_def lex3.simps using split [of m] split [of n] small [of m] small [of n] by linarith
  moreover have "clock_of m = clock_of n \<longleftrightarrow> m = n"
    unfolding clock_of_def prod.inject by (metis split)
  moreover have "clock_text (clock_of m) < clock_text (clock_of n) \<longleftrightarrow> lex3 (clock_of m) (clock_of n)"
    unfolding clock_of_def clock_text_def prod.case
    by (simp add: less_append_iff pad_less [OF bounds(1,4)] pad_less [OF bounds(2,5)] pad_less [OF bounds(3,6)]
        pad_inj [OF bounds(1,4)] pad_inj [OF bounds(2,5)])
  moreover have "clock_text (clock_of m) = clock_text (clock_of n) \<longleftrightarrow> clock_of m = clock_of n"
    unfolding clock_of_def clock_text_def prod.case
    by (simp add: pad_inj [OF bounds(1,4)] pad_inj [OF bounds(2,5)] pad_inj [OF bounds(3,6)])
  ultimately show "clock_text (clock_of m) < clock_text (clock_of n) \<longleftrightarrow> m < n"
    and "clock_text (clock_of m) = clock_text (clock_of n) \<longleftrightarrow> m = n"
    by simp_all
qed


lemma fraction_text_less:
  assumes "a < 1000000" "b < 1000000"
  shows "fraction_text a < fraction_text b \<longleftrightarrow> a < b" and "fraction_text a = fraction_text b \<longleftrightarrow> a = b"
proof -
  have ab: "a < 10 ^ 6" "b < 10 ^ 6"
    using assms by simp_all
  show "fraction_text a < fraction_text b \<longleftrightarrow> a < b" "fraction_text a = fraction_text b \<longleftrightarrow> a = b"
    using pad_less [OF ab] pad_inj [OF ab]
    by (auto simp: fraction_text_def less_append_iff less_char_def)
qed

lemma mixed_radix:
  assumes "a < m" "b < (m::nat)"
  shows "x * m + a < y * m + b \<longleftrightarrow> x < y \<or> x = y \<and> a < b" and "x * m + a = y * m + b \<longleftrightarrow> x = y \<and> a = b"
proof -
  have *: "x * m + a < y * m + b" if "x < y" "a < m" for x y a b
    using mult_le_mono1 [of "Suc x" y m] that by simp
  show "x * m + a < y * m + b \<longleftrightarrow> x < y \<or> x = y \<and> a < b" "x * m + a = y * m + b \<longleftrightarrow> x = y \<and> a = b"
    using *[of x y a b] *[of y x b a] assms by (cases x y rule: linorder_cases; auto)+
qed

lemma less_div_mod:
  assumes "0 < (m::nat)"
  shows "t < u \<longleftrightarrow> t div m < u div m \<or> t div m = u div m \<and> t mod m < u mod m"
    and "t = u \<longleftrightarrow> t div m = u div m \<and> t mod m = u mod m"
  using mixed_radix [of "t mod m" m "u mod m" "t div m" "u div m"] assms by simp_all

theorem isoformat_less:
  assumes "t < max_time" "u < max_time"
  shows "isoformat t < isoformat u \<longleftrightarrow> t < u" and "isoformat t = isoformat u \<longleftrightarrow> t = u"
proof -
  have day: "k div 1000000 div 86400 < 3652059" if "k < max_time" for k
    using that by (simp add: max_time_def less_mult_imp_div_less)
  note d = date_text_less [OF day [OF assms(1)] day [OF assms(2)]]
  note c = clock_text_less [of "t div 1000000 mod 86400" "u div 1000000 mod 86400"]
  note f = fraction_text_less [of "t mod 1000000" "u mod 1000000"]
  have "isoformat t < isoformat u \<longleftrightarrow>
      t div 1000000 div 86400 < u div 1000000 div 86400 \<or>
      t div 1000000 div 86400 = u div 1000000 div 86400 \<and>
        (t div 1000000 mod 86400 < u div 1000000 mod 86400 \<or>
         t div 1000000 mod 86400 = u div 1000000 mod 86400 \<and> t mod 1000000 < u mod 1000000)"
    unfolding isoformat_def Let_def by (simp add: less_append_iff length_date_text length_clock_text c d f)
  also have "\<dots> \<longleftrightarrow> t < u"
    using less_div_mod(1) [of 1000000 t u] less_div_mod [of 86400 "t div 1000000" "u div 1000000"] by simp blast
  finally show "isoformat t < isoformat u \<longleftrightarrow> t < u" .
  have "isoformat t = isoformat u \<longleftrightarrow>
      t div 1000000 div 86400 = u div 1000000 div 86400 \<and>
      t div 1000000 mod 86400 = u div 1000000 mod 86400 \<and> t mod 1000000 = u mod 1000000"
    unfolding isoformat_def Let_def by (simp add: length_date_text length_clock_text c d f)
  then show "isoformat t = isoformat u \<longleftrightarrow> t = u"
    using less_div_mod(2) [of 1000000 t u] less_div_mod(2) [of 86400 "t div 1000000" "u div 1000000"] by simp
qed

end
