(* ===== verification/Metrics_Db.thy ===== *)
theory Metrics_Db
  imports User_Db Py_Datetime "HOL-Library.Multiset"
begin

section \<open>The time-series store and its buffer\<close>

text \<open>
  \<open>MetricsDatabaseManager\<close> of \<^verbatim>\<open>app/database/metrics_db.py\<close> with the records of
  \<^verbatim>\<open>metric_models.py\<close>, and \<open>flush_metrics_buffer\<close> of \<^verbatim>\<open>app/routers/deps.py\<close>. The store
  keeps what is committed and what the open connection sees, so that a failing commit leaves
  an open transaction as SQLite does. Numbers are exact rationals (finite floats); a clock
  reading is a time of \<^theory_text>\<open>Py_Datetime\<close>, and timestamps are compared as text, as the
  queries do. Buffer and store refine an abstract collection of samples.
\<close>

subsection \<open>Records\<close>

record MetricSnapshotRecord =
  snapshot_id :: "int option"
  timestamp :: string
  server_fps :: rat
  server_frame_time_ms :: rat
  uptime_seconds :: int
  active_players :: int
  max_players :: int
  cpu_avg_pct :: rat
  host_ram_used_gb :: rat
  host_ram_total_gb :: rat
  host_ram_pct :: rat
  cgroup_ram_used_gb :: rat
  cgroup_ram_pct :: rat
  disk_used_gb :: rat
  disk_pct :: rat
  net_rx_rate_kbps :: rat
  net_tx_rate_kbps :: rat

record MetricBucketRecord =
  bucket_timestamp :: string
  avg_fps :: rat
  min_fps :: rat
  max_fps :: rat
  avg_frame_time_ms :: rat
  avg_players :: rat
  bucket_max_players :: int
  avg_cpu_pct :: rat
  max_cpu_pct :: rat
  avg_ram_pct :: rat
  max_ram_pct :: rat
  sample_count :: nat

record Metric30DaySummary =
  total_samples :: nat
  peak_players :: int
  summary_avg_players :: rat
  lowest_fps :: rat
  summary_avg_fps :: rat
  peak_cpu_pct :: rat
  summary_avg_cpu_pct :: rat
  peak_ram_pct :: rat
  summary_avg_ram_pct :: rat
  window_start :: string
  window_end :: string

type_synonym snapshot = MetricSnapshotRecord

subsection \<open>The store\<close>

record metrics_store =
  durable :: "snapshot table"
  visible :: "snapshot table"

text \<open>The faults of one call: an error after that many rows of the statement, an error of the commit.\<close>

record metrics_io =
  exec_error :: "(nat \<times> py_error) option"
  commit_error :: "py_error option"
  query_error :: "py_error option"

definition empty_metrics :: metrics_store where
  "empty_metrics = \<lparr>durable = empty_table, visible = empty_table\<rparr>"

definition is_database_error :: "py_error \<Rightarrow> bool" where
  "is_database_error e \<longleftrightarrow> e \<in> {IntegrityError, OperationalError, DatabaseError}"

definition insert_row :: "snapshot table \<Rightarrow> snapshot \<Rightarrow> snapshot table" where
  "insert_row t s = table_insert (\<lambda>i. s\<lparr>snapshot_id := Some i\<rparr>) t"

definition commit :: "metrics_store \<Rightarrow> metrics_store" where
  "commit m = m\<lparr>durable := visible m\<rparr>"

definition rollback :: "metrics_store \<Rightarrow> metrics_store" where
  "rollback m = m\<lparr>visible := durable m\<rparr>"

definition record_snapshot :: "metrics_io \<Rightarrow> snapshot \<Rightarrow> metrics_store \<Rightarrow> int result \<times> metrics_store" where
  "record_snapshot io s m =
     (case exec_error io of
        Some (_, e) \<Rightarrow> (Inl e, m)
      | None \<Rightarrow>
          (let m1 = m\<lparr>visible := insert_row (visible m) s\<rparr>
           in case commit_error io of
                Some e \<Rightarrow> (Inl e, m1)
              | None \<Rightarrow> (Inr (seq (visible m1)), commit m1)))"

definition record_snapshots_batch ::
  "metrics_io \<Rightarrow> snapshot list \<Rightarrow> metrics_store \<Rightarrow> nat result \<times> metrics_store" where
  "record_snapshots_batch io ss m =
     (if ss = [] then (Inr 0, m)
      else
        (let failed = (\<lambda>e m'. (Inl e, if is_database_error e then rollback m' else m'))
         in case exec_error io of
              Some (k, e) \<Rightarrow> failed e (m\<lparr>visible := foldl insert_row (visible m) (take k ss)\<rparr>)
            | None \<Rightarrow>
                (let m1 = m\<lparr>visible := foldl insert_row (visible m) ss\<rparr>
                 in case commit_error io of
                      Some e \<Rightarrow> failed e m1
                    | None \<Rightarrow> (Inr (length ss), commit m1))))"

text \<open>\<open>datetime.now(utc) - timedelta(...)\<close> raises before year 1.\<close>

definition ago :: "nat \<Rightarrow> nat \<Rightarrow> string result" where
  "ago seconds_back now = (if now < seconds_back * 1000000 then Inl OverflowError
                           else Inr (isoformat (now - seconds_back * 1000000)))"

definition prune_older_than :: "metrics_io \<Rightarrow> nat \<Rightarrow> nat \<Rightarrow> metrics_store \<Rightarrow> nat result \<times> metrics_store" where
  "prune_older_than io now days m =
     (case ago (days * 86400) now of
        Inl e \<Rightarrow> (Inl e, m)
      | Inr cutoff \<Rightarrow>
          (case exec_error io of
             Some (_, e) \<Rightarrow> (if is_database_error e then Inr 0 else Inl e, m)
           | None \<Rightarrow>
               (let kept = filter (\<lambda>r. \<not> timestamp r < cutoff) (rows (visible m));
                    m1 = m\<lparr>visible := (visible m)\<lparr>rows := kept\<rparr>\<rparr>
                in case commit_error io of
                     Some e \<Rightarrow> (if is_database_error e then Inr 0 else Inl e, m1)
                   | None \<Rightarrow> (Inr (length (rows (visible m)) - length kept), commit m1))))"

text \<open>\<open>ORDER BY id DESC LIMIT ?\<close>, then reversed; the rows are kept in the order of their ids.\<close>

definition get_recent_snapshots :: "metrics_io \<Rightarrow> int \<Rightarrow> metrics_store \<Rightarrow> snapshot list result" where
  "get_recent_snapshots io limit m =
     (case query_error io of
        Some e \<Rightarrow> (if is_database_error e then Inr [] else Inl e)
      | None \<Rightarrow> Inr (rev (paginate limit 0 (rev (rows (visible m))))))"

subsection \<open>Aggregation\<close>

text \<open>\<open>ROUND(x, 2)\<close>: half away from zero.\<close>

definition sql_round2 :: "rat \<Rightarrow> rat" where
  "sql_round2 x = (if 0 \<le> x then of_int \<lfloor>x * 100 + 1 / 2\<rfloor> else - of_int \<lfloor>1 / 2 - x * 100\<rfloor>) / 100"

definition sql_avg :: "rat list \<Rightarrow> rat" where
  "sql_avg xs = sum_list xs / of_nat (length xs)"

definition sql_max :: "'a :: linorder list \<Rightarrow> 'a" where
  "sql_max xs = foldl max (hd xs) (tl xs)"

definition sql_min :: "'a :: linorder list \<Rightarrow> 'a" where
  "sql_min xs = foldl min (hd xs) (tl xs)"

definition avg2 :: "(snapshot \<Rightarrow> rat) \<Rightarrow> snapshot list \<Rightarrow> rat" where
  "avg2 f rs = sql_round2 (sql_avg (map f rs))"

definition max2 :: "(snapshot \<Rightarrow> rat) \<Rightarrow> snapshot list \<Rightarrow> rat" where
  "max2 f rs = sql_round2 (sql_max (map f rs))"

definition min2 :: "(snapshot \<Rightarrow> rat) \<Rightarrow> snapshot list \<Rightarrow> rat" where
  "min2 f rs = sql_round2 (sql_min (map f rs))"

definition aggregate :: "string \<Rightarrow> snapshot list \<Rightarrow> MetricBucketRecord" where
  "aggregate bucket rs =
     \<lparr>bucket_timestamp = bucket, avg_fps = avg2 server_fps rs, min_fps = min2 server_fps rs,
      max_fps = max2 server_fps rs, avg_frame_time_ms = avg2 server_frame_time_ms rs,
      avg_players = avg2 (\<lambda>r. of_int (active_players r)) rs,
      bucket_max_players = sql_max (map active_players rs),
      avg_cpu_pct = avg2 cpu_avg_pct rs, max_cpu_pct = max2 cpu_avg_pct rs,
      avg_ram_pct = avg2 host_ram_pct rs, max_ram_pct = max2 host_ram_pct rs,
      sample_count = length rs\<rparr>"

text \<open>The length of the common prefix, the rest of the bucket's text and the width of the window.\<close>

definition HISTORY_QUERY_1H :: "nat \<times> string" where "HISTORY_QUERY_1H = (16, '':00Z'')"
definition HISTORY_QUERY_24H :: "nat \<times> string" where "HISTORY_QUERY_24H = (15, ''0:00Z'')"
definition HISTORY_QUERY_7D :: "nat \<times> string" where "HISTORY_QUERY_7D = (13, '':00:00Z'')"
definition HISTORY_QUERY_30D :: "nat \<times> string" where "HISTORY_QUERY_30D = (10, ''T00:00:00Z'')"

definition bucket_of :: "nat \<times> string \<Rightarrow> snapshot \<Rightarrow> string" where
  "bucket_of query r = take (fst query) (timestamp r) @ snd query"

text \<open>\<open>WHERE timestamp >= ? GROUP BY bucket ORDER BY bucket ASC\<close>\<close>

definition history_rows :: "nat \<times> string \<Rightarrow> string \<Rightarrow> snapshot list \<Rightarrow> MetricBucketRecord list" where
  "history_rows query cutoff rs =
     (let ws = filter (\<lambda>r. cutoff \<le> timestamp r) rs
      in map (\<lambda>b. aggregate b (filter (\<lambda>r. bucket_of query r = b) ws)) (sort (remdups (map (bucket_of query) ws))))"

definition window_query :: "string \<Rightarrow> nat \<times> (nat \<times> string)" where
  "window_query w =
     (if w = ''1h'' then (3600, HISTORY_QUERY_1H)
      else if w = ''7d'' then (7 * 86400, HISTORY_QUERY_7D)
      else if w = ''30d'' then (30 * 86400, HISTORY_QUERY_30D)
      else (86400, HISTORY_QUERY_24H))"

definition get_history :: "metrics_io \<Rightarrow> nat \<Rightarrow> string \<Rightarrow> metrics_store \<Rightarrow> MetricBucketRecord list result" where
  "get_history io now window m =
     (let (width, query) = window_query window
      in bind_result (ago width now) (\<lambda>cutoff.
           case query_error io of
             Some e \<Rightarrow> (if is_database_error e then Inr [] else Inl e)
           | None \<Rightarrow> Inr (history_rows query cutoff (rows (visible m)))))"

definition zero_summary :: Metric30DaySummary where
  "zero_summary = \<lparr>total_samples = 0, peak_players = 0, summary_avg_players = 0, lowest_fps = 0, summary_avg_fps = 0,
     peak_cpu_pct = 0, summary_avg_cpu_pct = 0, peak_ram_pct = 0, summary_avg_ram_pct = 0,
     window_start = [], window_end = []\<rparr>"

definition summary_of :: "snapshot list \<Rightarrow> Metric30DaySummary" where
  "summary_of rs =
     (if rs = [] then zero_summary
      else \<lparr>total_samples = length rs, peak_players = sql_max (map active_players rs),
            summary_avg_players = avg2 (\<lambda>r. of_int (active_players r)) rs,
            lowest_fps = min2 server_fps rs, summary_avg_fps = avg2 server_fps rs,
            peak_cpu_pct = max2 cpu_avg_pct rs, summary_avg_cpu_pct = avg2 cpu_avg_pct rs,
            peak_ram_pct = max2 host_ram_pct rs, summary_avg_ram_pct = avg2 host_ram_pct rs,
            window_start = sql_min (map timestamp rs), window_end = sql_max (map timestamp rs)\<rparr>)"

definition get_30_day_summary :: "metrics_io \<Rightarrow> nat \<Rightarrow> metrics_store \<Rightarrow> Metric30DaySummary result" where
  "get_30_day_summary io now m =
     bind_result (ago (30 * 86400) now) (\<lambda>cutoff.
       case query_error io of
         Some e \<Rightarrow> (if is_database_error e then Inr zero_summary else Inl e)
       | None \<Rightarrow> Inr (summary_of (filter (\<lambda>r. cutoff \<le> timestamp r) (rows (visible m)))))"

subsection \<open>The buffer\<close>

record collector =
  metrics_buffer :: "snapshot list"
  metrics_db :: metrics_store

text \<open>\<open>arrived\<close> are the samples appended to the buffer while the batch is written.\<close>

definition flush_metrics_buffer :: "metrics_io \<Rightarrow> snapshot list \<Rightarrow> collector \<Rightarrow> nat result \<times> collector" where
  "flush_metrics_buffer io arrived c =
     (if metrics_buffer c = [] then (Inr 0, c\<lparr>metrics_buffer := arrived\<rparr>)
      else
        (let batch = metrics_buffer c;
             (r, m) = record_snapshots_batch io batch (metrics_db c)
         in case r of
              Inr n \<Rightarrow> (Inr n, \<lparr>metrics_buffer = arrived, metrics_db = m\<rparr>)
            | Inl e \<Rightarrow>
                if is_database_error e
                then (Inr 0, \<lparr>metrics_buffer = take 1000 batch @ arrived, metrics_db = m\<rparr>)
                else (Inl e, \<lparr>metrics_buffer = arrived, metrics_db = m\<rparr>)))"


subsection \<open>The collector\<close>

record collector_loop =
  collected :: collector
  last_flush_time :: rat
  last_prune_time :: rat

text \<open>One turn of \<open>metrics_collector_loop\<close> of \<^verbatim>\<open>app/main.py\<close>, from a complete sample on. A
  flush that raises ends the turn before the pruning.\<close>

definition metrics_collector_turn ::
  "rat \<Rightarrow> nat \<Rightarrow> metrics_io \<Rightarrow> metrics_io \<Rightarrow> snapshot \<Rightarrow> rat \<Rightarrow> nat \<Rightarrow>
     collector_loop \<Rightarrow> unit result \<times> collector_loop" where
  "metrics_collector_turn flush_interval retention_days io1 io2 s now_time now l =
     (let c1 = (collected l)\<lparr>metrics_buffer := metrics_buffer (collected l) @ [s]\<rparr>;
          flushing = (flush_interval \<le> now_time - last_flush_time l \<or> 1000 \<le> length (metrics_buffer c1));
          (r, c2) = (if flushing then flush_metrics_buffer io1 [] c1 else (Inr 0, c1))
      in case r of
           Inl e \<Rightarrow> (Inl e, l\<lparr>collected := c2\<rparr>)
         | Inr _ \<Rightarrow>
             (let l2 = l\<lparr>collected := c2, last_flush_time := (if flushing then now_time else last_flush_time l)\<rparr>
              in if 3600 \<le> now_time - last_prune_time l then
                   (case prune_older_than io2 now retention_days (metrics_db c2) of
                      (Inl e, m) \<Rightarrow> (Inl e, l2\<lparr>collected := c2\<lparr>metrics_db := m\<rparr>\<rparr>)
                    | (Inr _, m) \<Rightarrow> (Inr (), l2\<lparr>collected := c2\<lparr>metrics_db := m\<rparr>, last_prune_time := now_time\<rparr>))
                 else (Inr (), l2)))"

subsection \<open>Equations of the store\<close>

definition sample :: "snapshot \<Rightarrow> snapshot" where
  "sample r = r\<lparr>snapshot_id := None\<rparr>"

lemma timestamp_sample [simp]: "timestamp (sample r) = timestamp r"
  by (simp add: sample_def)

definition samples :: "snapshot list \<Rightarrow> snapshot multiset" where
  "samples rs = mset (map sample rs)"

lemma samples_append [simp]: "samples (xs @ ys) = samples xs + samples ys"
  by (simp add: samples_def)

lemma samples_simps [simp]: "samples [] = {#}" "samples (r # rs) = add_mset (sample r) (samples rs)"
  by (simp_all add: samples_def)

lemma insert_row_rows: "rows (insert_row t s) = rows t @ [s\<lparr>snapshot_id := Some (seq t + 1)\<rparr>]"
  by (simp add: insert_row_def table_insert_def)

lemma samples_insert_row [simp]: "samples (rows (insert_row t s)) = samples (rows t) + {#sample s#}"
  by (simp add: insert_row_rows sample_def)

lemma samples_insert_rows [simp]: "samples (rows (foldl insert_row t ss)) = samples (rows t) + samples ss"
  by (induction ss arbitrary: t) simp_all

lemma samples_filter: "samples (filter (\<lambda>r. P (timestamp r)) rs) = filter_mset (\<lambda>r. P (timestamp r)) (samples rs)"
  by (induction rs) simp_all

definition row_key :: "snapshot \<Rightarrow> int" where
  "row_key r = (case snapshot_id r of Some i \<Rightarrow> i | None \<Rightarrow> 0)"

definition store_ok :: "metrics_store \<Rightarrow> bool" where
  "store_ok m \<longleftrightarrow> table_ok row_key (visible m) \<and> table_ok row_key (durable m)"

lemma insert_row_ok: "table_ok row_key t \<Longrightarrow> table_ok row_key (insert_row t s)"
  unfolding insert_row_def by (rule table_ok_insert) (simp_all add: row_key_def)

lemma insert_rows_ok: "table_ok row_key t \<Longrightarrow> table_ok row_key (foldl insert_row t ss)"
  by (induction ss arbitrary: t) (simp_all add: insert_row_ok)

subsection \<open>Refinement of an abstract collection of samples\<close>

text \<open>What may happen to the collector: a turn of its loop with a complete sample, or the flush of
  a request or of the shutdown, during which the samples \<open>arrived\<close> come in.\<close>

datatype metrics_event =
    Turn rat nat metrics_io metrics_io snapshot rat nat
  | Flush metrics_io "snapshot list"

fun run_event :: "metrics_event \<Rightarrow> collector_loop \<Rightarrow> collector_loop" where
  "run_event (Turn flush_interval days io1 io2 s now_time now) l =
     snd (metrics_collector_turn flush_interval days io1 io2 s now_time now l)"
| "run_event (Flush io arrived) l = l\<lparr>collected := snd (flush_metrics_buffer io arrived (collected l))\<rparr>"

definition run_events :: "metrics_event list \<Rightarrow> collector_loop \<Rightarrow> collector_loop" where
  "run_events xs l = foldl (\<lambda>l x. run_event x l) l xs"

text \<open>The specification keeps every sample ever observed, those given up because a batch that could
  not be written was longer than 1000, and the latest retention cutoff.\<close>

record metrics_spec =
  observed :: "snapshot multiset"
  dropped :: "snapshot multiset"
  horizon :: string

definition overflow :: "metrics_io \<Rightarrow> collector \<Rightarrow> snapshot multiset" where
  "overflow io c =
     (case fst (record_snapshots_batch io (metrics_buffer c) (metrics_db c)) of
        Inl e \<Rightarrow> samples (drop 1000 (metrics_buffer c))
      | Inr _ \<Rightarrow> {#})"

definition spec_flush :: "metrics_io \<Rightarrow> snapshot list \<Rightarrow> collector \<Rightarrow> metrics_spec \<Rightarrow> metrics_spec" where
  "spec_flush io arrived c sp =
     sp\<lparr>observed := observed sp + samples arrived, dropped := dropped sp + overflow io c\<rparr>"

definition spec_prune :: "nat \<Rightarrow> nat \<Rightarrow> metrics_spec \<Rightarrow> metrics_spec" where
  "spec_prune now days sp =
     (case ago (days * 86400) now of
        Inl e \<Rightarrow> sp
      | Inr cutoff \<Rightarrow> sp\<lparr>horizon := max (horizon sp) cutoff\<rparr>)"

definition sampled :: "snapshot \<Rightarrow> collector \<Rightarrow> collector" where
  "sampled s c = c\<lparr>metrics_buffer := metrics_buffer c @ [s]\<rparr>"

fun spec_event :: "metrics_event \<Rightarrow> collector_loop \<Rightarrow> metrics_spec \<Rightarrow> metrics_spec" where
  "spec_event (Turn flush_interval days io1 io2 s now_time now) l sp =
     (let c1 = sampled s (collected l);
          sp1 = sp\<lparr>observed := observed sp + samples [s]\<rparr>;
          sp2 = (if flush_interval \<le> now_time - last_flush_time l \<or> 1000 \<le> length (metrics_buffer c1)
                 then spec_flush io1 [] c1 sp1 else sp1)
      in if 3600 \<le> now_time - last_prune_time l then spec_prune now days sp2 else sp2)"
| "spec_event (Flush io arrived) l sp = spec_flush io arrived (collected l) sp"

fun spec_events :: "metrics_event list \<Rightarrow> collector_loop \<Rightarrow> metrics_spec \<Rightarrow> metrics_spec" where
  "spec_events [] l sp = sp"
| "spec_events (x # xs) l sp = spec_events xs (run_event x l) (spec_event x l sp)"

definition retained :: "string \<Rightarrow> snapshot multiset \<Rightarrow> snapshot multiset" where
  "retained h M = filter_mset (\<lambda>r. \<not> timestamp r < h) M"

lemma retained_plus [simp]: "retained h (M + N) = retained h M + retained h N"
  by (simp add: retained_def)

lemma retained_add [simp]:
  "retained h (add_mset r M) = (if timestamp r < h then retained h M else add_mset r (retained h M))"
  by (simp add: retained_def)

lemma retained_mono: "h \<le> h' \<Longrightarrow> retained h M = retained h N \<Longrightarrow> retained h' M = retained h' N"
proof -
  assume h: "h \<le> h'" and eq: "retained h M = retained h N"
  have "retained h' K = retained h' (retained h K)" for K
    unfolding retained_def filter_filter_mset
    by (rule filter_mset_cong [OF refl]) (use h in auto)
  then show ?thesis
    using eq by metis
qed

text \<open>Every sample that is not older than the latest cutoff is exactly once in the buffer, in the
  store or among the dropped ones, and what the connection sees differs from what is committed by
  old rows only.\<close>

definition represents :: "collector \<Rightarrow> metrics_spec \<Rightarrow> bool" where
  "represents c sp \<longleftrightarrow>
     retained (horizon sp) (samples (metrics_buffer c) + samples (rows (visible (metrics_db c))) + dropped sp) =
       retained (horizon sp) (observed sp) \<and>
     retained (horizon sp) (samples (rows (durable (metrics_db c)))) =
       retained (horizon sp) (samples (rows (visible (metrics_db c))))"

definition database_faults :: "metrics_io \<Rightarrow> bool" where
  "database_faults io \<longleftrightarrow>
     (\<forall>k e. exec_error io = Some (k, e) \<longrightarrow> is_database_error e) \<and>
     (\<forall>e. commit_error io = Some e \<longrightarrow> is_database_error e)"

fun event_faults_ok :: "metrics_event \<Rightarrow> bool" where
  "event_faults_ok (Turn flush_interval days io1 io2 s now_time now) \<longleftrightarrow> database_faults io1"
| "event_faults_ok (Flush io arrived) \<longleftrightarrow> database_faults io"

lemma batch_cases:
  assumes "database_faults io" "ss \<noteq> []"
  obtains (stored) "record_snapshots_batch io ss m =
      (Inr (length ss), commit (m\<lparr>visible := foldl insert_row (visible m) ss\<rparr>))"
  | (failed) e where "record_snapshots_batch io ss m = (Inl e, rollback m)" "is_database_error e"
  using assms
  by (cases "exec_error io"; cases "commit_error io")
     (auto simp: record_snapshots_batch_def database_faults_def rollback_def)

lemma sample_represents:
  "represents c sp \<Longrightarrow> represents (sampled s c) (sp\<lparr>observed := observed sp + samples [s]\<rparr>)"
  by (auto simp: represents_def sampled_def ac_simps)

lemma samples_take_drop: "samples (take n b) + samples (drop n b) = samples b"
  by (simp flip: samples_append)

lemma flush_represents:
  assumes "represents c sp" "database_faults io"
  shows "represents (snd (flush_metrics_buffer io arrived c)) (spec_flush io arrived c sp)"
proof (cases "metrics_buffer c = []")
  case True
  then have "overflow io c = {#}"
    by (auto simp: overflow_def split: sum.split)
  with True show ?thesis
    using assms(1) by (auto simp: flush_metrics_buffer_def Let_def represents_def spec_flush_def ac_simps)
next
  case False
  from assms(2) False show ?thesis
  proof (cases rule: batch_cases [where m = "metrics_db c"])
    case stored
    then show ?thesis
      using assms(1) False
      by (auto simp: flush_metrics_buffer_def Let_def represents_def spec_flush_def overflow_def commit_def ac_simps)
  next
    case (failed e)
    let ?b = "metrics_buffer c"
    have "retained h (samples (take 1000 ?b)) + retained h (samples (drop 1000 ?b)) = retained h (samples ?b)" for h
      by (simp add: samples_take_drop flip: retained_plus)
    then have "retained h (samples (take 1000 ?b)) + (N + retained h (samples (drop 1000 ?b))) =
        retained h (samples ?b) + N" for h N
      by (metis add.assoc add.commute)
    with failed show ?thesis
      using assms(1) False
      by (simp add: flush_metrics_buffer_def Let_def represents_def spec_flush_def overflow_def rollback_def ac_simps)
  qed
qed

lemma prune_represents:
  assumes "represents c sp"
  shows "represents (c\<lparr>metrics_db := snd (prune_older_than io now days (metrics_db c))\<rparr>) (spec_prune now days sp)"
proof (cases "ago (days * 86400) now")
  case (Inl e)
  then show ?thesis
    using assms by (simp add: prune_older_than_def spec_prune_def)
next
  case (Inr cutoff)
  let ?h = "max (horizon sp) cutoff"
  have keep: "retained ?h (samples (filter (\<lambda>r. \<not> timestamp r < cutoff) rs)) = retained ?h (samples rs)" for rs
    unfolding samples_filter [of "\<lambda>t. \<not> t < cutoff"] retained_def filter_filter_mset
    by (rule filter_mset_cong [OF refl]) (auto simp: less_max_iff_disj)
  have "represents c (sp\<lparr>horizon := ?h\<rparr>)"
    using assms by (auto simp: represents_def simp del: retained_plus intro: retained_mono [OF max.cobounded1])
  then show ?thesis
    using Inr by (auto simp: prune_older_than_def spec_prune_def represents_def Let_def keep commit_def split: option.splits)
qed

lemma flush_returns:
  "database_faults io \<Longrightarrow> \<exists>n. fst (flush_metrics_buffer io arrived c) = Inr n"
proof (cases "metrics_buffer c = []")
  case False
  assume "database_faults io"
  from this False show ?thesis
    by (cases rule: batch_cases [where m = "metrics_db c"]) (simp_all add: flush_metrics_buffer_def Let_def)
qed (simp add: flush_metrics_buffer_def)

text \<open>A turn appends the sample, flushes when this is due and prunes when that is due.\<close>

definition flushed :: "bool \<Rightarrow> metrics_io \<Rightarrow> collector \<Rightarrow> collector" where
  "flushed due io c = (if due then snd (flush_metrics_buffer io [] c) else c)"

lemma turn_collected:
  assumes "database_faults io1"
  shows "collected (snd (metrics_collector_turn flush_interval days io1 io2 s now_time now l)) =
    (let c1 = sampled s (collected l);
         c2 = flushed (flush_interval \<le> now_time - last_flush_time l \<or> 1000 \<le> length (metrics_buffer c1)) io1 c1
     in if 3600 \<le> now_time - last_prune_time l
        then c2\<lparr>metrics_db := snd (prune_older_than io2 now days (metrics_db c2))\<rparr> else c2)"
proof -
  define c1 where "c1 = sampled s (collected l)"
  obtain n c' where "flush_metrics_buffer io1 [] c1 = (Inr n, c')"
    using flush_returns [OF assms, of "[]" c1] by (cases "flush_metrics_buffer io1 [] c1") auto
  then show ?thesis
    unfolding metrics_collector_turn_def sampled_def [symmetric] c1_def [symmetric]
    by (auto simp: Let_def flushed_def split: prod.split sum.split)
qed

lemma event_represents:
  assumes "represents (collected l) sp" "event_faults_ok x"
  shows "represents (collected (run_event x l)) (spec_event x l sp)"
proof (cases x)
  case (Turn flush_interval days io1 io2 s now_time now)
  then have "database_faults io1"
    using assms(2) by simp
  with sample_represents [OF assms(1)] show ?thesis
    by (auto simp: Turn turn_collected Let_def flushed_def intro!: flush_represents prune_represents)
next
  case (Flush io arrived)
  then show ?thesis
    using assms by (simp add: flush_represents)
qed

lemma events_represents:
  "represents (collected l) sp \<Longrightarrow> list_all event_faults_ok xs \<Longrightarrow>
     represents (collected (run_events xs l)) (spec_events xs l sp)"
proof (induction xs arbitrary: l sp)
  case (Cons x xs)
  then show ?case
    using event_represents [of l sp x] by (simp add: run_events_def)
qed (simp add: run_events_def)

definition empty_collector :: collector where
  "empty_collector = \<lparr>metrics_buffer = [], metrics_db = empty_metrics\<rparr>"

text \<open>C18. No sample is lost or duplicated, overflow accounted for. The collector starts with an empty
  buffer on a committed store and goes through any sequence of turns of its loop and of flushes by
  requests or the shutdown, whose writes may fail with database errors. Then each sample, stored before
  or observed since, that is not older than the latest cutoff a turn pruned with, is exactly once in the
  buffer, in the store, or among those dropped: the samples after the first 1000 of a batch that could
  not be written.\<close>

theorem no_sample_lost:
  assumes "list_all event_faults_ok xs"
    and "metrics_buffer (collected l) = []" "durable (metrics_db (collected l)) = visible (metrics_db (collected l))"
  shows "represents (collected (run_events xs l))
    (spec_events xs l \<lparr>observed = samples (rows (visible (metrics_db (collected l)))), dropped = {#}, horizon = []\<rparr>)"
  using assms by (intro events_represents) (simp_all add: represents_def)

subsection \<open>Retention\<close>

text \<open>Pruning works by time although it compares text: of the samples stamped by the collector's
  clock, a successful pruning keeps exactly those at most the given number of days old, in their
  order, commits this and reports how many it removed.\<close>

theorem prune_by_time:
  assumes "exec_error io = None" "commit_error io = None" "days * 86400 * 1000000 \<le> now" "now < max_time"
    and "rows (visible m) = map (\<lambda>(t, r). r\<lparr>timestamp := isoformat t\<rparr>) stamped"
    and "\<forall>(t, r) \<in> set stamped. t < max_time"
    and "prune_older_than io now days m = (res, m')"
  shows "rows (visible m') =
      map (\<lambda>(t, r). r\<lparr>timestamp := isoformat t\<rparr>) (filter (\<lambda>(t, r). now - days * 86400 * 1000000 \<le> t) stamped) \<and>
    durable m' = visible m' \<and> res = Inr (length (filter (\<lambda>(t, r). t < now - days * 86400 * 1000000) stamped))"
proof -
  define cut where "cut = now - days * 86400 * 1000000"
  have less: "isoformat t < isoformat cut \<longleftrightarrow> t < cut" if "t < max_time" for t
    using isoformat_less(1) [OF that, of cut] assms(4) by (simp add: cut_def)
  have kept: "filter (\<lambda>r. \<not> timestamp r < isoformat cut) (map (\<lambda>(t, r). r\<lparr>timestamp := isoformat t\<rparr>) st) =
      map (\<lambda>(t, r). r\<lparr>timestamp := isoformat t\<rparr>) (filter (\<lambda>(t, r). cut \<le> t) st)"
    if "\<forall>(t, r) \<in> set st. t < max_time" for st :: "(nat \<times> snapshot) list"
    using that
  proof (induction st)
    case (Cons x st)
    then show ?case
      using less [of "fst x"] by (cases x) (auto simp: not_less)
  qed simp
  have count: "length st - length (filter (\<lambda>(t, r). cut \<le> t) st) = length (filter (\<lambda>(t, r). t < cut) st)"
    for st :: "(nat \<times> snapshot) list"
    using sum_length_filter_compl [of "\<lambda>(t, r). cut \<le> t" st] by (simp add: case_prod_unfold not_le)
  have "ago (days * 86400) now = Inr (isoformat cut)"
    using assms(3) by (simp add: ago_def cut_def)
  then show ?thesis
    using assms(1,2,7) unfolding cut_def [symmetric]
    by (auto simp: prune_older_than_def Let_def commit_def assms(5) kept [OF assms(6)] count)
qed

subsection \<open>Aggregated history\<close>

lemma sum_list_partition:
  assumes "distinct bs" "\<And>r. r \<in> set rs \<Longrightarrow> f r \<in> set bs"
  shows "sum_list (map (\<lambda>b. length (filter (\<lambda>r. f r = b) rs)) bs) = length rs"
  using assms
proof (induction bs arbitrary: rs)
  case Nil
  then show ?case
    by (cases rs) auto
next
  case (Cons b bs)
  let ?rest = "filter (\<lambda>r. f r \<noteq> b) rs"
  have "sum_list (map (\<lambda>b. length (filter (\<lambda>r. f r = b) ?rest)) bs) = length ?rest"
    using Cons.prems by (intro Cons.IH) auto
  moreover have "map (\<lambda>b. length (filter (\<lambda>r. f r = b) ?rest)) bs = map (\<lambda>b. length (filter (\<lambda>r. f r = b) rs)) bs"
    using Cons.prems(1) by (auto intro!: map_cong arg_cong [where f = length] filter_cong)
  ultimately have "sum_list (map (\<lambda>b. length (filter (\<lambda>r. f r = b) rs)) bs) = length ?rest"
    by (simp only:)
  then show ?case
    using sum_length_filter_compl [of "\<lambda>r. f r = b" rs] by simp
qed

lemma sql_max_Max: "(xs :: 'a :: linorder list) \<noteq> [] \<Longrightarrow> sql_max xs = Max (set xs)"
proof -
  assume "xs \<noteq> []"
  then obtain y ys where xs: "xs = y # ys"
    by (cases xs) auto
  have "(\<lambda>x s. max s x) = (max :: 'a \<Rightarrow> 'a \<Rightarrow> 'a)"
    by (simp add: fun_eq_iff max.commute)
  then show ?thesis
    unfolding xs by (simp only: sql_max_def foldl_conv_fold Max.set_eq_fold list.sel)
qed

lemma sql_min_Min: "(xs :: 'a :: linorder list) \<noteq> [] \<Longrightarrow> sql_min xs = Min (set xs)"
proof -
  assume "xs \<noteq> []"
  then obtain y ys where xs: "xs = y # ys"
    by (cases xs) auto
  have "(\<lambda>x s. min s x) = (min :: 'a \<Rightarrow> 'a \<Rightarrow> 'a)"
    by (simp add: fun_eq_iff min.commute)
  then show ?thesis
    unfolding xs by (simp only: sql_min_def foldl_conv_fold Min.set_eq_fold list.sel)
qed

lemma sql_avg_bounds:
  assumes "xs \<noteq> []"
  shows "sql_min xs \<le> sql_avg xs \<and> sql_avg xs \<le> sql_max xs"
proof -
  have "of_nat (length ys) * Min (set xs) \<le> sum_list ys \<and> sum_list ys \<le> of_nat (length ys) * Max (set xs)"
    if "set ys \<subseteq> set xs" for ys
    using that
  proof (induction ys)
    case (Cons y ys)
    have "Min (set xs) \<le> y" "y \<le> Max (set xs)"
      using Cons.prems by simp_all
    then show ?case
      using Cons by (auto simp: algebra_simps intro!: add_mono)
  qed simp
  from this [of xs] show ?thesis
    using assms by (simp add: sql_avg_def sql_max_Max sql_min_Min field_simps)
qed

lemma sql_round2_mono: "x \<le> y \<Longrightarrow> sql_round2 x \<le> sql_round2 y"
proof -
  assume xy: "x \<le> y"
  have signs: "- rat_of_int a \<le> rat_of_int b" if "0 \<le> a" "0 \<le> b" for a b
    by (rule order_trans [of _ 0]) (simp_all add: that)
  consider "0 \<le> x" "0 \<le> y" | "x < 0" "0 \<le> y" | "x < 0" "y < 0"
    using xy by linarith
  then show ?thesis
  proof cases
    case 1
    then show ?thesis
      using xy by (simp add: sql_round2_def divide_right_mono floor_mono)
  next
    case 2
    then show ?thesis
      by (simp add: sql_round2_def divide_right_mono signs)
  next
    case 3
    then show ?thesis
      using xy by (simp add: sql_round2_def floor_mono)
  qed
qed

lemma avg2_bounds:
  "rs \<noteq> [] \<Longrightarrow> min2 f rs \<le> avg2 f rs \<and> avg2 f rs \<le> max2 f rs"
  using sql_avg_bounds [of "map f rs"] by (simp add: min2_def avg2_def max2_def sql_round2_mono)

lemma strict_sort_remdups: "sorted_wrt (<) (sort (remdups (xs :: 'a :: linorder list)))"
  by (simp add: strict_sorted_iff)

lemma history_rows_correct:
  assumes "get_history io now window m = Inr bs" "query_error io = None"
    and "ago (fst (window_query window)) now = Inr cutoff"
  shows "sorted_wrt (<) (map bucket_timestamp bs) \<and>
    sum_list (map sample_count bs) = length (filter (\<lambda>r. cutoff \<le> timestamp r) (rows (visible m))) \<and>
    (\<forall>b \<in> set bs. 1 \<le> sample_count b \<and> min_fps b \<le> avg_fps b \<and> avg_fps b \<le> max_fps b \<and>
       avg_cpu_pct b \<le> max_cpu_pct b \<and> avg_ram_pct b \<le> max_ram_pct b)"
proof -
  obtain query where q: "snd (window_query window) = query" by blast
  define ws where "ws = filter (\<lambda>r. cutoff \<le> timestamp r) (rows (visible m))"
  define keys where "keys = sort (remdups (map (bucket_of query) ws))"
  have bs: "bs = map (\<lambda>b. aggregate b (filter (\<lambda>r. bucket_of query r = b) ws)) keys"
    using assms q by (simp add: get_history_def split_beta history_rows_def Let_def ws_def keys_def)
  have "map bucket_timestamp bs = keys"
    unfolding bs by (simp add: aggregate_def comp_def)
  moreover have "map sample_count bs = map (\<lambda>b. length (filter (\<lambda>r. bucket_of query r = b) ws)) keys"
    unfolding bs by (simp add: aggregate_def comp_def)
  moreover have "sum_list (map (\<lambda>b. length (filter (\<lambda>r. bucket_of query r = b) ws)) keys) = length ws"
    by (rule sum_list_partition) (auto simp: keys_def)
  moreover have "1 \<le> sample_count b \<and> min_fps b \<le> avg_fps b \<and> avg_fps b \<le> max_fps b \<and>
       avg_cpu_pct b \<le> max_cpu_pct b \<and> avg_ram_pct b \<le> max_ram_pct b" if "b \<in> set bs" for b
  proof -
    obtain k where k: "k \<in> set keys" "b = aggregate k (filter (\<lambda>r. bucket_of query r = k) ws)"
      using \<open>b \<in> set bs\<close> unfolding bs set_map by blast
    define rs where "rs = filter (\<lambda>r. bucket_of query r = k) ws"
    have "rs \<noteq> []"
      using k(1) by (auto simp: rs_def keys_def filter_empty_conv)
    then show ?thesis
      using avg2_bounds [of rs] k(2) by (simp add: aggregate_def rs_def [symmetric] Suc_le_eq)
  qed
  ultimately show ?thesis
    using strict_sort_remdups by (auto simp: keys_def ws_def)
qed

text \<open>The history of a window consists of non-empty buckets in increasing order whose counts add
  up to the number of stored samples since the start of the window, and in each bucket the
  averages lie between the extremes, also after rounding.\<close>

theorem history_partition:
  assumes "get_history io now window m = Inr bs" "query_error io = None"
    and "ago (fst (window_query window)) now = Inr cutoff"
  shows "sorted_wrt (<) (map bucket_timestamp bs) \<and>
    sum_list (map sample_count bs) = length (filter (\<lambda>r. cutoff \<le> timestamp r) (rows (visible m))) \<and>
    (\<forall>b \<in> set bs. 1 \<le> sample_count b \<and> min_fps b \<le> avg_fps b \<and> avg_fps b \<le> max_fps b \<and>
       avg_cpu_pct b \<le> max_cpu_pct b \<and> avg_ram_pct b \<le> max_ram_pct b)"
  by (rule history_rows_correct [OF assms])

subsection \<open>The collector's buffer\<close>

lemma flush_buffer_length: "length (metrics_buffer (snd (flush_metrics_buffer io arrived c))) \<le> 1000 + length arrived"
  by (auto simp: flush_metrics_buffer_def Let_def split: prod.split sum.split)

text \<open>The buffer never holds more than 1000 samples after a turn of the collector.\<close>

theorem collector_buffer_bounded:
  assumes "metrics_collector_turn flush_interval days io1 io2 s now_time now l = (r, l')"
    and "length (metrics_buffer (collected l)) \<le> 1000"
  shows "length (metrics_buffer (collected l')) \<le> 1000"
proof -
  define c1 where "c1 = (collected l)\<lparr>metrics_buffer := metrics_buffer (collected l) @ [s]\<rparr>"
  define c2 where "c2 = snd (if flush_interval \<le> now_time - last_flush_time l \<or> 1000 \<le> length (metrics_buffer c1)
      then flush_metrics_buffer io1 [] c1 else (Inr 0, c1))"
  have "length (metrics_buffer c2) \<le> 1000"
    using flush_buffer_length [of io1 "[]" c1] by (auto simp: c2_def)
  moreover have "metrics_buffer (collected l') = metrics_buffer c2"
    using assms(1) unfolding metrics_collector_turn_def c1_def [symmetric] Let_def c2_def
    by (auto split: prod.splits sum.splits if_splits)
  ultimately show ?thesis
    by simp
qed

text \<open>The bound is kept by dropping samples: while the store keeps failing and the buffer is full,
  each turn discards the newest sample without an error.\<close>

theorem full_buffer_drops_newest:
  assumes "length (metrics_buffer (collected l)) = 1000"
    and "exec_error io1 = Some (k, OperationalError)" "now_time - last_prune_time l < 3600"
    and "durable (metrics_db (collected l)) = visible (metrics_db (collected l))"
  shows "metrics_collector_turn flush_interval days io1 io2 s now_time now l =
    (Inr (), l\<lparr>last_flush_time := now_time\<rparr>)"
proof -
  have "metrics_buffer (collected l) \<noteq> []"
    using assms(1) by auto
  then show ?thesis
    using assms
    by (simp add: metrics_collector_turn_def flush_metrics_buffer_def record_snapshots_batch_def rollback_def
        is_database_error_def Let_def)
qed

subsection \<open>Row ids\<close>

lemma batch_store_ok: "store_ok m \<Longrightarrow> store_ok (snd (record_snapshots_batch io ss m))"
  by (auto simp: record_snapshots_batch_def store_ok_def insert_rows_ok commit_def rollback_def Let_def split: option.split)

lemma record_snapshot_store_ok: "store_ok m \<Longrightarrow> store_ok (snd (record_snapshot io s m))"
  by (auto simp: record_snapshot_def store_ok_def insert_row_ok commit_def Let_def split: option.split)

lemma prune_store_ok: "store_ok m \<Longrightarrow> store_ok (snd (prune_older_than io now days m))"
  by (auto simp: prune_older_than_def store_ok_def commit_def Let_def intro: table_ok_filter split: option.split sum.split)

text \<open>The recent snapshots are the latest stored rows in the order of their insertion.\<close>

theorem recent_snapshots_are_latest:
  assumes "0 \<le> limit" "query_error io = None" "store_ok m"
  shows "\<exists>rs. get_recent_snapshots io limit m = Inr rs \<and>
    rs = drop (length (rows (visible m)) - nat limit) (rows (visible m)) \<and> sorted_wrt (<) (map row_key rs)"
proof -
  have "sorted_wrt (<) (map row_key (drop n (rows (visible m))))" for n
    using assms(3) by (simp add: store_ok_def table_ok_def sorted_wrt_drop flip: drop_map)
  then show ?thesis
    using assms(1,2) by (simp add: get_recent_snapshots_def paginate_def take_rev)
qed

subsection \<open>Witnesses\<close>

definition demo_snapshot :: "rat \<Rightarrow> snapshot" where
  "demo_snapshot fps =
     \<lparr>snapshot_id = None, timestamp = ''2026-01-02T03:04:05+00:00'', server_fps = fps, server_frame_time_ms = 16,
      uptime_seconds = 60, active_players = 2, max_players = 32, cpu_avg_pct = 10, host_ram_used_gb = 4,
      host_ram_total_gb = 16, host_ram_pct = 25, cgroup_ram_used_gb = 4, cgroup_ram_pct = 29, disk_used_gb = 50,
      disk_pct = 10, net_rx_rate_kbps = 1, net_tx_rate_kbps = 1\<rparr>"

definition metrics_ok_io :: metrics_io where
  "metrics_ok_io = \<lparr>exec_error = None, commit_error = None, query_error = None\<rparr>"

definition metrics_locked_io :: metrics_io where
  "metrics_locked_io = \<lparr>exec_error = Some (1, OperationalError), commit_error = None, query_error = None\<rparr>"

lemma io_sel [simp]:
  "exec_error metrics_ok_io = None" "commit_error metrics_ok_io = None" "query_error metrics_ok_io = None"
  "exec_error metrics_locked_io = Some (1, OperationalError)" "commit_error metrics_locked_io = None"
  by (simp_all add: metrics_ok_io_def metrics_locked_io_def)

definition demo_events :: "metrics_event list" where
  "demo_events =
     [Turn 300 30 metrics_ok_io metrics_ok_io (demo_snapshot 60) 400 0,
      Turn 300 30 metrics_ok_io metrics_ok_io (demo_snapshot 58) 500 0,
      Flush metrics_locked_io [demo_snapshot 57]]"

definition demo_loop :: collector_loop where
  "demo_loop = \<lparr>collected = empty_collector, last_flush_time = 0, last_prune_time = 0\<rparr>"

lemma no_sample_lost_witness:
  "represents (collected (run_events demo_events demo_loop))
     (spec_events demo_events demo_loop \<lparr>observed = {#}, dropped = {#}, horizon = []\<rparr>) \<and>
   metrics_buffer (collected (run_events demo_events demo_loop)) = [demo_snapshot 58, demo_snapshot 57]"
proof -
  have "list_all event_faults_ok demo_events"
    by (simp add: demo_events_def database_faults_def is_database_error_def)
  moreover have "metrics_buffer (collected (run_events demo_events demo_loop)) = [demo_snapshot 58, demo_snapshot 57]"
    by (simp add: demo_events_def demo_loop_def run_events_def metrics_collector_turn_def empty_collector_def
        flush_metrics_buffer_def record_snapshots_batch_def Let_def is_database_error_def empty_metrics_def)
  ultimately show ?thesis
    using no_sample_lost [of demo_events demo_loop]
    by (simp add: demo_loop_def empty_collector_def empty_metrics_def empty_table_def)
qed

lemma prune_by_time_witness:
  "rows (visible (snd (prune_older_than metrics_ok_io 4000000000000 30
     \<lparr>durable = empty_table, visible = \<lparr>rows = [(demo_snapshot 1)\<lparr>timestamp := isoformat 9\<rparr>,
       (demo_snapshot 2)\<lparr>timestamp := isoformat 3000000000000\<rparr>], seq = 2\<rparr>\<rparr>))) =
   [(demo_snapshot 2)\<lparr>timestamp := isoformat 3000000000000\<rparr>]"
  using prune_by_time [of metrics_ok_io 30 4000000000000
      "\<lparr>durable = empty_table, visible = \<lparr>rows = [(demo_snapshot 1)\<lparr>timestamp := isoformat 9\<rparr>,
         (demo_snapshot 2)\<lparr>timestamp := isoformat 3000000000000\<rparr>], seq = 2\<rparr>\<rparr>"
      "[(9, demo_snapshot 1), (3000000000000, demo_snapshot 2)]", OF _ _ _ _ _ _ prod.collapse [symmetric]]
  by (simp add: max_time_def)

lemma full_buffer_drops_newest_witness:
  "metrics_collector_turn 300 30 metrics_locked_io metrics_ok_io (demo_snapshot 61) 400 0
     \<lparr>collected = \<lparr>metrics_buffer = replicate 1000 (demo_snapshot 60), metrics_db = empty_metrics\<rparr>,
      last_flush_time = 0, last_prune_time = 0\<rparr> =
   (Inr (), \<lparr>collected = \<lparr>metrics_buffer = replicate 1000 (demo_snapshot 60), metrics_db = empty_metrics\<rparr>,
      last_flush_time = 400, last_prune_time = 0\<rparr>)"
  by (subst full_buffer_drops_newest) (simp_all add: empty_metrics_def)

lemma collector_buffer_bounded_witness:
  "length (metrics_buffer (collected (snd (metrics_collector_turn 300 30 metrics_ok_io metrics_ok_io (demo_snapshot 61) 400 0
     \<lparr>collected = empty_collector, last_flush_time = 0, last_prune_time = 0\<rparr>)))) \<le> 1000"
  by (rule collector_buffer_bounded [OF prod.collapse [symmetric]]) (simp add: empty_collector_def)

definition demo_store :: metrics_store where
  "demo_store = \<lparr>durable = empty_table, visible = \<lparr>rows = [(demo_snapshot 60)\<lparr>snapshot_id := Some 1\<rparr>,
     (demo_snapshot 50)\<lparr>snapshot_id := Some 2\<rparr>], seq = 2\<rparr>\<rparr>"

lemma recent_snapshots_are_latest_witness:
  "get_recent_snapshots metrics_ok_io 1 demo_store = Inr [(demo_snapshot 50)\<lparr>snapshot_id := Some 2\<rparr>]"
proof -
  have "store_ok demo_store"
    by (simp add: store_ok_def demo_store_def table_ok_def empty_table_def row_key_def)
  then show ?thesis
    using recent_snapshots_are_latest [of 1 metrics_ok_io demo_store] by (simp add: demo_store_def)
qed

lemma history_partition_witness:
  "\<exists>bs. get_history metrics_ok_io 86400000000 ''24h''
       \<lparr>durable = empty_table, visible = \<lparr>rows = [(demo_snapshot 60)\<lparr>timestamp := isoformat 5\<rparr>], seq = 1\<rparr>\<rparr> = Inr bs \<and>
     sum_list (map sample_count bs) = 1"
proof -
  let ?m = "\<lparr>durable = empty_table, visible = \<lparr>rows = [(demo_snapshot 60)\<lparr>timestamp := isoformat 5\<rparr>], seq = 1\<rparr>\<rparr>"
  have a: "ago (fst (window_query ''24h'')) 86400000000 = Inr (isoformat 0)"
    by (simp add: window_query_def ago_def)
  then obtain bs where bs: "get_history metrics_ok_io 86400000000 ''24h'' ?m = Inr bs"
    by (simp add: get_history_def split_beta)
  have "isoformat 0 \<le> isoformat 5"
    using isoformat_less(1) [of 5 0] by (simp add: max_time_def flip: not_less)
  then have "sum_list (map sample_count bs) = 1"
    using history_partition [OF bs _ a] by simp
  then show ?thesis
    using bs by blast
qed

end
