(* ===== verification/Py_Text.thy ===== *)
theory Py_Text
  imports Py_Numeric
begin

section \<open>Text methods of the later components\<close>

text \<open>
  String methods and conversions that only some components call: \<open>splitlines\<close>, \<open>lower\<close>,
  \<open>in\<close>, \<open>removesuffix\<close>, \<open>urllib.parse.urlparse\<close> up to the path, and \<open>float\<close> for every text.
  As everywhere, a character is a code point up to 255.
\<close>

subsection \<open>Lines\<close>

definition line_end :: "char \<Rightarrow> bool" where
  "line_end c \<longleftrightarrow> ord c \<in> {10, 11, 12, 13, 28, 29, 30, 133}"

text \<open>What follows a line end; a carriage return and a line feed are one.\<close>

fun after_line_end :: "string \<Rightarrow> string" where
  "after_line_end (c # d # s) = (if c = CHR 0x0D \<and> d = CHR 0x0A then s else d # s)"
| "after_line_end s = []"

lemma length_after_line_end: "s \<noteq> [] \<Longrightarrow> length (after_line_end s) < length s"
  by (induction s rule: after_line_end.induct) auto

function splitlines :: "string \<Rightarrow> string list" where
  "splitlines s =
     (if s = [] then []
      else takeWhile (\<lambda>c. \<not> line_end c) s #
        (let r = dropWhile (\<lambda>c. \<not> line_end c) s in if r = [] then [] else splitlines (after_line_end r)))"
  by pat_completeness auto
termination
proof (relation "measure length")
  fix s r assume "s \<noteq> []" "r = dropWhile (\<lambda>c. \<not> line_end c) (s :: string)" "r \<noteq> []"
  moreover have "length (dropWhile (\<lambda>c. \<not> line_end c) s) \<le> length s"
    by (rule length_dropWhile_le)
  ultimately show "(after_line_end r, s) \<in> measure length"
    using length_after_line_end [of r] by simp
qed simp

declare splitlines.simps [simp del]

lemma splitlines_Nil [simp]: "splitlines [] = []"
  by (simp add: splitlines.simps)

lemma splitlines_no_end: "list_all (\<lambda>c. \<not> line_end c) s \<Longrightarrow> s \<noteq> [] \<Longrightarrow> splitlines s = [s]"
  by (subst splitlines.simps) (simp add: list_all_iff takeWhile_eq_all_conv)

lemma splitlines_line:
  assumes "list_all (\<lambda>c. \<not> line_end c) l"
  shows "splitlines (l @ CHR 0x0A # s) = l # splitlines s"
proof -
  have e: "line_end (CHR 0x0A)"
    by (simp add: line_end_def ord_def)
  have "takeWhile (\<lambda>c. \<not> line_end c) (l @ CHR 0x0A # s) = l"
    "dropWhile (\<lambda>c. \<not> line_end c) (l @ CHR 0x0A # s) = CHR 0x0A # s"
    using assms e by (auto simp: list_all_iff)
  moreover have "after_line_end (CHR 0x0A # s) = s"
    by (cases s) auto
  ultimately show ?thesis
    by (subst splitlines.simps) simp
qed

subsection \<open>Case, containment, suffixes\<close>

definition lower_char :: "char \<Rightarrow> char" where
  "lower_char c = (if (65 \<le> ord c \<and> ord c \<le> 90) \<or> (192 \<le> ord c \<and> ord c \<le> 222 \<and> ord c \<noteq> 215)
                   then char_of (ord c + 32) else c)"

definition lower :: "string \<Rightarrow> string" where
  "lower s = map lower_char s"

text \<open>\<open>p in s\<close>\<close>

definition contains :: "string \<Rightarrow> string \<Rightarrow> bool" where
  "contains p s \<longleftrightarrow> after_first p s \<noteq> None"

definition removesuffix :: "string \<Rightarrow> string \<Rightarrow> string" where
  "removesuffix s p = (if p \<noteq> [] \<and> endswith s p then take (length s - length p) s else s)"

subsection \<open>Floats\<close>

text \<open>\<open>float(s)\<close>: also texts without a dot, infinities and NaN.\<close>

definition py_float_any :: "string \<Rightarrow> pyfloat option" where
  "py_float_any s =
     (if CHR ''.'' \<in> set s then py_float s
      else
        (let (neg, body) = split_sign (strip s)
         in if lower body \<in> {''inf'', ''infinity''} then Some (PyInf neg)
            else if lower body = ''nan'' then Some PyNan
            else py_float ((if neg then ''-'' else []) @ takeWhile (\<lambda>c. \<not> is_exp_char c) body @ ''.'' @
                   dropWhile (\<lambda>c. \<not> is_exp_char c) body)))"

subsection \<open>Web addresses\<close>

definition scheme_char :: "char \<Rightarrow> bool" where
  "scheme_char c \<longleftrightarrow> is_ascii_alpha c \<or> is_digit c \<or> c \<in> set ''+-.''"

definition split_scheme :: "string \<Rightarrow> string \<times> string" where
  "split_scheme url =
     (let pre = takeWhile (\<lambda>c. c \<noteq> CHR '':'') url
      in if CHR '':'' \<in> set url \<and> pre \<noteq> [] \<and> is_ascii_alpha (hd pre) \<and> list_all scheme_char pre
         then (lower pre, drop (Suc (length pre)) url) else ([], url))"

definition uses_params :: "string list" where
  "uses_params = [[], ''ftp'', ''hdl'', ''prospero'', ''http'', ''https'', ''shttp'', ''rtsp'', ''rtsps'', ''sip'',
     ''sips'', ''mms'', ''sftp'', ''tel'']"

definition cut_at :: "char \<Rightarrow> string \<Rightarrow> string" where
  "cut_at c s = takeWhile (\<lambda>d. d \<noteq> c) s"

text \<open>The parameters of the last segment.\<close>

definition cut_params :: "string \<Rightarrow> string" where
  "cut_params url =
     (let seg = rev (takeWhile (\<lambda>c. c \<noteq> CHR ''/'') (rev url))
      in take (length url - length seg) url @ cut_at (CHR '';'') seg)"

text \<open>\<open>urlparse(url).path\<close>. A bracketed host is only checked for matching brackets.\<close>

definition url_path :: "string \<Rightarrow> string result" where
  "url_path raw =
     (let url = filter (\<lambda>c. c \<notin> {CHR 0x09, CHR 0x0A, CHR 0x0D}) (dropWhile (\<lambda>c. ord c \<le> 32) raw);
          (scheme, rest) = split_scheme url;
          authority = startswith rest ''//'';
          netloc = (if authority then takeWhile (\<lambda>c. c \<notin> set ''/?#'') (drop 2 rest) else []);
          tail_part = (if authority then dropWhile (\<lambda>c. c \<notin> set ''/?#'') (drop 2 rest) else rest)
      in if (CHR ''['' \<in> set netloc) \<noteq> (CHR '']'' \<in> set netloc) then Inl ValueError
         else (let path = cut_at (CHR ''?'') (cut_at (CHR ''#'') tail_part)
               in Inr (if scheme \<in> set uses_params then cut_params path else path)))"

end
