(* ===== verification/Operations_Api.thy ===== *)
theory Operations_Api
  imports Access_Control Engine_Lifecycle Metrics_Db Py_Text
begin

section \<open>The operations endpoints\<close>

text \<open>
  The handlers of \<^verbatim>\<open>app/routers/settings.py\<close>, \<^verbatim>\<open>players.py\<close>, \<^verbatim>\<open>telemetry.py\<close>,
  \<^verbatim>\<open>feedback.py\<close> and the lifecycle half of \<^verbatim>\<open>system.py\<close>, over one state: the account
  store that decides who may call, the game engine, the metrics collector and the queue of
  background tasks. Bodies arrive as the request models of \<^verbatim>\<open>app/api/schemas.py\<close>, whose
  constraints are the \<open>valid_\<close> predicates.
\<close>

subsection \<open>State and environment\<close>

record ops_state =
  accounts_db :: db
  game :: engine
  metrics :: collector
  reboot_tasks :: "reboot_request list"
  issue_tasks :: "(string \<times> string \<times> string \<times> int) list"

record ops_env =
  who :: auth_env
  machine :: engine_env
  coerce_fn :: coercion
  read_fault1 :: "py_error option"
  read_fault2 :: "py_error option"
  info_reply :: http_outcome
  command_reply :: http_outcome
  metrics_faults :: metrics_io
  arrivals :: "snapshot list"
  utc_now :: nat
  retention_days :: nat
  error_text :: "py_error \<Rightarrow> string"

definition guarded ::
  "UserRecord result \<Rightarrow> ops_state \<Rightarrow> (UserRecord \<Rightarrow> 'a result \<times> ops_state) \<Rightarrow> 'a result \<times> ops_state" where
  "guarded check s body = (case check of Inl e \<Rightarrow> (Inl e, s) | Inr u \<Rightarrow> body u)"

definition needs :: "string \<Rightarrow> ops_env \<Rightarrow> http_request \<Rightarrow> ops_state \<Rightarrow> UserRecord result" where
  "needs perm env req s = require_permission perm (who env) (accounts_db s) req"

definition needs_admin :: "ops_env \<Rightarrow> http_request \<Rightarrow> ops_state \<Rightarrow> UserRecord result" where
  "needs_admin env req s = require_admin (who env) (accounts_db s) req"

subsection \<open>Settings\<close>

definition fallback_ini :: "engine_env \<Rightarrow> path" where
  "fallback_ini m = (home m @ ''/.palmanager'', ''PalWorldSettings.ini'')"

definition write_ini_file_with_fallback :: "engine_env \<Rightarrow> string \<Rightarrow> engine \<Rightarrow> unit result \<times> engine" where
  "write_ini_file_with_fallback m text s =
     (case atomic_write_ini (io_of m (ini_path m)) (ini_path m) text 5 True True (disk_world s) of
        (Inr _, w) \<Rightarrow> (Inr (), s\<lparr>disk_world := w\<rparr>)
      | (Inl e, w) \<Rightarrow>
          if is_os_error e then
            (case atomic_write_ini (io_of m (fallback_ini m)) (fallback_ini m) text 5 True True w of
               (Inr _, w2) \<Rightarrow> (Inr (), s\<lparr>disk_world := w2\<rparr>)
             | (Inl e2, w2) \<Rightarrow> (Inl e2, s\<lparr>disk_world := w2\<rparr>))
          else (Inl e, s\<lparr>disk_world := w\<rparr>))"

definition stage_settings_for_reboot :: "engine_env \<Rightarrow> string \<Rightarrow> engine \<Rightarrow> engine" where
  "stage_settings_for_reboot m text s = foldl (write_staged m False text) s (staged_candidates m)"

text \<open>The \<open>except\<close> clauses of the two handlers.\<close>

definition settings_fault :: "ops_env \<Rightarrow> py_error \<Rightarrow> py_error" where
  "settings_fault env e =
     (case e of
        RuntimeError _ \<Rightarrow> HTTPException 500 (''Runtime error: '' @ error_text env e)
      | PermissionError \<Rightarrow> HTTPException 500 (''Permission denied: '' @ error_text env e)
      | _ \<Rightarrow> if is_value_error e then HTTPException 500 (''Validation error: '' @ error_text env e)
             else if is_os_error e then HTTPException 500 (''OS error: '' @ error_text env e)
             else e)"

definition view_fault :: "ops_env \<Rightarrow> py_error \<Rightarrow> py_error" where
  "view_fault env e =
     (case e of
        RuntimeError _ \<Rightarrow> HTTPException 500 (error_text env e)
      | KeyError \<Rightarrow> HTTPException 500 (error_text env e)
      | _ \<Rightarrow> if is_value_error e \<or> is_os_error e then HTTPException 500 (error_text env e) else e)"

definition get_settings_data :: "ops_env \<Rightarrow> ops_state \<Rightarrow> settings result" where
  "get_settings_data env s =
     (case get_public_view (read_fault1 env) (disk_world (game s)) (ini_path (machine env)) of
        Inl e \<Rightarrow> Inl (view_fault env e)
      | Inr view \<Rightarrow> Inr view)"

text \<open>Saving the merged text and, when the server runs, staging it for the next reboot.\<close>

definition persist_settings :: "ops_env \<Rightarrow> settings \<Rightarrow> engine \<Rightarrow> string result \<times> engine" where
  "persist_settings env incoming g =
     (case merge_and_serialize (read_fault1 env) (read_fault2 env) (disk_world g) (ini_path (machine env)) incoming of
        Inl e \<Rightarrow> (Inl e, g)
      | Inr text \<Rightarrow>
          (case write_ini_file_with_fallback (machine env) text g of
             (Inl e, g1) \<Rightarrow> (Inl e, g1)
           | (Inr _, g1) \<Rightarrow> (Inr text, g1)))"

definition stage_everywhere :: "engine_env \<Rightarrow> string \<Rightarrow> engine \<Rightarrow> engine" where
  "stage_everywhere m text g = stage_settings_for_reboot m text (stage_settings text g)"

definition save_sanitized_settings ::
  "ops_env \<Rightarrow> http_request \<Rightarrow> settings \<Rightarrow> ops_state \<Rightarrow> bool result \<times> ops_state" where
  "save_sanitized_settings env req payload s =
     guarded (needs ''server:settings'' env req s) s (\<lambda>_.
       case dump_settings (coerce_fn env) payload of
         Inl _ \<Rightarrow> (Inl (HTTPException 422 ''Unprocessable Entity''), s)
       | Inr sanitized \<Rightarrow>
           (case persist_settings env sanitized (game s) of
              (Inl e, g) \<Rightarrow> (Inl (settings_fault env e), s\<lparr>game := g\<rparr>)
            | (Inr text, g) \<Rightarrow>
                (case check_readiness (server_name (machine env)) (rest_port (machine env)) (info_reply env) of
                   Inl e \<Rightarrow> (Inl (settings_fault env e), s\<lparr>game := g\<rparr>)
                 | Inr info \<Rightarrow>
                     if ready info
                     then (Inr True, s\<lparr>game := stage_everywhere (machine env) text g\<rparr>)
                     else (Inr False, s\<lparr>game := g\<rparr>))))"

subsection \<open>Players\<close>

definition valid_player_action :: "string \<Rightarrow> string \<Rightarrow> bool" where
  "valid_player_action player_id message \<longleftrightarrow>
     1 \<le> length player_id \<and> length player_id \<le> 64 \<and> length message \<le> 128"

definition valid_player_warn :: "string \<Rightarrow> bool" where
  "valid_player_warn message \<longleftrightarrow> 1 \<le> length message \<and> length message \<le> 256"

definition or_text :: "string \<Rightarrow> string \<Rightarrow> string" where
  "or_text a b = (if a \<noteq> [] then a else b)"

definition handle_kick ::
  "ops_env \<Rightarrow> http_request \<Rightarrow> string \<Rightarrow> string \<Rightarrow> ops_state \<Rightarrow> string result \<times> ops_state" where
  "handle_kick env req player_id message s =
     guarded (needs ''player:kick'' env req s) s (\<lambda>_.
       let (ok, g) = kick_player (command_reply env) player_id (or_text message ''Kicked by administrator'') (game s)
       in (if ok then Inr (''Player '' @ player_id @ '' disconnected.'')
           else Inl (HTTPException 500 ''Failed to kick player via REST API.''), s\<lparr>game := g\<rparr>))"

definition handle_ban ::
  "ops_env \<Rightarrow> http_request \<Rightarrow> string \<Rightarrow> string \<Rightarrow> ops_state \<Rightarrow> string result \<times> ops_state" where
  "handle_ban env req player_id message s =
     guarded (needs ''player:ban'' env req s) s (\<lambda>_.
       let (ok, g) = ban_player (command_reply env) player_id (or_text message ''Banned by administrator'') (game s)
       in (if ok then Inr (''Player '' @ player_id @ '' banned.'')
           else Inl (HTTPException 500 ''Failed to ban player via REST API.''), s\<lparr>game := g\<rparr>))"

definition handle_warn :: "ops_env \<Rightarrow> http_request \<Rightarrow> string \<Rightarrow> ops_state \<Rightarrow> unit result \<times> ops_state" where
  "handle_warn env req message s =
     guarded (needs ''player:broadcast'' env req s) s (\<lambda>_.
       let (ok, g) = send_broadcast (machine env) (''[ADMIN NOTICE] '' @ message) True (game s)
       in (if ok then Inr () else Inl (HTTPException 500 ''Failed to broadcast message.''), s\<lparr>game := g\<rparr>))"

subsection \<open>Reboot and shutdown\<close>

record RebootRequest =
  reboot_countdown :: int
  trigger_steam_update :: bool
  reboot_version_tag :: string
  reboot_message :: string
  reboot_settings :: "settings option"

definition valid_reboot :: "RebootRequest \<Rightarrow> bool" where
  "valid_reboot p \<longleftrightarrow>
     0 \<le> reboot_countdown p \<and> reboot_countdown p \<le> 3600 \<and>
     length (reboot_version_tag p) \<le> 64 \<and> length (reboot_message p) \<le> 256"

definition engine_request :: "RebootRequest \<Rightarrow> reboot_request" where
  "engine_request p = \<lparr>countdown_seconds = reboot_countdown p, trigger_update = trigger_steam_update p,
     update_version_tag = reboot_version_tag p, custom_message = reboot_message p\<rparr>"

definition reboot_reply :: "RebootRequest \<Rightarrow> string" where
  "reboot_reply p =
     (if reboot_countdown p = 0 then ''Immediate server restart''
      else ''Countdown sequence ('' @ int_str (reboot_countdown p) @ ''s)'') @
     (if trigger_steam_update p then '' with SteamCMD update'' else []) @ '' initiated.''"

definition trigger_reboot :: "ops_env \<Rightarrow> http_request \<Rightarrow> RebootRequest \<Rightarrow> ops_state \<Rightarrow> string result \<times> ops_state" where
  "trigger_reboot env req p s =
     guarded (needs ''server:reboot'' env req s) s (\<lambda>_.
       if lock_mtime (game s) \<noteq> None
       then (Inl (HTTPException 409 ''Reboot sequence already in progress.''), s)
       else
         (let saved = (case reboot_settings p of
                         None \<Rightarrow> (Inr (), game s)
                       | Some incoming \<Rightarrow>
                           if incoming = [] then (Inr (), game s)
                           else (case persist_settings env incoming (game s) of
                                   (Inl e, g) \<Rightarrow> (Inl e, g)
                                 | (Inr text, g) \<Rightarrow> (Inr (), stage_everywhere (machine env) text g)))
          in case saved of
               (Inl e, g) \<Rightarrow> (Inl e, s\<lparr>game := g\<rparr>)
             | (Inr _, g) \<Rightarrow>
                 (Inr (reboot_reply p), s\<lparr>game := g, reboot_tasks := reboot_tasks s @ [engine_request p]\<rparr>)))"

definition is_break :: "char \<Rightarrow> bool" where
  "is_break c \<longleftrightarrow> c = CHR 0x0D \<or> c = CHR 0x0A \<or> c = CHR 0x09"

text \<open>\<open>re.sub\<close> of runs of line breaks and tabulators by one space.\<close>

function collapse_breaks :: "string \<Rightarrow> string" where
  "collapse_breaks [] = []"
| "collapse_breaks (c # s) =
     (if is_break c then '' '' @ collapse_breaks (dropWhile is_break s) else c # collapse_breaks s)"
  by pat_completeness auto
termination
  by (relation "measure length") (auto simp: le_imp_less_Suc length_dropWhile_le)

definition sanitize_reason :: "string \<Rightarrow> string" where
  "sanitize_reason v = strip (collapse_breaks v)"

fun phase_name :: "phase \<Rightarrow> string" where
  "phase_name IDLE = ''IDLE''"
| "phase_name COUNTDOWN = ''COUNTDOWN''"
| "phase_name SAVING = ''SAVING''"
| "phase_name MAINTENANCE = ''MAINTENANCE''"
| "phase_name PROBING = ''PROBING''"

definition cancel_reboot :: "ops_env \<Rightarrow> http_request \<Rightarrow> string option \<Rightarrow> ops_state \<Rightarrow> unit result \<times> ops_state" where
  "cancel_reboot env req payload s =
     guarded (needs ''server:reboot'' env req s) s (\<lambda>_.
       let ph = phase (lifecycle_state (game s))
       in if ph \<noteq> COUNTDOWN
          then (Inl (HTTPException 409 (''Cannot cancel reboot during phase '' @ in_quotes (phase_name ph) @
                  ''. Cancellation is only permitted during '' @ in_quotes ''COUNTDOWN'' @ ''.'')), s)
          else
            (let reason = (case payload of None \<Rightarrow> [] | Some r \<Rightarrow> sanitize_reason r);
                 (ok, g) = cancel_countdown reason (game s)
             in (if ok then Inr ()
                 else Inl (HTTPException 409 (''Failed to cancel reboot. Server is no longer in '' @
                        in_quotes ''COUNTDOWN'' @ '' phase.'')), s\<lparr>game := g\<rparr>)))"

record ShutdownRequest =
  shutdown_seconds :: int
  shutdown_message :: string

definition valid_shutdown :: "ShutdownRequest \<Rightarrow> bool" where
  "valid_shutdown p \<longleftrightarrow>
     30 \<le> shutdown_seconds p \<and> shutdown_seconds p \<le> 3600 \<and> length (shutdown_message p) \<le> 80"

text \<open>The version tag is \<open>None\<close> in the source; it is read only when an update is requested.\<close>

definition shutdown_server :: "ops_env \<Rightarrow> http_request \<Rightarrow> ShutdownRequest \<Rightarrow> ops_state \<Rightarrow> (int \<times> string) result \<times> ops_state" where
  "shutdown_server env req p s =
     guarded (needs ''server:reboot'' env req s) s (\<lambda>_.
       if lock_mtime (game s) \<noteq> None
       then (Inl (HTTPException 409
               ''Reboot sequence already in progress. Cancel it before scheduling a shutdown.''), s)
       else (Inr (shutdown_seconds p, shutdown_message p),
             s\<lparr>reboot_tasks := reboot_tasks s @
               [\<lparr>countdown_seconds = shutdown_seconds p, trigger_update = False, update_version_tag = [],
                 custom_message = shutdown_message p\<rparr>]\<rparr>))"

definition manual_world_save :: "ops_env \<Rightarrow> http_request \<Rightarrow> ops_state \<Rightarrow> (string \<times> string) result \<times> ops_state" where
  "manual_world_save env req s =
     guarded (needs ''server:reboot'' env req s) s (\<lambda>user.
       let (ok, g) = trigger_save (command_reply env) (game s)
       in (if ok then Inr (username user, isoformat (utc_now env))
           else Inl (HTTPException 503
                  ''World save failed. Ensure the Palworld server is online and reachable.''), s\<lparr>game := g\<rparr>))"

definition readiness_check :: "ops_env \<Rightarrow> ReadinessInfo result" where
  "readiness_check env =
     bind_result (check_readiness (server_name (machine env)) (rest_port (machine env)) (info_reply env)) (\<lambda>info.
       if ready info then Inr info
       else Inl (HTTPException 503 (or_text (diagnostic_message info)
              ''Palworld server engine is starting or unreachable.'')))"

text \<open>The background tasks run after the response, in the order in which they were queued.\<close>

definition run_reboot_task :: "engine_env \<Rightarrow> ops_state \<Rightarrow> unit result \<times> ops_state" where
  "run_reboot_task m s =
     (case reboot_tasks s of
        [] \<Rightarrow> (Inr (), s)
      | rq # rest \<Rightarrow>
          (case execute_countdown_and_reboot m rq (game s) of
             (r, g) \<Rightarrow> (r, s\<lparr>game := g, reboot_tasks := rest\<rparr>)))"


subsection \<open>Telemetry\<close>

definition needs_view :: "ops_env \<Rightarrow> http_request \<Rightarrow> ops_state \<Rightarrow> UserRecord result" where
  "needs_view env req s = get_current_user (who env) (accounts_db s) req"

text \<open>A flush as the handlers see it: what it reports, and the state after it.\<close>

definition flush :: "ops_env \<Rightarrow> ops_state \<Rightarrow> nat result \<times> ops_state" where
  "flush env s =
     (let (r, c) = flush_metrics_buffer (metrics_faults env) (arrivals env) (metrics s) in (r, s\<lparr>metrics := c\<rparr>))"

definition get_metrics_history ::
  "ops_env \<Rightarrow> http_request \<Rightarrow> string \<Rightarrow> ops_state \<Rightarrow> MetricBucketRecord list result \<times> ops_state" where
  "get_metrics_history env req window s =
     guarded (needs_view env req s) s (\<lambda>_.
       if window \<notin> {''1h'', ''24h'', ''7d'', ''30d''} then (Inl (HTTPException 422 ''Unprocessable Entity''), s)
       else
         (case flush env s of
            (Inl e, s1) \<Rightarrow> (Inl e, s1)
          | (Inr _, s1) \<Rightarrow> (get_history (metrics_faults env) (utc_now env) window (metrics_db (metrics s1)), s1)))"

definition get_metrics_summary ::
  "ops_env \<Rightarrow> http_request \<Rightarrow> ops_state \<Rightarrow> (Metric30DaySummary \<times> nat) result \<times> ops_state" where
  "get_metrics_summary env req s =
     guarded (needs_view env req s) s (\<lambda>_.
       case flush env s of
         (Inl e, s1) \<Rightarrow> (Inl e, s1)
       | (Inr _, s1) \<Rightarrow>
           (bind_result (get_30_day_summary (metrics_faults env) (utc_now env) (metrics_db (metrics s1))) (\<lambda>m.
              Inr (m, length (metrics_buffer (metrics s1)))), s1))"

definition flush_metrics :: "ops_env \<Rightarrow> http_request \<Rightarrow> ops_state \<Rightarrow> (nat \<times> nat) result \<times> ops_state" where
  "flush_metrics env req s =
     guarded (needs_admin env req s) s (\<lambda>_.
       case flush env s of
         (Inl e, s1) \<Rightarrow> (Inl e, s1)
       | (Inr n, s1) \<Rightarrow> (Inr (n, length (metrics_buffer (metrics s1))), s1))"

definition prune_metrics :: "ops_env \<Rightarrow> http_request \<Rightarrow> int option \<Rightarrow> ops_state \<Rightarrow> (nat \<times> nat) result \<times> ops_state" where
  "prune_metrics env req days s =
     guarded (needs_admin env req s) s (\<lambda>_.
       if (case days of None \<Rightarrow> False | Some d \<Rightarrow> d < 1 \<or> 365 < d)
       then (Inl (HTTPException 422 ''Unprocessable Entity''), s)
       else
         (let retention = (case days of None \<Rightarrow> retention_days env | Some d \<Rightarrow> nat d)
          in case prune_older_than (metrics_faults env) (utc_now env) retention (metrics_db (metrics s)) of
               (Inl e, m) \<Rightarrow> (Inl e, s\<lparr>metrics := (metrics s)\<lparr>metrics_db := m\<rparr>\<rparr>)
             | (Inr n, m) \<Rightarrow> (Inr (n, retention), s\<lparr>metrics := (metrics s)\<lparr>metrics_db := m\<rparr>\<rparr>)))"

text \<open>The telemetry socket: anybody may connect; a disconnect unregisters it.\<close>

definition websocket_connect :: "nat \<Rightarrow> ops_state \<Rightarrow> ops_state" where
  "websocket_connect ws s = s\<lparr>game := register_socket ws (game s)\<rparr>"

definition websocket_disconnect :: "nat \<Rightarrow> ops_state \<Rightarrow> ops_state" where
  "websocket_disconnect ws s = s\<lparr>game := unregister_socket ws (game s)\<rparr>"

subsection \<open>Feedback\<close>

text \<open>The optional template fields are a dictionary without the absent ones. The rendered
  markdown contains characters outside the modelled range and is an argument.\<close>

record FeedbackSubmitRequest =
  fb_category :: string
  fb_title :: string
  fb_description :: string
  fb_fields :: "(string, string) dict"

definition TEMPLATE_FILENAMES :: "(string, string) dict" where
  "TEMPLATE_FILENAMES =
     [(''bug_report'', ''bug_report.md''), (''feature_request'', ''feature_request.md''),
      (''documentation_update'', ''documentation_update.md''), (''security_report'', ''security_report.md'')]"

definition FIELD_LIMITS :: "(string, nat) dict" where
  "FIELD_LIMITS =
     [(''expected_behavior'', 2000), (''current_behavior'', 2000), (''steps_to_reproduce'', 2000),
      (''host_environment'', 1000), (''diagnostic_logs'', 5000), (''proposed_solution'', 2000),
      (''feature_proposal'', 2000), (''problem_user_story'', 2000), (''twelve_factor_considerations'', 2000),
      (''alternatives_considered'', 2000), (''documentation_area'', 500), (''motivation_missing_context'', 2000),
      (''proposed_content'', 5000), (''vulnerability_summary'', 1000), (''affected_files_lines'', 500),
      (''cwe_identifier'', 100), (''severity'', 8), (''poc_reproduction'', 3000), (''recommended_remediation'', 2000)]"

definition valid_feedback :: "FeedbackSubmitRequest \<Rightarrow> bool" where
  "valid_feedback r \<longleftrightarrow>
     fb_category r \<in> set (dict_keys TEMPLATE_FILENAMES) \<and> 3 \<le> length (fb_title r) \<and> length (fb_title r) \<le> 200 \<and>
     length (fb_description r) \<le> 5000 \<and> wf_dict (fb_fields r) \<and>
     list_all (\<lambda>(k, v). case dict_get FIELD_LIMITS k of None \<Rightarrow> False | Some n \<Rightarrow> length v \<le> n) (fb_fields r) \<and>
     (case dict_get (fb_fields r) ''severity'' of
        None \<Rightarrow> True | Some v \<Rightarrow> v \<in> {''Critical'', ''High'', ''Medium'', ''Low''})"

definition feedback_metadata :: "FeedbackSubmitRequest \<Rightarrow> json" where
  "feedback_metadata r = JObj (map (\<lambda>(k, v). (k, JStr v)) (fb_fields r))"

definition json_dumps :: "json \<Rightarrow> string" where
  "json_dumps j = dumps (\<lambda>_. []) '', '' '': '' j"

definition submit_feedback ::
  "(FeedbackSubmitRequest \<Rightarrow> string) \<Rightarrow> ops_env \<Rightarrow> http_request \<Rightarrow> FeedbackSubmitRequest \<Rightarrow> ops_state \<Rightarrow>
     (FeedbackRecord \<times> json) result \<times> ops_state" where
  "submit_feedback render env req body s =
     guarded (needs ''feedback:submit'' env req s) s (\<lambda>user.
       let markdown = render body;
           (rec, d) = create_feedback (clock_iso (who env)) (fb_category body) (fb_title body) markdown
                        (json_dumps (feedback_metadata body)) (username user) None (accounts_db s)
       in (Inr (rec, feedback_metadata body),
           s\<lparr>accounts_db := d,
             issue_tasks := issue_tasks s @ [(fb_category body, fb_title body, markdown, feedback_id rec)]\<rparr>))"

definition metadata_of :: "FeedbackRecord \<Rightarrow> json" where
  "metadata_of rec = (case loads (metadata_json rec) of None \<Rightarrow> JObj [] | Some j \<Rightarrow> j)"

definition list_feedback_submissions ::
  "ops_env \<Rightarrow> http_request \<Rightarrow> bool \<Rightarrow> string option \<Rightarrow> string option \<Rightarrow> string option \<Rightarrow> int \<Rightarrow> int \<Rightarrow>
     ops_state \<Rightarrow> (FeedbackRecord \<times> json) list result" where
  "list_feedback_submissions env req mine submitter cat st limit offset s =
     bind_result
       (if mine then
          (case get_current_user_optional (who env) (accounts_db s) req of
             Inl e \<Rightarrow> Inl e
           | Inr None \<Rightarrow> Inl (HTTPException 401 ''Authentication required to filter submissions by current user.'')
           | Inr (Some u) \<Rightarrow> Inr (Some (username u)))
        else Inr submitter)
       (\<lambda>filter_user. Inr (map (\<lambda>rec. (rec, metadata_of rec))
          (list_feedbacks limit offset filter_user cat st (accounts_db s))))"

text \<open>The dispatch of an issue: the outcome of the external command decides.\<close>

datatype command_outcome = Completed int string | CommandTimeout | CommandOSError

definition issue_label :: "string \<Rightarrow> string" where
  "issue_label cat =
     (case dict_get [(''bug_report'', ''bug''), (''feature_request'', ''enhancement''),
                     (''documentation_update'', ''documentation''), (''security_report'', ''security'')] cat of
        None \<Rightarrow> ''feedback'' | Some l \<Rightarrow> l)"

definition issue_number :: "string \<Rightarrow> int option" where
  "issue_number stdout =
     (case utf8_decode stdout of
        None \<Rightarrow> None
      | Some text \<Rightarrow>
          (let part = last (split_on (CHR ''/'') (strip text))
           in if part \<noteq> [] \<and> list_all is_digit part then Some (int (digits_val part)) else None))"

definition dispatch_github_issue :: "bool \<Rightarrow> command_outcome \<Rightarrow> int \<Rightarrow> ops_state \<Rightarrow> ops_state" where
  "dispatch_github_issue gh_installed out feedback s =
     (if \<not> gh_installed then s
      else (case out of
              Completed returncode stdout \<Rightarrow>
                (case (if returncode = 0 then issue_number stdout else None) of
                   Some n \<Rightarrow> s\<lparr>accounts_db := snd (update_feedback_status feedback ''OPEN'' (Some n) (accounts_db s))\<rparr>
                 | None \<Rightarrow> s)
            | _ \<Rightarrow> s))"

definition REDIRECT_CATEGORY_MAP :: "(string, string) dict" where
  "REDIRECT_CATEGORY_MAP =
     [(''bug'', ''bug_report''), (''bug_report'', ''bug_report''), (''feature'', ''feature_request''),
      (''feature_request'', ''feature_request''), (''docs'', ''documentation_update''),
      (''documentation'', ''documentation_update''), (''documentation_update'', ''documentation_update''),
      (''security'', ''security_report''), (''security_report'', ''security_report'')]"

text \<open>\<open>urllib.parse.quote\<close> with no safe character but the unreserved ones, and \<open>urlencode\<close>.\<close>

definition url_unreserved :: "char \<Rightarrow> bool" where
  "url_unreserved c \<longleftrightarrow> (48 \<le> ord c \<and> ord c \<le> 57) \<or> (65 \<le> ord c \<and> ord c \<le> 90) \<or>
     (97 \<le> ord c \<and> ord c \<le> 122) \<or> c \<in> set ''_.-~''"

definition upper_hex :: "nat \<Rightarrow> char" where
  "upper_hex n = (if n < 10 then char_of (48 + n) else char_of (55 + n))"

definition quote_byte :: "char \<Rightarrow> string" where
  "quote_byte c = (if url_unreserved c then [c]
     else [CHR ''%'', upper_hex (ord c div 16), upper_hex (ord c mod 16)])"

definition url_quote :: "string \<Rightarrow> string" where
  "url_quote s = concat (map quote_byte (utf8_encode s))"

definition urlencode :: "(string, string) dict \<Rightarrow> string" where
  "urlencode ps = join ''&'' (map (\<lambda>(k, v). url_quote k @ ''='' @ url_quote v) ps)"

definition build_github_issue_url :: "string \<Rightarrow> string \<Rightarrow> string option \<Rightarrow> string option \<Rightarrow> string" where
  "build_github_issue_url repo_url cat head_text body_text =
     (let base = rev (dropWhile (\<lambda>c. c = CHR ''/'') (rev repo_url));
          param = (\<lambda>k v. case v of None \<Rightarrow> [] | Some t \<Rightarrow> if t = [] then [] else [(k, t)])
      in if cat = ''security_report'' then base @ ''/security/advisories/new''
         else base @ ''/issues/new?'' @ urlencode
                ((''template'', case dict_get TEMPLATE_FILENAMES cat of None \<Rightarrow> ''bug_report.md'' | Some f \<Rightarrow> f) #
                 param ''title'' head_text @ param ''body'' body_text))"

definition redirect_to_github_template :: "string \<Rightarrow> string \<Rightarrow> string result" where
  "redirect_to_github_template repo_url shortcut =
     (case dict_get REDIRECT_CATEGORY_MAP (lower shortcut) of
        None \<Rightarrow> Inl (HTTPException 404 (''Unrecognized feedback category '' @ in_quotes shortcut @
          ''. Valid categories: ['' @ join '', '' (map in_quotes (sort (dict_keys REDIRECT_CATEGORY_MAP))) @ '']''))
      | Some cat \<Rightarrow> Inr (build_github_issue_url repo_url cat None None))"

subsection \<open>Who may do what\<close>

lemma needs_refused: "\<not> may perm (who env) req (accounts_db s) \<Longrightarrow> \<exists>e. needs perm env req s = Inl e"
  unfolding needs_def by (rule require_permission_may)

lemma needs_granted: "may perm (who env) req (accounts_db s) \<Longrightarrow> \<exists>u. needs perm env req s = Inr u"
  by (cases "get_current_user (who env) (accounts_db s) req") (auto simp: needs_def may_def require_permission_def)

definition is_admin_request :: "ops_env \<Rightarrow> http_request \<Rightarrow> ops_state \<Rightarrow> bool" where
  "is_admin_request env req s \<longleftrightarrow>
     (case get_current_user (who env) (accounts_db s) req of Inr u \<Rightarrow> role u = ''admin'' | Inl _ \<Rightarrow> False)"

lemma needs_admin_refused: "\<not> is_admin_request env req s \<Longrightarrow> \<exists>e. needs_admin env req s = Inl e"
  by (cases "get_current_user (who env) (accounts_db s) req") (auto simp: needs_admin_def is_admin_request_def require_admin_def)

text \<open>C20. Without the permission of an endpoint nothing happens: no command reaches the game server,
  no file is written, no reboot is queued and no metric is touched.\<close>

theorem operations_need_permission:
  "(\<not> may ''server:settings'' (who env) req (accounts_db s) \<longrightarrow> snd (save_sanitized_settings env req payload s) = s) \<and>
   (\<not> may ''player:kick'' (who env) req (accounts_db s) \<longrightarrow> snd (handle_kick env req p m s) = s) \<and>
   (\<not> may ''player:ban'' (who env) req (accounts_db s) \<longrightarrow> snd (handle_ban env req p m s) = s) \<and>
   (\<not> may ''player:broadcast'' (who env) req (accounts_db s) \<longrightarrow> snd (handle_warn env req m s) = s) \<and>
   (\<not> may ''server:reboot'' (who env) req (accounts_db s) \<longrightarrow>
      snd (trigger_reboot env req rb s) = s \<and> snd (cancel_reboot env req c s) = s \<and>
      snd (shutdown_server env req sd s) = s \<and> snd (manual_world_save env req s) = s) \<and>
   (\<not> is_admin_request env req s \<longrightarrow> snd (flush_metrics env req s) = s \<and> snd (prune_metrics env req days s) = s) \<and>
   (\<not> may ''feedback:submit'' (who env) req (accounts_db s) \<longrightarrow> snd (submit_feedback render env req fb s) = s)"
  by (auto simp: save_sanitized_settings_def handle_kick_def handle_ban_def handle_warn_def trigger_reboot_def
      cancel_reboot_def shutdown_server_def manual_world_save_def flush_metrics_def prune_metrics_def
      submit_feedback_def guarded_def dest!: needs_refused needs_admin_refused)

subsection \<open>Reboots\<close>

text \<open>The reboot endpoint changes the settings of the server for a caller who may not change
  them and with values the settings endpoint rejects: it checks neither the permission
  \<open>server:settings\<close> nor the gameplay schema before it stages the settings.\<close>

theorem reboot_skips_settings_checks:
  assumes "may ''server:reboot'' (who env) req (accounts_db s)" "\<not> may ''server:settings'' (who env) req (accounts_db s)"
    and "dump_settings (coerce_fn env) incoming = Inl e" "incoming \<noteq> []" "reboot_settings p = Some incoming"
    and "lock_mtime (game s) = None" "persist_settings env incoming (game s) = (Inr text, g)"
  shows "snd (save_sanitized_settings env req incoming s) = s \<and>
    (\<exists>s'. trigger_reboot env req p s = (Inr (reboot_reply p), s') \<and> staged_ini (game s') = Some text)"
proof -
  obtain u where u: "needs ''server:reboot'' env req s = Inr u"
    using needs_granted [OF assms(1)] by blast
  obtain f where "needs ''server:settings'' env req s = Inl f"
    using needs_refused [OF assms(2)] by blast
  moreover have "staged_ini (foldl (write_staged m b t) g0 ps) = staged_ini g0" for m b t g0 ps
    by (induction ps arbitrary: g0) (simp_all add: write_staged_def split_beta)
  ultimately show ?thesis
    using assms(4-7) u
    by (simp add: save_sanitized_settings_def trigger_reboot_def guarded_def stage_everywhere_def
        stage_settings_for_reboot_def stage_settings_def)
qed

lemma persist_frame: "persist_settings env incoming g = (r, g') \<Longrightarrow>
    lock_mtime g' = lock_mtime g \<and> events g' = events g \<and> staged_ini g' = staged_ini g \<and> lifecycle_state g' = lifecycle_state g"
  by (auto simp: persist_settings_def write_ini_file_with_fallback_def split: sum.splits prod.splits if_splits)

lemma restart_nothing_staged:
  assumes "restart_and_await_readiness m g = (r, g')"
  shows "staged_writes m' g' = []"
proof -
  have "staged_ini (apply_staged_configuration m t) = None \<or> staged_ini (apply_staged_configuration m t) = Some []" for t
    by (auto simp: apply_staged_configuration_def split: option.split)
  then show ?thesis
    using assms
    by (auto simp: restart_and_await_readiness_def Let_def split_beta staged_writes_def same_store_def
        dest!: probe_loop_store) metis+
qed

lemma uncancelled_reboot:
  assumes "0 < countdown_seconds rq" "first_cancel m = None" "\<And>k. 1 \<le> k \<Longrightarrow> k \<le> countdown_seconds rq \<Longrightarrow> cancels m k = None"
    and "lock_touch_error m = None" "\<not> lock_release_fails m" "lock_mtime g = None"
    and "execute_countdown_and_reboot m rq g = (r, g')"
  shows "core (events g') = core (events g) @ [SaveWorld] @ staged_writes m g @ [RestartService (service_name m)]"
    and "lock_mtime g' = None" and "staged_writes m g' = []"
proof -
  let ?g1 = "g\<lparr>lock_mtime := Some (wall_clock m)\<rparr>"
  have a: "check_and_acquire_lock m g = (Inr (), ?g1)"
    using assms(4,6) by (simp add: check_and_acquire_lock_def inspect_lock_def)
  obtain g2 where p: "reboot_procedure m rq ?g1 = (r, g2)"
    and g': "g' = broadcast_ws m (release_reboot_lock m g2)"
    using assms(7) by (simp add: acquire_ok a prod_eq_iff)
  show "core (events g') = core (events g) @ [SaveWorld] @ staged_writes m g @ [RestartService (service_name m)]"
    using reboot_completed_core [OF assms(1-3) p] g' by (simp add: staged_writes_def)
  show "lock_mtime g' = None"
    using assms(5) g' by (simp add: release_reboot_lock_def)
  let ?s0 = "start_countdown m rq (prepared_engine m rq ?g1)"
  have "\<not> cancel_event ?s0"
    using assms(2) by (simp add: start_countdown_sel prepared_engine_sel)
  then have "fst (run_countdown_loop m rq (countdown_seconds rq) ?s0)"
    using loop_completes_iff [where env = m and rq = rq and n = "countdown_seconds rq" and s = ?s0]
      start_countdown_sel(1) assms(3) by blast
  then obtain s3 where "run_countdown_loop m rq (countdown_seconds rq) ?s0 = (True, s3)"
    by (metis prod.collapse)
  then have "restart_and_await_readiness m s3 = (r, g2)"
    using p by (simp add: reboot_procedure_unfold [OF assms(1)])
  then show "staged_writes m g' = []"
    using restart_nothing_staged g' by (simp add: staged_writes_def)
qed

definition plain_reboot :: "RebootRequest \<Rightarrow> bool" where
  "plain_reboot p \<longleftrightarrow> 0 < reboot_countdown p \<and> reboot_settings p = None"

lemma trigger_plain:
  assumes "may ''server:reboot'' (who env) req (accounts_db s)" "lock_mtime (game s) = None" "plain_reboot p"
  shows "trigger_reboot env req p s = (Inr (reboot_reply p), s\<lparr>reboot_tasks := reboot_tasks s @ [engine_request p]\<rparr>)"
proof -
  obtain u where "needs ''server:reboot'' env req s = Inr u"
    using needs_granted [OF assms(1)] by blast
  then show ?thesis
    using assms(2,3) by (simp add: trigger_reboot_def guarded_def plain_reboot_def)
qed

text \<open>Two reboot requests that arrive before the first sequence has taken its lock are both
  accepted, and the server is saved and restarted twice: neither the endpoint's test of the lock
  file nor the acquisition in the engine makes the second one wait or fail.\<close>

theorem double_reboot_restarts_twice:
  assumes "may ''server:reboot'' (who env) req (accounts_db s)" "lock_mtime (game s) = None" "reboot_tasks s = []"
    and "plain_reboot p" "plain_reboot q" "first_cancel (machine env) = None" "cancels (machine env) = (\<lambda>k. None)"
    and "lock_touch_error (machine env) = None" "\<not> lock_release_fails (machine env)"
    and "trigger_reboot env req p s = (r1, s1)" "trigger_reboot env req q s1 = (r2, s2)"
    and "run_reboot_task (machine env) s2 = (r3, s3)" "run_reboot_task (machine env) s3 = (r4, s4)"
  shows "r1 = Inr (reboot_reply p) \<and> r2 = Inr (reboot_reply q) \<and>
    core (events (game s4)) = core (events (game s)) @ [SaveWorld] @ staged_writes (machine env) (game s) @
      [RestartService (service_name (machine env)), SaveWorld, RestartService (service_name (machine env))]"
proof -
  have s1: "r1 = Inr (reboot_reply p)" "s1 = s\<lparr>reboot_tasks := [engine_request p]\<rparr>"
    using trigger_plain [OF assms(1,2,4)] assms(3,10) by simp_all
  have "may ''server:reboot'' (who env) req (accounts_db s1)" "lock_mtime (game s1) = None"
    using s1 assms(1,2) by simp_all
  then have s2: "r2 = Inr (reboot_reply q)" "s2 = s\<lparr>reboot_tasks := [engine_request p, engine_request q]\<rparr>"
    using trigger_plain [of env req s1 q] assms(5,11) s1 by simp_all
  have pos: "0 < countdown_seconds (engine_request p)" "0 < countdown_seconds (engine_request q)"
    using assms(4,5) by (simp_all add: plain_reboot_def engine_request_def)
  obtain g3 where g3: "execute_countdown_and_reboot (machine env) (engine_request p) (game s) = (r3, g3)"
    "s3 = s\<lparr>game := g3, reboot_tasks := [engine_request q]\<rparr>"
    using assms(12) s2 by (auto simp: run_reboot_task_def split: prod.splits)
  obtain g4 where g4: "execute_countdown_and_reboot (machine env) (engine_request q) g3 = (r4, g4)" "game s4 = g4"
    using assms(13) g3(2) by (auto simp: run_reboot_task_def split: prod.splits)
  note first = uncancelled_reboot [OF pos(1) assms(6) _ assms(8,9,2) g3(1)]
  note second = uncancelled_reboot [OF pos(2) assms(6) _ assms(8,9) first(2) g4(1)]
  show ?thesis
    using s1(1) s2(1) first second g4(2) assms(7) by simp
qed

text \<open>While a lock file exists, however old, both endpoints answer 409 and change nothing; the
  fifteen-minute reclaim of the engine is never reached through them.\<close>

theorem locked_endpoints_refuse:
  assumes "lock_mtime (game s) = Some t" "may ''server:reboot'' (who env) req (accounts_db s)"
  shows "(\<exists>m. trigger_reboot env req p s = (Inl (HTTPException 409 m), s)) \<and>
    (\<exists>m. shutdown_server env req d s = (Inl (HTTPException 409 m), s))"
  using needs_granted [OF assms(2)] assms(1) by (auto simp: trigger_reboot_def shutdown_server_def guarded_def)

subsection \<open>Settings that survive the reboot\<close>

lemma replace_file_other: "t \<noteq> src \<Longrightarrow> t \<noteq> dst \<Longrightarrow> file_at (replace_file src dst w) t = file_at w t"
  by (auto simp: replace_file_def observe_def file_at_def dict_get_filter split: option.split)

lemma atomic_write_other_dir:
  assumes "fst t \<noteq> fst target"
  shows "file_at (snd (atomic_write_file io target raw n mb mode sd w)) t = file_at w t"
proof -
  have t: "t \<noteq> tmp_path_of io target" "\<not> is_backup_of target t" "t \<noteq> target"
    using assms by (auto simp: tmp_path_of_def is_backup_of_def)
  show ?thesis
  proof (cases rule: atomic_write_file_cases [of io target raw n mb mode sd w])
    case (unstaged w4)
    have "keeps t w w4"
      unfolding unstaged(1) by (rule keeps_stage_tmp [OF t(1)])
    then show ?thesis
      using unstaged(2) keeps_file_at [OF keeps_abort [OF t(1)]] by simp
  next
    case (unreplaced b w5)
    have "keeps t w w5"
      using keeps_prepared [OF t(1,2), of w raw n mb mode] unreplaced(1) by simp
    then show ?thesis
      using unreplaced(2) keeps_file_at [OF keeps_abort [OF t(1)]] by simp
  next
    case (replaced b w5 w6)
    have "file_at w5 t = file_at w t"
      using keeps_file_at [OF keeps_prepared [OF t(1,2), of w raw n mb mode]] replaced(2) by simp
    then show ?thesis
      using replaced(3,4) t by (simp add: replace_file_other)
  qed simp
qed

lemma write_staged_other_dir:
  "fst t \<noteq> fst p \<Longrightarrow> file_at (disk_world (write_staged m b text g p)) t = file_at (disk_world g) t"
  using atomic_write_other_dir [of t p]
  by (auto simp: write_staged_def atomic_write_ini_def split_beta split: prod.split sum.split)

lemma foldl_write_staged_other_dir:
  "\<forall>p \<in> set ps. fst t \<noteq> fst p \<Longrightarrow> file_at (disk_world (foldl (write_staged m b text) g ps)) t = file_at (disk_world g) t"
  by (induction ps arbitrary: g) (simp_all add: write_staged_other_dir)

definition clean_writes :: "io_env \<Rightarrow> bool" where
  "clean_writes io \<longleftrightarrow> \<not> mkdir_fails io \<and> \<not> mktemp_fails io \<and> \<not> write_fails io \<and> \<not> fsync_fails io \<and> \<not> replace_fails io"

lemma apply_staged_content:
  assumes "staged_ini g = Some text" "text \<noteq> []" "clean_writes (io_of m (ini_path m))"
    and "tmp_ok (io_of m (ini_path m)) (ini_path m) (disk_world g)"
    and "\<forall>p \<in> set (staged_candidates m). fst (ini_path m) \<noteq> fst p"
  shows "\<exists>f. file_at (disk_world (apply_staged_configuration m g)) (ini_path m) = Some f \<and> f_data f = utf8_encode text"
proof -
  obtain q w where w: "atomic_write_ini (io_of m (ini_path m)) (ini_path m) text 5 True True (disk_world g) = (Inr q, w)"
    using atomic_write_ini_no_faults [of "io_of m (ini_path m)" "ini_path m" "text" 5 True True "disk_world g"] assms(3)
    by (auto simp: clean_writes_def)
  obtain f where "file_at w (ini_path m) = Some f" "f_data f = utf8_encode text"
    using atomic_write_ini_Inr [OF assms(4) w] by blast
  then show ?thesis
    using assms(1,2,5) w
    by (simp add: apply_staged_configuration_def foldl_write_staged_other_dir write_staged_def)
qed

lemma stage_everywhere_staged: "staged_ini (stage_everywhere m text g) = Some text"
proof -
  have "staged_ini (foldl (write_staged m b t) g0 ps) = staged_ini g0" for b t g0 ps
    by (induction ps arbitrary: g0) (simp_all add: write_staged_def split_beta)
  then show ?thesis
    by (simp add: stage_everywhere_def stage_settings_for_reboot_def stage_settings_def)
qed

lemma serialize_not_Nil: "serialize_ini_settings d \<noteq> []"
  by (simp add: serialize_ini_settings_def)

lemma persist_text: "persist_settings env incoming g = (Inr text, g') \<Longrightarrow> text \<noteq> []"
  by (auto simp: persist_settings_def merge_and_serialize_def bind_result_Inr_iff serialize_not_Nil
      split: sum.splits prod.splits if_splits)

text \<open>C19. Settings saved while the game server runs reach the file of the next start: they are
  staged, and when the maintenance phase of a reboot applies them, the configuration file holds
  exactly the saved text whatever the game server has written to it in between.\<close>

theorem saved_settings_survive_reboot:
  assumes "save_sanitized_settings env req payload s = (Inr True, s')"
    and "g = (game s')\<lparr>disk_world := overwritten\<rparr>"
    and "clean_writes (io_of (machine env) (ini_path (machine env)))"
    and "tmp_ok (io_of (machine env) (ini_path (machine env))) (ini_path (machine env)) overwritten"
    and "\<forall>p \<in> set (staged_candidates (machine env)). fst (ini_path (machine env)) \<noteq> fst p"
  shows "\<exists>sanitized text f. dump_settings (coerce_fn env) payload = Inr sanitized \<and>
    merge_and_serialize (read_fault1 env) (read_fault2 env) (disk_world (game s)) (ini_path (machine env)) sanitized = Inr text \<and>
    file_at (disk_world (apply_staged_configuration (machine env) g)) (ini_path (machine env)) = Some f \<and>
    f_data f = utf8_encode text"
proof -
  obtain sanitized ser g1 where d: "dump_settings (coerce_fn env) payload = Inr sanitized"
    and p: "persist_settings env sanitized (game s) = (Inr ser, g1)"
    and s': "game s' = stage_everywhere (machine env) ser g1"
    using assms(1) by (auto simp: save_sanitized_settings_def guarded_def split: sum.splits prod.splits if_splits)
  have "merge_and_serialize (read_fault1 env) (read_fault2 env) (disk_world (game s)) (ini_path (machine env)) sanitized = Inr ser"
    using p by (auto simp: persist_settings_def split: sum.splits prod.splits)
  moreover have "staged_ini g = Some ser"
    by (simp add: assms(2) s' stage_everywhere_staged)
  ultimately show ?thesis
    using d apply_staged_content [of g ser "machine env", OF _ persist_text [OF p] assms(3) _ assms(5)] assms(2,4)
    by fastforce
qed

subsection \<open>Metrics\<close>

text \<open>A history request sees the samples that are still in the buffer: it writes them to the
  store first, so its buckets count the stored and the buffered samples of the window together.\<close>

theorem history_includes_buffer:
  assumes "get_metrics_history env req window s = (Inr bs, s')"
    and "metrics_faults env = \<lparr>exec_error = None, commit_error = None, query_error = None\<rparr>"
    and "ago (fst (window_query window)) (utc_now env) = Inr cutoff"
  shows "sum_list (map sample_count bs) =
      length (filter (\<lambda>r. cutoff \<le> timestamp r) (rows (visible (metrics_db (metrics s))))) +
      length (filter (\<lambda>r. cutoff \<le> timestamp r) (metrics_buffer (metrics s))) \<and>
    metrics_buffer (metrics s') = arrivals env"
proof -
  have ins: "length (filter (\<lambda>r. cutoff \<le> timestamp r) (rows (foldl insert_row t ss))) =
      length (filter (\<lambda>r. cutoff \<le> timestamp r) (rows t)) + length (filter (\<lambda>r. cutoff \<le> timestamp r) ss)" for t ss
    by (induction ss arbitrary: t) (simp_all add: insert_row_rows)
  have fl: "\<exists>n. flush env s = (Inr n, s') \<and>
      get_history (metrics_faults env) (utc_now env) window (metrics_db (metrics s')) = Inr bs"
    using assms(1) by (auto simp: get_metrics_history_def guarded_def split: sum.splits prod.splits if_splits)
  have m: "visible (metrics_db (metrics s')) =
      foldl insert_row (visible (metrics_db (metrics s))) (metrics_buffer (metrics s)) \<and>
      metrics_buffer (metrics s') = arrivals env"
    using fl by (auto simp: flush_def flush_metrics_buffer_def record_snapshots_batch_def assms(2) Let_def commit_def
        split: if_splits)
  have "sum_list (map sample_count bs) = length (filter (\<lambda>r. cutoff \<le> timestamp r) (rows (visible (metrics_db (metrics s')))))"
    using history_rows_correct [of "metrics_faults env" "utc_now env" window "metrics_db (metrics s')" bs cutoff] fl assms(2,3)
    by simp
  then show ?thesis
    using m ins by simp
qed

subsection \<open>Feedback\<close>

lemma current_user_frame: "users d' = users d \<Longrightarrow> get_current_user env d' req = get_current_user env d req"
proof -
  assume "users d' = users d"
  then have a: "active_user d' = active_user d"
    by (simp add: fun_eq_iff active_user_def get_user_by_username_def)
  have b: "basic_user env d' = basic_user env d"
    unfolding basic_user_def a ..
  have c: "user_of_token env d' = user_of_token env d" "anonymous_user env d' = anonymous_user env d"
    unfolding user_of_token_def anonymous_user_def loopback_user_def a by simp_all
  show ?thesis
    unfolding get_current_user_def b c ..
qed

text \<open>A feedback submission is stored for the caller and read back: the caller's own list starts
  with it, with exactly the submitted metadata, and one issue dispatch is queued.\<close>

theorem feedback_round_trip:
  assumes "submit_feedback render env req body s = (Inr (rec, meta), s')" "valid_feedback body" "1 \<le> limit"
  shows "meta = feedback_metadata body \<and> description rec = render body \<and>
    (\<exists>rest. list_feedback_submissions env req True submitter None None limit 0 s' = Inr ((rec, meta) # rest)) \<and>
    issue_tasks s' = issue_tasks s @ [(fb_category body, fb_title body, render body, feedback_id rec)]"
proof -
  obtain u where u: "get_current_user (who env) (accounts_db s) req = Inr u"
    and n: "needs ''feedback:submit'' env req s = Inr u"
    using assms(1) by (cases "get_current_user (who env) (accounts_db s) req")
      (auto simp: submit_feedback_def guarded_def needs_def require_permission_def split: if_splits)
  have r: "(rec, accounts_db s') = create_feedback (clock_iso (who env)) (fb_category body) (fb_title body) (render body)
      (json_dumps (feedback_metadata body)) (username u) None (accounts_db s)" "meta = feedback_metadata body"
    "issue_tasks s' = issue_tasks s @ [(fb_category body, fb_title body, render body, feedback_id rec)]"
    using assms(1) n by (auto simp: submit_feedback_def guarded_def Let_def split: prod.splits)
  have "get_current_user (who env) (accounts_db s') req = Inr u"
    using r(1) u current_user_frame [of "accounts_db s'" "accounts_db s"] by (simp add: create_feedback_def Let_def)
  moreover have "metadata_of rec = meta"
  proof -
    have "json_plain (feedback_metadata body)"
      using assms(2) by (auto simp: feedback_metadata_def valid_feedback_def wf_dict_def list_all_iff comp_def case_prod_unfold)
    then have "loads (json_dumps (feedback_metadata body)) = Some (feedback_metadata body)"
      unfolding json_dumps_def by (intro loads_dumps) (simp_all add: separators_def is_ws_def)
    then show ?thesis
      using r(1,2) by (simp add: metadata_of_def create_feedback_def Let_def)
  qed
  moreover have "submitted_by rec = username u" "description rec = render body" "row_to_feedback rec = rec"
    "rows (feedback_submissions (accounts_db s')) = rows (feedback_submissions (accounts_db s)) @ [rec]"
    using r(1) by (simp_all add: create_feedback_def Let_def table_insert_def row_to_feedback_def)
  moreover have "nat limit = Suc (nat (limit - 1))"
    using assms(3) by simp
  ultimately show ?thesis
    using r(2,3) assms(3)
    by (simp add: list_feedback_submissions_def get_current_user_optional_def list_feedbacks_def paginate_def opt_matches_def)
qed

subsection \<open>Witnesses\<close>

definition demo_ops_state :: ops_state where
  "demo_ops_state = \<lparr>accounts_db = database demo_state, game = demo_engine, metrics = empty_collector,
     reboot_tasks = [], issue_tasks = []\<rparr>"

definition demo_ops_env :: ops_env where
  "demo_ops_env = \<lparr>who = demo_env, machine = demo_engine_env, coerce_fn = strict_coerce, read_fault1 = None,
     read_fault2 = None, info_reply = Response 200 (Some (JObj [])), command_reply = Response 200 None,
     metrics_faults = metrics_ok_io, arrivals = [], utc_now = 86400000000, retention_days = 30, error_text = (\<lambda>e. [])\<rparr>"

lemma demo_ops_sel [simp]:
  "who demo_ops_env = demo_env" "machine demo_ops_env = demo_engine_env" "read_fault1 demo_ops_env = None"
  "read_fault2 demo_ops_env = None" "metrics_faults demo_ops_env = metrics_ok_io" "arrivals demo_ops_env = []"
  "utc_now demo_ops_env = 86400000000" "accounts_db demo_ops_state = database demo_state"
  "game demo_ops_state = demo_engine" "metrics demo_ops_state = empty_collector" "reboot_tasks demo_ops_state = []"
  "issue_tasks demo_ops_state = []"
  by (simp_all add: demo_ops_env_def demo_ops_state_def)

text \<open>The request with a forged header acts as the administrator.\<close>

lemma remote_is_admin: "get_current_user demo_env (database demo_state) remote_request = Inr demo_admin"
proof -
  have "loopback_user demo_env (database demo_state) = demo_admin"
    by (simp add: loopback_user_def demo_admin_active)
  then show ?thesis
    by (simp add: get_current_user_def request_token_def startswith_def anonymous_user_def get_client_ip_def
        loopback_names_def remote_request_def header_def)
qed

lemma remote_may: "may perm demo_env remote_request (database demo_state)"
  by (simp add: may_def remote_is_admin has_permission_def demo_admin_def)

lemma remote_needs: "needs perm demo_ops_env remote_request demo_ops_state = Inr demo_admin"
  by (simp add: needs_def require_permission_def remote_is_admin has_permission_def demo_admin_def)

lemma stranger_may_not: "\<not> may ''server:reboot'' demo_env (bearer_request ''a.b'') (database demo_state)"
  by code_simp

lemma operations_need_permission_witness:
  "snd (trigger_reboot demo_ops_env (bearer_request ''a.b'')
     \<lparr>reboot_countdown = 60, trigger_steam_update = False, reboot_version_tag = [], reboot_message = [],
      reboot_settings = Some [(''AdminPassword'', VStr ''x'')]\<rparr> demo_ops_state) = demo_ops_state"
  using operations_need_permission [of demo_ops_env "bearer_request ''a.b''" demo_ops_state] stranger_may_not
  by simp

definition reboot_viewer :: UserRecord where
  "reboot_viewer = new_user ''t'' ''eve'' ''h'' ''s'' ''e@x.io'' ''viewer'' True 1"

definition viewer_db :: db where
  "viewer_db = empty_db\<lparr>users := \<lparr>rows = [reboot_viewer], seq = 1\<rparr>,
     user_permissions := \<lparr>rows = [\<lparr>perm_id = 1, perm_user_id = 1, permission = ''server:reboot''\<rparr>], seq = 1\<rparr>\<rparr>"

definition viewer_request :: http_request where
  "viewer_request = bearer_request (generate_session_token (mac_fn demo_env) ''n'' 1000 ''eve'' (AdminPassword demo_env) 86400)"

lemma viewer_user: "get_current_user demo_env viewer_db viewer_request = Inr reboot_viewer"
proof (rule issued_token_authenticates)
  show "header viewer_request ''authorization'' =
      Some (''Bearer '' @ generate_session_token (mac_fn demo_env) ''n'' 1000 ''eve'' (AdminPassword demo_env) 86400)"
    by (simp add: viewer_request_def bearer_request_def header_def)
  show "clock demo_env \<le> of_int (py_trunc 1000 + 86400)"
    by (simp add: demo_env_def py_trunc_def)
  show "active_user viewer_db ''eve'' = Some reboot_viewer"
    by code_simp
qed simp

lemma viewer_perms: "get_user_permissions viewer_db 1 = [''server:reboot'']"
  by code_simp

lemma viewer_may: "may perm demo_env viewer_request viewer_db \<longleftrightarrow>
    perm \<in> {''server:reboot'', ''logs:view'', ''feedback:submit''}"
  by (auto simp: may_def viewer_user viewer_perms has_permission_def reboot_viewer_def default_perms_def
      DEFAULT_ROLE_PERMISSIONS_def)

lemma validate_fields_one_rejected:
  assumes "distinct (map fst fs)" "(name, ty, dflt) \<in> set fs" "validate_field coerce name ty v = Inl e"
  shows "validate_fields coerce fs [(name, v)] = Inl e"
  using assms(1,2)
proof (induction fs)
  case (Cons f fs)
  obtain n t df where f: "f = (n, t, df)"
    by (cases f) auto
  show ?case
    using Cons f assms(3) by (cases "n = name") force+
qed simp

definition bad_settings :: settings where
  "bad_settings = [(''ServerPlayerMaxNum'', VInt 1000)]"

definition bad_reboot :: RebootRequest where
  "bad_reboot = \<lparr>reboot_countdown = 60, trigger_steam_update = False, reboot_version_tag = [], reboot_message = [],
     reboot_settings = Some bad_settings\<rparr>"

lemma demo_persist:
  "\<exists>g. persist_settings demo_ops_env d demo_engine = (Inr (serialize_ini_settings (merge_settings [] [] d)), g)"
proof -
  have m: "merge_and_serialize None None demo_world (ini_path demo_engine_env) d = Inr (serialize_ini_settings (merge_settings [] [] d))"
    by (simp add: merge_and_serialize_def path_exists_def file_at_def demo_world_def demo_target_def demo_engine_env_def)
  have "\<exists>q w. atomic_write_ini demo_io (ini_path demo_engine_env) t 5 True True demo_world = (Inr q, w)" for t
    by (rule atomic_write_ini_no_faults) (simp_all add: demo_io_def)
  then obtain q w where "atomic_write_ini demo_io (ini_path demo_engine_env)
      (serialize_ini_settings (merge_settings [] [] d)) 5 True True demo_world = (Inr q, w)"
    by blast
  then show ?thesis
    using m by (simp add: persist_settings_def write_ini_file_with_fallback_def) (simp add: demo_engine_env_def)
qed

lemma reboot_skips_settings_checks_witness:
  "\<exists>s'. trigger_reboot demo_ops_env viewer_request bad_reboot (demo_ops_state\<lparr>accounts_db := viewer_db\<rparr>) =
     (Inr (reboot_reply bad_reboot), s') \<and>
   staged_ini (game s') = Some (serialize_ini_settings (merge_settings [] [] bad_settings))"
proof -
  obtain g where g: "persist_settings demo_ops_env bad_settings demo_engine =
      (Inr (serialize_ini_settings (merge_settings [] [] bad_settings)), g)"
    using demo_persist by blast
  have "validate_field strict_coerce ''ServerPlayerMaxNum'' (FInt 1 32) (VInt 1000) = Inl ValidationError"
    by (simp add: validate_field_def strict_coerce_def)
  moreover have "(''ServerPlayerMaxNum'', FInt 1 32, VInt 32) \<in> set GameplaySettingsSchema"
    by (simp add: GameplaySettingsSchema_def schema_groups)
  ultimately have d: "dump_settings strict_coerce bad_settings = Inl ValidationError"
    unfolding dump_settings_def bad_settings_def using validate_fields_one_rejected [OF schema_distinct] by blast
  show ?thesis
    using reboot_skips_settings_checks [of demo_ops_env viewer_request "demo_ops_state\<lparr>accounts_db := viewer_db\<rparr>"
        bad_settings ValidationError bad_reboot _ g] g d viewer_may
    by (simp add: bad_reboot_def bad_settings_def demo_ops_env_def)
qed

definition plain_request :: RebootRequest where
  "plain_request = \<lparr>reboot_countdown = 60, trigger_steam_update = False, reboot_version_tag = [], reboot_message = [],
     reboot_settings = None\<rparr>"

lemma double_reboot_restarts_twice_witness:
  "\<exists>s4. core (events (game s4)) =
     [SaveWorld, RestartService ''palworld'', SaveWorld, RestartService ''palworld''] \<and>
     s4 = snd (run_reboot_task demo_engine_env (snd (run_reboot_task demo_engine_env
       (snd (trigger_reboot demo_ops_env remote_request plain_request
         (snd (trigger_reboot demo_ops_env remote_request plain_request demo_ops_state)))))))"
  using double_reboot_restarts_twice [of demo_ops_env remote_request demo_ops_state plain_request plain_request,
      OF _ _ _ _ _ _ _ _ _ prod.collapse [symmetric] prod.collapse [symmetric] prod.collapse [symmetric] prod.collapse [symmetric]]
  by (simp add: remote_may plain_reboot_def plain_request_def staged_writes_def core_def demo_engine_env_def)

lemma locked_endpoints_refuse_witness:
  "\<exists>m. trigger_reboot demo_ops_env remote_request plain_request (demo_ops_state\<lparr>game := demo_engine\<lparr>lock_mtime := Some 0\<rparr>\<rparr>) =
     (Inl (HTTPException 409 m), demo_ops_state\<lparr>game := demo_engine\<lparr>lock_mtime := Some 0\<rparr>\<rparr>)"
  using locked_endpoints_refuse [of "demo_ops_state\<lparr>game := demo_engine\<lparr>lock_mtime := Some 0\<rparr>\<rparr>" 0 demo_ops_env remote_request]
  by (simp add: remote_may)

lemma saved_settings_survive_reboot_witness:
  "\<exists>s' f. save_sanitized_settings demo_ops_env remote_request [] demo_ops_state = (Inr True, s') \<and>
     file_at (disk_world (apply_staged_configuration demo_engine_env ((game s')\<lparr>disk_world := demo_world\<rparr>)))
       (''/srv'', ''PalWorldSettings.ini'') = Some f \<and>
     f_data f = utf8_encode (serialize_ini_settings [])"
proof -
  let ?ini = "(''/srv'', ''PalWorldSettings.ini'')"
  have m: "merge_settings [] [] [] = []"
    by code_simp
  have d: "dump_settings (coerce_fn demo_ops_env) [] = Inr []"
    by (simp add: dump_settings_def validate_fields_absent list_all_iff)
  obtain g where g: "persist_settings demo_ops_env [] demo_engine = (Inr (serialize_ini_settings []), g)"
    using demo_persist [of "[]"] m by auto
  have "\<exists>info. check_readiness (server_name demo_engine_env) (rest_port demo_engine_env) (info_reply demo_ops_env) = Inr info \<and> ready info"
    by (simp add: demo_ops_env_def check_readiness_def body_object_def)
  then obtain s' where s': "save_sanitized_settings demo_ops_env remote_request [] demo_ops_state = (Inr True, s')"
    by (auto simp: save_sanitized_settings_def guarded_def remote_needs d g)
  have ini: "ini_path demo_engine_env = ?ini" "io_of demo_engine_env = (\<lambda>p. demo_io)"
    by (simp_all add: demo_engine_env_def)
  have t: "tmp_ok demo_io ?ini demo_world" "clean_writes demo_io"
    by (simp_all add: tmp_ok_def tmp_path_of_def demo_io_def file_at_def demo_world_def demo_target_def is_backup_of_def
        startswith_def backup_prefix_def clean_writes_def)
  have c: "\<forall>p \<in> set (staged_candidates demo_engine_env). fst ?ini \<noteq> fst p"
    by (simp add: staged_candidates_def demo_engine_env_def)
  have "merge_and_serialize None None demo_world ?ini [] = Inr (serialize_ini_settings [])"
    using m by (simp add: merge_and_serialize_def path_exists_def file_at_def demo_world_def demo_target_def)
  then show ?thesis
    using saved_settings_survive_reboot [OF s' refl, of demo_world] t c d s' by (auto simp: ini)
qed

lemma history_includes_buffer_witness:
  "\<exists>bs. fst (get_metrics_history demo_ops_env remote_request ''24h''
       (demo_ops_state\<lparr>metrics := empty_collector\<lparr>metrics_buffer := [(demo_snapshot 60)\<lparr>timestamp := isoformat 5\<rparr>]\<rparr>\<rparr>)) = Inr bs \<and>
     sum_list (map sample_count bs) = 1"
proof -
  let ?s = "demo_ops_state\<lparr>metrics := empty_collector\<lparr>metrics_buffer := [(demo_snapshot 60)\<lparr>timestamp := isoformat 5\<rparr>]\<rparr>\<rparr>"
  have a: "ago (fst (window_query ''24h'')) (utc_now demo_ops_env) = Inr (isoformat 0)"
    by (simp add: window_query_def ago_def)
  have "needs_view demo_ops_env remote_request ?s = Inr demo_admin"
    by (simp add: needs_view_def remote_is_admin)
  then obtain bs s' where bs: "get_metrics_history demo_ops_env remote_request ''24h'' ?s = (Inr bs, s')"
    using a by (auto simp: get_metrics_history_def guarded_def flush_def flush_metrics_buffer_def record_snapshots_batch_def
        Let_def get_history_def split_beta)
  have "isoformat 0 \<le> isoformat 5"
    using isoformat_less(1) [of 5 0] by (simp add: max_time_def flip: not_less)
  then have "sum_list (map sample_count bs) = 1"
    using history_includes_buffer [OF bs _ a] by (simp add: metrics_ok_io_def empty_collector_def empty_metrics_def empty_table_def)
  then show ?thesis
    using bs by simp
qed

definition demo_feedback :: FeedbackSubmitRequest where
  "demo_feedback = \<lparr>fb_category = ''bug_report'', fb_title = ''Lag'', fb_description = [],
     fb_fields = [(''current_behavior'', ''freezes'')]\<rparr>"

lemma feedback_round_trip_witness:
  "\<exists>rec meta s' rest. submit_feedback (\<lambda>b. fb_title b) demo_ops_env remote_request demo_feedback demo_ops_state = (Inr (rec, meta), s') \<and>
     list_feedback_submissions demo_ops_env remote_request True None None None 10 0 s' = Inr ((rec, meta) # rest) \<and>
     meta = JObj [(''current_behavior'', JStr ''freezes'')]"
proof -
  obtain rec meta s' where s: "submit_feedback (\<lambda>b. fb_title b) demo_ops_env remote_request demo_feedback demo_ops_state = (Inr (rec, meta), s')"
    by (simp add: submit_feedback_def guarded_def remote_needs Let_def split_beta)
  have "valid_feedback demo_feedback"
    by code_simp
  then show ?thesis
    using feedback_round_trip [OF s, of 10 None] s by (auto simp: feedback_metadata_def demo_feedback_def)
qed

end
