(* ===== verification/Supervisor.thy ===== *)
theory Supervisor
  imports Json Text_Codec
begin

section \<open>The privileged supervisor\<close>

text \<open>
  \<^verbatim>\<open>app/supervisor\<close>: a daemon that runs as root and executes a short list of host
  operations for the unprivileged web process, over a Unix socket with one JSON-RPC object
  per line. The request models of \<^verbatim>\<open>protocol.py\<close>, the peer check of \<^verbatim>\<open>auth.py\<close>, the handlers
  of \<^verbatim>\<open>handlers.py\<close> with the argument vectors they execute, the connection loop of
  \<^verbatim>\<open>server.py\<close> and the client of \<^verbatim>\<open>client.py\<close>. Pydantic's JSON reader, writer and scalar
  conversions are the record \<open>wire\<close>; the safety theorems hold for every \<open>wire\<close>, and the
  end to end theorem uses what \<open>wire_ok\<close> states of it: it reads back what it wrote, on one
  line, and leaves values of the declared type alone.
\<close>

subsection \<open>Requests\<close>

definition ALLOWED_SERVICES :: "string list" where
  "ALLOWED_SERVICES = [''palworld.service'', ''palworld-manager.service'', ''palworld-dedicated.service'']"

definition ALLOWED_METHODS :: "string list" where
  "ALLOWED_METHODS =
     [''service.restart'', ''service.status'', ''service.reload'', ''system.reboot'', ''system.deploy'']"

record wire =
  parse_json :: "string \<Rightarrow> json option"
  dump_json :: "json \<Rightarrow> string"
  as_str :: "json \<Rightarrow> string option"
  as_int :: "json \<Rightarrow> int option"
  as_bool :: "json \<Rightarrow> bool option"

datatype params =
    ServiceRestartParams string int
  | ServiceStatusParams string
  | ServiceReloadParams bool
  | SystemRebootParams int string
  | SystemDeployParams string

record rpc_request =
  rpc_id :: string
  rpc_method :: string
  rpc_params :: "(string, json) dict"

definition is_alnum :: "char \<Rightarrow> bool" where
  "is_alnum c \<longleftrightarrow> is_ascii_alpha c \<or> is_digit c"

definition branch_char :: "char \<Rightarrow> bool" where
  "branch_char c \<longleftrightarrow> is_alnum c \<or> c = CHR ''.'' \<or> c = CHR ''_'' \<or> c = CHR ''/'' \<or> c = CHR ''-''"

text \<open>\<open>^[a-zA-Z0-9][a-zA-Z0-9._/\-]{0,127}$\<close> with \<open>re.match\<close>: the dollar also matches before a
  final line feed.\<close>

definition branch_matches :: "string \<Rightarrow> bool" where
  "branch_matches s =
     (case s of
        [] \<Rightarrow> False
      | c # t \<Rightarrow>
          (let body = (if t \<noteq> [] \<and> last t = CHR 0x0A then butlast t else t)
           in is_alnum c \<and> list_all branch_char body \<and> length body \<le> 127))"

text \<open>A field with a default, a converter and a constraint; a required field has no default.\<close>

definition model_field ::
  "(json \<Rightarrow> 'a option) \<Rightarrow> ('a \<Rightarrow> bool) \<Rightarrow> 'a option \<Rightarrow> (string, json) dict \<Rightarrow> string \<Rightarrow> 'a option" where
  "model_field conv ok dflt d name =
     (case dict_get d name of
        None \<Rightarrow> dflt
      | Some j \<Rightarrow> (case conv j of Some v \<Rightarrow> if ok v then Some v else None | None \<Rightarrow> None))"

definition default_reason :: string where
  "default_reason = ''Operator-initiated reboot via web management plane''"

definition service_field :: "wire \<Rightarrow> (string, json) dict \<Rightarrow> string option" where
  "service_field wi d = model_field (as_str wi) (\<lambda>s. s \<in> set ALLOWED_SERVICES) None d ''service_name''"

definition validate_restart :: "wire \<Rightarrow> (string, json) dict \<Rightarrow> params option" where
  "validate_restart wi d =
     do { s \<leftarrow> service_field wi d;
          t \<leftarrow> model_field (as_int wi) (\<lambda>t. 5 \<le> t \<and> t \<le> 120) (Some 30) d ''timeout_seconds'';
          Some (ServiceRestartParams s t) }"

definition validate_status :: "wire \<Rightarrow> (string, json) dict \<Rightarrow> params option" where
  "validate_status wi d = map_option ServiceStatusParams (service_field wi d)"

definition validate_reload :: "wire \<Rightarrow> (string, json) dict \<Rightarrow> params option" where
  "validate_reload wi d =
     map_option ServiceReloadParams (model_field (as_bool wi) (\<lambda>_. True) (Some True) d ''daemon_reload'')"

definition validate_reboot :: "wire \<Rightarrow> (string, json) dict \<Rightarrow> params option" where
  "validate_reboot wi d =
     do { n \<leftarrow> model_field (as_int wi) (\<lambda>n. 0 \<le> n \<and> n \<le> 3600) (Some 0) d ''delay_seconds'';
          r \<leftarrow> model_field (as_str wi) (\<lambda>r. length r \<le> 256) (Some default_reason) d ''reason'';
          Some (SystemRebootParams n r) }"

definition validate_deploy :: "wire \<Rightarrow> (string, json) dict \<Rightarrow> params option" where
  "validate_deploy wi d =
     map_option SystemDeployParams
       (model_field (as_str wi) (\<lambda>b. length b \<le> 128 \<and> branch_matches b) (Some ''main'') d ''target_branch'')"

definition PARAM_MODELS :: "(string, wire \<Rightarrow> (string, json) dict \<Rightarrow> params option) dict" where
  "PARAM_MODELS =
     [(''service.restart'', validate_restart), (''service.status'', validate_status),
      (''service.reload'', validate_reload), (''system.reboot'', validate_reboot),
      (''system.deploy'', validate_deploy)]"

text \<open>\<open>JSONRPCRequest.model_validate_json(line)\<close>\<close>

fun as_object :: "json \<Rightarrow> (string, json) dict option" where
  "as_object (JObj d) = Some d"
| "as_object _ = None"

fun is_version :: "json \<Rightarrow> bool" where
  "is_version (JStr s) = (s = ''2.0'')"
| "is_version _ = False"

definition validate_request :: "wire \<Rightarrow> string \<Rightarrow> rpc_request option" where
  "validate_request wi line =
     do { j \<leftarrow> parse_json wi line;
          d \<leftarrow> as_object j;
          _ \<leftarrow> model_field Some is_version (Some (JStr ''2.0'')) d ''jsonrpc'';
          i \<leftarrow> model_field (as_str wi) (\<lambda>i. length i \<le> 64) None d ''id'';
          m \<leftarrow> model_field (as_str wi) (\<lambda>m. m \<in> set ALLOWED_METHODS) None d ''method'';
          p \<leftarrow> model_field as_object (\<lambda>_. True) (Some []) d ''params'';
          Some \<lparr>rpc_id = i, rpc_method = m, rpc_params = p\<rparr> }"

subsection \<open>Handlers\<close>

text \<open>What the host does with one command: whether it can be started, whether it outlives its
  timeout, its exit status and its (decoded, stripped) output.\<close>

record process =
  spawn_error :: "py_error option"
  timed_out :: bool
  returncode :: int
  stdout_text :: string
  stderr_text :: string
  pid :: int

type_synonym argv = "string list"

text \<open>A handler gives its result or exception and the commands it executed.\<close>

definition run :: "process \<Rightarrow> argv \<Rightarrow> json \<Rightarrow> json result \<times> argv list" where
  "run p cmd answer =
     (case spawn_error p of
        Some e \<Rightarrow> (Inl e, [])
      | None \<Rightarrow> (Inr answer, [cmd]))"

definition handle_service_restart :: "process \<Rightarrow> string \<Rightarrow> int \<Rightarrow> json result \<times> argv list" where
  "handle_service_restart p service timeout_seconds =
     run p [''/bin/systemctl'', ''restart'', service]
       (if timed_out p then
          JObj [(''status'', JStr ''error''), (''service'', JStr service), (''reason'', JStr ''timeout'')]
        else if returncode p \<noteq> 0 then
          JObj [(''status'', JStr ''error''), (''service'', JStr service), (''returncode'', JInt (returncode p)),
                (''stderr'', JStr (stderr_text p))]
        else JObj [(''status'', JStr ''success''), (''service'', JStr service), (''action'', JStr ''restart'')])"

definition handle_service_status :: "process \<Rightarrow> string \<Rightarrow> json result \<times> argv list" where
  "handle_service_status p service =
     run p [''/bin/systemctl'', ''is-active'', service]
       (JObj [(''service'', JStr service), (''active_state'', JStr (stdout_text p))])"

definition handle_service_reload :: "process \<Rightarrow> bool \<Rightarrow> json result \<times> argv list" where
  "handle_service_reload p daemon_reload =
     (if daemon_reload then
        run p [''/bin/systemctl'', ''daemon-reload'']
          (JObj [(''status'', JStr ''success''), (''action'', JStr ''daemon-reload'')])
      else (Inr (JObj [(''status'', JStr ''success''), (''action'', JStr ''none'')]), []))"

definition handle_system_reboot :: "process \<Rightarrow> int \<Rightarrow> string \<Rightarrow> json result \<times> argv list" where
  "handle_system_reboot p delay_seconds reason =
     run p
       (if 0 < delay_seconds
        then [''/sbin/shutdown'', ''-r'', ''+'' @ int_str (max 1 (delay_seconds div 60)), reason]
        else [''/sbin/shutdown'', ''-r'', ''now'', reason])
       (JObj [(''status'', JStr ''scheduled''), (''delay_seconds'', JInt delay_seconds), (''reason'', JStr reason)])"

definition handle_system_deploy :: "process \<Rightarrow> string \<Rightarrow> json result \<times> argv list" where
  "handle_system_deploy p target_branch =
     run p [''/var/lib/palmanager/deploy-runner.sh'', target_branch]
       (JObj [(''status'', JStr ''dispatched''), (''target_branch'', JStr target_branch), (''pid'', JInt (pid p))])"

definition METHOD_DISPATCH :: "bool \<Rightarrow> process \<Rightarrow> params \<Rightarrow> json result \<times> argv list" where
  "METHOD_DISPATCH posix p ps =
     (if \<not> posix then (Inr (JObj [(''status'', JStr ''skipped''), (''reason'', JStr ''non-posix'')]), [])
      else (case ps of
              ServiceRestartParams s t \<Rightarrow> handle_service_restart p s t
            | ServiceStatusParams s \<Rightarrow> handle_service_status p s
            | ServiceReloadParams b \<Rightarrow> handle_service_reload p b
            | SystemRebootParams n r \<Rightarrow> handle_system_reboot p n r
            | SystemDeployParams b \<Rightarrow> handle_system_deploy p b))"

subsection \<open>The server\<close>

definition rpc_result :: "string \<Rightarrow> json \<Rightarrow> json" where
  "rpc_result i r = JObj [(''jsonrpc'', JStr ''2.0''), (''id'', JStr i), (''result'', r)]"

definition rpc_error :: "string option \<Rightarrow> int \<Rightarrow> string \<Rightarrow> json" where
  "rpc_error i code message =
     JObj [(''jsonrpc'', JStr ''2.0''), (''id'', case i of None \<Rightarrow> JNull | Some s \<Rightarrow> JStr s),
           (''error'', JObj [(''code'', JInt code), (''message'', JStr message), (''data'', JNull)])]"

definition validate_peer_credentials :: "(int \<times> int \<times> int) result \<Rightarrow> int \<Rightarrow> (int \<times> int \<times> int) result" where
  "validate_peer_credentials creds allowed_uid =
     bind_result creds (\<lambda>(pid, uid, gid).
       if uid = allowed_uid \<or> uid = 0 then Inr (pid, uid, gid) else Inl PermissionError)"

text \<open>One line: the response and the commands executed.\<close>

definition dispatch_line :: "wire \<Rightarrow> bool \<Rightarrow> process \<Rightarrow> string \<Rightarrow> json \<times> argv list" where
  "dispatch_line wi posix p line =
     (case validate_request wi line of
        None \<Rightarrow> (rpc_error None (- 32600) ''Invalid Request'', [])
      | Some req \<Rightarrow>
          (case Option.bind (dict_get PARAM_MODELS (rpc_method req)) (\<lambda>model. model wi (rpc_params req)) of
             None \<Rightarrow> (rpc_error (Some (rpc_id req)) (- 32603) ''Internal Error'', [])
           | Some ps \<Rightarrow>
               (case METHOD_DISPATCH posix p ps of
                  (Inl e, cmds) \<Rightarrow> (rpc_error (Some (rpc_id req)) (- 32603) ''Internal Error'', cmds)
                | (Inr r, cmds) \<Rightarrow> (rpc_result (rpc_id req) r, cmds))))"

text \<open>The lines a reader takes from a byte stream, each with its line feed; the last one may
  lack it.\<close>

fun lines_of :: "string \<Rightarrow> string list" where
  "lines_of [] = []"
| "lines_of (c # cs) =
     (if c = CHR 0x0A then [c] # lines_of cs
      else (case lines_of cs of [] \<Rightarrow> [[c]] | l # ls \<Rightarrow> (c # l) # ls))"

text \<open>\<open>StreamReader.readline\<close> raises \<open>ValueError\<close> when the text before the line feed is longer
  than the stream's limit of 65536 bytes.\<close>

definition readline_raises :: "string \<Rightarrow> bool" where
  "readline_raises l \<longleftrightarrow> 65536 < length (if l \<noteq> [] \<and> last l = CHR 0x0A then butlast l else l)"

text \<open>The loop of \<open>_handle_client\<close>; the process outcomes are consumed one per line.\<close>

fun serve_lines :: "wire \<Rightarrow> bool \<Rightarrow> (nat \<Rightarrow> process) \<Rightarrow> nat \<Rightarrow> string list \<Rightarrow> json list \<times> argv list" where
  "serve_lines wi posix ps n [] = ([], [])"
| "serve_lines wi posix ps n (l # ls) =
     (if readline_raises l then ([], [])
      else (let (resp, cmds) =
                  (if 65536 < length l then (rpc_error None (- 32600) ''Invalid Request: line too long'', [])
                   else dispatch_line wi posix (ps n) l);
                (resps, more) = serve_lines wi posix ps (Suc n) ls
            in (resp # resps, cmds @ more)))"

definition handle_client ::
  "wire \<Rightarrow> bool \<Rightarrow> int \<Rightarrow> (int \<times> int \<times> int) result \<Rightarrow> (nat \<Rightarrow> process) \<Rightarrow> string \<Rightarrow> json list \<times> argv list" where
  "handle_client wi posix allowed_uid creds ps input =
     (case validate_peer_credentials creds allowed_uid of
        Inl PermissionError \<Rightarrow> ([rpc_error None (- 32000) ''Permission denied''], [])
      | _ \<Rightarrow> serve_lines wi posix ps 0 (lines_of input))"

text \<open>The UID the daemon accepts when none is configured.\<close>

definition main_allowed_uid :: "int \<Rightarrow> bool \<Rightarrow> int option \<Rightarrow> int" where
  "main_allowed_uid configured posix palmanager_uid =
     (if configured = 0 \<and> posix then (case palmanager_uid of Some u \<Rightarrow> u | None \<Rightarrow> configured)
      else configured)"

subsection \<open>The client\<close>

datatype client_error =
    SupervisorClientError
  | SupervisorRPCError int string
  | RequestInvalid
  | ResponseInvalid

definition rpc_payload :: "string \<Rightarrow> string \<Rightarrow> (string, json) dict \<Rightarrow> json" where
  "rpc_payload request_id method params =
     JObj [(''jsonrpc'', JStr ''2.0''), (''id'', JStr request_id), (''method'', JStr method), (''params'', JObj params)]"

definition as_opt_str :: "wire \<Rightarrow> json \<Rightarrow> string option option" where
  "as_opt_str wi j = (case j of JNull \<Rightarrow> Some None | _ \<Rightarrow> map_option Some (as_str wi j))"

definition error_response :: "wire \<Rightarrow> (string, json) dict \<Rightarrow> (int \<times> string) option" where
  "error_response wi d =
     do { _ \<leftarrow> model_field Some is_version (Some (JStr ''2.0'')) d ''jsonrpc'';
          _ \<leftarrow> model_field (as_opt_str wi) (\<lambda>_. True) None d ''id'';
          e \<leftarrow> model_field as_object (\<lambda>_. True) None d ''error'';
          c \<leftarrow> model_field (as_int wi) (\<lambda>_. True) None e ''code'';
          m \<leftarrow> model_field (as_str wi) (\<lambda>_. True) None e ''message'';
          _ \<leftarrow> model_field Some (\<lambda>j. j = JNull \<or> as_object j \<noteq> None) (Some JNull) e ''data'';
          Some (c, m) }"

definition result_response :: "wire \<Rightarrow> (string, json) dict \<Rightarrow> (string, json) dict option" where
  "result_response wi d =
     do { _ \<leftarrow> model_field Some is_version (Some (JStr ''2.0'')) d ''jsonrpc'';
          _ \<leftarrow> model_field (as_str wi) (\<lambda>_. True) None d ''id'';
          model_field as_object (\<lambda>_. True) None d ''result'' }"

definition loads_bytes :: "string \<Rightarrow> json option" where
  "loads_bytes b = Option.bind (utf8_decode b) loads"

definition read_response :: "wire \<Rightarrow> string \<Rightarrow> client_error + (string, json) dict" where
  "read_response wi line =
     (case Option.bind (loads_bytes line) as_object of
        None \<Rightarrow> Inl ResponseInvalid
      | Some d \<Rightarrow>
          if dict_get d ''error'' \<noteq> None then
            (case error_response wi d of
               None \<Rightarrow> Inl ResponseInvalid
             | Some (c, m) \<Rightarrow> Inl (SupervisorRPCError c m))
          else
            (case result_response wi d of
               None \<Rightarrow> Inl ResponseInvalid
             | Some r \<Rightarrow> Inr r))"

text \<open>The transport: whether the socket could be opened, and the line the peer answers to the
  bytes sent, \<open>None\<close> when it does not answer in time. The empty line is the end of stream.\<close>

definition send_request ::
  "wire \<Rightarrow> bool \<Rightarrow> (string \<Rightarrow> string option) \<Rightarrow> string \<Rightarrow> string \<Rightarrow> (string, json) dict \<Rightarrow>
     client_error + (string, json) dict" where
  "send_request wi socket_open peer request_id method params =
     (if 64 < length request_id \<or> method \<notin> set ALLOWED_METHODS then Inl RequestInvalid
      else if \<not> socket_open then Inl SupervisorClientError
      else (case peer (dump_json wi (rpc_payload request_id method params) @ [CHR 0x0A]) of
              None \<Rightarrow> Inl SupervisorClientError
            | Some line \<Rightarrow> if line = [] then Inl SupervisorClientError else read_response wi line))"

definition restart_service_params :: "string \<Rightarrow> int \<Rightarrow> (string, json) dict" where
  "restart_service_params service_name timeout_seconds =
     [(''service_name'', JStr service_name), (''timeout_seconds'', JInt timeout_seconds)]"

definition get_service_status_params :: "string \<Rightarrow> (string, json) dict" where
  "get_service_status_params service_name = [(''service_name'', JStr service_name)]"

definition reload_systemd_params :: "bool \<Rightarrow> (string, json) dict" where
  "reload_systemd_params daemon_reload = [(''daemon_reload'', JBool daemon_reload)]"

definition schedule_reboot_params :: "int \<Rightarrow> string \<Rightarrow> (string, json) dict" where
  "schedule_reboot_params delay_seconds reason =
     (''delay_seconds'', JInt delay_seconds) # (if reason \<noteq> [] then [(''reason'', JStr reason)] else [])"

definition trigger_deploy_params :: "string \<Rightarrow> (string, json) dict" where
  "trigger_deploy_params target_branch = [(''target_branch'', JStr target_branch)]"

text \<open>The server as the peer of a client: the bytes it writes on a connection that carries
  \<open>input\<close>, of which the client reads the first line.\<close>

definition server_peer ::
  "wire \<Rightarrow> int \<Rightarrow> (int \<times> int \<times> int) result \<Rightarrow> (nat \<Rightarrow> process) \<Rightarrow> string \<Rightarrow> string option" where
  "server_peer wi allowed_uid creds ps input =
     Some (case lines_of (concat (map (\<lambda>r. dump_json wi r @ [CHR 0x0A])
             (fst (handle_client wi True allowed_uid creds ps input)))) of
             [] \<Rightarrow> [] | l # _ \<Rightarrow> l)"

subsection \<open>Nothing but the listed commands\<close>

definition permitted :: "argv \<Rightarrow> bool" where
  "permitted cmd \<longleftrightarrow>
     (\<exists>s \<in> set ALLOWED_SERVICES. cmd = [''/bin/systemctl'', ''restart'', s] \<or>
        cmd = [''/bin/systemctl'', ''is-active'', s]) \<or>
     cmd = [''/bin/systemctl'', ''daemon-reload''] \<or>
     (\<exists>r. length r \<le> 256 \<and> cmd = [''/sbin/shutdown'', ''-r'', ''now'', r]) \<or>
     (\<exists>n r. 1 \<le> n \<and> n \<le> 60 \<and> length r \<le> 256 \<and> cmd = [''/sbin/shutdown'', ''-r'', ''+'' @ int_str n, r]) \<or>
     (\<exists>b. branch_matches b \<and> length b \<le> 128 \<and> cmd = [''/var/lib/palmanager/deploy-runner.sh'', b])"

definition params_ok :: "params \<Rightarrow> bool" where
  "params_ok ps =
     (case ps of
        ServiceRestartParams s t \<Rightarrow> s \<in> set ALLOWED_SERVICES \<and> 5 \<le> t \<and> t \<le> 120
      | ServiceStatusParams s \<Rightarrow> s \<in> set ALLOWED_SERVICES
      | ServiceReloadParams b \<Rightarrow> True
      | SystemRebootParams n r \<Rightarrow> 0 \<le> n \<and> n \<le> 3600 \<and> length r \<le> 256
      | SystemDeployParams b \<Rightarrow> branch_matches b \<and> length b \<le> 128)"

lemma model_field_ok:
  "model_field conv ok dflt d name = Some v \<Longrightarrow> ok v \<or> dflt = Some v"
  by (auto simp: model_field_def split: option.splits if_splits)

lemma main_branch_ok: "branch_matches ''main''"
  by code_simp

lemma service_field_ok: "service_field wi d = Some s \<Longrightarrow> s \<in> set ALLOWED_SERVICES"
  unfolding service_field_def by (drule model_field_ok) simp

lemma validated_params_ok:
  assumes "dict_get PARAM_MODELS m = Some model" "model wi d = Some ps"
  shows "params_ok ps"
proof -
  have r: "validate_restart wi d = Some ps \<Longrightarrow> params_ok ps"
    by (auto simp: validate_restart_def params_ok_def bind_eq_Some_conv dest: service_field_ok dest!: model_field_ok)
  have s: "validate_status wi d = Some ps \<Longrightarrow> params_ok ps"
    by (auto simp: validate_status_def params_ok_def dest: service_field_ok)
  have l: "validate_reload wi d = Some ps \<Longrightarrow> params_ok ps"
    by (auto simp: validate_reload_def params_ok_def)
  have b: "validate_reboot wi d = Some ps \<Longrightarrow> params_ok ps"
    by (auto simp: validate_reboot_def params_ok_def bind_eq_Some_conv default_reason_def dest!: model_field_ok)
  have e: "validate_deploy wi d = Some ps \<Longrightarrow> params_ok ps"
    using main_branch_ok by (auto simp: validate_deploy_def params_ok_def dest!: model_field_ok)
  have "model = validate_restart \<or> model = validate_status \<or> model = validate_reload \<or>
      model = validate_reboot \<or> model = validate_deploy"
    using assms(1) by (auto simp: PARAM_MODELS_def split: if_splits)
  then show ?thesis
    using assms(2) r s l b e by auto
qed

lemma dispatch_permitted: "params_ok ps \<Longrightarrow> list_all permitted (snd (METHOD_DISPATCH posix p ps))"
proof -
  assume ok: "params_ok ps"
  have "\<exists>k \<ge> 1. k \<le> 60 \<and> int_str (max 1 (n div 60)) = int_str k" if "n \<le> 3600" for n
    using that by (intro exI [of _ "max 1 (n div 60)"]) auto
  then show ?thesis
    using ok
    by (auto simp: METHOD_DISPATCH_def handle_service_restart_def handle_service_status_def
        handle_service_reload_def handle_system_reboot_def handle_system_deploy_def run_def permitted_def
        params_ok_def split: params.splits option.splits)
qed

lemma dispatch_line_permitted: "list_all permitted (snd (dispatch_line wi posix p line))"
proof -
  have "list_all permitted cmds" if "METHOD_DISPATCH posix p ps = (r, cmds)"
    "Option.bind (dict_get PARAM_MODELS m) (\<lambda>model. model wi d) = Some ps" for r cmds ps m d
  proof -
    have "params_ok ps"
      using that(2) validated_params_ok by (auto simp: bind_eq_Some_conv)
    then show ?thesis
      using dispatch_permitted [of ps posix p] that(1) by simp
  qed
  then show ?thesis
    by (auto simp: dispatch_line_def split: option.split prod.split sum.split)
qed

lemma serve_lines_permitted: "list_all permitted (snd (serve_lines wi posix ps n ls))"
  by (induction ls arbitrary: n) (auto simp: dispatch_line_permitted split_beta Let_def)

lemma handle_client_permitted: "list_all permitted (snd (handle_client wi posix uid creds ps input))"
  by (auto simp: handle_client_def serve_lines_permitted split: sum.split py_error.split)

subsection \<open>One response per line\<close>

fun response_id :: "json \<Rightarrow> string option" where
  "response_id (JObj d) = (case dict_get d ''id'' of Some (JStr i) \<Rightarrow> Some i | _ \<Rightarrow> None)"
| "response_id _ = None"

lemma dispatch_line_id:
  "response_id (fst (dispatch_line wi posix p line)) = map_option rpc_id (validate_request wi line)"
  by (auto simp: dispatch_line_def rpc_error_def rpc_result_def split: option.split sum.split prod.split)

lemma serve_lines_responses:
  assumes "list_all (\<lambda>l. length l \<le> 65536) ls"
  shows "map response_id (fst (serve_lines wi posix ps n ls)) = map (\<lambda>l. map_option rpc_id (validate_request wi l)) ls"
  using assms
proof (induction ls arbitrary: n)
  case (Cons l ls)
  then have "\<not> readline_raises l" "\<not> 65536 < length l"
    by (auto simp: readline_raises_def)
  then show ?case
    using Cons by (simp add: Let_def split_beta dispatch_line_id)
qed simp

subsection \<open>From the client's call to the command\<close>

text \<open>What the client and the server rely on of the JSON library.\<close>

definition wire_ok :: "wire \<Rightarrow> bool" where
  "wire_ok wi \<longleftrightarrow>
     (\<forall>v. json_plain v \<longrightarrow> parse_json wi (dump_json wi v @ [CHR 0x0A]) = Some v \<and>
        loads_bytes (dump_json wi v @ [CHR 0x0A]) = Some v \<and> CHR 0x0A \<notin> set (dump_json wi v)) \<and>
     (\<forall>s. as_str wi (JStr s) = Some s) \<and> (\<forall>i. as_int wi (JInt i) = Some i) \<and> (\<forall>b. as_bool wi (JBool b) = Some b)"

lemma lines_of_line: "CHR 0x0A \<notin> set x \<Longrightarrow> lines_of (x @ CHR 0x0A # rest) = (x @ [CHR 0x0A]) # lines_of rest"
  by (induction x) auto

definition well_formed_call :: "string \<Rightarrow> string \<Rightarrow> (string, json) dict \<Rightarrow> bool" where
  "well_formed_call request_id method params \<longleftrightarrow>
     length request_id \<le> 64 \<and> method \<in> set ALLOWED_METHODS \<and> json_plain (JObj params)"

lemma validate_request_payload:
  assumes "wire_ok wi" "well_formed_call i m d"
  shows "validate_request wi (dump_json wi (rpc_payload i m d) @ [CHR 0x0A]) =
    Some \<lparr>rpc_id = i, rpc_method = m, rpc_params = d\<rparr>"
proof -
  have "json_plain (rpc_payload i m d)"
    using assms(2) by (simp add: rpc_payload_def well_formed_call_def)
  then show ?thesis
    using assms by (simp add: validate_request_def wire_ok_def well_formed_call_def rpc_payload_def model_field_def)
qed

lemma rpc_end_to_end:
  assumes wi: "wire_ok wi" and call: "well_formed_call i m d"
    and model: "Option.bind (dict_get PARAM_MODELS m) (\<lambda>model. model wi d) = Some q"
    and run: "METHOD_DISPATCH True (ps 0) q = (Inr (JObj r), cmds)" "json_plain (JObj r)"
    and len: "length (dump_json wi (rpc_payload i m d)) < 65536"
    and peer: "validate_peer_credentials creds uid = Inr c"
  shows "send_request wi True (server_peer wi uid creds ps) i m d = Inr r \<and>
    snd (handle_client wi True uid creds ps (dump_json wi (rpc_payload i m d) @ [CHR 0x0A])) = cmds"
proof -
  let ?line = "dump_json wi (rpc_payload i m d) @ [CHR 0x0A]"
  have plain: "json_plain (rpc_payload i m d)" "json_plain (rpc_result i (JObj r))"
    using call run(2) by (simp_all add: rpc_payload_def rpc_result_def well_formed_call_def)
  have one: "lines_of (dump_json wi v @ [CHR 0x0A]) = [dump_json wi v @ [CHR 0x0A]]" if "json_plain v" for v
    using wi that lines_of_line [of "dump_json wi v" "[]"] by (simp add: wire_ok_def)
  have "dispatch_line wi True (ps 0) ?line = (rpc_result i (JObj r), cmds)"
    by (simp add: dispatch_line_def validate_request_payload [OF wi call] model run(1))
  moreover have "\<not> readline_raises ?line" "\<not> 65536 < length ?line"
    using len by (simp_all add: readline_raises_def)
  ultimately have h: "handle_client wi True uid creds ps ?line = ([rpc_result i (JObj r)], cmds)"
    using peer by (simp add: handle_client_def one [OF plain(1)])
  have rd: "read_response wi (dump_json wi (rpc_result i (JObj r)) @ [CHR 0x0A]) = Inr r"
    using wi plain(2)
    by (simp add: read_response_def wire_ok_def rpc_result_def result_response_def model_field_def)
  have "server_peer wi uid creds ps ?line = Some (dump_json wi (rpc_result i (JObj r)) @ [CHR 0x0A])"
    by (simp add: server_peer_def h one [OF plain(2)])
  then show ?thesis
    using call rd h by (simp add: send_request_def well_formed_call_def)
qed

text \<open>A wire made of \<open>json.dumps\<close>, \<open>json.loads\<close> and conversions that accept exactly the
  declared type.\<close>

definition strict_wire :: wire where
  "strict_wire = \<lparr>parse_json = loads_bytes, dump_json = dumps (\<lambda>_. []) '','' '':'',
     as_str = (\<lambda>j. case j of JStr s \<Rightarrow> Some s | _ \<Rightarrow> None),
     as_int = (\<lambda>j. case j of JInt i \<Rightarrow> Some i | _ \<Rightarrow> None),
     as_bool = (\<lambda>j. case j of JBool b \<Rightarrow> Some b | _ \<Rightarrow> None)\<rparr>"

definition printable :: "char \<Rightarrow> bool" where
  "printable c \<longleftrightarrow> 32 \<le> ord c \<and> ord c < 127"

lemma printable_punct:
  "printable (CHR ''['')" "printable (CHR '']'')" "printable (CHR ''{'')" "printable (CHR ''}'')"
  "printable (CHR '','')" "printable (CHR '':'')" "printable (CHR ''n'')" "printable (CHR ''u'')"
  "printable (CHR ''l'')" "printable (CHR ''t'')" "printable (CHR ''r'')" "printable (CHR ''e'')"
  "printable (CHR ''f'')" "printable (CHR ''a'')" "printable (CHR ''s'')"
  by (simp_all add: printable_def ord_def)

lemma escape_printable: "list_all printable (escape_char c)"
proof -
  have h: "n < 16 \<Longrightarrow> printable (hex_digit n)" for n
    by (simp add: printable_def hex_digit_def ord_char_of)
  have "ord c div 16 < 16"
    using ord_less_256 [of c] by auto
  then show ?thesis
    using h [of "ord c div 16"] h [of "ord c mod 16"]
    by (simp add: escape_char_def) (simp add: printable_def ord_def)
qed

lemma join_printable:
  "list_all printable sep \<Longrightarrow> list_all (list_all printable) xs \<Longrightarrow> list_all printable (join sep xs)"
  by (induction sep xs rule: join.induct) auto

lemma quote_printable: "list_all printable (json_quote s)"
proof -
  have "list_all printable (concat (map escape_char s))"
    using escape_printable by (induction s) auto
  then show ?thesis
    by (simp add: json_quote_def printable_def ord_def)
qed

lemma int_str_printable: "list_all printable (int_str i)"
proof -
  have "list_all printable (nat_str n)" for n
    using nat_str_digits [of n] by (auto simp: list_all_iff printable_def is_digit_def)
  then show ?thesis
    by (simp add: int_str_def printable_def ord_def)
qed

lemma dumps_printable:
  assumes "list_all printable isep" "list_all printable ksep" "json_plain v"
  shows "list_all printable (dumps fr isep ksep v)"
  using assms(3)
proof (induction v)
  case (JArr vs)
  then have "list_all (list_all printable) (map (dumps fr isep ksep) vs)"
    by (auto simp: list_all_iff)
  then show ?case
    using join_printable [OF assms(1)] by (simp add: printable_punct)
next
  case (JObj kvs)
  then have "list_all (list_all printable) (map (\<lambda>(k, v). json_quote k @ ksep @ dumps fr isep ksep v) kvs)"
    using quote_printable assms(2) by (force simp: list_all_iff)
  then show ?case
    using join_printable [OF assms(1)] by (simp add: printable_punct)
qed (simp_all add: quote_printable int_str_printable printable_punct)


lemma utf8_decode_ascii: "list_all (\<lambda>c. ord c < 128) s \<Longrightarrow> utf8_decode s = Some s"
  by (induction s) auto

lemma loads_dumps_line:
  assumes "separators isep ksep" "json_plain v"
  shows "loads (dumps fr isep ksep v @ [CHR 0x0A]) = Some v"
proof -
  let ?t = "dumps fr isep ksep v"
  have "skip_ws (?t @ [CHR 0x0A]) = ?t @ [CHR 0x0A]"
    using dumps_head [OF assms(2), of fr "\<lambda>_. []" isep ksep 0] by (auto simp: dumps_lines_flat skip_ws_id)
  moreover have "num_stop [CHR 0x0A]"
    by (simp add: num_stop_def is_digit_def is_exp_char_def ord_def)
  then have "parse_value (Suc (Suc (length ?t))) (?t @ [CHR 0x0A]) = Some (v, [CHR 0x0A])"
    using reads_back_dumps [OF assms, of fr, unfolded reads_back_def, rule_format,
        of "Suc (Suc (length ?t))" "[CHR 0x0A]"] by (simp del: parse_value.simps)
  moreover have "skip_ws [CHR 0x0A] = []"
    by (simp add: skip_ws_def is_ws_def)
  ultimately show ?thesis
    by (simp add: loads_def del: parse_value.simps)
qed

lemma strict_wire_ok: "wire_ok strict_wire"
proof -
  have "loads_bytes (dumps (\<lambda>_. []) '','' '':'' v @ [CHR 0x0A]) = Some v \<and>
      CHR 0x0A \<notin> set (dumps (\<lambda>_. []) '','' '':'' v)" if "json_plain v" for v
  proof -
    have p: "list_all printable (dumps (\<lambda>_. []) '','' '':'' v)"
      using that by (intro dumps_printable) (simp_all add: printable_punct)
    then have "list_all (\<lambda>c. ord c < 128) (dumps (\<lambda>_. []) '','' '':'' v @ [CHR 0x0A])"
      by (auto simp: list_all_iff printable_def) (simp add: ord_def)
    moreover have "\<not> printable (CHR 0x0A)"
      by (simp add: printable_def ord_def)
    then have "CHR 0x0A \<notin> set (dumps (\<lambda>_. []) '','' '':'' v)"
      using p by (auto simp: list_all_iff)
    moreover have "loads (dumps (\<lambda>_. []) '','' '':'' v @ [CHR 0x0A]) = Some v"
      by (rule loads_dumps_line [OF _ that]) (simp add: separators_def)
    ultimately show ?thesis
      by (simp add: loads_bytes_def utf8_decode_ascii)
  qed
  then show ?thesis
    by (simp add: wire_ok_def strict_wire_def)
qed

lemma length_json_quote: "length (json_quote s) \<le> 6 * length s + 2"
proof -
  have "length (escape_char c) \<le> 6" for c
    by (simp add: escape_char_def)
  then have "length (concat (map escape_char s)) \<le> 6 * length s"
    by (induction s) (simp_all add: add_le_mono)
  then show ?thesis
    by (simp add: json_quote_def)
qed

subsection \<open>Correctness of the supervisor\<close>

text \<open>C11. Whatever bytes arrive on a connection, however the JSON library reads them and whatever
  the host does, the daemon executes only the listed commands: systemctl with a whitelisted
  service or a daemon reload, shutdown now or in 1 to 60 minutes with a bounded reason, and the
  deploy runner with a branch name that matches the pattern.\<close>

theorem only_permitted_commands: "list_all permitted (snd (handle_client wi posix uid creds ps input))"
  by (rule handle_client_permitted)

text \<open>A peer whose UID is neither the allowed one nor root gets one error and nothing is
  executed, whatever it sends.\<close>

theorem foreign_peer_rejected:
  assumes "peer_uid \<noteq> allowed_uid" "peer_uid \<noteq> 0"
  shows "handle_client wi posix allowed_uid (Inr (peer_pid, peer_uid, peer_gid)) ps input =
    ([rpc_error None (- 32000) ''Permission denied''], [])"
  using assms by (simp add: handle_client_def validate_peer_credentials_def)

definition calm_process :: process where
  "calm_process = \<lparr>spawn_error = None, timed_out = False, returncode = 0, stdout_text = ''active'',
     stderr_text = [], pid = 42\<rparr>"

theorem foreign_peer_rejected_witness:
  "snd (handle_client strict_wire True 1000 (Inr (7, 1001, 1001)) (\<lambda>_. calm_process) ''x'') = []"
  by (simp add: foreign_peer_rejected)

text \<open>When the kernel does not answer the credential query the connection is served as if it had
  been authorised: the check fails open, for every peer and every input.\<close>

theorem credential_failure_fails_open:
  "handle_client wi posix uid (Inl OSError) ps input = handle_client wi posix uid (Inr (p, 0, g)) ps input"
  by (simp add: handle_client_def validate_peer_credentials_def)

text \<open>An authorised connection whose lines fit the buffer gets exactly one response per line, in
  order, and each carries the identifier of its request, or none if the request is invalid.\<close>

theorem one_response_per_line:
  assumes "uid = allowed_uid \<or> uid = 0" "list_all (\<lambda>l. length l \<le> 65536) (lines_of input)"
  shows "map response_id (fst (handle_client wi posix allowed_uid (Inr (p, uid, g)) ps input)) =
    map (\<lambda>l. map_option rpc_id (validate_request wi l)) (lines_of input)"
  using assms serve_lines_responses by (simp add: handle_client_def validate_peer_credentials_def)

theorem one_response_per_line_witness:
  "length (fst (handle_client strict_wire True 1000 (Inr (7, 1000, 1000)) (\<lambda>_. calm_process) [CHR ''x'', CHR 0x0A, CHR ''y''])) = 2"
proof -
  have "map response_id (fst (handle_client strict_wire True 1000 (Inr (7, 1000, 1000)) (\<lambda>_. calm_process)
      [CHR ''x'', CHR 0x0A, CHR ''y''])) =
    map (\<lambda>l. map_option rpc_id (validate_request strict_wire l)) (lines_of [CHR ''x'', CHR 0x0A, CHR ''y''])"
    by (rule one_response_per_line) simp_all
  then have "length (map response_id (fst (handle_client strict_wire True 1000 (Inr (7, 1000, 1000)) (\<lambda>_. calm_process)
      [CHR ''x'', CHR 0x0A, CHR ''y'']))) = length (lines_of [CHR ''x'', CHR 0x0A, CHR ''y''])"
    by (metis length_map)
  then show ?thesis
    by simp
qed

text \<open>End to end: a client that asks to restart a whitelisted service, on a connection the
  server authorises, gets the success answer, and the daemon executes exactly that systemctl
  command, once.\<close>

theorem restart_end_to_end:
  assumes "wire_ok wi" "service \<in> set ALLOWED_SERVICES" "5 \<le> t" "t \<le> 120" "length i \<le> 64"
    and "spawn_error (ps 0) = None" "\<not> timed_out (ps 0)" "returncode (ps 0) = 0"
    and "length (dump_json wi (rpc_payload i ''service.restart'' (restart_service_params service t))) < 65536"
    and "uid = allowed_uid \<or> uid = 0"
  shows "send_request wi True (server_peer wi allowed_uid (Inr (p, uid, g)) ps) i ''service.restart''
      (restart_service_params service t) =
      Inr [(''status'', JStr ''success''), (''service'', JStr service), (''action'', JStr ''restart'')] \<and>
    snd (handle_client wi True allowed_uid (Inr (p, uid, g)) ps
      (dump_json wi (rpc_payload i ''service.restart'' (restart_service_params service t)) @ [CHR 0x0A])) =
      [[''/bin/systemctl'', ''restart'', service]]"
proof -
  let ?d = "restart_service_params service t"
  have "well_formed_call i ''service.restart'' ?d"
    using assms(5) by (simp add: well_formed_call_def ALLOWED_METHODS_def restart_service_params_def)
  moreover have "Option.bind (dict_get PARAM_MODELS ''service.restart'') (\<lambda>model. model wi ?d) =
      Some (ServiceRestartParams service t)"
    using assms(1-4)
    by (simp add: PARAM_MODELS_def validate_restart_def service_field_def model_field_def
        restart_service_params_def wire_ok_def)
  moreover have "METHOD_DISPATCH True (ps 0) (ServiceRestartParams service t) =
      (Inr (JObj [(''status'', JStr ''success''), (''service'', JStr service), (''action'', JStr ''restart'')]),
       [[''/bin/systemctl'', ''restart'', service]])"
    using assms(6-8) by (simp add: METHOD_DISPATCH_def handle_service_restart_def run_def)
  moreover have "validate_peer_credentials (Inr (p, uid, g)) allowed_uid = Inr (p, uid, g)"
    using assms(10) by (auto simp: validate_peer_credentials_def)
  ultimately show ?thesis
    using rpc_end_to_end [OF assms(1)] assms(9) by (simp add: json_plain.simps)
qed

theorem restart_end_to_end_witness:
  "snd (handle_client strict_wire True 1000 (Inr (7, 1000, 1000)) (\<lambda>_. calm_process)
     (dump_json strict_wire (rpc_payload ''a1'' ''service.restart'' (restart_service_params ''palworld.service'' 30)) @ [CHR 0x0A])) =
   [[''/bin/systemctl'', ''restart'', ''palworld.service'']]"
proof -
  have "int_str 30 = ''30''"
    by code_simp
  then have "length (dump_json strict_wire (rpc_payload ''a1'' ''service.restart'' (restart_service_params ''palworld.service'' 30))) < 65536"
    using length_json_quote [of "''jsonrpc''"] length_json_quote [of "''2.0''"] length_json_quote [of "''id''"]
      length_json_quote [of "''a1''"] length_json_quote [of "''method''"] length_json_quote [of "''service.restart''"]
      length_json_quote [of "''params''"] length_json_quote [of "''service_name''"]
      length_json_quote [of "''palworld.service''"] length_json_quote [of "''timeout_seconds''"]
    by (simp add: strict_wire_def rpc_payload_def restart_service_params_def)
  then show ?thesis
    using restart_end_to_end [OF strict_wire_ok, of "''palworld.service''" 30 "''a1''" "\<lambda>_. calm_process" 1000 1000 7 1000]
    by (simp add: ALLOWED_SERVICES_def calm_process_def)
qed

text \<open>The branch pattern ends in a dollar, which also matches before a final line feed: a branch
  name followed by a line feed is accepted and reaches the deploy runner's arguments.\<close>

theorem branch_with_line_feed_accepted:
  "validate_deploy strict_wire [(''target_branch'', JStr (''main'' @ [CHR 0x0A]))] =
     Some (SystemDeployParams (''main'' @ [CHR 0x0A])) \<and>
   snd (METHOD_DISPATCH True calm_process (SystemDeployParams (''main'' @ [CHR 0x0A]))) =
     [[''/var/lib/palmanager/deploy-runner.sh'', ''main'' @ [CHR 0x0A]]]"
  by code_simp

end
