(* ===== verification/Update_Watcher.thy ===== *)
theory Update_Watcher
  imports Operations_Api Supervisor
begin

section \<open>Watching for updates and deploying them\<close>

text \<open>
  \<open>UpdateWatcher\<close> of \<^verbatim>\<open>app/engine/updater.py\<close>: the comparison of the deployed commit with
  the branch on GitHub, the lock file that lets one deployment run at a time, the progress
  report read from the deployment log, and the summary of the last deployment. HTTP answers,
  the outcome of \<open>git\<close>, file errors and clocks are an environment; files are those of the store
  of \<^verbatim>\<open>Atomic_IO\<close>. The list \<open>dispatched\<close> records the deployments that were really started
  (handed to the supervisor, to the injected runner or to a child process).
\<close>

subsection \<open>State and environment\<close>

record update_config =
  repo_url :: string
  tracked_branch :: string
  deploy_script :: "path option"
  lock_file :: path
  repo_dir :: string
  post_update_file :: path
  user_home :: string

record watcher =
  update_available :: bool
  current_commit :: string
  latest_commit :: string
  commits_behind :: int
  latest_commit_message :: string
  last_checked :: string
  last_error :: "string option"
  store :: world
  dispatched :: "(rat \<times> string) list"

datatype git_probe = NoRepository | GitExit int string | GitFailed

record update_env =
  wall_time :: rat
  clock_now :: nat
  git_head :: git_probe
  read_fault :: "path \<Rightarrow> py_error option"
  lock_stat_fails :: bool
  lock_unlink_fails :: bool
  commits_reply :: http_outcome
  compare_reply :: http_outcome
  file_io :: "path \<Rightarrow> io_env"
  wall_time_text :: string
  process_id :: int
  command_runner :: "py_error option option"
  on_posix :: bool
  log_fault :: "py_error option"
  popen_fault :: "py_error option"
  repr_json :: "json \<Rightarrow> string"
  float_repr :: "pyfloat \<Rightarrow> string"
  describe :: "py_error \<Rightarrow> string"
  log_text :: "string list option"

text \<open>The attributes after the constructor.\<close>

definition new_watcher :: "nat \<Rightarrow> world \<Rightarrow> watcher" where
  "new_watcher t w = \<lparr>update_available = False, current_commit = [], latest_commit = [], commits_behind = 0,
     latest_commit_message = [], last_checked = isoformat t, last_error = None, store = w, dispatched = []\<rparr>"

subsection \<open>Repository and files\<close>

definition strip_slashes :: "string \<Rightarrow> string" where
  "strip_slashes s = rev (dropWhile (\<lambda>c. c = CHR ''/'') (rev (dropWhile (\<lambda>c. c = CHR ''/'') s)))"

definition parse_repo_slug :: "string \<Rightarrow> (string \<times> string) result" where
  "parse_repo_slug url =
     bind_result (url_path url) (\<lambda>path.
       let parts = filter (\<lambda>p. p \<noteq> []) (split_on (CHR ''/'') (strip_slashes path))
       in if length parts < 2 then Inl ValueError
          else Inr (parts ! 0, removesuffix (parts ! 1) ''.git''))"

text \<open>The metadata files in turn; a file that cannot be decoded raises.\<close>

fun first_commit :: "update_env \<Rightarrow> world \<Rightarrow> path list \<Rightarrow> string result" where
  "first_commit env w [] = Inr ''unknown''"
| "first_commit env w (p # ps) =
     (if \<not> path_exists w p then first_commit env w ps
      else (case read_text (read_fault env p) w p of
              Inl e \<Rightarrow> if is_os_error e then first_commit env w ps else Inl e
            | Inr content \<Rightarrow> if strip content \<noteq> [] then Inr (strip content) else first_commit env w ps))"

definition get_local_commit :: "update_config \<Rightarrow> update_env \<Rightarrow> world \<Rightarrow> string result" where
  "get_local_commit cfg env w =
     (let from_files = first_commit env w
            [(repo_dir cfg, ''.git_commit''), (''/opt/palworld-web-manager'', ''.git_commit'')]
      in case git_head env of
           GitExit rc stdout \<Rightarrow> if rc = 0 \<and> strip stdout \<noteq> [] then Inr (strip stdout) else from_files
         | _ \<Rightarrow> from_files)"

definition STALE_LOCK_TIMEOUT_SECONDS :: rat where
  "STALE_LOCK_TIMEOUT_SECONDS = 1800"

definition is_update_in_progress :: "update_config \<Rightarrow> update_env \<Rightarrow> world \<Rightarrow> bool \<times> world" where
  "is_update_in_progress cfg env w =
     (case file_at w (lock_file cfg) of
        None \<Rightarrow> (False, w)
      | Some f \<Rightarrow>
          if lock_stat_fails env then (False, w)
          else if STALE_LOCK_TIMEOUT_SECONDS < wall_time env - f_mtime f
          then (False, if lock_unlink_fails env then w else unlink_file (lock_file cfg) w)
          else (True, w))"

definition resolve_deploy_script :: "update_config \<Rightarrow> world \<Rightarrow> path" where
  "resolve_deploy_script cfg w =
     (let production = (''/opt/palworld-web-manager/scripts'', ''deploy.sh'');
          local = (repo_dir cfg @ ''/scripts'', ''deploy.sh'');
          found = (if path_exists w production then production
                   else if path_exists w local then local else production)
      in case deploy_script cfg of
           None \<Rightarrow> found
         | Some p \<Rightarrow> if path_exists w p then p else found)"

definition resolve_post_update_file :: "update_config \<Rightarrow> world \<Rightarrow> path" where
  "resolve_post_update_file cfg w =
     (let candidates = [(''/var/lib/palmanager'', ''last_update.json''),
            (user_home cfg @ ''/.palmanager'', ''last_update.json''), (repo_dir cfg, ''last_update.json'')]
      in case find (path_exists w) candidates of None \<Rightarrow> hd candidates | Some p \<Rightarrow> p)"

subsection \<open>The last deployment\<close>

record PostUpdateSummary =
  sum_status :: string
  sum_branch :: string
  sum_version :: "string option"
  sum_commit :: string
  sum_commit_short :: string
  sum_deployed_at :: string
  sum_duration :: int
  sum_text :: string
  sum_acknowledged :: bool

definition summary_of_json :: "(json \<Rightarrow> string) \<Rightarrow> json \<Rightarrow> PostUpdateSummary result" where
  "summary_of_json rp j =
     (case j of
        JObj d \<Rightarrow>
          bind_result (py_int_of (json_get d ''duration_seconds'' (JInt 0))) (\<lambda>n.
            Inr \<lparr>sum_status = (if json_get d ''status'' JNull = JStr ''failed'' then ''failed'' else ''success''),
                 sum_branch = py_str rp (json_get d ''target_branch'' (JStr ''main'')),
                 sum_version = (let v = json_get d ''deployed_version'' JNull in if v = JNull then None else Some (py_str rp v)),
                 sum_commit = py_str rp (json_get d ''deployed_commit'' (JStr ''unknown'')),
                 sum_commit_short = py_str rp (json_get d ''deployed_commit_short'' (JStr ''unknown'')),
                 sum_deployed_at = py_str rp (json_get d ''deployed_at'' (JStr [])),
                 sum_duration = max 0 n,
                 sum_text = py_str rp (json_get d ''summary'' (JStr [])),
                 sum_acknowledged = truthy (json_get d ''acknowledged'' (JBool False))\<rparr>)
      | _ \<Rightarrow> Inl AttributeError)"

definition summary_file :: "update_config \<Rightarrow> world \<Rightarrow> path option" where
  "summary_file cfg w =
     (if path_exists w (post_update_file cfg) then Some (post_update_file cfg)
      else (let p = resolve_post_update_file cfg w in if path_exists w p then Some p else None))"

definition get_last_update_summary :: "update_config \<Rightarrow> update_env \<Rightarrow> world \<Rightarrow> PostUpdateSummary option result" where
  "get_last_update_summary cfg env w =
     (case summary_file cfg w of
        None \<Rightarrow> Inr None
      | Some p \<Rightarrow>
          (case read_text (read_fault env p) w p of
             Inl e \<Rightarrow> if is_os_error e \<or> is_value_error e then Inr None else Inl e
           | Inr raw \<Rightarrow>
               (if strip raw = [] then Inr None
                else (case loads (strip raw) of
                        None \<Rightarrow> Inr None
                      | Some j \<Rightarrow>
                          (case summary_of_json (repr_json env) j of
                             Inl e \<Rightarrow> if is_value_error e then Inr None else Inl e
                           | Inr s \<Rightarrow> Inr (Some s))))))"

definition acknowledge_last_update :: "update_config \<Rightarrow> update_env \<Rightarrow> watcher \<Rightarrow> bool result \<times> watcher" where
  "acknowledge_last_update cfg env s =
     (case summary_file cfg (store s) of
        None \<Rightarrow> (Inr False, s)
      | Some p \<Rightarrow>
          (case read_text (read_fault env p) (store s) p of
             Inl e \<Rightarrow> if is_os_error e \<or> is_value_error e then (Inr False, s) else (Inl e, s)
           | Inr raw \<Rightarrow>
               (case loads (strip raw) of
                  None \<Rightarrow> (Inr False, s)
                | Some (JObj d) \<Rightarrow>
                    (case atomic_write_file (file_io env p) p
                            (utf8_encode (dumps_indent (float_repr env) 2 (JObj (dict_set ''acknowledged'' (JBool True) d))))
                            5 True None True (store s) of
                       (Inl e, w) \<Rightarrow> (if is_os_error e then Inr False else Inl e, s\<lparr>store := w\<rparr>)
                     | (Inr _, w) \<Rightarrow> (Inr True, s\<lparr>store := w\<rparr>))
                | Some _ \<Rightarrow> (Inl TypeError, s))))"

subsection \<open>Looking for updates\<close>

record UpdateStatusResponse =
  seen_available :: bool
  seen_current :: string
  seen_latest :: string
  seen_branch :: string
  seen_behind :: int
  seen_message :: string
  seen_checked :: string
  seen_in_progress :: bool
  seen_error :: "string option"
  seen_last_update :: "PostUpdateSummary option"

definition get_status :: "update_config \<Rightarrow> update_env \<Rightarrow> watcher \<Rightarrow> UpdateStatusResponse result \<times> watcher" where
  "get_status cfg env s =
     (let (busy, w) = is_update_in_progress cfg env (store s); s1 = s\<lparr>store := w\<rparr>
      in (bind_result (get_last_update_summary cfg env w) (\<lambda>last.
            Inr \<lparr>seen_available = update_available s,
                 seen_current = or_text (current_commit s) ''unknown'',
                 seen_latest = or_text (latest_commit s) ''unknown'',
                 seen_branch = tracked_branch cfg, seen_behind = commits_behind s,
                 seen_message = latest_commit_message s, seen_checked = last_checked s,
                 seen_in_progress = busy, seen_error = last_error s, seen_last_update = last\<rparr>), s1))"

text \<open>The hash and the first line of the message of the branch's head.\<close>

definition commit_summary :: "(json \<Rightarrow> string) \<Rightarrow> (string, json) dict \<Rightarrow> (string \<times> string) result" where
  "commit_summary rp data =
     (let sha = strip (py_str rp (json_get data ''sha'' (JStr [])))
      in case json_get data ''commit'' (JObj []) of
           JObj meta \<Rightarrow>
             (case json_get meta ''message'' (JStr []) of
                JStr message \<Rightarrow> Inr (sha, strip (cut_at (CHR 0x0A) message))
              | j \<Rightarrow> if truthy j then Inl AttributeError else Inr (sha, []))
         | _ \<Rightarrow> Inl AttributeError)"

definition same_commit :: "string \<Rightarrow> string \<Rightarrow> bool" where
  "same_commit local remote \<longleftrightarrow>
     local = remote \<or> startswith local (take 7 remote) \<or> startswith remote (take 7 local)"

text \<open>The \<open>except\<close> clauses around the two requests.\<close>

definition payload_fault :: "update_env \<Rightarrow> py_error \<Rightarrow> watcher \<Rightarrow> unit result \<times> watcher" where
  "payload_fault env e s =
     (if e = KeyError then (Inr (), s\<lparr>last_error := Some (''Payload key error: '' @ describe env e)\<rparr>)
      else if is_value_error e then (Inr (), s\<lparr>last_error := Some (''Payload value error: '' @ describe env e)\<rparr>)
      else (Inl e, s))"

definition network_error :: "watcher \<Rightarrow> unit result \<times> watcher" where
  "network_error s = (Inr (), s\<lparr>last_error := Some ''Network error connecting to GitHub API''\<rparr>)"

definition compare_commits :: "update_env \<Rightarrow> watcher \<Rightarrow> unit result \<times> watcher" where
  "compare_commits env s =
     (case compare_reply env of
        Response st body \<Rightarrow>
          if st = 200 then
            (case bind_result (body_object body) (\<lambda>d. py_int_of (json_get d ''ahead_by'' (JInt 1))) of
               Inl e \<Rightarrow> payload_fault env e s
             | Inr ahead_by \<Rightarrow> (Inr (), s\<lparr>commits_behind := max 0 ahead_by, update_available := 0 < max 0 ahead_by\<rparr>))
          else (Inr (), s\<lparr>commits_behind := 1, update_available := True\<rparr>)
      | _ \<Rightarrow> network_error s)"

definition probe_upstream :: "update_env \<Rightarrow> string \<Rightarrow> watcher \<Rightarrow> unit result \<times> watcher" where
  "probe_upstream env local_sha s =
     (case commits_reply env of
        Response st body \<Rightarrow>
          if st = 403 \<or> st = 429 then
            (Inr (), s\<lparr>last_error := Some (''GitHub API rate limit encountered (HTTP '' @ int_str st @ '')'')\<rparr>)
          else if st < 200 \<or> 300 \<le> st then
            (Inr (), s\<lparr>last_error := Some (''HTTP '' @ int_str st @ '' from upstream GitHub'')\<rparr>)
          else
            (case bind_result (body_object body) (commit_summary (repr_json env)) of
               Inl e \<Rightarrow> payload_fault env e s
             | Inr (remote_sha, message) \<Rightarrow>
                 (let s1 = s\<lparr>latest_commit := remote_sha, latest_commit_message := message, last_error := None\<rparr>
                  in if local_sha \<noteq> ''unknown'' \<and> same_commit local_sha remote_sha
                     then (Inr (), s1\<lparr>update_available := False, commits_behind := 0\<rparr>)
                     else if local_sha \<noteq> ''unknown'' \<and> local_sha \<noteq> [] \<and> remote_sha \<noteq> []
                     then compare_commits env s1
                     else (Inr (), s1\<lparr>commits_behind := 0, update_available := False\<rparr>)))
      | _ \<Rightarrow> network_error s)"

definition check_for_updates :: "update_config \<Rightarrow> update_env \<Rightarrow> watcher \<Rightarrow> UpdateStatusResponse result \<times> watcher" where
  "check_for_updates cfg env s =
     (let s0 = s\<lparr>last_checked := isoformat (clock_now env)\<rparr>
      in case get_local_commit cfg env (store s) of
           Inl e \<Rightarrow> (Inl e, s0)
         | Inr local_sha \<Rightarrow>
             (let s1 = s0\<lparr>current_commit := local_sha\<rparr>
              in case parse_repo_slug (repo_url cfg) of
                   Inl e \<Rightarrow> get_status cfg env (s1\<lparr>last_error := Some (describe env e)\<rparr>)
                 | Inr _ \<Rightarrow>
                     (case probe_upstream env local_sha s1 of
                        (Inl e, s2) \<Rightarrow> (Inl e, s2)
                      | (Inr _, s2) \<Rightarrow> get_status cfg env s2)))"

subsection \<open>Starting a deployment\<close>

definition update_branch_char :: "char \<Rightarrow> bool" where
  "update_branch_char c \<longleftrightarrow> is_ascii_alpha c \<or> is_digit c \<or> c \<in> set ''_.-''"

text \<open>\<open>re.match(r"^[a-zA-Z0-9_.-]+$", b)\<close>: the dollar also matches before a final line feed.\<close>

definition update_branch_matches :: "string \<Rightarrow> bool" where
  "update_branch_matches b \<longleftrightarrow>
     (let body = (if b \<noteq> [] \<and> last b = CHR 0x0A then butlast b else b)
      in body \<noteq> [] \<and> list_all update_branch_char body)"

definition lock_payload :: "update_env \<Rightarrow> string \<Rightarrow> string" where
  "lock_payload env target_branch =
     ''pid='' @ int_str (process_id env) @ [CHR 0x0A] @
     ''started_at='' @ wall_time_text env @ [CHR 0x0A] @
     ''timestamp='' @ wall_time_text env @ [CHR 0x0A] @
     ''branch='' @ target_branch @ [CHR 0x0A] @
     ''operation=portal_update'' @ [CHR 0x0A]"

text \<open>\<open>lock_file.unlink(missing_ok=True)\<close> in a failure branch, then the given answer; an error of
  the removal replaces it.\<close>

definition release_update_lock :: "update_config \<Rightarrow> update_env \<Rightarrow> py_error \<Rightarrow> watcher \<Rightarrow> 'a result \<times> watcher" where
  "release_update_lock cfg env e s =
     (if path_exists (store s) (lock_file cfg) \<and> lock_unlink_fails env then (Inl OSError, s)
      else (Inl e, s\<lparr>store := (if path_exists (store s) (lock_file cfg) then unlink_file (lock_file cfg) (store s)
                              else store s)\<rparr>))"

definition path_text :: "path \<Rightarrow> string" where
  "path_text p = fst p @ ''/'' @ snd p"

text \<open>The spawner opens the deployment log and then hands the branch to the supervisor client as a
  task of the thread's event loop. A thread without an event loop gets a \<open>RuntimeError\<close> from
  \<open>asyncio.get_event_loop\<close>, which the broad handler logs and drops.\<close>

definition spawn_detached_deployer ::
  "update_env \<Rightarrow> bool \<Rightarrow> string \<Rightarrow> watcher \<Rightarrow> unit result \<times> watcher" where
  "spawn_detached_deployer env thread_has_loop target_branch s =
     (let started = s\<lparr>dispatched := dispatched s @ [(wall_time env, target_branch)]\<rparr>
      in case log_fault env of
           Some e \<Rightarrow> (Inl e, s)
         | None \<Rightarrow>
             if on_posix env then (Inr (), if thread_has_loop then started else s)
             else (case popen_fault env of None \<Rightarrow> (Inr (), started) | Some e \<Rightarrow> (Inl e, s)))"

text \<open>\<open>asyncio.to_thread\<close> runs its function in a worker thread of the executor, which has no event
  loop of its own.\<close>

definition worker_has_loop :: bool where
  "worker_has_loop = False"

definition dispatch_deployment :: "update_config \<Rightarrow> update_env \<Rightarrow> string \<Rightarrow> watcher \<Rightarrow> string result \<times> watcher" where
  "dispatch_deployment cfg env target_branch s =
     (let script = resolve_deploy_script cfg (store s)
      in case command_runner env of
           Some outcome \<Rightarrow>
             (case outcome of
                None \<Rightarrow> (Inr target_branch, s\<lparr>dispatched := dispatched s @ [(wall_time env, target_branch)]\<rparr>)
              | Some e \<Rightarrow> release_update_lock cfg env (HTTPException 500 (''Deployer execution failed: '' @ describe env e)) s)
         | None \<Rightarrow>
             if \<not> path_exists (store s) script
             then release_update_lock cfg env
                    (HTTPException 500 (''Host deploy script not found at '' @ path_text script @ ''.'')) s
             else (case spawn_detached_deployer env worker_has_loop target_branch s of
                     (Inr _, s1) \<Rightarrow> (Inr target_branch, s1)
                   | (Inl e, s1) \<Rightarrow> release_update_lock cfg env
                       (HTTPException 500 (''Failed to spawn deployment subprocess: '' @ describe env e)) s1))"

definition apply_update :: "update_config \<Rightarrow> update_env \<Rightarrow> string option \<Rightarrow> watcher \<Rightarrow> string result \<times> watcher" where
  "apply_update cfg env requested s =
     (let target_branch = (case requested of None \<Rightarrow> tracked_branch cfg | Some b \<Rightarrow> or_text b (tracked_branch cfg))
      in if \<not> update_branch_matches target_branch
         then (Inl (HTTPException 400 ''Invalid target branch name.''), s)
         else
           (let (busy, w) = is_update_in_progress cfg env (store s)
            in if busy then (Inl (HTTPException 409 ''An update deployment is already in progress.''), s\<lparr>store := w\<rparr>)
               else
                 (case atomic_write_file (file_io env (lock_file cfg)) (lock_file cfg)
                         (utf8_encode (lock_payload env target_branch)) 5 False None True w of
                    (Inl e, w1) \<Rightarrow>
                      (Inl (if is_os_error e then HTTPException 500 ''Failed to initialize deployment concurrency lock.'' else e),
                       s\<lparr>store := w1\<rparr>)
                  | (Inr _, w1) \<Rightarrow> dispatch_deployment cfg env target_branch (s\<lparr>store := w1\<rparr>))))"

subsection \<open>Progress of a deployment\<close>

text \<open>A match of \<open>\[(?:STEP\s+)?(\d+)/(\d+)\]\s+(.*?)(?:\.\.\.|\s*$)\<close> at the start of the text: its
  last two groups match every rest of a line.\<close>

definition step_at :: "string \<Rightarrow> nat option" where
  "step_at s =
     (if s = [] \<or> hd s \<noteq> CHR ''['' then None
      else
        (let r = tl s;
             after_word = drop 4 r;
             r1 = (if startswith r ''STEP'' \<and> after_word \<noteq> [] \<and> is_space (hd after_word)
                   then dropWhile is_space after_word else r);
             r2 = dropWhile is_digit r1;
             r3 = dropWhile is_digit (tl r2)
         in if takeWhile is_digit r1 \<noteq> [] \<and> r2 \<noteq> [] \<and> hd r2 = CHR ''/'' \<and>
               takeWhile is_digit (tl r2) \<noteq> [] \<and> r3 \<noteq> [] \<and> hd r3 = CHR '']'' \<and> tl r3 \<noteq> [] \<and> is_space (hd (tl r3))
            then Some (digits_val (takeWhile is_digit r1)) else None))"

fun step_index :: "string \<Rightarrow> nat option" where
  "step_index [] = None"
| "step_index (c # s) = (case step_at (c # s) of Some n \<Rightarrow> Some n | None \<Rightarrow> step_index s)"

definition max_of :: "nat list \<Rightarrow> nat" where
  "max_of ns = foldr max ns 0"

text \<open>The sets of started and completed steps.\<close>

definition scan_line :: "string \<Rightarrow> nat list \<times> nat list \<Rightarrow> nat list \<times> nat list" where
  "scan_line line acc =
     (let (started, completed) = acc;
          m = step_index line;
          started1 = (case m of None \<Rightarrow> started | Some i \<Rightarrow> List.insert i started)
      in (started1,
          if contains ''[ OK ]'' line then
            (case m of
               Some i \<Rightarrow> List.insert i completed
             | None \<Rightarrow> if started1 \<noteq> [] then List.insert (max_of started1) completed else completed)
          else completed))"

definition scan_log :: "string list \<Rightarrow> nat list \<times> nat list" where
  "scan_log ls = fold scan_line ls ([], [])"

datatype step_status = Pending | Running | Completed | StepFailed

definition step_names :: "string list" where
  "step_names =
     [''Pulling latest updates from origin'', ''Updating Python dependencies via uv'',
      ''Syncing application code & systemd units'', ''Enforcing POSIX ACLs & storage permissions'',
      ''Restarting palworld-manager.service'']"

definition classify_step :: "nat list \<Rightarrow> nat list \<Rightarrow> nat \<Rightarrow> step_status" where
  "classify_step started completed k =
     (if k \<in> set completed then Completed
      else if k \<in> set started then Running
      else if k = 1 \<and> started = [] then Running
      else Pending)"

text \<open>The statuses of the five steps and the current step.\<close>

definition step_states :: "nat list \<Rightarrow> nat list \<Rightarrow> step_status list \<times> nat" where
  "step_states started completed =
     (let sts = map (classify_step started completed) [1, 2, 3, 4, 5];
          running = filter (\<lambda>k. sts ! (k - 1) = Running) [1, 2, 3, 4, 5];
          current = (if running = [] then 1 else last running)
      in if completed = [] then (sts, current)
         else if max_of completed < 5
         then (if sts ! max_of completed = Pending then sts[max_of completed := Running] else sts, max_of completed + 1)
         else (sts, 5))"

definition progress_percent :: "nat list \<Rightarrow> step_status list \<Rightarrow> nat \<Rightarrow> int" where
  "progress_percent completed sts current =
     (if length completed = 5 then 100
      else min 95 (max 5 (int (length completed) * 20 + (if sts ! (current - 1) = Running then 10 else 0))))"

record DeploymentProgressResponse =
  operation :: string
  active :: bool
  current_step :: nat
  total_steps :: nat
  step_name :: string
  percentage :: int
  elapsed_seconds :: int
  estimated_remaining :: "int option"
  steps :: "step_status list"
  log_tail :: "string list"
  last_update :: "PostUpdateSummary option"

definition progress_operations :: "string list" where
  "progress_operations = [''portal_update'', ''tls_certificate'', ''server_restart'', ''none'']"

record lock_info =
  lock_started :: "pyfloat option"
  lock_timestamp :: "pyfloat option"
  lock_operation :: string

definition after_equals :: "string \<Rightarrow> string" where
  "after_equals line = strip (tl (dropWhile (\<lambda>c. c \<noteq> CHR ''='') line))"

text \<open>The lines of the lock file; a number that cannot be read ends the loop.\<close>

fun read_lock_lines :: "string list \<Rightarrow> lock_info \<Rightarrow> lock_info" where
  "read_lock_lines [] i = i"
| "read_lock_lines (l # ls) i =
     (if startswith l ''started_at='' then
        (case py_float_any (after_equals l) of
           None \<Rightarrow> i | Some x \<Rightarrow> read_lock_lines ls (i\<lparr>lock_started := Some x\<rparr>))
      else if startswith l ''timestamp='' then
        (case py_float_any (after_equals l) of
           None \<Rightarrow> i | Some x \<Rightarrow> read_lock_lines ls (i\<lparr>lock_timestamp := Some x\<rparr>))
      else if startswith l ''operation='' \<and> after_equals l \<in> set progress_operations
      then read_lock_lines ls (i\<lparr>lock_operation := after_equals l\<rparr>)
      else read_lock_lines ls i)"

definition read_lock_info :: "update_config \<Rightarrow> update_env \<Rightarrow> world \<Rightarrow> lock_info result" where
  "read_lock_info cfg env w =
     (let none = \<lparr>lock_started = None, lock_timestamp = None, lock_operation = ''portal_update''\<rparr>
      in if \<not> path_exists w (lock_file cfg) then Inr none
         else (case read_text (read_fault env (lock_file cfg)) w (lock_file cfg) of
                 Inl e \<Rightarrow> if is_os_error e \<or> is_value_error e then Inr none else Inl e
               | Inr content \<Rightarrow> Inr (read_lock_lines (splitlines content) none)))"

text \<open>\<open>max(0, int(time.time() - effective_start))\<close>\<close>

definition elapsed_since :: "rat \<Rightarrow> lock_info \<Rightarrow> int result" where
  "elapsed_since t i =
     (let start = (case lock_started i of
                     Some x \<Rightarrow> x
                   | None \<Rightarrow> (case lock_timestamp i of
                                None \<Rightarrow> PyFin False t
                              | Some (PyFin neg m) \<Rightarrow> if m = 0 then PyFin False t else PyFin neg m
                              | Some x \<Rightarrow> x))
      in case start of
           PyFin neg m \<Rightarrow> Inr (max 0 (py_trunc (t - (if neg then - m else m))))
         | PyInf _ \<Rightarrow> Inl OverflowError
         | PyNan \<Rightarrow> Inl ValueError)"

text \<open>\<open>f.readlines()[-30:]\<close>, each line without trailing white space.\<close>

definition recent_log :: "update_env \<Rightarrow> string list" where
  "recent_log env =
     (case log_text env of None \<Rightarrow> [] | Some ls \<Rightarrow> map rstrip (drop (length ls - 30) ls))"

definition idle_progress :: "string list \<Rightarrow> PostUpdateSummary option \<Rightarrow> DeploymentProgressResponse" where
  "idle_progress ls latest =
     (let pending = replicate 5 Pending;
          nothing = \<lparr>operation = ''none'', active = False, current_step = 0, total_steps = 5, step_name = [],
            percentage = 0, elapsed_seconds = 0, estimated_remaining = None, steps = pending, log_tail = ls,
            last_update = latest\<rparr>
      in case latest of
           None \<Rightarrow> nothing
         | Some u \<Rightarrow>
             if sum_acknowledged u then nothing
             else if sum_status u = ''failed'' then
               \<lparr>operation = ''portal_update'', active = False, current_step = 1, total_steps = 5,
                step_name = ''Deployment failed: '' @ sum_text u, percentage = 0, elapsed_seconds = sum_duration u,
                estimated_remaining = Some 0, steps = pending[0 := StepFailed], log_tail = ls, last_update = latest\<rparr>
             else
               \<lparr>operation = ''portal_update'', active = False, current_step = 5, total_steps = 5,
                step_name = ''Deployment completed successfully'', percentage = 100, elapsed_seconds = sum_duration u,
                estimated_remaining = Some 0, steps = replicate 5 Completed, log_tail = [], last_update = latest\<rparr>)"

definition active_progress ::
  "lock_info \<Rightarrow> int \<Rightarrow> string list \<Rightarrow> PostUpdateSummary option \<Rightarrow> DeploymentProgressResponse" where
  "active_progress i elapsed ls latest =
     (let (started, completed) = scan_log ls;
          (sts, current) = step_states started completed;
          percent = progress_percent completed sts current;
          aborted = list_ex (contains ''Deployment aborted with error'') ls
      in \<lparr>operation = lock_operation i, active = \<not> aborted, current_step = current, total_steps = 5,
          step_name = (if aborted then ''Deployment aborted at step '' @ nat_str current else step_names ! (current - 1)),
          percentage = percent, elapsed_seconds = elapsed,
          estimated_remaining = Some (if aborted then 0 else max 5 (45 - elapsed)),
          steps = (if aborted then sts[current - 1 := StepFailed] else sts), log_tail = ls, last_update = latest\<rparr>)"

definition get_deployment_progress ::
  "update_config \<Rightarrow> update_env \<Rightarrow> watcher \<Rightarrow> DeploymentProgressResponse result \<times> watcher" where
  "get_deployment_progress cfg env s =
     (let (busy, w) = is_update_in_progress cfg env (store s); s1 = s\<lparr>store := w\<rparr>; ls = recent_log env
      in (bind_result (get_last_update_summary cfg env w) (\<lambda>last.
            if \<not> busy then Inr (idle_progress ls last)
            else bind_result (read_lock_info cfg env w) (\<lambda>i.
                   bind_result (elapsed_since (wall_time env) i) (\<lambda>elapsed.
                     Inr (active_progress i elapsed ls last)))), s1))"

subsection \<open>The endpoints\<close>

text \<open>The handlers of \<^verbatim>\<open>app/routers/system.py\<close>; a configured branch replaces a missing body.\<close>

definition valid_update_apply :: "string \<Rightarrow> bool" where
  "valid_update_apply b \<longleftrightarrow> 1 \<le> length b \<and> length b \<le> 64 \<and> list_all update_branch_char b"

definition get_system_update_status ::
  "ops_env \<Rightarrow> update_config \<Rightarrow> update_env \<Rightarrow> http_request \<Rightarrow> bool \<Rightarrow> ops_state \<Rightarrow> watcher \<Rightarrow>
     UpdateStatusResponse result \<times> watcher" where
  "get_system_update_status oe cfg env req force o_st s =
     (case needs_view oe req o_st of
        Inl e \<Rightarrow> (Inl e, s)
      | Inr _ \<Rightarrow> if force then check_for_updates cfg env s else get_status cfg env s)"

definition check_system_update_on_demand ::
  "ops_env \<Rightarrow> update_config \<Rightarrow> update_env \<Rightarrow> http_request \<Rightarrow> ops_state \<Rightarrow> watcher \<Rightarrow>
     UpdateStatusResponse result \<times> watcher" where
  "check_system_update_on_demand oe cfg env req o_st s =
     (case needs ''system:update'' oe req o_st of
        Inl e \<Rightarrow> (Inl e, s)
      | Inr _ \<Rightarrow> check_for_updates cfg env s)"

definition apply_system_update ::
  "ops_env \<Rightarrow> update_config \<Rightarrow> update_env \<Rightarrow> http_request \<Rightarrow> string option \<Rightarrow> ops_state \<Rightarrow> watcher \<Rightarrow>
     string result \<times> watcher" where
  "apply_system_update oe cfg env req payload o_st s =
     (case needs ''system:update'' oe req o_st of
        Inl e \<Rightarrow> (Inl e, s)
      | Inr _ \<Rightarrow> apply_update cfg env (Some (case payload of None \<Rightarrow> tracked_branch cfg | Some b \<Rightarrow> b)) s)"

definition acknowledge_system_update ::
  "ops_env \<Rightarrow> update_config \<Rightarrow> update_env \<Rightarrow> http_request \<Rightarrow> ops_state \<Rightarrow> watcher \<Rightarrow> string result \<times> watcher" where
  "acknowledge_system_update oe cfg env req o_st s =
     (case needs ''system:update'' oe req o_st of
        Inl e \<Rightarrow> (Inl e, s)
      | Inr _ \<Rightarrow>
          (case acknowledge_last_update cfg env s of
             (Inl e, s1) \<Rightarrow> (Inl e, s1)
           | (Inr _, s1) \<Rightarrow> (Inr (isoformat (clock_now env)), s1)))"

subsection \<open>The status report\<close>

text \<open>The number of commits behind and the flag always agree.\<close>

definition verdict_ok :: "watcher \<Rightarrow> bool" where
  "verdict_ok s \<longleftrightarrow> 0 \<le> commits_behind s \<and> (update_available s \<longleftrightarrow> 0 < commits_behind s)"

lemma new_watcher_ok: "verdict_ok (new_watcher t w)"
  by (simp add: verdict_ok_def new_watcher_def)

lemma verdict_ok_frame [simp]:
  "verdict_ok (s\<lparr>store := w\<rparr>) = verdict_ok s" "verdict_ok (s\<lparr>last_error := e\<rparr>) = verdict_ok s"
  "verdict_ok (s\<lparr>last_checked := t\<rparr>) = verdict_ok s" "verdict_ok (s\<lparr>current_commit := c\<rparr>) = verdict_ok s"
  "verdict_ok (s\<lparr>dispatched := ds\<rparr>) = verdict_ok s" "verdict_ok (s\<lparr>latest_commit := c\<rparr>) = verdict_ok s"
  "verdict_ok (s\<lparr>latest_commit_message := m\<rparr>) = verdict_ok s"
  by (simp_all add: verdict_ok_def)

lemma verdict_ok_set: "verdict_ok (s\<lparr>update_available := False, commits_behind := 0\<rparr>)"
  "verdict_ok (s\<lparr>commits_behind := 0, update_available := False\<rparr>)"
  "verdict_ok (s\<lparr>commits_behind := 1, update_available := True\<rparr>)"
  "verdict_ok (s\<lparr>commits_behind := max 0 n, update_available := 0 < max 0 n\<rparr>)"
  by (auto simp: verdict_ok_def)

lemma get_status_frame:
  "snd (get_status cfg env s) = s\<lparr>store := snd (is_update_in_progress cfg env (store s))\<rparr>"
  by (simp add: get_status_def split_beta Let_def)

lemma compare_commits_ok: "verdict_ok s \<Longrightarrow> verdict_ok (snd (compare_commits env s))"
  using verdict_ok_set
  by (auto simp: compare_commits_def payload_fault_def network_error_def split: http_outcome.split sum.split)

lemma probe_upstream_ok: "verdict_ok s \<Longrightarrow> verdict_ok (snd (probe_upstream env l s))"
proof -
  assume ok: "verdict_ok s"
  have "verdict_ok (snd (payload_fault env e s))" for e
    using ok by (simp add: payload_fault_def)
  then show ?thesis
    using ok verdict_ok_set compare_commits_ok
    by (auto simp: probe_upstream_def network_error_def Let_def split: http_outcome.split sum.split prod.split)
qed

lemma check_for_updates_ok: "verdict_ok s \<Longrightarrow> verdict_ok (snd (check_for_updates cfg env s))"
proof -
  assume "verdict_ok s"
  then have "verdict_ok (snd (probe_upstream env l (s\<lparr>last_checked := t, current_commit := c\<rparr>)))" for l t c
    by (intro probe_upstream_ok) simp
  then show ?thesis
    using \<open>verdict_ok s\<close>
    by (auto simp: check_for_updates_def Let_def get_status_frame split: sum.split prod.split)
       (metis snd_conv)+
qed

lemma release_ok [simp]: "verdict_ok (snd (release_update_lock cfg env e s)) = verdict_ok s"
  by (simp add: release_update_lock_def)

lemma spawn_frame:
  "spawn_detached_deployer env b t s = (r, s1) \<Longrightarrow> store s1 = store s \<and> verdict_ok s1 = verdict_ok s"
  by (auto simp: spawn_detached_deployer_def Let_def split: option.splits if_splits)

lemma dispatch_ok [simp]: "verdict_ok (snd (dispatch_deployment cfg env t s)) = verdict_ok s"
  by (auto simp: dispatch_deployment_def Let_def split: option.split prod.split sum.split dest: spawn_frame)

lemma apply_update_ok [simp]: "verdict_ok (snd (apply_update cfg env b s)) = verdict_ok s"
  by (auto simp: apply_update_def Let_def split: option.split prod.split sum.split)

lemma acknowledge_ok [simp]: "verdict_ok (snd (acknowledge_last_update cfg env s)) = verdict_ok s"
  by (auto simp: acknowledge_last_update_def split: option.split prod.split sum.split json.split)

lemma progress_frame: "snd (get_deployment_progress cfg env s) = s\<lparr>store := snd (is_update_in_progress cfg env (store s))\<rparr>"
  by (simp add: get_deployment_progress_def split_beta Let_def)

datatype update_op =
    CheckUpdates update_env
  | ReadStatus update_env
  | ReadProgress update_env
  | AcknowledgeUpdate update_env
  | ApplyUpdate update_env "string option"

fun op_env :: "update_op \<Rightarrow> update_env" where
  "op_env (CheckUpdates env) = env"
| "op_env (ReadStatus env) = env"
| "op_env (ReadProgress env) = env"
| "op_env (AcknowledgeUpdate env) = env"
| "op_env (ApplyUpdate env b) = env"

text \<open>One operation: the answer says whether it was an accepted deployment request.\<close>

fun run_update_op :: "update_config \<Rightarrow> update_op \<Rightarrow> watcher \<Rightarrow> bool \<times> watcher" where
  "run_update_op cfg (CheckUpdates env) s = (False, snd (check_for_updates cfg env s))"
| "run_update_op cfg (ReadStatus env) s = (False, snd (get_status cfg env s))"
| "run_update_op cfg (ReadProgress env) s = (False, snd (get_deployment_progress cfg env s))"
| "run_update_op cfg (AcknowledgeUpdate env) s = (False, snd (acknowledge_last_update cfg env s))"
| "run_update_op cfg (ApplyUpdate env b) s =
     (let (r, s1) = apply_update cfg env b s in (case r of Inl _ \<Rightarrow> False | Inr _ \<Rightarrow> True, s1))"

fun run_update_ops :: "update_config \<Rightarrow> update_op list \<Rightarrow> watcher \<Rightarrow> rat list \<times> watcher" where
  "run_update_ops cfg [] s = ([], s)"
| "run_update_ops cfg (x # xs) s =
     (let (accepted, s1) = run_update_op cfg x s; (ts, s2) = run_update_ops cfg xs s1
      in (if accepted then wall_time (op_env x) # ts else ts, s2))"

lemma run_update_op_ok: "verdict_ok s \<Longrightarrow> verdict_ok (snd (run_update_op cfg x s))"
  by (cases x) (simp_all add: check_for_updates_ok get_status_frame progress_frame split_beta Let_def)

lemma run_update_ops_ok: "verdict_ok s \<Longrightarrow> verdict_ok (snd (run_update_ops cfg xs s))"
  by (induction xs arbitrary: s) (simp_all add: split_beta Let_def run_update_op_ok)

lemma get_status_view:
  "get_status cfg env s = (Inr r, s') \<Longrightarrow> seen_available r = update_available s \<and> seen_behind r = commits_behind s \<and>
     seen_error r = last_error s \<and> seen_current r = or_text (current_commit s) ''unknown'' \<and>
     seen_latest r = or_text (latest_commit s) ''unknown'' \<and> seen_checked r = last_checked s"
  by (auto simp: get_status_def split_beta Let_def bind_result_Inr_iff)

text \<open>Every status report is consistent, after any sequence of checks, deployments and
  acknowledgements and whatever GitHub answers: an update is reported exactly if the branch is a
  positive number of commits ahead.\<close>

theorem status_consistent:
  assumes "run_update_ops cfg xs (new_watcher t w) = (ts, s)" "get_status cfg env s = (Inr r, s')"
  shows "0 \<le> seen_behind r \<and> (seen_available r \<longleftrightarrow> 0 < seen_behind r)"
  using run_update_ops_ok [OF new_watcher_ok, of cfg xs t w] assms(1) get_status_view [OF assms(2)]
  by (simp add: verdict_ok_def)

text \<open>What a check concludes. An answer of GitHub decides: no update is reported for an unknown
  local commit or one that agrees with the head of the branch up to seven characters; otherwise
  the comparison counts, and one commit is assumed when GitHub refuses it. Any other answer leaves
  the previous conclusion and reports an error.\<close>

theorem check_verdict:
  assumes "check_for_updates cfg env s = (Inr r, s')"
    and "get_local_commit cfg env (store s) = Inr local_sha" "parse_repo_slug (repo_url cfg) = Inr slug"
  shows "(\<forall>d sha msg. commits_reply env = Response 200 (Some (JObj d)) \<and> commit_summary (repr_json env) d = Inr (sha, msg) \<longrightarrow>
      (if local_sha = ''unknown'' \<or> same_commit local_sha sha \<or> sha = [] then seen_behind r = 0 \<and> \<not> seen_available r
       else (\<forall>d2 n. compare_reply env = Response 200 (Some (JObj d2)) \<and> json_get d2 ''ahead_by'' (JInt 1) = JInt n \<longrightarrow>
               seen_behind r = max 0 n \<and> (seen_available r \<longleftrightarrow> 0 < n)) \<and>
            (\<forall>st b. compare_reply env = Response st b \<and> st \<noteq> 200 \<longrightarrow> seen_behind r = 1 \<and> seen_available r))) \<and>
    ((\<forall>st b. commits_reply env = Response st b \<longrightarrow> st < 200 \<or> 300 \<le> st) \<longrightarrow>
      seen_behind r = commits_behind s \<and> seen_available r = update_available s \<and> seen_error r \<noteq> None)"
proof -
  let ?s1 = "s\<lparr>last_checked := isoformat (clock_now env), current_commit := local_sha\<rparr>"
  obtain s2 where p: "probe_upstream env local_sha ?s1 = (Inr (), s2)" "get_status cfg env s2 = (Inr r, s')"
    using assms by (auto simp: check_for_updates_def Let_def split: prod.splits sum.splits)
  note v = get_status_view [OF p(2)]
  show ?thesis
  proof (intro conjI impI allI)
    fix d sha msg
    assume a: "commits_reply env = Response 200 (Some (JObj d)) \<and> commit_summary (repr_json env) d = Inr (sha, msg)"
    then show "if local_sha = ''unknown'' \<or> same_commit local_sha sha \<or> sha = [] then seen_behind r = 0 \<and> \<not> seen_available r
       else (\<forall>d2 n. compare_reply env = Response 200 (Some (JObj d2)) \<and> json_get d2 ''ahead_by'' (JInt 1) = JInt n \<longrightarrow>
               seen_behind r = max 0 n \<and> (seen_available r \<longleftrightarrow> 0 < n)) \<and>
            (\<forall>st b. compare_reply env = Response st b \<and> st \<noteq> 200 \<longrightarrow> seen_behind r = 1 \<and> seen_available r)"
      using p(1) v by (auto simp: probe_upstream_def body_object_def Let_def compare_commits_def same_commit_def split: if_splits)
  next
    assume a: "\<forall>st b. commits_reply env = Response st b \<longrightarrow> st < 200 \<or> 300 \<le> st"
    have e: "update_available s2 = update_available s \<and> commits_behind s2 = commits_behind s \<and> last_error s2 \<noteq> None"
      using p(1) a by (auto simp: probe_upstream_def network_error_def split: http_outcome.splits if_splits)
    show "seen_behind r = commits_behind s" "seen_available r = update_available s" "seen_error r \<noteq> None"
      using e v by simp_all
  qed
qed

subsection \<open>One deployment at a time\<close>

text \<open>Every request accepted up to now lies more than the timeout back, or the lock file is at
  least as young as the request.\<close>

definition guarded_by_lock :: "update_config \<Rightarrow> rat \<Rightarrow> rat list \<Rightarrow> world \<Rightarrow> bool" where
  "guarded_by_lock cfg t ts w \<longleftrightarrow>
     (\<forall>a \<in> set ts. a + STALE_LOCK_TIMEOUT_SECONDS < t \<or> (\<exists>f. file_at w (lock_file cfg) = Some f \<and> a \<le> f_mtime f))"

lemma guarded_mono: "guarded_by_lock cfg t ts w \<Longrightarrow> t \<le> t' \<Longrightarrow> guarded_by_lock cfg t' ts w"
  by (fastforce simp: guarded_by_lock_def)

lemma guarded_file_eq: "file_at w' (lock_file cfg) = file_at w (lock_file cfg) \<Longrightarrow> guarded_by_lock cfg t ts w' = guarded_by_lock cfg t ts w"
  by (simp add: guarded_by_lock_def)

lemma is_update_in_progress_cases:
  assumes "\<not> lock_stat_fails env"
  obtains (busy) f where "file_at w (lock_file cfg) = Some f" "wall_time env - f_mtime f \<le> STALE_LOCK_TIMEOUT_SECONDS"
      "is_update_in_progress cfg env w = (True, w)"
  | (idle) w' where "is_update_in_progress cfg env w = (False, w')" "\<And>f. file_at w (lock_file cfg) = Some f \<Longrightarrow>
        STALE_LOCK_TIMEOUT_SECONDS < wall_time env - f_mtime f"
      "\<And>p. p \<noteq> lock_file cfg \<Longrightarrow> file_at w' p = file_at w p"
      "file_at w' (lock_file cfg) = None \<or> file_at w' (lock_file cfg) = file_at w (lock_file cfg)"
  using assms that by (cases "file_at w (lock_file cfg)") (force simp: is_update_in_progress_def split: if_splits)+

lemma guarded_idle:
  assumes "guarded_by_lock cfg (wall_time env) ts w" "\<not> lock_stat_fails env"
    and "is_update_in_progress cfg env w = (False, w')"
  shows "\<forall>a \<in> set ts. a + STALE_LOCK_TIMEOUT_SECONDS < wall_time env"
  using assms(2)
proof (cases rule: is_update_in_progress_cases [where cfg = cfg and w = w])
  case (idle w'')
  then show ?thesis
    using assms(1) by (fastforce simp: guarded_by_lock_def)
qed (use assms(3) in simp)

lemma guarded_in_progress:
  assumes "guarded_by_lock cfg (wall_time env) ts w" "\<not> lock_stat_fails env"
  shows "guarded_by_lock cfg (wall_time env) ts (snd (is_update_in_progress cfg env w))"
  using assms(2)
proof (cases rule: is_update_in_progress_cases [where cfg = cfg and w = w])
  case (idle w')
  then show ?thesis
    using guarded_idle [OF assms idle(1)] by (simp add: guarded_by_lock_def)
qed (use assms(1) in simp)

lemma release_store: "snd (release_update_lock cfg env e s) = s\<lparr>store := store (snd (release_update_lock cfg env e s))\<rparr>"
  by (simp add: release_update_lock_def)

lemma release_fails [simp]: "release_update_lock cfg env e s \<noteq> (Inr b, s')"
  by (simp add: release_update_lock_def)

lemma dispatch_result:
  assumes "dispatch_deployment cfg env t s = (Inr b, s')"
  shows "store s' = store s"
  using assms
  by (auto simp: dispatch_deployment_def Let_def dest: spawn_frame split: option.splits if_splits prod.splits sum.splits)

text \<open>The clock of the file system is the clock of the program, and the lock can be inspected.\<close>

definition clocked :: "update_config \<Rightarrow> update_env \<Rightarrow> bool" where
  "clocked cfg env \<longleftrightarrow> \<not> lock_stat_fails env \<and> now (file_io env (lock_file cfg)) = wall_time env"

lemma fresh_lock:
  assumes "atomic_write_file io target raw n False mode sd w = (Inr r, w')"
  shows "\<exists>f. file_at w' target = Some f \<and> f_mtime f = now io"
proof (cases rule: atomic_write_file_cases [of io target raw n False mode sd w])
  case (replaced b w5 w6)
  have "w5 = snd (stage_tmp io (tmp_path_of io target) raw (resolve_target_mode io w target mode) w)"
    using replaced(2) by (simp add: prepared_def)
  then have "file_at w5 (tmp_path_of io target) = Some \<lparr>f_data = raw, f_mode = (if chmod_fails io then 384
      else resolve_target_mode io w target mode), f_mtime = now io, f_synced = True\<rparr>"
    using stage_tmp_file [OF replaced(1)] by simp
  then show ?thesis
    using replaced(3,4) assms by (auto simp: file_at_replace split: if_splits)
qed (use assms in \<open>auto simp: abort_write_def\<close>)

text \<open>The lock file does not share its directory with the summary of the last deployment.\<close>

definition separate :: "update_config \<Rightarrow> bool" where
  "separate cfg \<longleftrightarrow> fst (lock_file cfg) \<notin>
     {fst (post_update_file cfg), ''/var/lib/palmanager'', user_home cfg @ ''/.palmanager'', repo_dir cfg}"

lemma summary_file_dir: "summary_file cfg w = Some p \<Longrightarrow> separate cfg \<Longrightarrow> fst (lock_file cfg) \<noteq> fst p"
  by (auto simp: summary_file_def resolve_post_update_file_def separate_def Let_def split: if_splits option.splits)

lemma acknowledge_keeps_lock:
  assumes "separate cfg"
  shows "file_at (store (snd (acknowledge_last_update cfg env s))) (lock_file cfg) = file_at (store s) (lock_file cfg)"
proof (cases "summary_file cfg (store s)")
  case (Some p)
  have "file_at (snd (atomic_write_file io p raw n mb mode sd (store s))) (lock_file cfg) = file_at (store s) (lock_file cfg)"
    for io raw n mb mode sd
    using atomic_write_other_dir [OF summary_file_dir [OF Some assms]] .
  then show ?thesis
    using Some by (auto simp: acknowledge_last_update_def split: option.split prod.split sum.split json.split) (metis snd_conv)+
qed (simp add: acknowledge_last_update_def)

lemma compare_store: "store (snd (compare_commits env s)) = store s"
  by (simp add: compare_commits_def payload_fault_def network_error_def split: http_outcome.split sum.split)

lemma probe_store: "store (snd (probe_upstream env l s)) = store s"
  by (auto simp: probe_upstream_def payload_fault_def network_error_def Let_def compare_store
      split: http_outcome.split sum.split prod.split)

lemma check_store:
  "store (snd (check_for_updates cfg env s)) = store s \<or>
   store (snd (check_for_updates cfg env s)) = snd (is_update_in_progress cfg env (store s))"
proof -
  have "store s2 = store s" if "probe_upstream env l (s\<lparr>last_checked := t, current_commit := c\<rparr>) = (r, s2)" for l t c r s2
    using probe_store [of env l "s\<lparr>last_checked := t, current_commit := c\<rparr>"] that by simp
  then show ?thesis
    by (auto simp: check_for_updates_def Let_def get_status_frame split: sum.split prod.split)
qed

lemma apply_accepted:
  assumes "apply_update cfg env b s = (Inr r, s1)" "clocked cfg env"
  shows "\<exists>w f. is_update_in_progress cfg env (store s) = (False, w) \<and>
    file_at (store s1) (lock_file cfg) = Some f \<and> f_mtime f = wall_time env"
proof -
  obtain t raw x w w1 where "is_update_in_progress cfg env (store s) = (False, w)"
    and w1: "atomic_write_file (file_io env (lock_file cfg)) (lock_file cfg) raw 5 False None True w = (Inr x, w1)"
    and d: "dispatch_deployment cfg env t (s\<lparr>store := w1\<rparr>) = (Inr r, s1)"
    using assms(1) by (auto simp: apply_update_def Let_def split: if_splits prod.splits sum.splits)
  moreover have "store s1 = w1"
    using dispatch_result [OF d] by simp
  moreover obtain f where "file_at w1 (lock_file cfg) = Some f" "f_mtime f = now (file_io env (lock_file cfg))"
    using fresh_lock [OF w1] by blast
  ultimately show ?thesis
    using assms(2) by (auto simp: clocked_def)
qed

lemma guarded_old:
  "\<forall>a \<in> set ts. a + STALE_LOCK_TIMEOUT_SECONDS < t \<Longrightarrow> guarded_by_lock cfg t ts w"
  by (simp add: guarded_by_lock_def)

lemma guarded_step:
  assumes "guarded_by_lock cfg (wall_time (op_env x)) ts (store s)" "clocked cfg (op_env x)" "separate cfg"
    and "run_update_op cfg x s = (accepted, s1)"
  shows "if accepted then (\<forall>a \<in> set ts. a + STALE_LOCK_TIMEOUT_SECONDS < wall_time (op_env x)) \<and>
      guarded_by_lock cfg (wall_time (op_env x)) (wall_time (op_env x) # ts) (store s1)
    else guarded_by_lock cfg (wall_time (op_env x)) ts (store s1)"
proof -
  have stat: "\<not> lock_stat_fails (op_env x)"
    using assms(2) by (simp add: clocked_def)
  note keep = guarded_in_progress [OF assms(1) stat]
  show ?thesis
  proof (cases x)
    case (CheckUpdates env)
    then show ?thesis
      using assms(1,4) keep check_store [of cfg env s] by auto
  next
    case (AcknowledgeUpdate env)
    then show ?thesis
      using assms(1,3,4) guarded_file_eq [OF acknowledge_keeps_lock] by auto
  next
    case (ApplyUpdate env b)
    show ?thesis
    proof (cases "fst (apply_update cfg env b s)")
      case (Inr r)
      then have ap: "apply_update cfg env b s = (Inr r, s1)" "accepted"
        using assms(4) ApplyUpdate by (auto simp: prod_eq_iff Let_def split_beta)
      obtain w f where w: "is_update_in_progress cfg env (store s) = (False, w)"
        and f: "file_at (store s1) (lock_file cfg) = Some f" "f_mtime f = wall_time env"
        using apply_accepted [OF ap(1)] assms(2) ApplyUpdate by auto
      have "\<forall>a \<in> set ts. a + STALE_LOCK_TIMEOUT_SECONDS < wall_time env"
        using guarded_idle [OF _ _ w] assms(1) stat ApplyUpdate by simp
      then show ?thesis
        using ap(2) f ApplyUpdate by (auto simp: guarded_by_lock_def)
    next
      case (Inl e)
      then have ap: "apply_update cfg env b s = (Inl e, s1)" "\<not> accepted"
        using assms(4) ApplyUpdate by (auto simp: prod_eq_iff Let_def split_beta)
      show ?thesis
      proof (cases "store s1 = store s \<or> store s1 = snd (is_update_in_progress cfg env (store s))")
        case True
        then show ?thesis
          using ap(2) assms(1) keep ApplyUpdate by auto
      next
        case False
        then obtain w where "is_update_in_progress cfg env (store s) = (False, w)"
          using ap(1) by (auto simp: apply_update_def Let_def split: if_splits prod.splits)
        then have "\<forall>a \<in> set ts. a + STALE_LOCK_TIMEOUT_SECONDS < wall_time env"
          using guarded_idle assms(1) stat ApplyUpdate by fastforce
        then show ?thesis
          using ap(2) ApplyUpdate by (simp add: guarded_old)
      qed
    qed
  qed (use assms(4) keep in \<open>auto simp: get_status_frame progress_frame\<close>)
qed

lemma accepted_apart:
  assumes "guarded_by_lock cfg t ts (store s)" "\<forall>x \<in> set xs. clocked cfg (op_env x)" "separate cfg"
    and "sorted (t # map (\<lambda>x. wall_time (op_env x)) xs)" "run_update_ops cfg xs s = (us, s')"
  shows "(\<forall>a \<in> set ts. \<forall>b \<in> set us. a + STALE_LOCK_TIMEOUT_SECONDS < b) \<and>
    sorted_wrt (\<lambda>a b. a + STALE_LOCK_TIMEOUT_SECONDS < b) us"
  using assms(1,2,4,5)
proof (induction xs arbitrary: s t ts us)
  case (Cons x xs)
  let ?u = "wall_time (op_env x)"
  obtain acc s1 where x: "run_update_op cfg x s = (acc, s1)"
    by fastforce
  obtain vs where xs: "run_update_ops cfg xs s1 = (vs, s')" "us = (if acc then ?u # vs else vs)"
    using Cons.prems(4) x by (auto simp: split_beta Let_def prod_eq_iff)
  have g: "guarded_by_lock cfg ?u ts (store s)"
    using Cons.prems(1,3) guarded_mono by auto
  have st: "if acc then (\<forall>a \<in> set ts. a + STALE_LOCK_TIMEOUT_SECONDS < ?u) \<and> guarded_by_lock cfg ?u (?u # ts) (store s1)
    else guarded_by_lock cfg ?u ts (store s1)"
    using guarded_step [OF g _ assms(3) x] Cons.prems(2) by simp
  show ?case
  proof (cases acc)
    case True
    then show ?thesis
      using Cons.IH [of ?u "?u # ts" s1 vs] st xs Cons.prems(2,3) by auto
  next
    case False
    then show ?thesis
      using Cons.IH [of ?u ts s1 vs] st xs Cons.prems(2,3) by auto
  qed
qed simp

text \<open>C21. Deployments never overlap: in every sequence of checks, reports, acknowledgements and
  deployment requests, two accepted requests lie more than half an hour apart, whatever fails in
  between, as long as the lock file can be inspected and its time stamps follow the clock.\<close>

theorem deployments_never_overlap:
  assumes "\<forall>x \<in> set xs. clocked cfg (op_env x)" "separate cfg"
    and "sorted (map (\<lambda>x. wall_time (op_env x)) xs)" "run_update_ops cfg xs s = (ts, s')"
  shows "sorted_wrt (\<lambda>a b. a + 1800 < b) ts"
proof (cases xs)
  case (Cons x ys)
  have "guarded_by_lock cfg (wall_time (op_env x)) [] (store s)"
    by (simp add: guarded_by_lock_def)
  then show ?thesis
    using accepted_apart [of cfg _ "[]" s xs ts s'] assms Cons by (fastforce simp: STALE_LOCK_TIMEOUT_SECONDS_def)
qed (use assms(4) in simp)

text \<open>C22. On the server's platform an accepted update never starts: the request is answered with
  success and takes the lock, but the spawner runs in a worker thread without an event loop, so
  nothing is dispatched, and for half an hour every further request is refused.\<close>

theorem accepted_update_never_starts:
  assumes "apply_update cfg env b s = (Inr r, s1)" "command_runner env = None" "on_posix env" "clocked cfg env"
  shows "dispatched s1 = dispatched s \<and>
    (\<forall>env2 b2. clocked cfg env2 \<and> wall_time env2 \<le> wall_time env + 1800 \<longrightarrow>
       (\<exists>code m s2. apply_update cfg env2 b2 s1 = (Inl (HTTPException code m), s2) \<and> code \<in> {400, 409} \<and> dispatched s2 = dispatched s))"
proof -
  obtain f where f: "file_at (store s1) (lock_file cfg) = Some f" "f_mtime f = wall_time env"
    using apply_accepted [OF assms(1,4)] by blast
  have "dispatched s3 = dispatched s" if "dispatch_deployment cfg env t (s\<lparr>store := w\<rparr>) = (Inr r, s3)" for t w s3
    using that assms(2,3) by (auto simp: dispatch_deployment_def spawn_detached_deployer_def worker_has_loop_def Let_def
        split: if_splits option.splits prod.splits)
  then have d: "dispatched s1 = dispatched s"
    using assms(1) by (auto simp: apply_update_def Let_def split: if_splits prod.splits sum.splits)
  moreover have "is_update_in_progress cfg env2 (store s1) = (True, store s1)"
    if "clocked cfg env2" "wall_time env2 \<le> wall_time env + 1800" for env2
    using f that by (simp add: is_update_in_progress_def clocked_def STALE_LOCK_TIMEOUT_SECONDS_def)
  ultimately show ?thesis
    by (auto simp: apply_update_def Let_def)
qed

subsection \<open>Acknowledging the last deployment\<close>

lemma set_join: "set (join sep xs) \<subseteq> set sep \<union> (\<Union>x \<in> set xs. set x)"
  by (induction sep xs rule: join.induct) auto

lemma escape_no_cr: "CHR 0x0D \<notin> set (escape_char c)"
proof -
  have h: "hex_digit n \<noteq> CHR 0x0D" if "n < 16" for n
    using that by (auto simp: hex_digit_def char_eq_ord ord_char_of) (auto simp: ord_def)
  have "ord c div 16 < 16"
    using ord_less_256 [of c] by (simp add: less_mult_imp_div_less)
  then have "hex_digit (ord c div 16) \<noteq> CHR 0x0D" "hex_digit (ord c mod 16) \<noteq> CHR 0x0D" "ord (CHR 0x0D) = 13"
    using h by (simp_all add: ord_def)
  then show ?thesis
    by (auto simp: escape_char_def)
qed

lemma json_quote_no_cr: "CHR 0x0D \<notin> set (json_quote s)"
  using escape_no_cr by (auto simp: json_quote_def)

lemma int_str_no_cr: "CHR 0x0D \<notin> set (int_str i)"
proof -
  have "CHR 0x0D \<notin> set (nat_str n)" for n
    using nat_str_digits [of n] by (auto simp: list_all_iff is_digit_def ord_def)
  then show ?thesis
    by (simp add: int_str_def)
qed

lemma dumps_lines_no_cr:
  assumes "\<And>d. CHR 0x0D \<notin> set (nl d)" "CHR 0x0D \<notin> set isep" "CHR 0x0D \<notin> set ksep" "json_plain v"
  shows "CHR 0x0D \<notin> set (dumps_lines fr nl isep ksep d v)"
  using assms(4)
proof (induction v arbitrary: d)
  case (JArr vs)
  have "CHR 0x0D \<notin> (\<Union>x \<in> set (map (dumps_lines fr nl isep ksep (Suc d)) vs). set x)"
    using JArr by (auto simp: list_all_iff)
  then have "CHR 0x0D \<notin> set (join (isep @ nl (Suc d)) (map (dumps_lines fr nl isep ksep (Suc d)) vs))"
    using set_join [of "isep @ nl (Suc d)" "map (dumps_lines fr nl isep ksep (Suc d)) vs"] assms(1,2) by auto
  then show ?case
    using assms(1) by simp
next
  case (JObj kvs)
  let ?f = "\<lambda>(k, v). json_quote k @ ksep @ dumps_lines fr nl isep ksep (Suc d) v"
  have "CHR 0x0D \<notin> set (?f kv)" if "kv \<in> set kvs" for kv
    using JObj that assms(3) json_quote_no_cr by (cases kv) (fastforce simp: list_all_iff)
  then have "CHR 0x0D \<notin> (\<Union>x \<in> set (map ?f kvs). set x)"
    by (auto simp del: set_append)
  moreover have "CHR 0x0D \<notin> set (isep @ nl (Suc d))"
    using assms(1,2) by simp
  ultimately have "CHR 0x0D \<notin> set (join (isep @ nl (Suc d)) (map ?f kvs))"
    using set_join [of "isep @ nl (Suc d)" "map ?f kvs"] by blast
  then show ?case
    using assms(1) by simp
qed (simp_all add: json_quote_no_cr int_str_no_cr)

lemma list_all_values_set: "list_all P d \<Longrightarrow> P (k, v) \<Longrightarrow> list_all P (dict_set k v d)"
  by (induction d) auto

lemma strip_braces: "strip (CHR ''{'' # s @ ''}'') = CHR ''{'' # s @ ''}''"
  by (rule strip_id) (simp add: is_space_def ord_def)

text \<open>A file the writer made is read back as the object it holds.\<close>

lemma dumped_object_reads:
  assumes "json_plain (JObj d)" "file_at w p = Some f" "f_data f = utf8_encode (dumps_indent fr k (JObj d))"
  shows "\<exists>raw. read_text None w p = Inr raw \<and> strip raw \<noteq> [] \<and> loads (strip raw) = Some (JObj d)"
proof -
  let ?t = "dumps_indent fr k (JObj d)"
  have "CHR 0x0D \<notin> set ?t"
    unfolding dumps_indent_def using assms(1) by (intro dumps_lines_no_cr) (auto simp: new_line_def)
  then have "read_text None w p = Inr ?t"
    using assms(2,3) by (simp add: read_text_def utf8_decode_encode universal_newlines_id)
  moreover have "\<exists>m. ?t = CHR ''{'' # m @ ''}''"
    by (cases d) (auto simp: dumps_indent_def)
  then have "strip ?t = ?t" "?t \<noteq> []"
    using strip_braces by auto
  ultimately show ?thesis
    using loads_indent [OF assms(1)] by simp
qed

lemma summary_acknowledged:
  assumes "summary_of_json rp (JObj d) = Inr u"
  shows "summary_of_json rp (JObj (dict_set ''acknowledged'' (JBool True) d)) = Inr (u\<lparr>sum_acknowledged := True\<rparr>)"
  using assms by (auto simp: summary_of_json_def json_get_def bind_result_Inr_iff)

text \<open>Acknowledging the last deployment changes its acknowledgement and nothing else: the summary
  read back afterwards is the old one marked as acknowledged, and without a running deployment
  the progress report is empty again.\<close>

theorem acknowledged_and_kept:
  assumes "acknowledge_last_update cfg env s = (Inr True, s1)"
    and "get_last_update_summary cfg env (store s) = Inr (Some u)"
    and "path_exists (store s) (post_update_file cfg)" "read_fault env (post_update_file cfg) = None"
    and "tmp_ok (file_io env (post_update_file cfg)) (post_update_file cfg) (store s)"
    and "\<And>raw j. read_text None (store s) (post_update_file cfg) = Inr raw \<Longrightarrow> loads (strip raw) = Some j \<Longrightarrow> json_plain j"
  shows "get_last_update_summary cfg env (store s1) = Inr (Some (u\<lparr>sum_acknowledged := True\<rparr>)) \<and>
    operation (idle_progress ls (Some (u\<lparr>sum_acknowledged := True\<rparr>))) = ''none''"
proof -
  let ?p = "post_update_file cfg"
  have sf: "summary_file cfg (store s) = Some ?p"
    using assms(3) by (simp add: summary_file_def)
  obtain raw d r where raw: "read_text None (store s) ?p = Inr raw" "loads (strip raw) = Some (JObj d)"
    and w: "atomic_write_file (file_io env ?p) ?p
      (utf8_encode (dumps_indent (float_repr env) 2 (JObj (dict_set ''acknowledged'' (JBool True) d)))) 5 True None True (store s) =
        (Inr r, store s1)"
    using assms(1,4) sf
    by (auto simp: acknowledge_last_update_def split: sum.splits option.splits json.splits prod.splits if_splits)
  let ?d = "dict_set ''acknowledged'' (JBool True) d"
  let ?t = "dumps_indent (float_repr env) 2 (JObj ?d)"
  have u: "summary_of_json (repr_json env) (JObj d) = Inr u"
    using assms(2,4) sf raw by (auto simp: get_last_update_summary_def split: sum.splits if_splits)
  have "json_plain (JObj d)"
    using assms(6) raw by blast
  then have plain: "json_plain (JObj ?d)"
    by (simp add: distinct_update list_all_values_set)
  obtain f where f: "file_at (store s1) ?p = Some f" "f_data f = utf8_encode ?t"
    using atomic_write_old_or_new [OF assms(5) w] by (auto simp: new_content_def split: option.splits)
  obtain raw1 where "read_text None (store s1) ?p = Inr raw1" "strip raw1 \<noteq> []" "loads (strip raw1) = Some (JObj ?d)"
    using dumped_object_reads [OF plain f] by blast
  moreover have "summary_file cfg (store s1) = Some ?p"
    using f by (simp add: summary_file_def path_exists_def)
  ultimately have "get_last_update_summary cfg env (store s1) = Inr (Some (u\<lparr>sum_acknowledged := True\<rparr>))"
    using assms(4) summary_acknowledged [OF u] by (simp add: get_last_update_summary_def)
  then show ?thesis
    by (simp add: idle_progress_def Let_def)
qed

subsection \<open>The progress report\<close>

lemma step_states_bounds:
  assumes "step_states started completed = (sts, current)"
  shows "length sts = 5 \<and> 1 \<le> current \<and> current \<le> 5 \<and> StepFailed \<notin> set sts"
proof -
  define c where "c = map (classify_step started completed) [1, 2, 3, 4, 5]"
  define r where "r = filter (\<lambda>k. c ! (k - 1) = Running) [1, 2, 3, 4, 5]"
  define cur where "cur = (if r = [] then 1 else last r)"
  have c: "StepFailed \<notin> set c" "length c = 5"
    by (auto simp: c_def classify_step_def)
  have "r \<noteq> [] \<Longrightarrow> last r \<in> {1, 2, 3, 4, 5}"
    using last_in_set [of r] by (auto simp: r_def simp del: filter.simps)
  then have cur: "1 \<le> cur" "cur \<le> 5"
    unfolding cur_def by fastforce+
  have up: "StepFailed \<notin> set (c[k := Running])" for k
    using c(1) set_update_subset_insert [of c k Running] by blast
  have "step_states started completed = (if completed = [] then (c, cur)
      else if max_of completed < 5
      then (if c ! max_of completed = Pending then c[max_of completed := Running] else c, max_of completed + 1) else (c, 5))"
    unfolding step_states_def Let_def cur_def r_def c_def ..
  then show ?thesis
    using assms c up cur by (auto split: if_splits)
qed

lemma read_lock_operation:
  "lock_operation i \<in> set progress_operations \<Longrightarrow> lock_operation (read_lock_lines ls i) \<in> set progress_operations"
  by (induction ls i rule: read_lock_lines.induct) (auto split: option.split)

text \<open>The constraints of the response model.\<close>

definition valid_progress :: "DeploymentProgressResponse \<Rightarrow> bool" where
  "valid_progress r \<longleftrightarrow>
     operation r \<in> set progress_operations \<and> 1 \<le> total_steps r \<and> current_step r \<le> total_steps r \<and>
     0 \<le> percentage r \<and> percentage r \<le> 100 \<and> 0 \<le> elapsed_seconds r \<and>
     (case estimated_remaining r of None \<Rightarrow> True | Some n \<Rightarrow> 0 \<le> n) \<and>
     length (steps r) = total_steps r \<and> length (log_tail r) \<le> 30"

lemma valid_active:
  assumes "lock_operation i \<in> set progress_operations" "0 \<le> elapsed" "length ls \<le> 30"
  shows "valid_progress (active_progress i elapsed ls u) \<and> 1 \<le> current_step (active_progress i elapsed ls u) \<and>
    5 \<le> percentage (active_progress i elapsed ls u) \<and>
    (StepFailed \<in> set (steps (active_progress i elapsed ls u)) \<longrightarrow> \<not> active (active_progress i elapsed ls u))"
proof -
  obtain started completed where sc: "scan_log ls = (started, completed)"
    by fastforce
  obtain sts current where st: "step_states started completed = (sts, current)"
    by fastforce
  have "5 \<le> progress_percent completed sts current" "progress_percent completed sts current \<le> 100"
    by (simp_all add: progress_percent_def min_def max_def)
  then show ?thesis
    using assms step_states_bounds [OF st] by (auto simp: active_progress_def sc st valid_progress_def Let_def)
qed

lemma sum_duration_nonneg: "get_last_update_summary cfg env w = Inr (Some u) \<Longrightarrow> 0 \<le> sum_duration u"
  by (auto simp: get_last_update_summary_def summary_of_json_def bind_result_Inr_iff
      split: option.splits sum.splits if_splits json.splits)

lemma elapsed_nonneg: "elapsed_since t i = Inr n \<Longrightarrow> 0 \<le> n"
  by (auto simp: elapsed_since_def Let_def split: option.splits pyfloat.splits if_splits)

text \<open>Every progress report satisfies the constraints of its response model, for every log,
  lock file and summary: five steps, a current step among them, a percentage between 0 and 100,
  times that are not negative. A running deployment has a current step and at least five percent,
  and never a failed step.\<close>

theorem progress_report_valid:
  assumes "get_deployment_progress cfg env s = (Inr r, s')"
  shows "valid_progress r \<and>
    (active r \<longrightarrow> 1 \<le> current_step r \<and> 5 \<le> percentage r \<and> StepFailed \<notin> set (steps r))"
proof -
  obtain busy w u where b: "is_update_in_progress cfg env (store s) = (busy, w)"
    and u: "get_last_update_summary cfg env w = Inr u"
    using assms by (cases "is_update_in_progress cfg env (store s)")
      (auto simp: get_deployment_progress_def bind_result_Inr_iff Let_def)
  have ls: "length (recent_log env) \<le> 30"
    by (auto simp: recent_log_def split: option.split)
  show ?thesis
  proof (cases busy)
    case False
    then have "r = idle_progress (recent_log env) u"
      using assms b u by (simp add: get_deployment_progress_def)
    then show ?thesis
      using u ls sum_duration_nonneg by (auto simp: idle_progress_def valid_progress_def progress_operations_def Let_def
          split: option.split)
  next
    case True
    then obtain i n where "read_lock_info cfg env w = Inr i" "elapsed_since (wall_time env) i = Inr n"
      and r: "r = active_progress i n (recent_log env) u"
      using assms b u by (auto simp: get_deployment_progress_def bind_result_Inr_iff)
    moreover have "''portal_update'' \<in> set progress_operations"
      by (simp add: progress_operations_def)
    then have "lock_operation i \<in> set progress_operations"
      using \<open>read_lock_info cfg env w = Inr i\<close> read_lock_operation
      by (auto simp: read_lock_info_def Let_def split: if_splits sum.splits)
    ultimately have "lock_operation i \<in> set progress_operations" "0 \<le> n"
      using elapsed_nonneg by blast+
    then show ?thesis
      using valid_active [OF _ _ ls] r by blast
  qed
qed

subsection \<open>Witnesses\<close>

definition demo_update_cfg :: update_config where
  "demo_update_cfg = \<lparr>repo_url = ''https://github.com/o/r.git'', tracked_branch = ''main'', deploy_script = None,
     lock_file = (''/tmp'', ''u.lock''), repo_dir = ''/srv'', post_update_file = (''/var/lib/palmanager'', ''last_update.json''),
     user_home = ''/home/steam''\<rparr>"

definition demo_update_env :: "rat \<Rightarrow> update_env" where
  "demo_update_env t = \<lparr>wall_time = t, clock_now = 0, git_head = GitExit 0 ''abc1234'', read_fault = (\<lambda>p. None),
     lock_stat_fails = False, lock_unlink_fails = False,
     commits_reply = Response 200 (Some (JObj [(''sha'', JStr ''def5678''), (''commit'', JObj [(''message'', JStr ''m'')])])),
     compare_reply = Response 200 (Some (JObj [(''ahead_by'', JInt 3)])), file_io = (\<lambda>p. demo_io\<lparr>now := t\<rparr>),
     wall_time_text = ''9.0'', process_id = 7, command_runner = None, on_posix = True, log_fault = None,
     popen_fault = None, repr_json = (\<lambda>j. []), float_repr = (\<lambda>x. []), describe = (\<lambda>e. []),
     log_text = Some [''[STEP 1/5] Pulling...'', ''[ OK ] done'']\<rparr>"

definition demo_entry :: "string \<Rightarrow> file_entry" where
  "demo_entry t = \<lparr>f_data = t, f_mode = 420, f_mtime = 0, f_synced = True\<rparr>"

definition demo_summary :: "(string, json) dict" where
  "demo_summary = [(''status'', JStr ''failed''), (''summary'', JStr ''x'')]"

definition demo_update_disk :: world where
  "demo_update_disk = \<lparr>files = [((''/opt/palworld-web-manager/scripts'', ''deploy.sh''), demo_entry ''x''),
     ((''/var/lib/palmanager'', ''last_update.json''), demo_entry (utf8_encode (dumps_indent (\<lambda>x. []) 2 (JObj demo_summary))))],
     trace = [], dir_durable = False\<rparr>"

definition demo_watcher :: watcher where
  "demo_watcher = new_watcher 0 demo_update_disk"

lemma demo_clocked: "clocked demo_update_cfg (demo_update_env t)"
  by (simp add: clocked_def demo_update_env_def)

lemma demo_separate: "separate demo_update_cfg"
  by (simp add: separate_def demo_update_cfg_def)

lemma demo_update_sel [simp]:
  "wall_time (demo_update_env t) = t" "read_fault (demo_update_env t) p = None"
  "file_io (demo_update_env t) p = demo_io\<lparr>now := t\<rparr>" "command_runner (demo_update_env t) = None"
  "on_posix (demo_update_env t)" "\<not> lock_stat_fails (demo_update_env t)"
  "lock_file demo_update_cfg = (''/tmp'', ''u.lock'')" "tracked_branch demo_update_cfg = ''main''"
  "post_update_file demo_update_cfg = (''/var/lib/palmanager'', ''last_update.json'')"
  by (simp_all add: demo_update_env_def demo_update_cfg_def)

lemma demo_no_lock: "file_at demo_update_disk (''/tmp'', ''u.lock'') = None"
  by (simp add: demo_update_disk_def file_at_def)

definition demo_read_summary :: PostUpdateSummary where
  "demo_read_summary = \<lparr>sum_status = ''failed'', sum_branch = ''main'', sum_version = None, sum_commit = ''unknown'',
       sum_commit_short = ''unknown'', sum_deployed_at = [], sum_duration = 0, sum_text = ''x'', sum_acknowledged = False\<rparr>"

lemma demo_raw:
  obtains raw where "read_text None demo_update_disk (''/var/lib/palmanager'', ''last_update.json'') = Inr raw"
    "strip raw \<noteq> []" "loads (strip raw) = Some (JObj demo_summary)"
  using dumped_object_reads [of demo_summary demo_update_disk "(''/var/lib/palmanager'', ''last_update.json'')"]
  by (force simp: demo_summary_def demo_update_disk_def demo_entry_def file_at_def)

lemma demo_summary_exists: "path_exists demo_update_disk (''/var/lib/palmanager'', ''last_update.json'')"
  by (simp add: path_exists_def demo_update_disk_def file_at_def)

lemma demo_summary_read:
  "get_last_update_summary demo_update_cfg (demo_update_env t) demo_update_disk = Inr (Some demo_read_summary)"
proof -
  obtain raw where "read_text None demo_update_disk (''/var/lib/palmanager'', ''last_update.json'') = Inr raw"
    "strip raw \<noteq> []" "loads (strip raw) = Some (JObj demo_summary)"
    using demo_raw by blast
  moreover have "summary_of_json rp (JObj demo_summary) = Inr demo_read_summary" for rp
    by (simp add: summary_of_json_def demo_summary_def json_get_def demo_read_summary_def)
  ultimately show ?thesis
    by (simp add: get_last_update_summary_def summary_file_def demo_summary_exists)
qed

lemma demo_status: "store s = demo_update_disk \<Longrightarrow> \<exists>r. get_status demo_update_cfg (demo_update_env t) s = (Inr r, s)"
  by (simp add: get_status_def is_update_in_progress_def demo_no_lock demo_summary_read)

lemma demo_slug: "parse_repo_slug (repo_url demo_update_cfg) = Inr (''o'', ''r'')"
  unfolding demo_update_cfg_def by code_simp

lemma demo_commit: "get_local_commit demo_update_cfg (demo_update_env t) w = Inr ''abc1234''"
proof -
  have "strip ''abc1234'' = ''abc1234''"
    by code_simp
  then show ?thesis
    by (simp add: get_local_commit_def demo_update_env_def)
qed

lemma demo_check:
  "\<exists>r s. check_for_updates demo_update_cfg (demo_update_env t) demo_watcher = (Inr r, s) \<and>
     store s = demo_update_disk \<and> commits_behind s = 3"
proof -
  have "commit_summary (repr_json (demo_update_env t))
      [(''sha'', JStr ''def5678''), (''commit'', JObj [(''message'', JStr ''m'')])] = Inr (''def5678'', ''m'')"
    by code_simp
  then obtain s2 where "probe_upstream (demo_update_env t) ''abc1234''
      (demo_watcher\<lparr>last_checked := isoformat (clock_now (demo_update_env t)), current_commit := ''abc1234''\<rparr>) = (Inr (), s2)"
    "store s2 = demo_update_disk" "commits_behind s2 = 3"
    by (simp add: probe_upstream_def demo_update_env_def body_object_def same_commit_def compare_commits_def json_get_def
        demo_watcher_def new_watcher_def)
  then show ?thesis
    using demo_status [of s2 t] by (auto simp: check_for_updates_def demo_commit demo_slug)
qed

lemma status_consistent_witness:
  "\<exists>s r s'. run_update_ops demo_update_cfg [CheckUpdates (demo_update_env 9)] demo_watcher = ([], s) \<and>
     get_status demo_update_cfg (demo_update_env 9) s = (Inr r, s') \<and> seen_behind r = 3 \<and> seen_available r"
proof -
  obtain r0 s where s: "check_for_updates demo_update_cfg (demo_update_env 9) demo_watcher = (Inr r0, s)"
    "store s = demo_update_disk" "commits_behind s = 3"
    using demo_check by blast
  then have run: "run_update_ops demo_update_cfg [CheckUpdates (demo_update_env 9)] demo_watcher = ([], s)"
    by simp
  obtain r where r: "get_status demo_update_cfg (demo_update_env 9) s = (Inr r, s)"
    using demo_status [OF s(2)] by blast
  then show ?thesis
    using status_consistent [OF run [unfolded demo_watcher_def] r] get_status_view [OF r] run s(3) by auto
qed

lemma check_verdict_witness:
  "\<exists>r s. check_for_updates demo_update_cfg (demo_update_env 9) demo_watcher = (Inr r, s) \<and> seen_behind r = 3 \<and> seen_available r"
proof -
  obtain r s where s: "check_for_updates demo_update_cfg (demo_update_env 9) demo_watcher = (Inr r, s)"
    using demo_check by blast
  moreover have "commit_summary (repr_json (demo_update_env 9))
      [(''sha'', JStr ''def5678''), (''commit'', JObj [(''message'', JStr ''m'')])] = Inr (''def5678'', ''m'')"
    by code_simp
  moreover have "\<not> same_commit ''abc1234'' ''def5678''"
    by code_simp
  ultimately show ?thesis
    using check_verdict [OF s demo_commit demo_slug] by (simp add: demo_update_env_def json_get_def)
qed

lemma demo_apply:
  assumes "store s = demo_update_disk"
  shows "\<exists>s1. apply_update demo_update_cfg (demo_update_env t) None s = (Inr ''main'', s1)"
proof -
  let ?lock = "(''/tmp'', ''u.lock'')" and ?sh = "(''/opt/palworld-web-manager/scripts'', ''deploy.sh'')"
  let ?raw = "utf8_encode (lock_payload (demo_update_env t) ''main'')"
  have m: "update_branch_matches ''main''"
    by code_simp
  obtain q w where w: "atomic_write_file (demo_io\<lparr>now := t\<rparr>) ?lock ?raw 5 False None True demo_update_disk = (Inr q, w)"
    using atomic_write_file_no_faults [of "demo_io\<lparr>now := t\<rparr>"] by (fastforce simp: demo_io_def)
  have "file_at w ?sh = file_at demo_update_disk ?sh"
    using atomic_write_other_dir [of ?sh ?lock "demo_io\<lparr>now := t\<rparr>" ?raw 5 False None True demo_update_disk] w by simp
  then have "path_exists w ?sh"
    by (simp add: path_exists_def demo_update_disk_def file_at_def)
  then have "\<exists>s1. dispatch_deployment demo_update_cfg (demo_update_env t) ''main'' (s\<lparr>store := w\<rparr>) = (Inr ''main'', s1)"
    by (simp add: dispatch_deployment_def resolve_deploy_script_def spawn_detached_deployer_def demo_update_cfg_def)
       (simp add: demo_update_env_def)
  then show ?thesis
    using assms m w by (simp add: apply_update_def is_update_in_progress_def demo_no_lock Let_def)
qed

lemma demo_watcher_store: "store demo_watcher = demo_update_disk"
  by (simp add: demo_watcher_def new_watcher_def)

lemma accepted_update_never_starts_witness:
  "\<exists>s1 code m s2. apply_update demo_update_cfg (demo_update_env 9) None demo_watcher = (Inr ''main'', s1) \<and> dispatched s1 = [] \<and>
     apply_update demo_update_cfg (demo_update_env 1000) None s1 = (Inl (HTTPException code m), s2) \<and> dispatched s2 = []"
proof -
  obtain s1 where s1: "apply_update demo_update_cfg (demo_update_env 9) None demo_watcher = (Inr ''main'', s1)"
    using demo_apply [OF demo_watcher_store] by blast
  have "dispatched demo_watcher = []"
    by (simp add: demo_watcher_def new_watcher_def)
  then show ?thesis
    using accepted_update_never_starts [OF s1 _ _ demo_clocked] s1 demo_clocked [of 1000] by fastforce
qed

lemma deployments_never_overlap_witness:
  "\<exists>ts s. run_update_ops demo_update_cfg [ApplyUpdate (demo_update_env 100) None, ApplyUpdate (demo_update_env 200) None,
       ApplyUpdate (demo_update_env 5000) None] demo_watcher = (100 # ts, s) \<and> sorted_wrt (\<lambda>a b. a + 1800 < b) (100 # ts)"
proof -
  let ?xs = "[ApplyUpdate (demo_update_env 100) None, ApplyUpdate (demo_update_env 200) None,
       ApplyUpdate (demo_update_env 5000) None]"
  obtain s1 where "apply_update demo_update_cfg (demo_update_env 100) None demo_watcher = (Inr ''main'', s1)"
    using demo_apply [OF demo_watcher_store] by blast
  then obtain ts s where r: "run_update_ops demo_update_cfg ?xs demo_watcher = (100 # ts, s)"
    by (simp add: split_beta Let_def)
  show ?thesis
    using deployments_never_overlap [OF _ demo_separate _ r] r demo_clocked by auto
qed

lemma acknowledged_and_kept_witness:
  "\<exists>s1. acknowledge_last_update demo_update_cfg (demo_update_env 9) demo_watcher = (Inr True, s1) \<and>
     get_last_update_summary demo_update_cfg (demo_update_env 9) (store s1) =
       Inr (Some (demo_read_summary\<lparr>sum_acknowledged := True\<rparr>))"
proof -
  let ?p = "(''/var/lib/palmanager'', ''last_update.json'')"
  obtain raw where raw: "read_text None demo_update_disk ?p = Inr raw" "strip raw \<noteq> []" "loads (strip raw) = Some (JObj demo_summary)"
    using demo_raw by blast
  obtain q w where "atomic_write_file (demo_io\<lparr>now := 9\<rparr>) ?p (utf8_encode (dumps_indent (float_repr (demo_update_env 9)) 2
      (JObj (dict_set ''acknowledged'' (JBool True) demo_summary)))) 5 True None True demo_update_disk = (Inr q, w)"
    using atomic_write_file_no_faults [of "demo_io\<lparr>now := 9\<rparr>"] by (fastforce simp: demo_io_def)
  then obtain s1 where s1: "acknowledge_last_update demo_update_cfg (demo_update_env 9) demo_watcher = (Inr True, s1)"
    using raw by (simp add: acknowledge_last_update_def summary_file_def demo_watcher_store demo_summary_exists)
  have "tmp_ok (demo_io\<lparr>now := 9\<rparr>) ?p demo_update_disk"
    by (simp add: tmp_ok_def tmp_path_of_def demo_io_def file_at_def demo_update_disk_def is_backup_of_def startswith_def
        backup_prefix_def)
  moreover have plain: "json_plain (JObj demo_summary)"
    by (simp add: demo_summary_def)
  moreover have "json_plain j" if "read_text None demo_update_disk ?p = Inr raw'" "loads (strip raw') = Some j" for raw' j
    using raw that plain by (simp del: json_plain.simps)
  ultimately show ?thesis
    using acknowledged_and_kept [OF s1] s1 by (simp add: demo_watcher_store demo_summary_read demo_summary_exists)
qed

lemma progress_report_valid_witness:
  "\<exists>r. fst (get_deployment_progress demo_update_cfg (demo_update_env 9) demo_watcher) = Inr r \<and>
     current_step r = 1 \<and> valid_progress r"
proof -
  have "get_deployment_progress demo_update_cfg (demo_update_env 9) demo_watcher =
      (Inr (idle_progress (recent_log (demo_update_env 9)) (Some demo_read_summary)), demo_watcher)"
    by (simp add: get_deployment_progress_def demo_watcher_store is_update_in_progress_def demo_no_lock demo_summary_read)
  then show ?thesis
    using progress_report_valid by (fastforce simp: idle_progress_def demo_read_summary_def)
qed

end
