(* ===== verification/Deployer.thy ===== *)
theory Deployer
  imports Atomic_IO Py_Text
begin

section \<open>Verifying, unpacking and installing a release\<close>

text \<open>
  \<^verbatim>\<open>app/engine/deployer.py\<close>: the checksum of a release archive, the checks every archive member
  has to pass before anything is unpacked, the staged extraction, and the directory swap that
  installs a release and keeps the previous one. Files and directories are those of
  \<^verbatim>\<open>Atomic_IO\<close>: a directory has one entry that stands for what it contains, except for the
  directories the deployment itself names. The digest, the archive reader and the resolution of
  symbolic links by the operating system are arguments; which calls fail is an environment.
\<close>

subsection \<open>Archive members\<close>

datatype member_kind = RegularFile | DirectoryEntry | SymbolicLink | HardLink | OtherMember

record tar_member =
  member_name :: string
  link_name :: string
  member_type :: member_kind

text \<open>\<open>Path(s).parts\<close> without the root, \<open>Path.is_absolute\<close> and \<open>Path.is_relative_to\<close>.\<close>

definition path_parts :: "string \<Rightarrow> string list" where
  "path_parts s = filter (\<lambda>p. p \<noteq> [] \<and> p \<noteq> ''.'') (split_on (CHR ''/'') s)"

definition is_absolute :: "string \<Rightarrow> bool" where
  "is_absolute s = startswith s ''/''"

definition is_relative_to :: "string list \<Rightarrow> string list \<Rightarrow> bool" where
  "is_relative_to p base \<longleftrightarrow> take (length base) p = base"

definition backslash :: char where
  "backslash = CHR 0x5C"

definition rooted :: "string \<Rightarrow> bool" where
  "rooted s \<longleftrightarrow> startswith s ''/'' \<or> startswith s [backslash] \<or> CHR '':'' \<in> set s"

text \<open>A failure of \<open>Path.resolve\<close> that the guards turn into a rejection.\<close>

definition resolve_fault :: "py_error \<Rightarrow> py_error" where
  "resolve_fault e = (case e of RuntimeError _ \<Rightarrow> SecurityError | _ \<Rightarrow> if is_os_error e then SecurityError else e)"

definition guarded_resolve :: "(string list \<Rightarrow> string list result) \<Rightarrow> string list \<Rightarrow> string list result" where
  "guarded_resolve resolve p = (case resolve p of Inl e \<Rightarrow> Inl (resolve_fault e) | Inr q \<Rightarrow> Inr q)"

definition validate_link ::
  "(string list \<Rightarrow> string list result) \<Rightarrow> string list \<Rightarrow> string list \<Rightarrow> string \<Rightarrow> unit result" where
  "validate_link resolve resolved_root resolved_target link =
     (if rooted link then Inl SecurityError
      else if ''..'' \<in> set (path_parts link) then Inl SecurityError
      else bind_result (guarded_resolve resolve (butlast resolved_target @ path_parts link)) (\<lambda>resolved_link.
             if is_relative_to resolved_link resolved_root then Inr () else Inl SecurityError))"

definition validate_tar_member ::
  "(string list \<Rightarrow> string list result) \<Rightarrow> string list \<Rightarrow> tar_member \<Rightarrow> unit result" where
  "validate_tar_member resolve destination_root m =
     (if is_absolute (member_name m) \<or> rooted (member_name m) then Inl SecurityError
      else if ''..'' \<in> set (path_parts (member_name m)) then Inl SecurityError
      else bind_result (guarded_resolve resolve destination_root) (\<lambda>resolved_root.
           bind_result (guarded_resolve resolve (destination_root @ path_parts (member_name m))) (\<lambda>resolved_target.
             if \<not> is_relative_to resolved_target resolved_root then Inl SecurityError
             else if member_type m = SymbolicLink \<or> member_type m = HardLink
             then validate_link resolve resolved_root resolved_target (link_name m)
             else Inr ())))"

fun validate_members ::
  "(string list \<Rightarrow> string list result) \<Rightarrow> string list \<Rightarrow> tar_member list \<Rightarrow> unit result" where
  "validate_members resolve base [] = Inr ()"
| "validate_members resolve base (m # ms) =
     bind_result (validate_tar_member resolve base m) (\<lambda>_. validate_members resolve base ms)"

subsection \<open>Checksums\<close>

definition SHA256_BLOCK_SIZE :: nat where
  "SHA256_BLOCK_SIZE = 65536"

text \<open>The blocks \<open>stream.read(n)\<close> returns until the end of the file.\<close>

function read_blocks :: "nat \<Rightarrow> string \<Rightarrow> string list" where
  "read_blocks n s = (if s = [] \<or> n = 0 then [] else take n s # read_blocks n (drop n s))"
  by pat_completeness auto
termination by (relation "measure (\<lambda>(n, s). length s)") auto

declare read_blocks.simps [simp del]

record deploy_env =
  sha256_hex :: "string \<Rightarrow> string"
  stream_fails :: bool
  resolve_links :: "string list \<Rightarrow> string list result"
  read_archive :: "string \<Rightarrow> tar_member list result"
  extract_all :: "tar_member list \<Rightarrow> string result"

text \<open>The hash object holds the bytes it was given: successive updates count as one update with
  the concatenation.\<close>

definition compute_sha256 :: "deploy_env \<Rightarrow> world \<Rightarrow> dirs \<Rightarrow> path \<Rightarrow> string result" where
  "compute_sha256 env w d p =
     (case file_at w p of
        None \<Rightarrow> Inl (if dict_get d p = None then FileNotFoundError else ValueError)
      | Some f \<Rightarrow> if stream_fails env then Inl OSError
                  else Inr (sha256_hex env (foldl (@) [] (read_blocks SHA256_BLOCK_SIZE (f_data f)))))"

definition ascii_text :: "string \<Rightarrow> bool" where
  "ascii_text s = list_all (\<lambda>c. ord c < 128) s"

text \<open>\<open>hmac.compare_digest\<close> of two strings refuses characters outside ASCII.\<close>

definition compare_digest :: "string \<Rightarrow> string \<Rightarrow> bool result" where
  "compare_digest a b = (if ascii_text a \<and> ascii_text b then Inr (a = b) else Inl TypeError)"

definition verify_checksum :: "deploy_env \<Rightarrow> world \<Rightarrow> dirs \<Rightarrow> path \<Rightarrow> string \<Rightarrow> bool result" where
  "verify_checksum env w d p expected_sha256 =
     (if file_at w p = None then Inr False
      else (case compute_sha256 env w d p of
              Inl e \<Rightarrow> if is_os_error e \<or> is_value_error e then Inr False else Inl e
            | Inr calculated \<Rightarrow> compare_digest (strip (lower calculated)) (strip (lower expected_sha256))))"

subsection \<open>Staging a release\<close>

definition dir_parts :: "path \<Rightarrow> string list" where
  "dir_parts p = path_parts (fst p) @ [snd p]"

definition archive_fault :: "py_error \<Rightarrow> py_error" where
  "archive_fault e = (if e \<in> {LibraryError ''ReadError'', LibraryError ''CompressionError''} then ValueError else e)"

text \<open>The body of the \<open>with\<close> block: all members are read and validated before the first is
  extracted.\<close>

definition unpack_release :: "deploy_env \<Rightarrow> string list \<Rightarrow> string \<Rightarrow> string result" where
  "unpack_release env stage_path tarball =
     (case bind_result (read_archive env tarball) (\<lambda>members.
             bind_result (validate_members (resolve_links env) stage_path members) (\<lambda>_.
               extract_all env members)) of
        Inl e \<Rightarrow> Inl (archive_fault e)
      | Inr content \<Rightarrow> Inr content)"

definition stage_release_package ::
  "deploy_env \<Rightarrow> stage_env \<Rightarrow> world \<Rightarrow> path \<Rightarrow> path \<Rightarrow> dirs \<Rightarrow> path result \<times> dirs" where
  "stage_release_package env senv w tarball target d =
     (case file_at w tarball of
        None \<Rightarrow> (Inl (if dict_get d tarball = None then FileNotFoundError else ValueError), d)
      | Some f \<Rightarrow>
          (case staged_update senv target (unpack_release env (dir_parts (stage_name senv)) (f_data f)) d of
             (Inl e, d') \<Rightarrow> (Inl e, d')
           | (Inr _, d') \<Rightarrow> (Inr target, d')))"

subsection \<open>Installing a release\<close>

text \<open>The outcome of \<open>shutil.move\<close>: it succeeds, or it raises and leaves something (or nothing) at
  the two places.\<close>

datatype move_outcome = Moved | MoveFailed "string option" "string option"

record swap_env =
  utc_stamp :: string
  target_parent_fails :: bool
  first_rename_fails :: bool
  first_move :: move_outcome
  displace_fails :: bool
  install_fails :: bool
  restore_fails :: bool
  backup_parent_fails :: bool
  archive_rename_fails :: bool
  archive_move :: move_outcome
  remains :: "string option"

text \<open>\<open>os.replace\<close> on a directory fails when the destination holds something.\<close>

definition rename_dir :: "bool \<Rightarrow> path \<Rightarrow> path \<Rightarrow> dirs \<Rightarrow> dirs option" where
  "rename_dir fails src dst d =
     (if fails \<or> dict_get d src = None \<or> dict_get d dst \<notin> {None, Some []} then None
      else Some (move_dir src dst d))"

definition child :: "path \<Rightarrow> string \<Rightarrow> path" where
  "child p n = (fst p @ ''/'' @ snd p, n)"

definition leave :: "path \<Rightarrow> string option \<Rightarrow> dirs \<Rightarrow> dirs" where
  "leave p c d = (case c of None \<Rightarrow> remove_dir p d | Some x \<Rightarrow> dict_set p x d)"

text \<open>\<open>shutil.move\<close> moves into an existing destination.\<close>

definition shutil_move :: "move_outcome \<Rightarrow> path \<Rightarrow> path \<Rightarrow> dirs \<Rightarrow> bool \<times> dirs" where
  "shutil_move outcome src dst d =
     (let real_dst = (if dict_get d dst = None then dst else child dst (snd src))
      in case outcome of
           Moved \<Rightarrow> if dict_get d real_dst = None then (True, move_dir src real_dst d) else (False, d)
         | MoveFailed left_src left_dst \<Rightarrow> (False, leave src left_src (leave real_dst left_dst d)))"

definition perform_initial_target_move :: "swap_env \<Rightarrow> path \<Rightarrow> path \<Rightarrow> dirs \<Rightarrow> bool \<times> dirs" where
  "perform_initial_target_move env staged target d =
     (case rename_dir (first_rename_fails env) staged target d of
        Some d1 \<Rightarrow> (True, d1)
      | None \<Rightarrow> shutil_move (first_move env) staged target d)"

definition swap_directories_with_rollback :: "swap_env \<Rightarrow> path \<Rightarrow> path \<Rightarrow> path \<Rightarrow> dirs \<Rightarrow> bool \<times> dirs" where
  "swap_directories_with_rollback env staged target tomb d =
     (case rename_dir (displace_fails env) target tomb d of
        None \<Rightarrow> (False, d)
      | Some d1 \<Rightarrow>
          (case rename_dir (install_fails env) staged target d1 of
             Some d2 \<Rightarrow> (True, d2)
           | None \<Rightarrow>
               (False, case rename_dir (restore_fails env) tomb target d1 of Some d2 \<Rightarrow> d2 | None \<Rightarrow> d1)))"

text \<open>\<open>shutil.rmtree\<close>, with what an error leaves behind.\<close>

definition discard_tombstone :: "swap_env \<Rightarrow> path \<Rightarrow> dirs \<Rightarrow> dirs" where
  "discard_tombstone env tomb d = leave tomb (remains env) d"

definition archive_dest :: "swap_env \<Rightarrow> string \<Rightarrow> path \<Rightarrow> dirs \<Rightarrow> path" where
  "archive_dest env target_name backup d =
     (if dict_get d backup = None then backup
      else child backup (target_name @ ''.backup.'' @ utc_stamp env))"

definition archive_or_cleanup_tombstone :: "swap_env \<Rightarrow> path \<Rightarrow> string \<Rightarrow> path option \<Rightarrow> dirs \<Rightarrow> dirs" where
  "archive_or_cleanup_tombstone env tomb target_name backup_dir d =
     (case backup_dir of
        None \<Rightarrow> discard_tombstone env tomb d
      | Some backup \<Rightarrow>
          if backup_parent_fails env then discard_tombstone env tomb d
          else
            (let dest = archive_dest env target_name backup d
             in case rename_dir (archive_rename_fails env) tomb dest d of
                  Some d1 \<Rightarrow> d1
                | None \<Rightarrow>
                    (case shutil_move (archive_move env) tomb dest d of
                       (True, d1) \<Rightarrow> d1
                     | (False, d1) \<Rightarrow> discard_tombstone env tomb d1)))"

definition swap_tombstone :: "swap_env \<Rightarrow> path \<Rightarrow> path" where
  "swap_tombstone env target = (fst target, snd target @ ''.old.'' @ utc_stamp env)"

definition execute_atomic_swap :: "swap_env \<Rightarrow> path \<Rightarrow> path \<Rightarrow> path option \<Rightarrow> dirs \<Rightarrow> bool \<times> dirs" where
  "execute_atomic_swap env staged target backup_dir d =
     (if dict_get d staged = None then (False, d)
      else if staged = target then (False, d)
      else if target_parent_fails env then (False, d)
      else if dict_get d target = None then perform_initial_target_move env staged target d
      else
        (let tomb = swap_tombstone env target
         in case swap_directories_with_rollback env staged target tomb d of
              (False, d1) \<Rightarrow> (False, d1)
            | (True, d1) \<Rightarrow> (True, archive_or_cleanup_tombstone env tomb (snd target) backup_dir d1)))"

subsection \<open>Accepted archives stay inside the staging directory\<close>

text \<open>How the kernel follows a path: component by component, replacing symbolic links.\<close>

inductive walk :: "(string list \<Rightarrow> string option) \<Rightarrow> string list \<Rightarrow> string list \<Rightarrow> string list \<Rightarrow> bool" for L where
  walk_end: "walk L cur [] cur"
| walk_up: "walk L (butlast cur) ps q \<Longrightarrow> walk L cur (''..'' # ps) q"
| walk_into: "p \<noteq> ''..'' \<Longrightarrow> L (cur @ [p]) = None \<Longrightarrow> walk L (cur @ [p]) ps q \<Longrightarrow> walk L cur (p # ps) q"
| walk_link: "p \<noteq> ''..'' \<Longrightarrow> L (cur @ [p]) = Some t \<Longrightarrow>
    walk L (if is_absolute t then [] else cur) (path_parts t @ ps) q \<Longrightarrow> walk L cur (p # ps) q"

text \<open>Unpacking, member by member and without any check of its own: the links of the file system
  and the places a member made writable. A hard link also opens the file it names.\<close>

record host_tree =
  links :: "string list \<Rightarrow> string option"
  written :: "string list list"

inductive extracts :: "string list \<Rightarrow> tar_member list \<Rightarrow> host_tree \<Rightarrow> host_tree \<Rightarrow> bool" for base where
  extracts_nil: "extracts base [] h h"
| extracts_symlink: "member_type m = SymbolicLink \<Longrightarrow> path_parts (member_name m) = ps @ [n] \<Longrightarrow>
    walk (links h) base ps q \<Longrightarrow>
    extracts base ms (h\<lparr>links := (links h)(q @ [n] := Some (link_name m)), written := written h @ [q @ [n]]\<rparr>) h' \<Longrightarrow>
    extracts base (m # ms) h h'"
| extracts_hardlink: "member_type m = HardLink \<Longrightarrow> walk (links h) base (path_parts (member_name m)) q \<Longrightarrow>
    walk (links h) base (path_parts (link_name m)) q2 \<Longrightarrow>
    extracts base ms (h\<lparr>written := written h @ [q, q2]\<rparr>) h' \<Longrightarrow> extracts base (m # ms) h h'"
| extracts_content: "member_type m \<notin> {SymbolicLink, HardLink} \<Longrightarrow>
    walk (links h) base (path_parts (member_name m)) q \<Longrightarrow>
    extracts base ms (h\<lparr>written := written h @ [q]\<rparr>) h' \<Longrightarrow> extracts base (m # ms) h h'"

inductive_cases extracts_ConsE: "extracts base (m # ms) h h'"
inductive_cases extracts_NilE: "extracts base [] h h'"

text \<open>Every link inside the directory is relative and has no parent component.\<close>

definition harmless :: "string \<Rightarrow> bool" where
  "harmless t \<longleftrightarrow> \<not> is_absolute t \<and> ''..'' \<notin> set (path_parts t)"

definition confined :: "string list \<Rightarrow> (string list \<Rightarrow> string option) \<Rightarrow> bool" where
  "confined base L \<longleftrightarrow> (\<forall>p t. is_relative_to p base \<longrightarrow> L p = Some t \<longrightarrow> harmless t)"

lemma is_relative_to_iff: "is_relative_to p base \<longleftrightarrow> (\<exists>s. p = base @ s)"
  by (auto simp: is_relative_to_def) (metis append_take_drop_id)

lemma is_relative_append [simp]: "is_relative_to cur base \<Longrightarrow> is_relative_to (cur @ ps) base"
  by (auto simp: is_relative_to_iff)

lemma is_relative_refl [simp]: "is_relative_to base base"
  by (simp add: is_relative_to_def)

lemma walk_confined:
  assumes "walk L cur ps q" "confined base L" "is_relative_to cur base" "''..'' \<notin> set ps"
  shows "is_relative_to q base"
  using assms
proof (induction rule: walk.induct)
  case (walk_link p cur t ps q)
  then have "harmless t"
    using is_relative_append [of cur base "[p]"] unfolding confined_def by blast
  with walk_link show ?case by (simp add: harmless_def)
qed simp_all

lemma validated_name:
  "validate_tar_member resolve base m = Inr () \<Longrightarrow> ''..'' \<notin> set (path_parts (member_name m))"
  by (auto simp: validate_tar_member_def split: if_splits)

lemma validated_link:
  "validate_tar_member resolve base m = Inr () \<Longrightarrow> member_type m \<in> {SymbolicLink, HardLink} \<Longrightarrow> harmless (link_name m)"
  by (auto simp: validate_tar_member_def validate_link_def harmless_def rooted_def is_absolute_def bind_result_Inr_iff
      split: if_splits)

lemma validate_members_all:
  "validate_members resolve base ms = Inr () \<longleftrightarrow> (\<forall>m \<in> set ms. validate_tar_member resolve base m = Inr ())"
  by (induction ms) (auto simp: bind_result_Inr_iff)

lemma extracts_confined:
  assumes "extracts base ms h h'" "\<forall>m \<in> set ms. validate_tar_member resolve base' m = Inr ()"
    and "confined base (links h)"
  shows "confined base (links h') \<and> (\<forall>p \<in> set (written h') - set (written h). is_relative_to p base)"
  using assms
proof (induction rule: extracts.induct)
  case (extracts_symlink m ps n h q ms h')
  have "''..'' \<notin> set ps"
    using validated_name [of resolve base' m] extracts_symlink.hyps(2) extracts_symlink.prems(1) by simp
  then have q: "is_relative_to q base"
    using walk_confined [OF extracts_symlink.hyps(3) extracts_symlink.prems(2)] by simp
  have "harmless (link_name m)"
    using validated_link [of resolve base' m] extracts_symlink.hyps(1) extracts_symlink.prems(1) by simp
  then have "confined base ((links h)(q @ [n] := Some (link_name m)))"
    using extracts_symlink.prems(2) by (auto simp: confined_def)
  then show ?case
    using extracts_symlink.IH extracts_symlink.prems q by (auto simp: fun_upd_def)
next
  case (extracts_hardlink m h q q2 ms h')
  have "''..'' \<notin> set (path_parts (link_name m))"
    using validated_link [of resolve base' m] extracts_hardlink.hyps(1) extracts_hardlink.prems(1) by (simp add: harmless_def)
  then have "is_relative_to q2 base"
    using walk_confined [OF extracts_hardlink.hyps(3) extracts_hardlink.prems(2)] by simp
  moreover have "is_relative_to q base"
    using walk_confined [OF extracts_hardlink.hyps(2) extracts_hardlink.prems(2)] validated_name [of resolve base' m]
      extracts_hardlink.prems(1) by simp
  ultimately show ?case
    using extracts_hardlink.IH extracts_hardlink.prems by auto
next
  case (extracts_content m h q ms h')
  have "is_relative_to q base"
    using walk_confined [OF extracts_content.hyps(2) extracts_content.prems(2)] validated_name [of resolve base' m]
      extracts_content.prems(1) by simp
  then show ?case
    using extracts_content.IH extracts_content.prems by auto
qed simp

subsection \<open>Checksums and staging\<close>

lemma concat_read_blocks: "0 < n \<Longrightarrow> foldl (@) a (read_blocks n s) = a @ s"
proof (induction n s arbitrary: a rule: read_blocks.induct)
  case (1 n s)
  then show ?case by (subst read_blocks.simps) (cases "s = []", simp_all)
qed

lemma read_blocks_bounded: "b \<in> set (read_blocks n s) \<Longrightarrow> b \<noteq> [] \<and> length b \<le> n"
proof (induction n s rule: read_blocks.induct)
  case (1 n s)
  then show ?case by (subst (asm) (2) read_blocks.simps) (auto split: if_splits)
qed

lemma compute_sha256_whole:
  "file_at w p = Some f \<Longrightarrow> \<not> stream_fails env \<Longrightarrow> compute_sha256 env w d p = Inr (sha256_hex env (f_data f))"
  by (simp add: compute_sha256_def concat_read_blocks SHA256_BLOCK_SIZE_def)

text \<open>A checksum is accepted exactly if the file exists, can be read, and the digest of its whole
  content, read in blocks, agrees with the expected text up to case and surrounding white space.\<close>

theorem checksum_verdict:
  "verify_checksum env w d p expected = Inr True \<longleftrightarrow>
     (\<exists>f. file_at w p = Some f \<and> \<not> stream_fails env \<and>
        ascii_text (strip (lower expected)) \<and>
        strip (lower (sha256_hex env (f_data f))) = strip (lower expected))"
proof (cases "file_at w p")
  case (Some f)
  show ?thesis
  proof (cases "stream_fails env")
    case True
    with Some show ?thesis by (simp add: verify_checksum_def compute_sha256_def is_os_error_def)
  next
    case False
    show ?thesis
      using Some False by (auto simp: verify_checksum_def compute_sha256_whole compare_digest_def)
  qed
qed (simp add: verify_checksum_def)

text \<open>An expected checksum with a character outside ASCII raises instead of not matching.\<close>

lemma foreign_checksum_raises:
  "file_at w p = Some f \<Longrightarrow> \<not> stream_fails env \<Longrightarrow> \<not> ascii_text (strip (lower expected)) \<Longrightarrow>
     verify_checksum env w d p expected = Inl TypeError"
  by (simp add: verify_checksum_def compute_sha256_whole compare_digest_def)

lemma unpack_release_Inr:
  "unpack_release env base tarball = Inr c \<longleftrightarrow>
     (\<exists>ms. read_archive env tarball = Inr ms \<and> validate_members (resolve_links env) base ms = Inr () \<and>
        extract_all env ms = Inr c)"
  by (auto simp: unpack_release_def bind_result_Inr_iff split: sum.splits)

text \<open>C32. A release is staged completely or not at all: success means that the target directory holds
  the extraction of an archive all of whose members were accepted; any failure, a rejected member
  included, leaves the target as it was, unless the rollback rename failed too.\<close>

theorem release_staged_or_untouched:
  assumes "stage_ok senv target d" "stage_release_package env senv w tarball target d = (r, d')"
  shows "case r of
      Inr p \<Rightarrow> p = target \<and> (\<exists>f ms c. file_at w tarball = Some f \<and> read_archive env (f_data f) = Inr ms \<and>
        (\<forall>m \<in> set ms. validate_tar_member (resolve_links env) (dir_parts (stage_name senv)) m = Inr ()) \<and>
        extract_all env ms = Inr c \<and> dict_get d' target = Some c)
    | Inl _ \<Rightarrow> rollback_fails senv \<or> dict_get d' target = dict_get d target"
proof (cases "file_at w tarball")
  case None
  with assms(2) show ?thesis by (auto simp: stage_release_package_def)
next
  case (Some f)
  obtain r1 d1 where u: "staged_update senv target (unpack_release env (dir_parts (stage_name senv)) (f_data f)) d = (r1, d1)"
    by fastforce
  note out = staged_update_outcome [OF assms(1) u]
  have "d' = d1 \<and> r = (case r1 of Inl e \<Rightarrow> Inl e | Inr _ \<Rightarrow> Inr target)"
    using assms(2) Some u by (auto simp: stage_release_package_def split: sum.splits)
  with out Some show ?thesis
    by (auto simp: unpack_release_Inr validate_members_all split: sum.splits)
qed

text \<open>C33. Unpacking an accepted archive writes only below the staging directory, even when its own
  symbolic and hard links are followed while later members are written, and whatever the
  operating system resolved when the members were checked.\<close>

theorem accepted_archive_confined:
  assumes "validate_members resolve base ms = Inr ()" "extracts base ms h h'"
    and "\<forall>p. is_relative_to p base \<longrightarrow> links h p = None"
  shows "\<forall>p \<in> set (written h') - set (written h). is_relative_to p base"
  using extracts_confined [OF assms(2), of resolve base] assms(1,3)
  by (auto simp: validate_members_all confined_def)


subsection \<open>The directory swap\<close>

lemma rename_dir_Some:
  "rename_dir fails src dst d = Some d' \<Longrightarrow>
     (\<exists>c. dict_get d src = Some c \<and> d' = move_dir src dst d \<and> dict_get d' dst = Some c)"
  by (auto simp: rename_dir_def dict_get_move_dir split: if_splits)

lemma rename_dir_other:
  "rename_dir fails src dst d = Some d' \<Longrightarrow> p \<noteq> dst \<Longrightarrow> p \<noteq> src \<Longrightarrow> dict_get d' p = dict_get d p"
  by (auto simp: rename_dir_def dict_get_move_dir split: if_splits)

lemma rename_dir_source:
  "rename_dir fails src dst d = Some d' \<Longrightarrow> src \<noteq> dst \<Longrightarrow> dict_get d' src = None"
  by (auto simp: rename_dir_def dict_get_move_dir split: if_splits)

lemma leave_other [simp]: "p \<noteq> q \<Longrightarrow> dict_get (leave q c d) p = dict_get d p"
  by (simp add: leave_def dict_get_remove_dir split: option.split)

lemma move_dir_other: "p \<noteq> src \<Longrightarrow> p \<noteq> dst \<Longrightarrow> dict_get (move_dir src dst d) p = dict_get d p"
  by (cases "dict_get d src") (auto simp: move_dir_def dict_get_filter)

lemma shutil_move_other:
  "p \<noteq> src \<Longrightarrow> p \<noteq> dst \<or> dict_get d dst \<noteq> None \<Longrightarrow> p \<noteq> child dst (snd src) \<Longrightarrow>
     dict_get (snd (shutil_move outcome src dst d)) p = dict_get d p"
  by (auto simp: shutil_move_def Let_def move_dir_other split: move_outcome.splits if_splits)

lemma tombstone_names:
  "swap_tombstone env target \<noteq> target" "child p (snd (swap_tombstone env target)) \<noteq> target"
  "target \<noteq> child p (snd target @ ''.backup.'' @ x)"
  by (auto simp: swap_tombstone_def child_def prod_eq_iff)

text \<open>Archiving never touches the installed directory.\<close>

lemma archive_keeps_target:
  assumes "dict_get d target \<noteq> None"
  shows "dict_get (archive_or_cleanup_tombstone env (swap_tombstone env target) (snd target) backup d) target =
    dict_get d target"
proof (cases backup)
  case None
  then show ?thesis
    using tombstone_names(1) [of env target] by (auto simp: archive_or_cleanup_tombstone_def discard_tombstone_def)
next
  case (Some b)
  let ?tomb = "swap_tombstone env target" and ?dest = "archive_dest env (snd target) b d"
  have ne: "target \<noteq> ?dest" "target \<noteq> ?tomb" "target \<noteq> child ?dest (snd ?tomb)"
    using assms tombstone_names(1) [of env target] tombstone_names(2) [of ?dest env target] tombstone_names(3) [of target b] by (auto simp: archive_dest_def)
  have "dict_get (snd (shutil_move (archive_move env) ?tomb ?dest d)) target = dict_get d target"
    using shutil_move_other ne by blast
  then show ?thesis
    using Some ne rename_dir_other [of _ ?tomb ?dest d _ target]
    by (auto simp: archive_or_cleanup_tombstone_def discard_tombstone_def Let_def split: option.split prod.split bool.split)
qed

text \<open>C34. Installing a release is all or nothing as long as renames work: success means that the staged
  content is installed, whatever happens to the old one; a failure leaves the old release in
  place, or, when putting it back fails as well, at the tombstone, and the staged release where it
  was.\<close>

theorem swap_installs_or_restores:
  assumes "execute_atomic_swap env staged target backup d = (ok, d')" "dict_get d target = Some old"
    and "staged \<noteq> swap_tombstone env target"
  shows "if ok then dict_get d' target = dict_get d staged \<and> dict_get d staged \<noteq> None
    else dict_get d' staged = dict_get d staged \<and>
      (dict_get d' target = Some old \<or> restore_fails env \<and> dict_get d' (swap_tombstone env target) = Some old)"
proof -
  let ?tomb = "swap_tombstone env target"
  note ne = assms(3) tombstone_names(1) [of env target]
  show ?thesis
  proof (cases "dict_get d staged = None \<or> staged = target \<or> target_parent_fails env")
    case True
    then have "execute_atomic_swap env staged target backup d = (False, d)"
      by (auto simp: execute_atomic_swap_def)
    with assms(1,2) show ?thesis by simp
  next
    case False
    then obtain new where new: "dict_get d staged = Some new" "staged \<noteq> target" "\<not> target_parent_fails env"
      by auto
    obtain ok1 d1 where s: "swap_directories_with_rollback env staged target ?tomb d = (ok1, d1)"
      by fastforce
    have res: "ok = ok1" "d' = (if ok1 then archive_or_cleanup_tombstone env ?tomb (snd target) backup d1 else d1)"
      using assms(1,2) new s by (auto simp: execute_atomic_swap_def split: bool.splits)
    show ?thesis
    proof (cases "rename_dir (displace_fails env) target ?tomb d")
      case None
      then show ?thesis
        using s res assms(2) by (simp add: swap_directories_with_rollback_def)
    next
      case (Some d2)
      note away = rename_dir_Some [OF Some] rename_dir_other [OF Some] rename_dir_source [OF Some]
      have d2: "dict_get d2 ?tomb = Some old" "dict_get d2 target = None" "dict_get d2 staged = Some new"
        using away ne new assms(2) by auto
      show ?thesis
      proof (cases "rename_dir (install_fails env) staged target d2")
        case (Some d3)
        with \<open>rename_dir (displace_fails env) target ?tomb d = Some d2\<close> s
        have "ok1" "d1 = d3" by (simp_all add: swap_directories_with_rollback_def)
        moreover have "dict_get d3 target = Some new"
          using rename_dir_Some [OF Some] d2 by auto
        ultimately show ?thesis
          using res new archive_keeps_target by simp
      next
        case failed: None
        with Some s have nok: "\<not> ok1"
          and d1: "d1 = (case rename_dir (restore_fails env) ?tomb target d2 of Some d3 \<Rightarrow> d3 | None \<Rightarrow> d2)"
          by (auto simp: swap_directories_with_rollback_def)
        show ?thesis
        proof (cases "rename_dir (restore_fails env) ?tomb target d2")
          case None
          then have "restore_fails env" using d2 by (simp add: rename_dir_def split: if_splits)
          with None nok d1 res d2 new show ?thesis by simp
        next
          case restored: (Some d3)
          have "dict_get d3 target = Some old" "dict_get d3 staged = Some new"
            using rename_dir_Some [OF restored] rename_dir_other [OF restored, of staged] d2 ne new by auto
          with restored nok d1 res new show ?thesis by simp
        qed
      qed
    qed
  qed
qed

subsection \<open>Examples\<close>

definition demo_member :: "member_kind \<Rightarrow> string \<Rightarrow> string \<Rightarrow> tar_member" where
  "demo_member k n l = \<lparr>member_name = n, link_name = l, member_type = k\<rparr>"

definition demo_archive :: "tar_member list" where
  "demo_archive = [demo_member SymbolicLink ''a'' ''b'', demo_member DirectoryEntry ''./b/'' [],
     demo_member RegularFile ''a/c'' []]"

definition demo_tree :: host_tree where
  "demo_tree = \<lparr>links = (\<lambda>_. None), written = []\<rparr>"

lemma demo_parts:
  "path_parts ''a'' = [''a'']" "path_parts ''./b/'' = [''b'']" "path_parts ''a/c'' = [''a'', ''c'']"
  "path_parts ''b'' = [''b'']" "path_parts [] = []"
  by (simp_all add: path_parts_def)

lemma demo_validated: "validate_members Inr [''s''] demo_archive = Inr ()"
  by (simp add: demo_archive_def demo_member_def validate_tar_member_def validate_link_def demo_parts is_absolute_def
      rooted_def backslash_def guarded_resolve_def is_relative_to_def)

lemma demo_extracted:
  "extracts [''s''] demo_archive demo_tree
     \<lparr>links = (\<lambda>p. if p = [''s'', ''a''] then Some ''b'' else None),
      written = [[''s'', ''a''], [''s'', ''b''], [''s'', ''b'', ''c'']]\<rparr>"
proof -
  let ?L = "(\<lambda>_. None)([''s''] @ [''a''] := Some ''b'') :: string list \<Rightarrow> string option"
  have "walk ?L [''s''] [''b''] ([''s''] @ [''b''])"
    by (rule walk_into) (auto intro: walk_end)
  moreover have "walk ?L [''s''] [''a'', ''c''] (([''s''] @ [''b'']) @ [''c''])"
    by (rule walk_link [where t = "''b''"])
      (auto simp: demo_parts is_absolute_def intro!: walk_into walk_end [of _ "[''s'', ''b'', ''c'']", simplified])
  moreover have "walk (\<lambda>_. None) [''s''] [] [''s'']"
    by (rule walk_end)
  ultimately show ?thesis
    unfolding demo_archive_def demo_tree_def
    by (intro extracts_symlink [where ps = "[]" and n = "''a''" and q = "[''s'']"]
        extracts_content [where q = "[''s'', ''b'']" and m = "demo_member DirectoryEntry _ _"]
        extracts_content [where q = "[''s'', ''b'', ''c'']" and m = "demo_member RegularFile _ _"])
      (simp_all add: demo_member_def demo_parts fun_upd_def extracts_nil)
qed

theorem accepted_archive_confined_witness:
  "is_relative_to [''s'', ''a''] [''s''] \<and> is_relative_to [''s'', ''b''] [''s''] \<and> is_relative_to [''s'', ''b'', ''c''] [''s'']"
  using accepted_archive_confined [OF demo_validated demo_extracted] by (simp add: demo_tree_def)

definition demo_deploy_env :: deploy_env where
  "demo_deploy_env = \<lparr>sha256_hex = (\<lambda>s. ''AB'' @ s), stream_fails = False, resolve_links = Inr,
     read_archive = (\<lambda>_. Inr [demo_member RegularFile ''c'' []]), extract_all = (\<lambda>_. Inr ''v2'')\<rparr>"

theorem release_staged_or_untouched_witness:
  "dict_get (snd (stage_release_package demo_deploy_env (demo_stage\<lparr>swap_fails := False\<rparr>) demo_world demo_target
     (''/d'', ''app'') [((''/d'', ''app''), ''v1'')])) (''/d'', ''app'') = Some ''v2''"
proof -
  have ok: "stage_ok (demo_stage\<lparr>swap_fails := False\<rparr>) (''/d'', ''app'') [((''/d'', ''app''), ''v1'')]"
    by (simp add: stage_ok_def demo_stage_def)
  have "path_parts ''c'' = [''c'']" "path_parts ''/d'' = [''d'']"
    by (simp_all add: path_parts_def)
  then have "\<exists>d'. stage_release_package demo_deploy_env (demo_stage\<lparr>swap_fails := False\<rparr>) demo_world demo_target
      (''/d'', ''app'') [((''/d'', ''app''), ''v1'')] = (Inr (''/d'', ''app''), d')"
    by (simp add: stage_release_package_def demo_world_def file_at_def staged_update_def staging_enter_def
        staging_init_def staging_exit_def staging_commit_def demo_stage_def Let_def move_dir_def dict_filter_def
        demo_deploy_env_def unpack_release_def validate_tar_member_def demo_member_def is_absolute_def rooted_def
        backslash_def guarded_resolve_def is_relative_to_def dir_parts_def)
  then show ?thesis
    using release_staged_or_untouched [OF ok, of demo_deploy_env demo_world demo_target]
    by (auto simp: demo_deploy_env_def)
qed

definition demo_swap_env :: swap_env where
  "demo_swap_env = \<lparr>utc_stamp = ''1'', target_parent_fails = False, first_rename_fails = False, first_move = Moved,
     displace_fails = False, install_fails = True, restore_fails = False, backup_parent_fails = False,
     archive_rename_fails = False, archive_move = Moved, remains = None\<rparr>"

theorem swap_installs_or_restores_witness:
  "\<exists>d'. execute_atomic_swap demo_swap_env (''/d'', ''n'') (''/d'', ''app'') None
      [((''/d'', ''n''), ''v2''), ((''/d'', ''app''), ''v1'')] = (False, d') \<and>
    dict_get d' (''/d'', ''app'') = Some ''v1''"
proof -
  let ?d = "[((''/d'', ''n''), ''v2''), ((''/d'', ''app''), ''v1'')]"
  obtain ok d' where d': "execute_atomic_swap demo_swap_env (''/d'', ''n'') (''/d'', ''app'') None ?d = (ok, d')"
    by (rule prod.exhaust)
  moreover have "fst (execute_atomic_swap demo_swap_env (''/d'', ''n'') (''/d'', ''app'') None ?d) = False"
    by (simp add: execute_atomic_swap_def swap_directories_with_rollback_def demo_swap_env_def rename_dir_def
        swap_tombstone_def move_dir_def dict_filter_def Let_def)
  ultimately have "\<not> ok" by simp
  then show ?thesis
    using swap_installs_or_restores [OF d', of "''v1''"] d' by (simp add: demo_swap_env_def swap_tombstone_def)
qed

end
