(* ===== verification/Changelog.thy ===== *)
theory Changelog
  imports Config_Pipeline Py_Text
begin

section \<open>Release notes\<close>

text \<open>
  \<^verbatim>\<open>app/engine/changelog.py\<close>: the line patterns of a Keep a Changelog file, the parser that
  collects releases and unreleased entries, and its cache by path and modification time. A
  pattern is modelled as a function that returns its groups; where the regular expression
  backtracks, the alternatives are tried in its order. Lines hold no line feed of their own.
\<close>

subsection \<open>Line patterns\<close>

definition strip_heading :: "string \<Rightarrow> string \<Rightarrow> string option" where
  "strip_heading mark s =
     (if startswith s mark \<and> drop (length mark) s \<noteq> [] \<and> is_space (hd (drop (length mark) s))
      then Some (lstrip (drop (length mark) s)) else None)"

definition drop_opt :: "char set \<Rightarrow> string \<Rightarrow> string" where
  "drop_opt cs s = (if s \<noteq> [] \<and> hd s \<in> cs then tl s else s)"

definition blank :: "string \<Rightarrow> bool" where
  "blank s = list_all is_space s"

text \<open>\<open>^##\s+\[?[Uu]nreleased\]?\s*$\<close>, ignoring case\<close>

definition is_unreleased_header :: "string \<Rightarrow> bool" where
  "is_unreleased_header s =
     (case strip_heading ''##'' s of
        None \<Rightarrow> False
      | Some r \<Rightarrow>
          (let t = drop_opt {CHR ''[''} r
           in lower (take 10 t) = ''unreleased'' \<and> blank (drop_opt {CHR '']''} (drop 10 t))))"

text \<open>\<open>[0-9]{4}-[0-9]{2}-[0-9]{2}\<close>\<close>

definition is_date :: "string \<Rightarrow> bool" where
  "is_date s \<longleftrightarrow> length s = 10 \<and> list_all is_digit (take 4 s) \<and> s ! 4 = CHR ''-'' \<and>
     list_all is_digit (take 2 (drop 5 s)) \<and> s ! 7 = CHR ''-'' \<and> list_all is_digit (drop 8 s)"

text \<open>\<open>\]?(?:\s*-\s*(date))?\s*$\<close>: the outer option says whether the rest matches.\<close>

definition heading_date :: "string \<Rightarrow> string option option" where
  "heading_date s =
     (let r = drop_opt {CHR '']''} s; t = lstrip r; u = lstrip (tl t)
      in if t \<noteq> [] \<and> hd t = CHR ''-'' \<and> is_date (take 10 u) \<and> blank (drop 10 u) then Some (Some (take 10 u))
         else if blank r then Some None else None)"

definition suffix_char :: "char \<Rightarrow> bool" where
  "suffix_char c \<longleftrightarrow> is_ascii_alpha c \<or> is_digit c \<or> c \<in> set ''_.-''"

text \<open>The optional pre-release suffix: the longest one with which the rest matches.\<close>

fun longest_suffix :: "nat \<Rightarrow> string \<Rightarrow> (string \<times> string option) option" where
  "longest_suffix 0 s = None"
| "longest_suffix (Suc k) s =
     (case heading_date (drop (Suc k) s) of
        Some d \<Rightarrow> Some (take (Suc k) s, d)
      | None \<Rightarrow> longest_suffix k s)"

definition version_rest :: "string \<Rightarrow> string \<Rightarrow> (string \<times> string option) option" where
  "version_rest core rest =
     (case (if rest \<noteq> [] \<and> hd rest = CHR ''-''
            then longest_suffix (length (takeWhile suffix_char (tl rest))) (tl rest) else None) of
        Some (suffix, d) \<Rightarrow> Some (core @ ''-'' @ suffix, d)
      | None \<Rightarrow> map_option (Pair core) (heading_date rest))"

text \<open>A dot followed by digits.\<close>

definition dot_digits :: "string \<Rightarrow> (string \<times> string) option" where
  "dot_digits s =
     (if s \<noteq> [] \<and> hd s = CHR ''.'' \<and> takeWhile is_digit (tl s) \<noteq> []
      then Some (''.'' @ takeWhile is_digit (tl s), dropWhile is_digit (tl s)) else None)"

text \<open>The version and the date of a release heading.\<close>

definition match_release :: "string \<Rightarrow> (string \<times> string option) option" where
  "match_release s =
     (case strip_heading ''##'' s of
        None \<Rightarrow> None
      | Some r \<Rightarrow>
          (let t = drop_opt {CHR ''v'', CHR ''V''} (drop_opt {CHR ''[''} r); major = takeWhile is_digit t
           in if major = [] then None
              else (case dot_digits (dropWhile is_digit t) of
                      None \<Rightarrow> None
                    | Some (minor, rest) \<Rightarrow>
                        (case dot_digits rest of
                           Some (patch, rest2) \<Rightarrow> version_rest (major @ minor @ patch) rest2
                         | None \<Rightarrow> version_rest (major @ minor) rest))))"

definition category_char :: "char \<Rightarrow> bool" where
  "category_char c \<longleftrightarrow> is_ascii_alpha c \<or> is_digit c \<or> c \<in> set ''_- ''"

text \<open>\<open>^###\s+([A-Za-z0-9_\- ]+)\s*$\<close>, the group stripped. A heading without a name matches
  with a blank taken as the name.\<close>

definition match_category :: "string \<Rightarrow> string option" where
  "match_category s =
     (case strip_heading ''###'' s of
        None \<Rightarrow> None
      | Some [] \<Rightarrow> if CHR '' '' \<in> set (drop 4 s) then Some [] else None
      | Some r \<Rightarrow> if takeWhile category_char r \<noteq> [] \<and> blank (dropWhile category_char r)
                  then Some (strip (takeWhile category_char r)) else None)"

text \<open>\<open>^\s*[*-]\s+(.+)$\<close>, the group stripped.\<close>

definition match_bullet :: "string \<Rightarrow> string option" where
  "match_bullet s =
     (case lstrip s of
        [] \<Rightarrow> None
      | c # r \<Rightarrow>
          (let item = lstrip r
           in if c \<notin> set ''*-'' \<or> r = [] \<or> \<not> is_space (hd r) then None
              else if item = [] then (if 2 \<le> length r then Some [] else None)
              else if CHR 0x0A \<in> set item then None else Some (strip item)))"

subsection \<open>The parser\<close>

type_synonym categories = "(string, string list) dict"

record ChangelogRelease =
  rel_version :: string
  rel_date :: "string option"
  rel_categories :: categories
  raw_body :: string

record release_state =
  rs_version :: string
  rs_date :: "string option"
  rs_categories :: categories
  raw_lines :: "string list"

definition fresh_release :: "string \<Rightarrow> string option \<Rightarrow> release_state" where
  "fresh_release v d = \<lparr>rs_version = v, rs_date = d, rs_categories = [], raw_lines = []\<rparr>"

definition build_release :: "release_state \<Rightarrow> ChangelogRelease option" where
  "build_release st =
     (if rs_version st = [] then None
      else Some \<lparr>rel_version = rs_version st, rel_date = rs_date st, rel_categories = rs_categories st,
                 raw_body = strip (join [CHR 0x0A] (raw_lines st))\<rparr>)"

datatype changelog_section = InPreamble | InUnreleased | InRelease

record parse_state =
  found :: "ChangelogRelease list"
  unreleased_cats :: categories
  active_section :: changelog_section
  current_cat :: "string option"
  building :: release_state

definition flush_active_release :: "parse_state \<Rightarrow> parse_state" where
  "flush_active_release s =
     (case build_release (building s) of None \<Rightarrow> s | Some r \<Rightarrow> s\<lparr>found := found s @ [r]\<rparr>)"

text \<open>\<open>d.setdefault(c, [])\<close> and \<open>d.setdefault(c, []).append(x)\<close>\<close>

definition add_category :: "string \<Rightarrow> categories \<Rightarrow> categories" where
  "add_category c d = (if dict_get d c = None then dict_set c [] d else d)"

definition add_item :: "string \<Rightarrow> string \<Rightarrow> categories \<Rightarrow> categories" where
  "add_item c x d = dict_set c ((case dict_get d c of None \<Rightarrow> [] | Some xs \<Rightarrow> xs) @ [x]) d"

definition keep_raw :: "string \<Rightarrow> release_state \<Rightarrow> release_state" where
  "keep_raw line st = st\<lparr>raw_lines := raw_lines st @ [line]\<rparr>"

definition note_category :: "string \<Rightarrow> string \<Rightarrow> parse_state \<Rightarrow> parse_state" where
  "note_category line c s =
     (let s1 = s\<lparr>current_cat := Some c\<rparr>
      in case active_section s of
           InUnreleased \<Rightarrow> s1\<lparr>unreleased_cats := add_category c (unreleased_cats s)\<rparr>
         | InRelease \<Rightarrow> s1\<lparr>building := keep_raw line ((building s)\<lparr>rs_categories := add_category c (rs_categories (building s))\<rparr>)\<rparr>
         | InPreamble \<Rightarrow> s1)"

definition target_category :: "parse_state \<Rightarrow> string" where
  "target_category s =
     (case current_cat s of
        Some (c # cs) \<Rightarrow> c # cs
      | _ \<Rightarrow> if active_section s = InUnreleased then ''Planned'' else ''Other'')"

definition note_item :: "string \<Rightarrow> string \<Rightarrow> parse_state \<Rightarrow> parse_state" where
  "note_item line x s =
     (let c = target_category s
      in case active_section s of
           InUnreleased \<Rightarrow> s\<lparr>unreleased_cats := add_item c x (unreleased_cats s)\<rparr>
         | InRelease \<Rightarrow> s\<lparr>building := keep_raw line ((building s)\<lparr>rs_categories := add_item c x (rs_categories (building s))\<rparr>)\<rparr>
         | InPreamble \<Rightarrow> s)"

definition rstrip_newlines :: "string \<Rightarrow> string" where
  "rstrip_newlines s = rev (dropWhile (\<lambda>c. c \<in> {CHR 0x0D, CHR 0x0A}) (rev s))"

definition parse_line :: "string \<Rightarrow> parse_state \<Rightarrow> parse_state" where
  "parse_line raw s =
     (let line = rstrip_newlines raw
      in if is_unreleased_header line
         then (flush_active_release s)\<lparr>active_section := InUnreleased, current_cat := None\<rparr>
         else (case match_release line of
                 Some (v, d) \<Rightarrow>
                   (flush_active_release s)\<lparr>active_section := InRelease, building := fresh_release v d, current_cat := None\<rparr>
               | None \<Rightarrow>
                   (case match_category line of
                      Some c \<Rightarrow> note_category line c s
                    | None \<Rightarrow>
                        (case match_bullet line of
                           Some x \<Rightarrow> note_item line x s
                         | None \<Rightarrow>
                             if active_section s = InRelease \<and> strip line \<noteq> []
                             then s\<lparr>building := keep_raw line (building s)\<rparr> else s))))"

definition start_state :: parse_state where
  "start_state = \<lparr>found = [], unreleased_cats = [], active_section = InPreamble, current_cat = None,
     building = fresh_release [] None\<rparr>"

definition parse_lines :: "string list \<Rightarrow> ChangelogRelease list \<times> categories" where
  "parse_lines ls =
     (let s = flush_active_release (foldl (\<lambda>s l. parse_line l s) start_state ls)
      in (found s, unreleased_cats s))"

subsection \<open>Files and the cache\<close>

record ChangelogResponse =
  current_version :: string
  releases :: "ChangelogRelease list"
  unreleased :: categories

record changelog_parser =
  cached_path :: "path option"
  cached_mtime :: "rat option"
  cached_response :: "ChangelogResponse option"

record changelog_env =
  custom_path :: "path option"
  repo_root :: "string option"
  source_dir :: string
  working_dir :: string
  note_stat_fails :: bool
  note_read_fails :: bool

definition APP_VERSION :: string where
  "APP_VERSION = ''0.5.1''"

definition new_parser :: changelog_parser where
  "new_parser = \<lparr>cached_path = None, cached_mtime = None, cached_response = None\<rparr>"

definition unavailable :: string where
  "unavailable = ''Changelog details are currently unavailable on this host.''"

definition build_fallback_response :: "string \<Rightarrow> ChangelogResponse" where
  "build_fallback_response version =
     \<lparr>current_version = version,
      releases = [\<lparr>rel_version = version, rel_date = None, rel_categories = [(''Information'', [unavailable])],
                   raw_body = unavailable\<rparr>],
      unreleased = []\<rparr>"

definition resolve_path :: "changelog_env \<Rightarrow> world \<Rightarrow> path" where
  "resolve_path env w =
     (let candidates = [(source_dir env, ''CHANGELOG.md''), (source_dir env @ ''/app'', ''CHANGELOG.md''),
            (''/opt/palworld-web-manager'', ''CHANGELOG.md''), (''/var/lib/palmanager/repo'', ''CHANGELOG.md''),
            (working_dir env, ''CHANGELOG.md'')]
      in case custom_path env of
           Some p \<Rightarrow> p
         | None \<Rightarrow>
             (case repo_root env of
                Some r \<Rightarrow> (r, ''CHANGELOG.md'')
              | None \<Rightarrow> (case find (\<lambda>p. file_at w p \<noteq> None) candidates of Some p \<Rightarrow> p | None \<Rightarrow> hd candidates)))"

definition read_and_parse :: "changelog_env \<Rightarrow> world \<Rightarrow> path \<Rightarrow> (ChangelogRelease list \<times> categories) option" where
  "read_and_parse env w p =
     (case read_text (if note_read_fails env then Some OSError else None) w p of
        Inl e \<Rightarrow> None
      | Inr raw_text \<Rightarrow>
          (case parse_lines (splitlines raw_text) of
             ([], _) \<Rightarrow> None
           | parsed \<Rightarrow> Some parsed))"

definition parse :: "changelog_env \<Rightarrow> world \<Rightarrow> changelog_parser \<Rightarrow> ChangelogResponse \<times> changelog_parser" where
  "parse env w c =
     (let p = resolve_path env w
      in case file_at w p of
           None \<Rightarrow> (build_fallback_response APP_VERSION, c)
         | Some f \<Rightarrow>
             if note_stat_fails env then (build_fallback_response APP_VERSION, c)
             else if cached_path c = Some p \<and> cached_mtime c = Some (f_mtime f) \<and> cached_response c \<noteq> None
             then (the (cached_response c), c)
             else (case read_and_parse env w p of
                     None \<Rightarrow> (build_fallback_response APP_VERSION, c)
                   | Some (rs, us) \<Rightarrow>
                       (let r = \<lparr>current_version = APP_VERSION, releases = rs, unreleased = us\<rparr>
                        in (r, \<lparr>cached_path = Some p, cached_mtime = Some (f_mtime f), cached_response = Some r\<rparr>))))"

subsection \<open>Writing release notes\<close>

text \<open>The canonical text of a list of releases, and which releases it represents.\<close>

definition render_category :: "string \<times> string list \<Rightarrow> string list" where
  "render_category c = (''### '' @ fst c) # map (\<lambda>x. ''- '' @ x) (snd c)"

definition render_categories :: "categories \<Rightarrow> string list" where
  "render_categories cs = concat (map render_category cs)"

definition render_release :: "string \<times> string option \<times> categories \<Rightarrow> string list" where
  "render_release r =
     (''## ['' @ fst r @ '']'' @ (case fst (snd r) of None \<Rightarrow> [] | Some t \<Rightarrow> '' - '' @ t)) # render_categories (snd (snd r))"

definition render_changelog :: "categories \<Rightarrow> (string \<times> string option \<times> categories) list \<Rightarrow> string list" where
  "render_changelog us rs =
     [''# Changelog'', [], ''## [Unreleased]''] @ render_categories us @ concat (map (\<lambda>r. [] # render_release r) rs)"

definition wf_item :: "string \<Rightarrow> bool" where
  "wf_item x \<longleftrightarrow> x \<noteq> [] \<and> \<not> is_space (hd x) \<and> \<not> is_space (last x) \<and> list_all (\<lambda>c. \<not> line_end c) x"

definition wf_category :: "string \<Rightarrow> bool" where
  "wf_category c \<longleftrightarrow> c \<noteq> [] \<and> \<not> is_space (hd c) \<and> \<not> is_space (last c) \<and> list_all category_char c"

definition wf_categories :: "categories \<Rightarrow> bool" where
  "wf_categories cs \<longleftrightarrow> wf_dict cs \<and> list_all (\<lambda>c. wf_category (fst c) \<and> list_all wf_item (snd c)) cs"

definition wf_number :: "string \<Rightarrow> bool" where
  "wf_number s \<longleftrightarrow> s \<noteq> [] \<and> list_all is_digit s"

definition wf_version :: "string \<Rightarrow> bool" where
  "wf_version v \<longleftrightarrow> (\<exists>a b c s. v = a @ CHR ''.'' # b @ c @ s \<and> wf_number a \<and> wf_number b \<and>
     (c = [] \<or> (\<exists>p. c = CHR ''.'' # p \<and> wf_number p)) \<and>
     (s = [] \<or> (\<exists>q. s = CHR ''-'' # q \<and> q \<noteq> [] \<and> list_all suffix_char q)))"

definition wf_release :: "string \<times> string option \<times> categories \<Rightarrow> bool" where
  "wf_release r \<longleftrightarrow> wf_version (fst r) \<and> (\<forall>t. fst (snd r) = Some t \<longrightarrow> is_date t) \<and> wf_categories (snd (snd r))"

definition expected_release :: "string \<times> string option \<times> categories \<Rightarrow> ChangelogRelease" where
  "expected_release r = \<lparr>rel_version = fst r, rel_date = fst (snd r), rel_categories = snd (snd r),
     raw_body = join [CHR 0x0A] (render_categories (snd (snd r)))\<rparr>"

subsection \<open>The patterns on canonical lines\<close>

lemma digit_class:
  "is_digit c \<Longrightarrow> \<not> is_space c \<and> \<not> line_end c \<and> suffix_char c \<and>
     c \<notin> {CHR ''['', CHR '']'', CHR ''v'', CHR ''V'', CHR ''.'', CHR ''-'', CHR ''u''} \<and> lower_char c = c"
  by (auto simp: is_digit_def is_space_def line_end_def suffix_char_def lower_char_def ord_def)

lemma suffix_class: "suffix_char c \<Longrightarrow> \<not> line_end c \<and> c \<noteq> CHR '']''"
  by (auto simp: suffix_char_def is_ascii_alpha_def is_digit_def line_end_def ord_def)

lemma category_class: "category_char c \<Longrightarrow> \<not> line_end c"
  by (auto simp: category_char_def is_ascii_alpha_def is_digit_def line_end_def ord_def)

lemma space_class: "is_space (CHR '' '')" "\<not> is_space (CHR ''-'')" "\<not> is_space (CHR ''#'')" "\<not> is_space (CHR ''['')"
  "\<not> is_space (CHR '']'')" "\<not> is_digit (CHR ''.'')" "\<not> is_digit (CHR ''-'')" "\<not> is_digit (CHR '']'')"
  "\<not> suffix_char (CHR '']'')"
  by (simp_all add: is_space_def is_digit_def ord_def suffix_char_def is_ascii_alpha_def)

lemma lstrip_solid [simp]: "s = [] \<or> \<not> is_space (hd s) \<Longrightarrow> lstrip s = s"
  by (cases s) (auto simp: lstrip_def)

lemma lstrip_blank [simp]: "lstrip (CHR '' '' # s) = lstrip s"
  by (simp add: lstrip_def space_class)

lemma blank_Nil [simp]: "blank []"
  by (simp add: blank_def)

lemma rstrip_newlines_id [simp]: "s = [] \<or> \<not> is_space (last s) \<Longrightarrow> rstrip_newlines s = s"
proof -
  have "is_space (CHR 0x0D)" "is_space (CHR 0x0A)" by (simp_all add: is_space_def ord_def)
  then show "s = [] \<or> \<not> is_space (last s) \<Longrightarrow> rstrip_newlines s = s"
    by (cases s rule: rev_cases) (auto simp: rstrip_newlines_def)
qed

lemma heading_date_end: "heading_date '']'' = Some None"
  by (simp add: heading_date_def drop_opt_def)

lemma heading_date_date:
  assumes "is_date t"
  shows "heading_date ('']'' @ '' - '' @ t) = Some (Some t)"
proof -
  have l: "length t = 10" and d: "list_all is_digit (take 4 t)" using assms by (simp_all add: is_date_def)
  then obtain c u where t: "t = c # u" by (cases t) auto
  with d digit_class have "\<not> is_space c" by auto
  then have "lstrip t = t" by (simp add: t)
  moreover have "\<not> blank (CHR '' '' # CHR ''-'' # CHR '' '' # t)" by (simp add: blank_def space_class)
  ultimately show ?thesis
    using l assms by (simp add: heading_date_def drop_opt_def space_class)
qed

lemma version_rest_plain:
  "heading_date (CHR '']'' # w) = Some d \<Longrightarrow> version_rest core (CHR '']'' # w) = Some (core, d)"
  by (simp add: version_rest_def)

lemma version_rest_suffix:
  assumes "heading_date (CHR '']'' # w) = Some d" "q \<noteq> []" "list_all suffix_char q"
  shows "version_rest core (CHR ''-'' # q @ CHR '']'' # w) = Some (core @ ''-'' @ q, d)"
proof -
  have "takeWhile suffix_char (q @ CHR '']'' # w) = q"
    using takeWhile_stop [OF assms(3), of "CHR '']'' # w"] by (simp add: space_class)
  moreover obtain k where "length q = Suc k" using assms(2) by (cases q) auto
  moreover from this have "drop (Suc k) (q @ CHR '']'' # w) = CHR '']'' # w" "take (Suc k) (q @ CHR '']'' # w) = q"
    by (metis append_eq_conv_conj)+
  ultimately show ?thesis
    using assms(1) by (simp add: version_rest_def)
qed

lemma dot_digits_number:
  assumes "wf_number b" "t \<noteq> []" "\<not> is_digit (hd t)"
  shows "dot_digits (CHR ''.'' # b @ t) = Some (CHR ''.'' # b, t)"
  using assms takeWhile_stop [of is_digit b t] by (simp add: dot_digits_def wf_number_def)

lemma match_release_header:
  assumes "wf_version v" "heading_date (CHR '']'' # w) = Some d"
  shows "match_release (''## ['' @ v @ CHR '']'' # w) = Some (v, d)"
proof -
  obtain a b c s where v: "v = a @ CHR ''.'' # b @ c @ s" and n: "wf_number a" "wf_number b"
    and c: "c = [] \<or> (\<exists>p. c = CHR ''.'' # p \<and> wf_number p)"
    and s: "s = [] \<or> (\<exists>q. s = CHR ''-'' # q \<and> q \<noteq> [] \<and> list_all suffix_char q)"
    using assms(1) unfolding wf_version_def by blast
  let ?w = "CHR '']'' # w"
  obtain x a' where a: "a = x # a'" "is_digit x" using n(1) by (cases a) (auto simp: wf_number_def)
  have cut: "takeWhile is_digit (a @ CHR ''.'' # b @ c @ s @ ?w) = a"
    "dropWhile is_digit (a @ CHR ''.'' # b @ c @ s @ ?w) = CHR ''.'' # b @ c @ s @ ?w"
    using takeWhile_stop [of is_digit a "CHR ''.'' # b @ c @ s @ ?w"] n(1) by (simp_all add: wf_number_def space_class)
  have head: "drop_opt {CHR ''v'', CHR ''V''} (a @ r) = a @ r" for r
    using digit_class [OF a(2)] by (simp add: drop_opt_def a(1))
  have rest: "version_rest core (s @ ?w) = Some (core @ s, d)" for core
    using s version_rest_plain [OF assms(2)] version_rest_suffix [OF assms(2)] by fastforce
  have shead: "s @ ?w \<noteq> []" "\<not> is_digit (hd (s @ ?w))" "hd (s @ ?w) \<noteq> CHR ''.''"
    using s by (auto simp: space_class)
  have minor: "dot_digits (CHR ''.'' # b @ c @ s @ ?w) = Some (CHR ''.'' # b, c @ s @ ?w)"
    using dot_digits_number [OF n(2), of "c @ s @ ?w"] c shead by (auto simp: space_class)
  have patch: "case dot_digits (c @ s @ ?w) of
      Some (p, r) \<Rightarrow> version_rest (a @ (CHR ''.'' # b) @ p) r = Some (v, d)
    | None \<Rightarrow> version_rest (a @ CHR ''.'' # b) (c @ s @ ?w) = Some (v, d)"
  proof (cases "c = []")
    case True
    then show ?thesis using shead rest [of "a @ CHR ''.'' # b"] v by (simp add: dot_digits_def)
  next
    case False
    then obtain p where p: "c = CHR ''.'' # p" "wf_number p" using c by auto
    then show ?thesis
      using dot_digits_number [OF p(2) shead(1,2)] rest [of "a @ (CHR ''.'' # b) @ c"] v by simp
  qed
  have "match_release (''## ['' @ v @ ?w) =
    (case dot_digits (c @ s @ ?w) of
       Some (p, r) \<Rightarrow> version_rest (a @ (CHR ''.'' # b) @ p) r
     | None \<Rightarrow> version_rest (a @ CHR ''.'' # b) (c @ s @ ?w))"
    using n(1) by (simp add: match_release_def strip_heading_def space_class drop_opt_def [of "{CHR ''[''}"] v head cut minor
        wf_number_def Let_def cong: option.case_cong)
  with patch show ?thesis by (auto split: option.splits)
qed

lemma version_first:
  assumes "wf_version v"
  shows "\<exists>x u. v = x # u \<and> is_digit x"
proof -
  obtain a r where "v = a @ r" "wf_number a" using assms unfolding wf_version_def by blast
  then show ?thesis by (cases a) (auto simp: wf_number_def)
qed

lemma header_not_unreleased:
  "wf_version v \<Longrightarrow> \<not> is_unreleased_header (''## ['' @ v @ w)"
  using digit_class by (auto dest!: version_first simp: is_unreleased_header_def strip_heading_def space_class drop_opt_def lower_def)

lemma match_category_name:
  "strip_heading ''###'' s = Some r \<Longrightarrow> r \<noteq> [] \<Longrightarrow> match_category s =
     (if takeWhile category_char r \<noteq> [] \<and> blank (dropWhile category_char r)
      then Some (strip (takeWhile category_char r)) else None)"
  by (cases r) (simp_all add: match_category_def)

lemma category_line:
  assumes "wf_category c"
  shows "\<not> is_unreleased_header (''### '' @ c)" "match_release (''### '' @ c) = None" "match_category (''### '' @ c) = Some c"
proof -
  have "strip_heading ''###'' (''### '' @ c) = Some c"
    using assms by (simp add: strip_heading_def space_class wf_category_def)
  moreover
  have all: "takeWhile category_char c = c" "dropWhile category_char c = []"
    using assms by (auto simp: wf_category_def list_all_iff)
  moreover have "strip c = c" "c \<noteq> []" using assms by (auto intro: strip_id simp: wf_category_def)
  ultimately show "match_category (''### '' @ c) = Some c"
    by (simp add: match_category_name all)
qed (simp_all add: is_unreleased_header_def match_release_def strip_heading_def space_class)

lemma item_line:
  assumes "wf_item x"
  shows "\<not> is_unreleased_header (''- '' @ x)" "match_release (''- '' @ x) = None" "match_category (''- '' @ x) = None"
    "match_bullet (''- '' @ x) = Some x"
proof -
  have "lstrip x = x" "strip x = x" using assms by (auto simp: wf_item_def intro: strip_id)
  moreover have "CHR 0x0A \<notin> set x"
    using assms by (auto simp: wf_item_def list_all_iff line_end_def ord_def)
  ultimately show "match_bullet (''- '' @ x) = Some x"
    using assms by (simp add: match_bullet_def space_class wf_item_def)
qed (simp_all add: is_unreleased_header_def match_release_def match_category_def strip_heading_def)


subsection \<open>Reading canonical notes\<close>

lemma parse_category_line:
  "wf_category c \<Longrightarrow> parse_line (''### '' @ c) s = note_category (''### '' @ c) c s"
  using category_line [of c] by (simp add: parse_line_def wf_category_def Let_def)

lemma parse_item_line:
  "wf_item x \<Longrightarrow> parse_line (''- '' @ x) s = note_item (''- '' @ x) x s"
  using item_line [of x] by (simp add: parse_line_def wf_item_def Let_def)

lemma parse_header_line:
  assumes "wf_version v" "heading_date (CHR '']'' # w) = Some d" "w = [] \<or> \<not> is_space (last w)"
  shows "parse_line (''## ['' @ v @ CHR '']'' # w) s =
    (flush_active_release s)\<lparr>active_section := InRelease, building := fresh_release v d, current_cat := None\<rparr>"
proof -
  have "rstrip_newlines (''## ['' @ v @ CHR '']'' # w) = ''## ['' @ v @ CHR '']'' # w"
    using assms(3) by (intro rstrip_newlines_id) (auto simp: space_class)
  then show ?thesis
    using header_not_unreleased [OF assms(1), of "CHR '']'' # w"] match_release_header [OF assms(1,2)]
    by (simp add: parse_line_def)
qed

lemma parse_empty_line: "parse_line [] s = s"
  by (simp add: parse_line_def is_unreleased_header_def match_release_def match_category_def match_bullet_def
      strip_heading_def strip_def rstrip_def)

abbreviation parse_all :: "string list \<Rightarrow> parse_state \<Rightarrow> parse_state" where
  "parse_all ls s \<equiv> foldl (\<lambda>s l. parse_line l s) s ls"

text \<open>What the lines of some categories add to the section that is being read.\<close>

definition with_categories :: "categories \<Rightarrow> string list \<Rightarrow> parse_state \<Rightarrow> parse_state" where
  "with_categories cs ls s =
     (case active_section s of
        InUnreleased \<Rightarrow> s\<lparr>unreleased_cats := unreleased_cats s @ cs\<rparr>
      | InRelease \<Rightarrow> s\<lparr>building := (building s)\<lparr>rs_categories := rs_categories (building s) @ cs,
                                              raw_lines := raw_lines (building s) @ ls\<rparr>\<rparr>
      | InPreamble \<Rightarrow> s)"

definition section_keys :: "parse_state \<Rightarrow> string list" where
  "section_keys s =
     (case active_section s of
        InUnreleased \<Rightarrow> dict_keys (unreleased_cats s)
      | InRelease \<Rightarrow> dict_keys (rs_categories (building s))
      | InPreamble \<Rightarrow> [])"

lemma add_item_last:
  "c \<notin> set (dict_keys d) \<Longrightarrow> add_item c x (d @ [(c, xs)]) = d @ [(c, xs @ [x])]"
  by (induction d) (auto simp: add_item_def map_of_eq_None_iff)

lemma parse_items:
  assumes "c \<noteq> []" "list_all wf_item xs" "current_cat s = Some c" "c \<notin> set (section_keys s)"
  shows "parse_all (map (\<lambda>x. ''- '' @ x) xs) (with_categories [(c, ys)] ls s) =
    with_categories [(c, ys @ xs)] (ls @ map (\<lambda>x. ''- '' @ x) xs) s"
  using assms(2)
proof (induction xs arbitrary: ys ls)
  case (Cons x xs)
  obtain a u where c: "c = a # u" using assms(1) by (cases c) auto
  have "note_item (''- '' @ x) x (with_categories [(c, ys)] ls s) = with_categories [(c, ys @ [x])] (ls @ [''- '' @ x]) s"
    using assms(3,4) by (cases "active_section s")
      (simp_all add: note_item_def with_categories_def section_keys_def target_category_def keep_raw_def c add_item_last)
  with Cons show ?case by (simp add: parse_item_line [simplified])
qed simp

lemma parse_category_block:
  assumes "wf_category c" "list_all wf_item xs" "c \<notin> set (section_keys s)"
  shows "parse_all (render_category (c, xs)) s =
    (with_categories [(c, xs)] (render_category (c, xs)) s)\<lparr>current_cat := Some c\<rparr>"
proof -
  let ?s = "s\<lparr>current_cat := Some c\<rparr>"
  have first: "note_category (''### '' @ c) c s = with_categories [(c, [])] [''### '' @ c] ?s"
    using assms(3) by (cases "active_section s")
      (simp_all add: note_category_def with_categories_def section_keys_def keep_raw_def add_category_def
        map_of_eq_None_iff dict_set_fresh Let_def)
  have k: "section_keys ?s = section_keys s" by (simp add: section_keys_def split: changelog_section.split)
  have "parse_all (map (\<lambda>x. ''- '' @ x) xs) (with_categories [(c, [])] [''### '' @ c] ?s) =
    with_categories [(c, xs)] ((''### '' @ c) # map (\<lambda>x. ''- '' @ x) xs) ?s"
    using parse_items [of c xs ?s "[]" "[''### '' @ c]"] assms by (simp add: k wf_category_def)
  moreover have "with_categories cs ls ?s = (with_categories cs ls s)\<lparr>current_cat := Some c\<rparr>" for cs ls
    by (simp add: with_categories_def split: changelog_section.split)
  ultimately show ?thesis
    using assms(1) first by (simp add: render_category_def parse_category_line [simplified])
qed


lemma parse_categories_block:
  assumes "wf_categories cs" "set (dict_keys cs) \<inter> set (section_keys s) = {}"
  shows "\<exists>cur. parse_all (render_categories cs) s = (with_categories cs (render_categories cs) s)\<lparr>current_cat := cur\<rparr>"
  using assms
proof (induction cs arbitrary: s)
  case Nil
  have "with_categories [] [] s = s" by (cases "active_section s") (simp_all add: with_categories_def)
  then show ?case by (intro exI [of _ "current_cat s"]) (simp add: render_categories_def)
next
  case (Cons c cs)
  obtain n xs where c: "c = (n, xs)" by (cases c)
  have wf: "wf_category n" "list_all wf_item xs" "wf_categories cs" "n \<notin> set (dict_keys cs)"
    using Cons.prems(1) by (auto simp: wf_categories_def c wf_dict_def)
  let ?s = "(with_categories [(n, xs)] (render_category (n, xs)) s)\<lparr>current_cat := Some n\<rparr>"
  have one: "parse_all (render_category (n, xs)) s = ?s"
    using parse_category_block [OF wf(1,2)] Cons.prems(2) by (auto simp: c)
  have "set (section_keys ?s) \<subseteq> insert n (set (section_keys s))"
    by (auto simp: section_keys_def with_categories_def split: changelog_section.split)
  then have "set (dict_keys cs) \<inter> set (section_keys ?s) = {}"
    using wf(4) Cons.prems(2) by (auto simp: c)
  then obtain cur where rest:
    "parse_all (render_categories cs) ?s = (with_categories cs (render_categories cs) ?s)\<lparr>current_cat := cur\<rparr>"
    using Cons.IH [OF wf(3)] by blast
  have "(with_categories cs (render_categories cs) ?s)\<lparr>current_cat := cur\<rparr> =
    (with_categories (c # cs) (render_categories (c # cs)) s)\<lparr>current_cat := cur\<rparr>"
    by (cases "active_section s") (simp_all add: with_categories_def render_categories_def c)
  then show ?case
    using one rest by (intro exI [of _ cur]) (simp add: render_categories_def c)
qed

text \<open>The releases of the lines read so far, the one being read included.\<close>

definition seen_releases :: "parse_state \<Rightarrow> ChangelogRelease list" where
  "seen_releases s = found (flush_active_release s)"

lemma rendered_line:
  assumes "l \<in> set (render_categories cs)" "wf_categories cs"
  shows "(\<exists>c. wf_category c \<and> l = ''### '' @ c) \<or> (\<exists>x. wf_item x \<and> l = ''- '' @ x)"
  using assms by (fastforce simp: render_categories_def render_category_def wf_categories_def list_all_iff)

lemma raw_body_solid:
  assumes "wf_categories cs"
  shows "strip (join [CHR 0x0A] (render_categories cs)) = join [CHR 0x0A] (render_categories cs)"
proof -
  have last_join: "join [CHR 0x0A] (ls @ [l]) \<noteq> [] \<and> last (join [CHR 0x0A] (ls @ [l])) = last l" if "l \<noteq> []" for l ls
    using that by (induction ls) (auto simp: join_Cons)
  have solid: "l \<noteq> [] \<and> \<not> is_space (hd l) \<and> \<not> is_space (last l)" if "l \<in> set (render_categories cs)" for l
    using rendered_line [OF that assms] by (auto simp: wf_category_def wf_item_def space_class)
  show ?thesis
  proof (cases "render_categories cs" rule: rev_cases)
    case (snoc ls l)
    have "\<not> is_space (last (join [CHR 0x0A] (ls @ [l])))"
      using solid [of l] snoc last_join by simp
    moreover have "\<not> is_space (hd (join [CHR 0x0A] (ls @ [l])))"
      using solid [of "hd (ls @ [l])"] snoc by (cases ls) (auto simp: join_Cons)
    ultimately show ?thesis by (simp add: snoc strip_id)
  qed (simp add: strip_def lstrip_def rstrip_def)
qed

lemma parse_release_block:
  assumes "wf_release r"
  shows "found (parse_all (render_release r) s) = seen_releases s \<and>
    build_release (building (parse_all (render_release r) s)) = Some (expected_release r) \<and>
    unreleased_cats (parse_all (render_release r) s) = unreleased_cats s"
proof -
  obtain v d cs where r: "r = (v, d, cs)" by (cases r)
  have wf: "wf_version v" "\<And>t. d = Some t \<Longrightarrow> is_date t" "wf_categories cs"
    using assms by (auto simp: wf_release_def r)
  define w where "w = (case d of None \<Rightarrow> [] | Some t \<Rightarrow> '' - '' @ t)"
  have date: "heading_date (CHR '']'' # w) = Some d"
    using heading_date_end heading_date_date wf(2) by (auto simp: w_def split: option.split)
  have "\<not> is_space (last t)" if "is_date t" for t
  proof -
    have "list_all is_digit (drop 8 t)" "length t = 10" using that by (simp_all add: is_date_def)
    moreover from this have "last t = last (drop 8 t)" "drop 8 t \<noteq> []"
      using last_drop [of 8 t] by auto
    ultimately have "is_digit (last t)" by (metis last_in_set list_all_iff)
    then show ?thesis using digit_class by blast
  qed
  then have "w = [] \<or> \<not> is_space (last w)"
    using wf(2) by (auto simp: w_def is_date_def split: option.split)
  note head = parse_header_line [OF wf(1) date this, of s]
  let ?s = "(flush_active_release s)\<lparr>active_section := InRelease, building := fresh_release v d, current_cat := None\<rparr>"
  obtain cur where "parse_all (render_categories cs) ?s = (with_categories cs (render_categories cs) ?s)\<lparr>current_cat := cur\<rparr>"
    using parse_categories_block [OF wf(3), of ?s] by (auto simp: section_keys_def fresh_release_def)
  moreover have "unreleased_cats (flush_active_release s) = unreleased_cats s"
    by (simp add: flush_active_release_def split: option.split)
  moreover have "v \<noteq> []" using version_first [OF wf(1)] by auto
  ultimately show ?thesis
    using head raw_body_solid [OF wf(3)]
    by (simp add: render_release_def r seen_releases_def with_categories_def build_release_def fresh_release_def expected_release_def flip: w_def)
qed


lemma parse_releases:
  assumes "list_all wf_release rs"
  shows "seen_releases (parse_all (concat (map (\<lambda>r. [] # render_release r) rs)) s) = seen_releases s @ map expected_release rs \<and>
    unreleased_cats (parse_all (concat (map (\<lambda>r. [] # render_release r) rs)) s) = unreleased_cats s"
  using assms
proof (induction rs arbitrary: s)
  case (Cons r rs)
  then show ?case
    using parse_release_block [of r s]
    by (simp add: parse_empty_line seen_releases_def [of "foldl _ s _"] flush_active_release_def [of "foldl _ s _"])
qed simp

lemma parse_title: "parse_line ''# Changelog'' start_state = start_state"
proof -
  have "rstrip_newlines ''# Changelog'' = ''# Changelog''"
    by (intro rstrip_newlines_id) (simp add: is_space_def ord_def)
  moreover have "\<not> is_unreleased_header ''# Changelog''" "match_release ''# Changelog'' = None"
    "match_category ''# Changelog'' = None" "match_bullet ''# Changelog'' = None"
    by (simp_all add: is_unreleased_header_def match_release_def match_category_def match_bullet_def strip_heading_def space_class)
  ultimately show ?thesis
    by (simp add: parse_line_def start_state_def)
qed

lemma parse_unreleased_line:
  "parse_line ''## [Unreleased]'' start_state = start_state\<lparr>active_section := InUnreleased\<rparr>"
proof -
  have "char_of (117::nat) = CHR ''u''" by (simp add: char_eq_ord ord_def)
  then have "is_unreleased_header ''## [Unreleased]''"
    by (simp add: is_unreleased_header_def strip_heading_def space_class drop_opt_def lower_def lower_char_def ord_def)
  then show ?thesis
    by (simp add: parse_line_def space_class flush_active_release_def build_release_def start_state_def fresh_release_def)
qed

lemma parse_rendered:
  assumes "wf_categories us" "list_all wf_release rs"
  shows "parse_lines (render_changelog us rs) = (map expected_release rs, us)"
proof -
  let ?u = "start_state\<lparr>active_section := InUnreleased\<rparr>"
  obtain cur where u: "parse_all (render_categories us) ?u = (with_categories us (render_categories us) ?u)\<lparr>current_cat := cur\<rparr>"
    using parse_categories_block [OF assms(1), of ?u] by (auto simp: section_keys_def start_state_def)
  let ?v = "(with_categories us (render_categories us) ?u)\<lparr>current_cat := cur\<rparr>"
  have v: "seen_releases ?v = []" "unreleased_cats ?v = us"
    by (simp_all add: with_categories_def start_state_def seen_releases_def flush_active_release_def build_release_def fresh_release_def)
  have "parse_all (render_changelog us rs) start_state = parse_all (concat (map (\<lambda>r. [] # render_release r) rs)) ?v"
    using u by (simp add: render_changelog_def parse_title [simplified] parse_empty_line parse_unreleased_line [simplified])
  moreover have "unreleased_cats (flush_active_release s) = unreleased_cats s" for s
    by (simp add: flush_active_release_def split: option.split)
  ultimately show ?thesis
    using parse_releases [OF assms(2), of ?v] v by (simp add: parse_lines_def Let_def flip: seen_releases_def)
qed

lemma splitlines_written:
  "\<forall>l \<in> set ls. list_all (\<lambda>c. \<not> line_end c) l \<Longrightarrow> splitlines (concat (map (\<lambda>l. l @ [CHR 0x0A]) ls)) = ls"
  by (induction ls) (simp_all add: splitlines_line)

lemma line_end_class: "\<not> line_end (CHR ''#'')" "\<not> line_end (CHR '' '')" "\<not> line_end (CHR ''['')" "\<not> line_end (CHR '']'')"
  "\<not> line_end (CHR ''-'')" "\<not> line_end (CHR ''.'')" "line_end (CHR 0x0D)" "line_end (CHR 0x0A)"
  by (simp_all add: line_end_def ord_def)

lemma wf_version_no_end: "wf_version v \<Longrightarrow> list_all (\<lambda>c. \<not> line_end c) v"
  using digit_class suffix_class line_end_class
  by (auto simp: wf_version_def wf_number_def list_all_iff)

lemma is_date_no_end:
  assumes "is_date t"
  shows "list_all (\<lambda>c. \<not> line_end c) t"
proof -
  have "length t = Suc (Suc (Suc (Suc (Suc (Suc (Suc (Suc (Suc (Suc 0)))))))))"
    using assms by (simp add: is_date_def)
  then obtain a b c d e f g h i j where t: "t = [a, b, c, d, e, f, g, h, i, j]"
    by (auto simp only: length_Suc_conv length_0_conv)
  show ?thesis
    using assms digit_class [of a] digit_class [of b] digit_class [of c] digit_class [of d] digit_class [of f]
      digit_class [of g] digit_class [of i] digit_class [of j] line_end_class
    by (simp add: is_date_def t)
qed

lemma rendered_no_end:
  assumes "wf_categories us" "list_all wf_release rs"
  shows "\<forall>l \<in> set (render_changelog us rs). list_all (\<lambda>c. \<not> line_end c) l"
proof -
  have cats: "list_all (\<lambda>c. \<not> line_end c) l" if "l \<in> set (render_categories cs)" "wf_categories cs" for l cs
    using rendered_line [OF that] category_class line_end_class
    by (auto simp: wf_category_def wf_item_def list_all_iff)
  have "list_all (\<lambda>c. \<not> line_end c) l" if "l \<in> set (render_release r)" "wf_release r" for l r
    using that cats [of l "snd (snd r)"] wf_version_no_end [of "fst r"] is_date_no_end line_end_class
    by (auto simp: render_release_def wf_release_def split: option.splits)
  then show ?thesis
    using assms cats line_end_class by (auto simp: render_changelog_def list_all_iff line_end_def ord_def)
qed

subsection \<open>The properties of the release notes\<close>

lemma rendered_no_cr:
  assumes "wf_categories us" "list_all wf_release rs"
  shows "CHR 0x0D \<notin> set (concat (map (\<lambda>l. l @ [CHR 0x0A]) (render_changelog us rs)))"
  using rendered_no_end [OF assms] line_end_class by (auto simp: list_all_iff)

text \<open>C35. Release notes are read back exactly: for every list of well-formed releases and unreleased
  entries, parsing the file written for them gives the same versions, dates, categories and items
  in the same order, and the text of each section.\<close>

theorem changelog_round_trip:
  assumes "wf_categories us" "list_all wf_release rs" "rs \<noteq> []"
    and "file_at w p = Some f" "f_data f = utf8_encode (concat (map (\<lambda>l. l @ [CHR 0x0A]) (render_changelog us rs)))"
    and "\<not> note_read_fails env"
  shows "read_and_parse env w p = Some (map expected_release rs, us)"
proof -
  have "read_text None w p = Inr (concat (map (\<lambda>l. l @ [CHR 0x0A]) (render_changelog us rs)))"
    by (rule read_text_written [OF assms(4,5) rendered_no_cr [OF assms(1,2)]])
  moreover obtain e es where "map expected_release rs = e # es" using assms(3) by (cases rs) auto
  ultimately show ?thesis
    using assms(6) parse_rendered [OF assms(1,2)] splitlines_written [OF rendered_no_end [OF assms(1,2)]]
    by (simp add: read_and_parse_def)
qed

text \<open>A release above the unreleased section is listed twice: the heading of that section closes
  the release without starting a new one.\<close>

lemma release_repeated:
  assumes "wf_release r"
  shows "fst (parse_lines (render_release r @ [''## [Unreleased]''])) = [expected_release r, expected_release r]"
proof -
  have "seen_releases start_state = []"
    by (simp add: seen_releases_def flush_active_release_def start_state_def build_release_def fresh_release_def)
  moreover have "is_unreleased_header (rstrip_newlines ''## [Unreleased]'')"
  proof -
    have "char_of (117::nat) = CHR ''u''" by (simp add: char_eq_ord ord_def)
    then show ?thesis
      by (simp add: is_unreleased_header_def strip_heading_def space_class drop_opt_def lower_def lower_char_def ord_def)
  qed
  then have "parse_line ''## [Unreleased]'' s = (flush_active_release s)\<lparr>active_section := InUnreleased, current_cat := None\<rparr>" for s
    by (simp add: parse_line_def Let_def)
  ultimately show ?thesis
    using parse_release_block [OF assms, of start_state] by (simp add: parse_lines_def flush_active_release_def Let_def)
qed

text \<open>What the bytes of a file are parsed to.\<close>

definition parse_bytes :: "string \<Rightarrow> (ChangelogRelease list \<times> categories) option" where
  "parse_bytes raw =
     (case utf8_decode raw of
        None \<Rightarrow> None
      | Some s \<Rightarrow> (case parse_lines (splitlines (universal_newlines s)) of ([], _) \<Rightarrow> None | parsed \<Rightarrow> Some parsed))"

lemma read_and_parse_bytes:
  "file_at w p = Some f \<Longrightarrow> \<not> note_read_fails env \<Longrightarrow> read_and_parse env w p = parse_bytes (f_data f)"
  by (simp add: read_and_parse_def parse_bytes_def read_text_def split: option.split)

primrec parse_calls :: "(changelog_env \<times> world) list \<Rightarrow> changelog_parser \<Rightarrow> ChangelogResponse list" where
  "parse_calls [] c = []"
| "parse_calls (x # xs) c =
     (case parse (fst x) (snd x) c of (r, c') \<Rightarrow> r # parse_calls xs c')"

definition response_of :: "ChangelogRelease list \<times> categories \<Rightarrow> ChangelogResponse" where
  "response_of x = \<lparr>current_version = APP_VERSION, releases = fst x, unreleased = snd x\<rparr>"

text \<open>A filled cache holds what the bytes of that path and time stamp parse to.\<close>

definition cache_ok :: "(path \<Rightarrow> rat \<Rightarrow> string) \<Rightarrow> changelog_parser \<Rightarrow> bool" where
  "cache_ok content c \<longleftrightarrow>
     (\<forall>p t r. cached_path c = Some p \<longrightarrow> cached_mtime c = Some t \<longrightarrow> cached_response c = Some r \<longrightarrow>
        map_option response_of (parse_bytes (content p t)) = Some r)"

lemma parse_cached:
  assumes "cache_ok content c" "\<not> note_read_fails env"
    and "\<And>p f. file_at w p = Some f \<Longrightarrow> f_data f = content p (f_mtime f)"
  shows "fst (parse env w c) = fst (parse env w new_parser) \<and> cache_ok content (snd (parse env w c))"
proof (cases "file_at w (resolve_path env w)")
  case None
  with assms(1) show ?thesis by (simp add: parse_def)
next
  case (Some f)
  let ?p = "resolve_path env w"
  have rd: "read_and_parse env w ?p = parse_bytes (content ?p (f_mtime f))"
    using read_and_parse_bytes [OF Some assms(2)] assms(3) [OF Some] by simp
  have fresh: "fst (parse env w new_parser) =
      (if note_stat_fails env then build_fallback_response APP_VERSION
       else case parse_bytes (content ?p (f_mtime f)) of None \<Rightarrow> build_fallback_response APP_VERSION | Some x \<Rightarrow> response_of x)"
    using Some rd by (simp add: parse_def new_parser_def response_of_def Let_def split: option.split prod.split)
  show ?thesis
  proof (cases "cached_path c = Some ?p \<and> cached_mtime c = Some (f_mtime f) \<and> cached_response c \<noteq> None")
    case True
    then obtain r where r: "cached_response c = Some r" by auto
    with True assms(1) have "map_option response_of (parse_bytes (content ?p (f_mtime f))) = Some r"
      by (simp add: cache_ok_def)
    then show ?thesis
      using Some True r fresh assms(1) by (auto simp: parse_def Let_def)
  next
    case False
    then have "parse env w c = (if note_stat_fails env then (build_fallback_response APP_VERSION, c)
        else case parse_bytes (content ?p (f_mtime f)) of
            None \<Rightarrow> (build_fallback_response APP_VERSION, c)
          | Some x \<Rightarrow> (response_of x, \<lparr>cached_path = Some ?p, cached_mtime = Some (f_mtime f), cached_response = Some (response_of x)\<rparr>))"
      using Some rd by (auto simp: parse_def Let_def response_of_def split: option.split)
    then show ?thesis
      using fresh assms(1) by (auto simp: cache_ok_def split: option.split)
  qed
qed

text \<open>The cache is transparent: over any sequence of calls, with files appearing, changing and
  disappearing in between, each answer is the one a parser without a cache gives, provided that a
  time stamp determines the content of a file and reading succeeds.\<close>

theorem changelog_cache_transparent:
  assumes "\<forall>x \<in> set xs. \<not> note_read_fails (fst x) \<and>
      (\<forall>p f. file_at (snd x) p = Some f \<longrightarrow> f_data f = content p (f_mtime f))"
  shows "parse_calls xs new_parser = map (\<lambda>x. fst (parse (fst x) (snd x) new_parser)) xs"
proof -
  have "cache_ok content c \<Longrightarrow> parse_calls xs c = map (\<lambda>x. fst (parse (fst x) (snd x) new_parser)) xs" for c
    using assms
  proof (induction xs arbitrary: c)
    case (Cons x xs)
    have "fst (parse (fst x) (snd x) c) = fst (parse (fst x) (snd x) new_parser) \<and> cache_ok content (snd (parse (fst x) (snd x) c))"
      by (rule parse_cached [OF Cons.prems(1)]) (use Cons.prems(2) in auto)
    with Cons show ?case by (simp add: split_beta)
  qed simp
  moreover have "cache_ok content new_parser" by (simp add: cache_ok_def new_parser_def)
  ultimately show ?thesis by blast
qed

subsection \<open>Examples\<close>

definition demo_notes :: "(string \<times> string option \<times> categories) list" where
  "demo_notes = [(''1.0-b'', Some ''2026-01-02'', [(''Added'', [''x y''])])]"

lemma demo_notes_wf: "list_all wf_release demo_notes" "wf_categories []"
proof -
  have "wf_version ''1.0-b''"
    unfolding wf_version_def
    by (rule exI [of _ "''1''"], rule exI [of _ "''0''"], rule exI [of _ "[]"], rule exI [of _ "''-b''"])
      (simp add: wf_number_def is_digit_def suffix_char_def is_ascii_alpha_def ord_def)
  moreover have "is_date ''2026-01-02''"
    by (simp add: is_date_def is_digit_def ord_def)
  moreover have "wf_categories [(''Added'', [''x y''])]"
    by (simp add: wf_categories_def wf_dict_def wf_category_def wf_item_def category_char_def is_ascii_alpha_def
        is_space_def line_end_def ord_def)
  ultimately show "list_all wf_release demo_notes" by (simp add: demo_notes_def wf_release_def)
qed (simp add: wf_categories_def)

definition demo_notes_file :: file_entry where
  "demo_notes_file = \<lparr>f_data = utf8_encode (concat (map (\<lambda>l. l @ [CHR 0x0A]) (render_changelog [] demo_notes))),
     f_mode = 420, f_mtime = 7, f_synced = True\<rparr>"

definition demo_notes_disk :: world where
  "demo_notes_disk = \<lparr>files = [((''/r'', ''CHANGELOG.md''), demo_notes_file)], trace = [], dir_durable = True\<rparr>"

definition demo_notes_env :: changelog_env where
  "demo_notes_env = \<lparr>custom_path = None, repo_root = Some ''/r'', source_dir = ''/s'', working_dir = ''/w'',
     note_stat_fails = False, note_read_fails = False\<rparr>"

theorem changelog_round_trip_witness:
  "read_and_parse demo_notes_env demo_notes_disk (''/r'', ''CHANGELOG.md'') =
     Some ([\<lparr>rel_version = ''1.0-b'', rel_date = Some ''2026-01-02'', rel_categories = [(''Added'', [''x y''])],
             raw_body = ''### Added'' @ CHR 0x0A # ''- x y''\<rparr>], [])"
  using changelog_round_trip [OF demo_notes_wf(2,1), of demo_notes_disk "(''/r'', ''CHANGELOG.md'')" demo_notes_file demo_notes_env]
  by (simp add: demo_notes_disk_def demo_notes_file_def demo_notes_env_def file_at_def expected_release_def demo_notes_def
      render_categories_def render_category_def)

theorem changelog_cache_transparent_witness:
  "parse_calls (replicate 2 (demo_notes_env, demo_notes_disk)) new_parser =
     replicate 2 (fst (parse demo_notes_env demo_notes_disk new_parser))"
proof -
  have "parse_calls (replicate 2 (demo_notes_env, demo_notes_disk)) new_parser =
    map (\<lambda>x. fst (parse (fst x) (snd x) new_parser)) (replicate 2 (demo_notes_env, demo_notes_disk))"
    by (rule changelog_cache_transparent [where content = "\<lambda>_ _. f_data demo_notes_file"])
      (auto simp: demo_notes_disk_def demo_notes_env_def file_at_def split: if_splits)
  then show ?thesis by simp
qed

end
