(* ===== verification/Acme_Client.thy ===== *)
theory Acme_Client
  imports Json Auth_Token Atomic_IO Py_Text
begin

section \<open>Certificates from an ACME server\<close>

text \<open>
  \<^verbatim>\<open>app/engine/duckdns.py\<close> and \<^verbatim>\<open>app/engine/acme_client.py\<close>: the requests to the dynamic
  DNS service and the DNS-01 exchange with an ACME server, with its signed requests, replay
  nonces, polling and clean-up. The history of requests is part of the state, and the environment
  gives the answer to each request as a function of the history that ends with it. RSA
  signatures, SHA-256, key and request encodings belong to libraries and are parameters.
\<close>

subsection \<open>Requests and answers\<close>

record signed_request =
  protected :: string
  payload :: string
  signature :: string

datatype acme_event =
    WebGet string
  | WebHead string
  | WebPost string signed_request
  | Slept rat

record web_reply =
  reply_status :: int
  reply_header :: "string \<Rightarrow> string option"
  reply_json :: "json option"
  reply_text :: string
  reply_content :: string

datatype web_outcome = Answer web_reply | RequestError | ClientFault py_error

record acme_state =
  events :: "acme_event list"
  key_store :: world

record rsa_key =
  key_e :: nat
  key_n :: nat
  rsa_sign :: "string \<Rightarrow> string"
  key_pem :: string

record acme_env =
  reply :: "acme_event list \<Rightarrow> web_outcome"
  sha256_digest :: "string \<Rightarrow> string"
  load_key :: "string \<Rightarrow> rsa_key option result"
  new_key :: rsa_key
  key_dir_fails :: bool
  key_read_fails :: bool
  key_io :: io_env
  show_json :: "json \<Rightarrow> string"
  show_float :: "pyfloat \<Rightarrow> string"
  show_error :: "py_error \<Rightarrow> string"
  csr_der :: "string \<Rightarrow> rsa_key \<Rightarrow> string"

type_synonym 'a flow = "acme_state \<Rightarrow> 'a result \<times> acme_state"

definition return :: "'a \<Rightarrow> 'a flow" where
  "return x s = (Inr x, s)"

definition throw :: "py_error \<Rightarrow> 'a flow" where
  "throw e s = (Inl e, s)"

definition lift :: "'a result \<Rightarrow> 'a flow" where
  "lift r s = (r, s)"

definition and_then :: "'a flow \<Rightarrow> ('a \<Rightarrow> 'b flow) \<Rightarrow> 'b flow" where
  "and_then m f s = (case m s of (Inl e, s') \<Rightarrow> (Inl e, s') | (Inr x, s') \<Rightarrow> f x s')"

definition record_event :: "acme_event \<Rightarrow> unit flow" where
  "record_event ev s = (Inr (), s\<lparr>events := events s @ [ev]\<rparr>)"

text \<open>One request and \<open>raise_for_status\<close>.\<close>

definition send :: "acme_env \<Rightarrow> acme_event \<Rightarrow> web_reply flow" where
  "send env ev =
     and_then (record_event ev) (\<lambda>_ s.
       (case reply env (events s) of
          Answer r \<Rightarrow> if 200 \<le> reply_status r \<and> reply_status r < 300 then Inr r else Inl (LibraryError ''HTTPStatusError'')
        | RequestError \<Rightarrow> Inl (LibraryError ''RequestError'')
        | ClientFault e \<Rightarrow> Inl e, s))"

subsection \<open>DuckDNS\<close>

definition removeprefix :: "string \<Rightarrow> string \<Rightarrow> string" where
  "removeprefix s p = (if startswith s p then drop (length p) s else s)"

definition clean_domain_name :: "string \<Rightarrow> string" where
  "clean_domain_name domain =
     (let cleaned = removeprefix (removeprefix (lower (strip domain)) ''https://'') ''http://''
      in cut_at (CHR '':'') (cut_at (CHR ''/'') cleaned))"

definition extract_subdomain :: "string \<Rightarrow> string" where
  "extract_subdomain domain = removesuffix (clean_domain_name domain) ''.duckdns.org''"

definition duckdns_url :: "string \<Rightarrow> string \<Rightarrow> string \<Rightarrow> string" where
  "duckdns_url domain token rest =
     ''https://www.duckdns.org/update?domains='' @ extract_subdomain domain @ ''&token='' @ token @ rest"

text \<open>The request the three functions share; a failure of the connection or of the server is
  logged and answered with \<open>False\<close>.\<close>

definition duckdns_update :: "acme_env \<Rightarrow> string \<Rightarrow> bool flow" where
  "duckdns_update env url s =
     (case send env (WebGet url) s of
        (Inr r, s') \<Rightarrow> (Inr (startswith (reply_text r) ''OK''), s')
      | (Inl e, s') \<Rightarrow>
          (if e \<in> {LibraryError ''RequestError'', LibraryError ''HTTPStatusError''} then Inr False else Inl e, s'))"

definition set_duckdns_txt_record :: "acme_env \<Rightarrow> string \<Rightarrow> string \<Rightarrow> string \<Rightarrow> bool flow" where
  "set_duckdns_txt_record env domain token txt_record =
     duckdns_update env (duckdns_url domain token (''&txt='' @ txt_record))"

definition clear_duckdns_txt_record :: "acme_env \<Rightarrow> string \<Rightarrow> string \<Rightarrow> bool flow" where
  "clear_duckdns_txt_record env domain token = duckdns_update env (duckdns_url domain token ''&clear=true'')"

definition sync_duckdns_ip :: "acme_env \<Rightarrow> string \<Rightarrow> string \<Rightarrow> string \<Rightarrow> bool flow" where
  "sync_duckdns_ip env domain token ip = duckdns_update env (duckdns_url domain token (''&ip='' @ ip))"

subsection \<open>Signed requests\<close>

definition b64url :: "string \<Rightarrow> string" where
  "b64url data = rstrip_pad (urlsafe_b64encode data)"

text \<open>\<open>n.to_bytes((n.bit_length() + 7) // 8, "big")\<close>\<close>

fun int_bytes :: "nat \<Rightarrow> string" where
  "int_bytes n = (if n = 0 then [] else int_bytes (n div 256) @ [char_of (n mod 256)])"

declare int_bytes.simps [simp del]

definition jwk_dict :: "rsa_key \<Rightarrow> json" where
  "jwk_dict key = JObj [(''e'', JStr (b64url (int_bytes (key_e key)))), (''kty'', JStr ''RSA''),
     (''n'', JStr (b64url (int_bytes (key_n key))))]"

definition jwk_thumbprint :: "acme_env \<Rightarrow> rsa_key \<Rightarrow> string" where
  "jwk_thumbprint env key =
     b64url (sha256_digest env (utf8_encode (dumps (show_float env) '','' '':'' (jwk_dict key))))"

definition jws_header :: "rsa_key \<Rightarrow> string \<Rightarrow> string \<Rightarrow> string option \<Rightarrow> json" where
  "jws_header key url nonce kid =
     JObj ([(''alg'', JStr ''RS256''), (''nonce'', JStr nonce), (''url'', JStr url)] @
       (case kid of
          Some (c # cs) \<Rightarrow> [(''kid'', JStr (c # cs))]
        | _ \<Rightarrow> [(''jwk'', jwk_dict key)]))"

text \<open>The payload is an object or, for a request that only reads, the empty text.\<close>

definition sign_jws :: "acme_env \<Rightarrow> rsa_key \<Rightarrow> string \<Rightarrow> string \<Rightarrow> json option \<Rightarrow> string option \<Rightarrow> signed_request" where
  "sign_jws env key url nonce body kid =
     (let protected64 = b64url (utf8_encode (dumps (show_float env) '', '' '': '' (jws_header key url nonce kid)));
          payload64 = (case body of None \<Rightarrow> [] | Some j \<Rightarrow> b64url (utf8_encode (dumps (show_float env) '', '' '': '' j)))
      in \<lparr>protected = protected64, payload = payload64,
          signature = b64url (rsa_sign key (protected64 @ ''.'' @ payload64))\<rparr>)"

subsection \<open>The calls to the ACME server\<close>

text \<open>\<open>dict(response.json())\<close> and \<open>response.json()\<close> before a \<open>.get\<close>. Of the arrays, only the
  empty one is a dictionary.\<close>

definition json_dict :: "web_reply \<Rightarrow> (string, json) dict result" where
  "json_dict r =
     (case reply_json r of
        None \<Rightarrow> Inl ValueError
      | Some (JObj d) \<Rightarrow> Inr d
      | Some (JArr []) \<Rightarrow> Inr []
      | Some _ \<Rightarrow> Inl TypeError)"

definition get_acme_directory :: "acme_env \<Rightarrow> string \<Rightarrow> (string, json) dict flow" where
  "get_acme_directory env directory_url = and_then (send env (WebGet directory_url)) (\<lambda>r. lift (json_dict r))"

definition create_or_load_account_key :: "acme_env \<Rightarrow> path \<Rightarrow> rsa_key flow" where
  "create_or_load_account_key env key_path s =
     (if key_dir_fails env then (Inl OSError, s)
      else
        (case file_at (key_store s) key_path of
           Some f \<Rightarrow>
             (if key_read_fails env then Inl OSError
              else bind_result (load_key env (f_data f)) (\<lambda>k. case k of None \<Rightarrow> Inl ValueError | Some key \<Rightarrow> Inr key), s)
         | None \<Rightarrow>
             (case atomic_write_file (key_io env) key_path (key_pem (new_key env)) 5 False (Some 384) True (key_store s) of
                (Inl e, w) \<Rightarrow> (Inl e, s\<lparr>key_store := w\<rparr>)
              | (Inr _, w) \<Rightarrow> (Inr (new_key env), s\<lparr>key_store := w\<rparr>))))"

text \<open>An address that is not a text makes the client raise.\<close>

definition address :: "json \<Rightarrow> string flow" where
  "address j = (case j of JStr u \<Rightarrow> return u | _ \<Rightarrow> throw TypeError)"

definition get_nonce :: "acme_env \<Rightarrow> json \<Rightarrow> string flow" where
  "get_nonce env new_nonce_url =
     and_then (address new_nonce_url) (\<lambda>url.
     and_then (send env (WebHead url)) (\<lambda>r.
       case reply_header r ''Replay-Nonce'' of
         Some (c # cs) \<Rightarrow> return (c # cs)
       | _ \<Rightarrow> throw ValueError))"

text \<open>A fresh nonce, the signature and the request.\<close>

definition post_signed :: "acme_env \<Rightarrow> rsa_key \<Rightarrow> json \<Rightarrow> json \<Rightarrow> json option \<Rightarrow> string option \<Rightarrow> web_reply flow" where
  "post_signed env key new_nonce_url target body kid =
     and_then (get_nonce env new_nonce_url) (\<lambda>nonce.
     and_then (address target) (\<lambda>url.
       send env (WebPost url (sign_jws env key url nonce body kid))))"

text \<open>The account URL of the answer.\<close>

definition location :: "web_reply \<Rightarrow> string flow" where
  "location r = (case reply_header r ''Location'' of Some (c # cs) \<Rightarrow> return (c # cs) | _ \<Rightarrow> throw ValueError)"

definition register_account :: "acme_env \<Rightarrow> rsa_key \<Rightarrow> json \<Rightarrow> json \<Rightarrow> string flow" where
  "register_account env key new_account_url new_nonce_url =
     and_then (post_signed env key new_nonce_url new_account_url (Some (JObj [(''termsOfServiceAgreed'', JBool True)])) None)
       location"

record ACMEOrder =
  order_url :: string
  authorization_urls :: json
  finalize_url :: json

definition body_dict :: "web_reply \<Rightarrow> (string, json) dict flow" where
  "body_dict r = lift (body_object (reply_json r))"

definition create_order :: "acme_env \<Rightarrow> string \<Rightarrow> rsa_key \<Rightarrow> string \<Rightarrow> json \<Rightarrow> json \<Rightarrow> ACMEOrder flow" where
  "create_order env account key domain new_order_url new_nonce_url =
     and_then (post_signed env key new_nonce_url new_order_url
       (Some (JObj [(''identifiers'', JArr [JObj [(''type'', JStr ''dns''), (''value'', JStr domain)]])])) (Some account)) (\<lambda>r.
     and_then (location r) (\<lambda>url.
     and_then (body_dict r) (\<lambda>d.
       return \<lparr>order_url = url, authorization_urls = json_get d ''authorizations'' (JArr []),
               finalize_url = json_get d ''finalize'' (JStr [])\<rparr>)))"

definition compute_key_authorization_digest :: "acme_env \<Rightarrow> string \<Rightarrow> rsa_key \<Rightarrow> string result" where
  "compute_key_authorization_digest env token key =
     (let key_auth = token @ ''.'' @ jwk_thumbprint env key
      in if is_ascii key_auth then Inr (b64url (sha256_digest env key_auth)) else Inl ValueError)"

record ACMEChallenge =
  challenge_url :: json
  challenge_token :: json
  key_authorization_digest :: string

text \<open>The first challenge of type \<open>dns-01\<close>.\<close>

fun find_challenge :: "acme_env \<Rightarrow> rsa_key \<Rightarrow> json list \<Rightarrow> ACMEChallenge result" where
  "find_challenge env key [] = Inl ValueError"
| "find_challenge env key (JObj ch # cs) =
     (if json_get ch ''type'' JNull = JStr ''dns-01''
      then bind_result (compute_key_authorization_digest env (py_str (show_json env) (json_get ch ''token'' (JStr []))) key)
             (\<lambda>digest. Inr \<lparr>challenge_url = json_get ch ''url'' (JStr []), challenge_token = json_get ch ''token'' (JStr []),
                           key_authorization_digest = digest\<rparr>)
      else find_challenge env key cs)"
| "find_challenge env key (_ # cs) = Inl AttributeError"

text \<open>What a \<open>for\<close> loop over a JSON value runs through; keys and characters are texts.\<close>

fun json_items :: "json \<Rightarrow> json list result" where
  "json_items (JArr vs) = Inr vs"
| "json_items (JObj kvs) = Inr (map (JStr \<circ> fst) kvs)"
| "json_items (JStr s) = Inr (map (\<lambda>c. JStr [c]) s)"
| "json_items _ = Inl TypeError"

definition get_dns01_challenge :: "acme_env \<Rightarrow> string \<Rightarrow> rsa_key \<Rightarrow> json \<Rightarrow> json \<Rightarrow> ACMEChallenge flow" where
  "get_dns01_challenge env account key authorization_url new_nonce_url =
     and_then (post_signed env key new_nonce_url authorization_url None (Some account)) (\<lambda>r.
     and_then (body_dict r) (\<lambda>d.
     and_then (lift (json_items (json_get d ''challenges'' (JArr [])))) (\<lambda>cs. lift (find_challenge env key cs))))"

definition respond_to_challenge :: "acme_env \<Rightarrow> string \<Rightarrow> rsa_key \<Rightarrow> json \<Rightarrow> json \<Rightarrow> bool flow" where
  "respond_to_challenge env account key url new_nonce_url =
     and_then (post_signed env key new_nonce_url url (Some (JObj [])) (Some account)) (\<lambda>_. return True)"

definition ACME_MAX_POLL_ATTEMPTS :: nat where
  "ACME_MAX_POLL_ATTEMPTS = 40"

definition ACME_POLL_INTERVAL :: rat where
  "ACME_POLL_INTERVAL = 3"

fun poll_loop :: "nat \<Rightarrow> acme_env \<Rightarrow> string \<Rightarrow> rsa_key \<Rightarrow> json \<Rightarrow> json \<Rightarrow> (string, json) dict flow" where
  "poll_loop 0 env account key url new_nonce_url = throw TimeoutError"
| "poll_loop (Suc n) env account key url new_nonce_url =
     and_then (post_signed env key new_nonce_url url None (Some account)) (\<lambda>r.
     and_then (body_dict r) (\<lambda>d.
       if json_get d ''status'' JNull \<in> {JStr ''ready'', JStr ''valid'', JStr ''invalid''} then return d
       else and_then (record_event (Slept ACME_POLL_INTERVAL)) (\<lambda>_. poll_loop n env account key url new_nonce_url)))"

definition poll_order_status :: "acme_env \<Rightarrow> string \<Rightarrow> rsa_key \<Rightarrow> json \<Rightarrow> json \<Rightarrow> (string, json) dict flow" where
  "poll_order_status = poll_loop ACME_MAX_POLL_ATTEMPTS"

definition finalize_order :: "acme_env \<Rightarrow> string \<Rightarrow> rsa_key \<Rightarrow> json \<Rightarrow> string \<Rightarrow> json \<Rightarrow> json flow" where
  "finalize_order env account key url der new_nonce_url =
     and_then (post_signed env key new_nonce_url url (Some (JObj [(''csr'', JStr (b64url der))])) (Some account)) (\<lambda>r.
     and_then (body_dict r) (\<lambda>d0.
     and_then (if json_get d0 ''status'' JNull = JStr ''processing''
               then poll_order_status env account key (case reply_header r ''Location'' of Some u \<Rightarrow> JStr u | None \<Rightarrow> url) new_nonce_url
               else return d0) (\<lambda>d.
       if json_get d ''status'' JNull \<noteq> JStr ''valid'' then throw ValueError
       else if \<not> truthy (json_get d ''certificate'' JNull) then throw ValueError
       else return (json_get d ''certificate'' JNull))))"

definition download_certificate :: "acme_env \<Rightarrow> string \<Rightarrow> rsa_key \<Rightarrow> json \<Rightarrow> json \<Rightarrow> string flow" where
  "download_certificate env account key certificate_url new_nonce_url =
     and_then (post_signed env key new_nonce_url certificate_url None (Some account)) (\<lambda>r. return (reply_content r))"

subsection \<open>The whole exchange\<close>

record ACMECertificateResult =
  acme_success :: bool
  fullchain_pem :: "string option"
  acme_error :: "string option"

text \<open>\<open>order.authorization_urls[0]\<close>\<close>

fun first_of :: "json \<Rightarrow> json result" where
  "first_of (JArr (v # vs)) = Inr v"
| "first_of (JStr (c # cs)) = Inr (JStr [c])"
| "first_of (JObj _) = Inl KeyError"
| "first_of _ = Inl TypeError"

text \<open>The part between setting the TXT record and clearing it.\<close>

definition prove_and_issue ::
  "acme_env \<Rightarrow> string \<Rightarrow> string \<Rightarrow> rsa_key \<Rightarrow> rsa_key \<Rightarrow> ACMEOrder \<Rightarrow> ACMEChallenge \<Rightarrow> json \<Rightarrow> string flow" where
  "prove_and_issue env domain account key private_key order challenge new_nonce_url =
     and_then (record_event (Slept 10)) (\<lambda>_.
     and_then (respond_to_challenge env account key (challenge_url challenge) new_nonce_url) (\<lambda>_.
     and_then (poll_order_status env account key (JStr (order_url order)) new_nonce_url) (\<lambda>d.
       if json_get d ''status'' JNull = JStr ''invalid'' then throw ValueError
       else
         and_then (finalize_order env account key (finalize_url order) (csr_der env domain private_key) new_nonce_url) (\<lambda>cert_url.
           download_certificate env account key cert_url new_nonce_url))))"

text \<open>The \<open>try\<close> block with its \<open>finally\<close>: once the request that sets the record has returned,
  whatever it answered, the record is cleared.\<close>

definition with_txt_record :: "acme_env \<Rightarrow> string \<Rightarrow> string \<Rightarrow> string \<Rightarrow> 'a flow \<Rightarrow> 'a flow" where
  "with_txt_record env domain token digest body s =
     (case set_duckdns_txt_record env domain token digest s of
        (Inl e, s1) \<Rightarrow> (Inl e, s1)
      | (Inr _, s1) \<Rightarrow>
          (case body s1 of (r, s2) \<Rightarrow> (r, snd (clear_duckdns_txt_record env domain token s2))))"

definition dns01_steps :: "acme_env \<Rightarrow> string \<Rightarrow> string \<Rightarrow> rsa_key \<Rightarrow> string \<Rightarrow> path \<Rightarrow> string flow" where
  "dns01_steps env domain duckdns_token private_key directory_url account_key_path =
     and_then (get_acme_directory env directory_url) (\<lambda>dir.
     let new_nonce_url = json_get dir ''newNonce'' (JStr []) in
     and_then (create_or_load_account_key env account_key_path) (\<lambda>key.
     and_then (register_account env key (json_get dir ''newAccount'' (JStr [])) new_nonce_url) (\<lambda>account.
     and_then (create_order env account key domain (json_get dir ''newOrder'' (JStr [])) new_nonce_url) (\<lambda>order.
     if \<not> truthy (authorization_urls order) then throw ValueError
     else
       and_then (lift (first_of (authorization_urls order))) (\<lambda>authz_url.
       and_then (get_dns01_challenge env account key authz_url new_nonce_url) (\<lambda>challenge.
         with_txt_record env domain duckdns_token (key_authorization_digest challenge)
           (prove_and_issue env domain account key private_key order challenge new_nonce_url)))))))"

definition perform_dns01_flow :: "acme_env \<Rightarrow> string \<Rightarrow> string \<Rightarrow> rsa_key \<Rightarrow> string \<Rightarrow> path \<Rightarrow> acme_state \<Rightarrow> ACMECertificateResult \<times> acme_state" where
  "perform_dns01_flow env domain duckdns_token private_key directory_url account_key_path s =
     (case dns01_steps env domain duckdns_token private_key directory_url account_key_path s of
        (Inr cert_pem, s') \<Rightarrow> (\<lparr>acme_success = True, fullchain_pem = Some cert_pem, acme_error = None\<rparr>, s')
      | (Inl e, s') \<Rightarrow> (\<lparr>acme_success = False, fullchain_pem = None, acme_error = Some (show_error env e)\<rparr>, s'))"

subsection \<open>What every step keeps of the history\<close>

lemma and_then_throw [simp]: "and_then (throw e) f = throw e"
  by (rule ext) (simp add: and_then_def throw_def)

lemma events_send [simp]: "events (snd (send e ev s)) = events s @ [ev]"
  by (simp add: send_def and_then_def record_event_def)

text \<open>The steps of the exchange append requests to the history in four ways only. An invariant of
  the history that these four keep is kept by the whole exchange.\<close>

locale acme_history =
  fixes env :: acme_env and P :: "acme_event list \<Rightarrow> bool" and allowed :: "string \<Rightarrow> bool"
  assumes keep_get: "allowed u \<Longrightarrow> P evs \<Longrightarrow> P (evs @ [WebGet u])"
    and keep_sleep: "P evs \<Longrightarrow> P (evs @ [Slept t])"
    and keep_head: "P evs \<Longrightarrow> P (evs @ [WebHead h])"
    and keep_post: "P (evs @ [WebHead h]) \<Longrightarrow> reply env (evs @ [WebHead h]) = Answer r \<Longrightarrow>
      reply_header r ''Replay-Nonce'' = Some nonce \<Longrightarrow> nonce \<noteq> [] \<Longrightarrow>
      P (evs @ [WebHead h, WebPost u (sign_jws env key u nonce body kid)])"
begin

definition keeps_history :: "'a flow \<Rightarrow> bool" where
  "keeps_history m \<longleftrightarrow> (\<forall>s. P (events s) \<longrightarrow> P (events (snd (m s))))"

lemma keeps_pure [intro]: "keeps_history (return x)" "keeps_history (throw e)" "keeps_history (lift r)"
  by (simp_all add: keeps_history_def return_def throw_def lift_def)

lemma keeps_and_then [intro]:
  "keeps_history m \<Longrightarrow> (\<And>x. keeps_history (f x)) \<Longrightarrow> keeps_history (and_then m f)"
  by (simp add: keeps_history_def and_then_def split: prod.split sum.split) (metis snd_conv)

lemma keeps_if [intro]:
  "(b \<Longrightarrow> keeps_history m) \<Longrightarrow> (\<not> b \<Longrightarrow> keeps_history n) \<Longrightarrow> keeps_history (if b then m else n)"
  by simp

lemma keeps_sleep [intro]: "keeps_history (record_event (Slept t))"
  by (simp add: keeps_history_def record_event_def keep_sleep)

lemma keeps_get [intro]: "allowed u \<Longrightarrow> keeps_history (send env (WebGet u))"
  by (simp add: keeps_history_def keep_get)

lemma keeps_address [intro]: "keeps_history (address j)"
  by (cases j) (auto simp: address_def)

lemma keeps_post [intro]: "keeps_history (post_signed env key n target body kid)"
proof (cases n)
  case (JStr h)
  show ?thesis
  proof (unfold keeps_history_def, intro allI impI)
    fix s :: acme_state assume P: "P (events s)"
    let ?evs = "events s @ [WebHead h]"
    have head: "P ?evs" by (rule keep_head [OF P])
    show "P (events (snd (post_signed env key n target body kid s)))"
    proof (cases target)
      case (JStr u)
      have "P (?evs @ [WebPost u (sign_jws env key u nonce body kid)])"
        if "reply env ?evs = Answer r" "reply_header r ''Replay-Nonce'' = Some nonce" "nonce \<noteq> []" for r nonce
        using keep_post [OF head that] by simp
      with head show ?thesis
        by (auto simp: post_signed_def get_nonce_def \<open>n = _\<close> JStr address_def and_then_def return_def throw_def
            send_def record_event_def split: web_outcome.split option.split list.split)
    qed (use head in \<open>auto simp: post_signed_def get_nonce_def \<open>n = _\<close> address_def and_then_def return_def throw_def
            send_def record_event_def split: web_outcome.split option.split list.split\<close>)
  qed
qed (simp_all add: post_signed_def get_nonce_def address_def keeps_pure)

lemma keeps_location [intro]: "keeps_history (location r)"
  by (auto simp: location_def split: option.split list.split)

lemma keeps_body [intro]: "keeps_history (body_dict r)"
  by (auto simp: body_dict_def)

lemma keeps_register [intro]: "keeps_history (register_account env key a n)"
  by (auto simp: register_account_def)

lemma keeps_order [intro]: "keeps_history (create_order env account key domain u n)"
  by (auto simp: create_order_def)

lemma keeps_challenge [intro]: "keeps_history (get_dns01_challenge env account key u n)"
  by (auto simp: get_dns01_challenge_def)

lemma keeps_respond [intro]: "keeps_history (respond_to_challenge env account key u n)"
  by (auto simp: respond_to_challenge_def)

lemma keeps_poll [intro]: "keeps_history (poll_loop k env account key u n)"
proof (induction k)
  case (Suc k)
  show ?case
    unfolding poll_loop.simps by (intro keeps_and_then keeps_if keeps_pure keeps_post keeps_body keeps_sleep Suc.IH)
qed (simp add: keeps_pure)

lemma keeps_finalize [intro]: "keeps_history (finalize_order env account key u der n)"
  unfolding finalize_order_def poll_order_status_def by (intro keeps_and_then keeps_if keeps_pure keeps_post keeps_body keeps_poll)

lemma keeps_download [intro]: "keeps_history (download_certificate env account key u n)"
  by (auto simp: download_certificate_def)

lemma keeps_key [intro]: "keeps_history (create_or_load_account_key env p)"
  by (auto simp: keeps_history_def create_or_load_account_key_def split: option.split prod.split sum.split)

lemma keeps_directory [intro]: "allowed u \<Longrightarrow> keeps_history (get_acme_directory env u)"
  by (auto simp: get_acme_directory_def)

lemma keeps_issue [intro]: "keeps_history (prove_and_issue env domain account key pk order ch n)"
  unfolding prove_and_issue_def poll_order_status_def
  by (intro keeps_and_then keeps_if keeps_pure keeps_sleep keeps_respond keeps_poll keeps_finalize keeps_download)

lemma keeps_duckdns: "allowed u \<Longrightarrow> P (events s) \<Longrightarrow> P (events (snd (duckdns_update env u s)))"
  using events_send [of env "WebGet u" s] keep_get [of u "events s"]
  by (auto simp: duckdns_update_def split: prod.split sum.split simp del: events_send)

lemma keeps_with_txt [intro]:
  assumes "keeps_history body" "\<And>rest. allowed (duckdns_url domain token rest)"
  shows "keeps_history (with_txt_record env domain token digest body)"
proof (unfold keeps_history_def, intro allI impI)
  fix s :: acme_state assume P: "P (events s)"
  obtain r1 s1 where set: "set_duckdns_txt_record env domain token digest s = (r1, s1)" by fastforce
  then have P1: "P (events s1)"
    using keeps_duckdns [OF assms(2) P] by (metis set_duckdns_txt_record_def snd_conv)
  obtain r2 s2 where b: "body s1 = (r2, s2)" by fastforce
  then have P2: "P (events s2)" using assms(1) P1 by (metis keeps_history_def snd_conv)
  have "P (events (snd (clear_duckdns_txt_record env domain token s2)))"
    unfolding clear_duckdns_txt_record_def by (rule keeps_duckdns [OF assms(2) P2])
  with P1 show "P (events (snd (with_txt_record env domain token digest body s)))"
    by (simp add: with_txt_record_def set b split: sum.split)
qed

lemma keeps_dns01 [intro]:
  assumes "allowed directory_url" "\<And>rest. allowed (duckdns_url domain token rest)"
  shows "keeps_history (dns01_steps env domain token pk directory_url p)"
  unfolding dns01_steps_def Let_def
  by (intro keeps_and_then keeps_if keeps_pure keeps_directory keeps_key keeps_register keeps_order keeps_challenge
      keeps_with_txt keeps_issue assms)

end

subsection \<open>Replay nonces\<close>

text \<open>Every signed request carries the nonce of the answer to the request just before it.\<close>

definition nonces_fresh :: "acme_env \<Rightarrow> acme_event list \<Rightarrow> bool" where
  "nonces_fresh env evs \<longleftrightarrow> (\<forall>pre u q post. evs = pre @ WebPost u q # post \<longrightarrow>
     (\<exists>h r nonce key body kid. pre \<noteq> [] \<and> last pre = WebHead h \<and> reply env pre = Answer r \<and>
        reply_header r ''Replay-Nonce'' = Some nonce \<and> nonce \<noteq> [] \<and> q = sign_jws env key u nonce body kid))"

lemma nonces_fresh_snoc:
  "(\<And>u q. ev = WebPost u q \<Longrightarrow> \<exists>h r nonce key body kid. evs \<noteq> [] \<and> last evs = WebHead h \<and> reply env evs = Answer r \<and>
      reply_header r ''Replay-Nonce'' = Some nonce \<and> nonce \<noteq> [] \<and> q = sign_jws env key u nonce body kid) \<Longrightarrow>
   nonces_fresh env evs \<Longrightarrow> nonces_fresh env (evs @ [ev])"
  unfolding nonces_fresh_def
  by (intro allI impI, rename_tac pre u q post, case_tac post rule: rev_cases) auto

interpretation nonces: acme_history env "nonces_fresh env" "\<lambda>_. True" for env
proof
  fix evs h r nonce u key body kid
  assume a: "nonces_fresh env (evs @ [WebHead h])" "reply env (evs @ [WebHead h]) = Answer r"
    "reply_header r ''Replay-Nonce'' = Some nonce" "nonce \<noteq> []"
  have "nonces_fresh env ((evs @ [WebHead h]) @ [WebPost u (sign_jws env key u nonce body kid)])"
    by (rule nonces_fresh_snoc [OF _ a(1)]) (use a in \<open>simp, blast\<close>)
  then show "nonces_fresh env (evs @ [WebHead h, WebPost u (sign_jws env key u nonce body kid)])"
    by simp
qed (auto intro: nonces_fresh_snoc)

text \<open>Before the TXT record is set, only the directory is fetched.\<close>

definition only_gets :: "string \<Rightarrow> acme_event list \<Rightarrow> bool" where
  "only_gets u evs \<longleftrightarrow> (\<forall>v. WebGet v \<in> set evs \<longrightarrow> v = u)"

interpretation gets: acme_history env "only_gets d" "\<lambda>u. u = d" for env d
  by unfold_locales (auto simp: only_gets_def)

subsection \<open>Bounds\<close>

definition adds :: "nat \<Rightarrow> 'a flow \<Rightarrow> bool" where
  "adds n m \<longleftrightarrow> (\<forall>s. length (events (snd (m s))) \<le> length (events s) + n)"

lemma adds_pure: "adds 0 (return x)" "adds 0 (throw e)" "adds 0 (lift r)"
  by (simp_all add: adds_def return_def throw_def lift_def)

lemma adds_and_then:
  assumes "adds a m" "\<And>x. adds b (f x)"
  shows "adds (a + b) (and_then m f)"
proof (unfold adds_def, intro allI)
  fix s
  obtain r s1 where m: "m s = (r, s1)" by fastforce
  then have l: "length (events s1) \<le> length (events s) + a"
    using assms(1) unfolding adds_def by (metis snd_conv)
  show "length (events (snd (and_then m f s))) \<le> length (events s) + (a + b)"
  proof (cases r)
    case (Inr x)
    have "length (events (snd (f x s1))) \<le> length (events s1) + b"
      using assms(2) unfolding adds_def by blast
    with l show ?thesis by (simp add: and_then_def m Inr)
  qed (use l m in \<open>simp add: and_then_def\<close>)
qed

lemma adds_mono: "adds a m \<Longrightarrow> a \<le> b \<Longrightarrow> adds b m"
  unfolding adds_def by (meson add_left_mono le_trans)

lemma adds_if: "adds a m \<Longrightarrow> adds b n \<Longrightarrow> adds (max a b) (if c then m else n)"
  by (auto intro: adds_mono)

lemma adds_record: "adds 1 (record_event e)"
  by (simp add: adds_def record_event_def)

lemma adds_send: "adds 1 (send env ev)"
  by (simp add: adds_def)

lemma adds_address: "adds 0 (address j)"
  by (cases j) (simp_all add: address_def adds_pure)

lemma adds_nonce: "adds 1 (get_nonce env n)"
proof -
  have pick: "adds 0 (case h of Some (c # cs) \<Rightarrow> return (c # cs) | _ \<Rightarrow> throw ValueError)" for h :: "string option"
    by (auto simp: adds_pure split: option.split list.split)
  show ?thesis
    unfolding get_nonce_def
    by (rule adds_mono, (rule adds_and_then adds_address adds_send pick)+) simp
qed

lemma adds_post: "adds 2 (post_signed env key n t body kid)"
  unfolding post_signed_def
  by (rule adds_mono, (rule adds_and_then adds_nonce adds_address adds_send)+) simp

lemma adds_location: "adds 0 (location r)"
  by (auto simp: location_def adds_pure split: option.split list.split)

lemma adds_body: "adds 0 (body_dict r)"
  by (simp add: body_dict_def adds_pure)

lemma adds_poll: "adds (3 * k) (poll_loop k env account key u n)"
proof (induction k)
  case (Suc k)
  show ?case
    unfolding poll_loop.simps
    by (rule adds_mono, (rule adds_and_then adds_if adds_pure adds_post adds_body adds_record Suc.IH)+) simp
qed (simp add: adds_pure)

lemma adds_finalize: "adds 122 (finalize_order env account key u der n)"
  unfolding finalize_order_def poll_order_status_def
  by (rule adds_mono, (rule adds_and_then adds_if adds_pure adds_post adds_body adds_poll)+)
    (simp add: ACME_MAX_POLL_ATTEMPTS_def)

lemma adds_issue: "adds 247 (prove_and_issue env domain account key pk order ch n)"
  unfolding prove_and_issue_def poll_order_status_def respond_to_challenge_def download_certificate_def
  by (rule adds_mono, (rule adds_and_then adds_if adds_pure adds_post adds_body adds_poll adds_record adds_finalize)+)
    (simp add: ACME_MAX_POLL_ATTEMPTS_def)

lemma events_duckdns: "events (snd (duckdns_update env u s)) = events s @ [WebGet u]"
  using events_send [of env "WebGet u" s] by (auto simp: duckdns_update_def split: prod.split sum.split simp del: events_send)

lemma adds_with_txt:
  assumes "adds k body"
  shows "adds (k + 2) (with_txt_record env domain token digest body)"
proof (unfold adds_def, intro allI)
  fix s :: acme_state
  obtain r1 s1 where set: "set_duckdns_txt_record env domain token digest s = (r1, s1)" by fastforce
  then have e1: "length (events s1) = length (events s) + 1"
    by (metis events_duckdns length_append_singleton set_duckdns_txt_record_def snd_conv Suc_eq_plus1)
  obtain r2 s2 where b: "body s1 = (r2, s2)" by fastforce
  then have "length (events s2) \<le> length (events s1) + k" using assms unfolding adds_def by (metis snd_conv)
  with e1 show "length (events (snd (with_txt_record env domain token digest body s))) \<le> length (events s) + (k + 2)"
    by (simp add: with_txt_record_def set b clear_duckdns_txt_record_def events_duckdns split: sum.split)
qed

lemma adds_key: "adds 0 (create_or_load_account_key env p)"
  by (auto simp: adds_def create_or_load_account_key_def split: option.split prod.split sum.split)

lemma adds_dns01: "adds 256 (dns01_steps env domain token pk d p)"
  unfolding dns01_steps_def Let_def get_acme_directory_def register_account_def create_order_def get_dns01_challenge_def
  by (rule adds_mono, (rule adds_and_then adds_if adds_pure adds_post adds_body adds_send adds_key adds_location
      adds_with_txt adds_issue)+) simp

lemma perform_events:
  "perform_dns01_flow env domain token pk d p s = (res, s') \<Longrightarrow>
     \<exists>r. dns01_steps env domain token pk d p s = (r, s') \<and> acme_success res = (\<exists>c. r = Inr c \<and> fullchain_pem res = Some c)"
  by (auto simp: perform_dns01_flow_def split: prod.splits sum.splits)

text \<open>C36. The exchange always ends with a result, after at most 256 requests and pauses, whatever the
  servers answer.\<close>

theorem acme_flow_bounded:
  "length (events (snd (perform_dns01_flow env domain token pk directory_url p s))) \<le> length (events s) + 256"
  using adds_dns01 [of env domain token pk directory_url p, unfolded adds_def, rule_format, of s]
  by (auto simp: perform_dns01_flow_def split: prod.split sum.split)

text \<open>Every signed request of the exchange carries a nonce that the server has just issued: the
  answer to the request immediately before it, which was a request for a nonce, names it.\<close>

theorem acme_nonces_fresh:
  assumes "perform_dns01_flow env domain token pk directory_url p s = (res, s')" "events s = []"
    and "events s' = pre @ WebPost u q # post"
  shows "\<exists>h r nonce key body kid. pre \<noteq> [] \<and> last pre = WebHead h \<and> reply env pre = Answer r \<and>
    reply_header r ''Replay-Nonce'' = Some nonce \<and> nonce \<noteq> [] \<and> q = sign_jws env key u nonce body kid"
proof -
  obtain r where r: "dns01_steps env domain token pk directory_url p s = (r, s')"
    using perform_events [OF assms(1)] by blast
  have "nonces_fresh env (events s)" using assms(2) by (simp add: nonces_fresh_def)
  then have "nonces_fresh env (events s')"
    using nonces.keeps_dns01 [where env = env and directory_url = directory_url and domain = domain and token = token and pk = pk and p = p] r
    unfolding nonces.keeps_history_def by (metis snd_conv)
  with assms(3) show ?thesis unfolding nonces_fresh_def by blast
qed


subsection \<open>Clearing the TXT record\<close>

lemma and_then_Inr_iff:
  "and_then m f s = (Inr y, s') \<longleftrightarrow> (\<exists>x s1. m s = (Inr x, s1) \<and> f x s1 = (Inr y, s'))"
  by (auto simp: and_then_def split: prod.split sum.split)

lemma send_Inr: "send env ev s = (Inr r, s') \<Longrightarrow> events s' = events s @ [ev] \<and> reply env (events s') = Answer r"
  by (auto simp: send_def and_then_def record_event_def split: web_outcome.splits if_splits)

lemma issued_last:
  assumes "prove_and_issue env domain account key pk order ch n s = (Inr c, s')"
  shows "\<exists>pre u q rep. events s' = pre @ [WebPost u q] \<and> reply env (events s') = Answer rep \<and> c = reply_content rep"
proof -
  obtain d s1 where "(if json_get d ''status'' JNull = JStr ''invalid'' then throw ValueError
      else and_then (finalize_order env account key (finalize_url order) (csr_der env domain pk) n)
        (\<lambda>cert_url. download_certificate env account key cert_url n)) s1 = (Inr c, s')"
    using assms unfolding prove_and_issue_def and_then_Inr_iff by blast
  then obtain u s2 where "download_certificate env account key u n s2 = (Inr c, s')"
    by (auto simp: and_then_Inr_iff throw_def split: if_splits)
  then obtain r ev s3 where "send env ev s3 = (Inr r, s')" "c = reply_content r" "\<exists>u q. ev = WebPost u q"
    by (auto simp: download_certificate_def post_signed_def and_then_Inr_iff return_def)
  then show ?thesis using send_Inr by fastforce
qed

abbreviation txt_url :: "string \<Rightarrow> string \<Rightarrow> string \<Rightarrow> string" where
  "txt_url domain token digest \<equiv> duckdns_url domain token (''&txt='' @ digest)"

abbreviation clear_url :: "string \<Rightarrow> string \<Rightarrow> string" where
  "clear_url domain token \<equiv> duckdns_url domain token ''&clear=true''"

text \<open>How a run ends: it failed before the record was set, the request that sets it raised, or the
  last request clears it, after the download if a certificate was issued.\<close>

definition settled :: "acme_env \<Rightarrow> string \<Rightarrow> string \<Rightarrow> string \<Rightarrow> string result \<Rightarrow> acme_event list \<Rightarrow> bool" where
  "settled env d domain token r evs \<longleftrightarrow>
     (\<exists>e. r = Inl e) \<and> only_gets d evs \<or>
     (\<exists>e digest. r = Inl e \<and> evs \<noteq> [] \<and> last evs = WebGet (txt_url domain token digest) \<and> reply env evs = ClientFault e) \<or>
     (\<exists>evs'. evs = evs' @ [WebGet (clear_url domain token)] \<and>
       (\<forall>c. r = Inr c \<longrightarrow> (\<exists>pre u q rep. evs' = pre @ [WebPost u q] \<and> reply env evs' = Answer rep \<and> c = reply_content rep)))"

definition settles :: "acme_env \<Rightarrow> string \<Rightarrow> string \<Rightarrow> string \<Rightarrow> string flow \<Rightarrow> bool" where
  "settles env d domain token m \<longleftrightarrow>
     (\<forall>s. only_gets d (events s) \<longrightarrow> settled env d domain token (fst (m s)) (events (snd (m s))))"

lemma settles_throw: "settles env d domain token (throw e)"
  by (simp add: settles_def settled_def throw_def)

lemma settles_and_then:
  assumes "gets.keeps_history d m" "\<And>x. settles env d domain token (f x)"
  shows "settles env d domain token (and_then m f)"
proof (unfold settles_def, intro allI impI)
  fix s :: acme_state assume s: "only_gets d (events s)"
  obtain r s1 where m: "m s = (r, s1)" by fastforce
  then have s1: "only_gets d (events s1)"
    using assms(1) s unfolding gets.keeps_history_def by (metis snd_conv)
  show "settled env d domain token (fst (and_then m f s)) (events (snd (and_then m f s)))"
  proof (cases r)
    case (Inr x)
    then show ?thesis using assms(2) s1 m by (simp add: settles_def and_then_def)
  qed (use s1 m in \<open>simp add: and_then_def settled_def\<close>)
qed

lemma settles_if:
  "settles env d domain token m \<Longrightarrow> settles env d domain token n \<Longrightarrow> settles env d domain token (if b then m else n)"
  by simp

lemma duckdns_Inl: "duckdns_update env u s = (Inl e, s') \<Longrightarrow> events s' = events s @ [WebGet u] \<and> reply env (events s') = ClientFault e"
  by (auto simp: duckdns_update_def send_def and_then_def record_event_def split: web_outcome.splits if_splits sum.splits prod.splits)

lemma settles_with_txt:
  "settles env d domain token
     (with_txt_record env domain token digest (prove_and_issue env domain account key pk order ch n))"
proof (unfold settles_def, intro allI impI)
  fix s :: acme_state
  let ?body = "prove_and_issue env domain account key pk order ch n"
  obtain r1 s1 where set: "duckdns_update env (txt_url domain token digest) s = (r1, s1)" by fastforce
  obtain r2 s2 where b: "?body s1 = (r2, s2)" by fastforce
  show "settled env d domain token (fst (with_txt_record env domain token digest ?body s))
      (events (snd (with_txt_record env domain token digest ?body s)))"
  proof (cases r1)
    case (Inl e)
    have e: "events s1 = events s @ [WebGet (txt_url domain token digest)]" "reply env (events s1) = ClientFault e"
      using duckdns_Inl set Inl by blast+
    have "with_txt_record env domain token digest ?body s = (Inl e, s1)"
      using set Inl by (simp add: with_txt_record_def set_duckdns_txt_record_def)
    moreover have "settled env d domain token (Inl e) (events s1)"
      unfolding settled_def using e by (intro disjI2 disjI1) auto
    ultimately show ?thesis by simp
  next
    case (Inr x)
    then have "fst (with_txt_record env domain token digest ?body s) = r2"
      "events (snd (with_txt_record env domain token digest ?body s)) = events s2 @ [WebGet (clear_url domain token)]"
      using set b by (simp_all add: with_txt_record_def set_duckdns_txt_record_def clear_duckdns_txt_record_def events_duckdns)
    moreover have "\<exists>pre u q rep. events s2 = pre @ [WebPost u q] \<and> reply env (events s2) = Answer rep \<and> c = reply_content rep"
      if "r2 = Inr c" for c
      using issued_last b that by blast
    ultimately show ?thesis
      unfolding settled_def by auto
  qed
qed

lemma settles_dns01: "settles env d domain token (dns01_steps env domain token pk d p)"
  unfolding dns01_steps_def Let_def
  by (rule settles_and_then settles_if settles_throw settles_with_txt gets.keeps_directory gets.keeps_key
      gets.keeps_register gets.keeps_order gets.keeps_challenge gets.keeps_pure refl)+

lemma flow_settled:
  assumes "perform_dns01_flow env domain token pk d p s = (res, s')" "events s = []"
  obtains r where "dns01_steps env domain token pk d p s = (r, s')" "settled env d domain token r (events s')"
    "acme_success res = (\<exists>c. r = Inr c)" "\<And>c. r = Inr c \<Longrightarrow> fullchain_pem res = Some c"
proof -
  obtain r where r: "dns01_steps env domain token pk d p s = (r, s')"
    using perform_events [OF assms(1)] by blast
  have "only_gets d (events s)" using assms(2) by (simp add: only_gets_def)
  then have "settled env d domain token r (events s')"
    using settles_dns01 [of env d domain token pk p] r unfolding settles_def by (metis fst_conv snd_conv)
  moreover have "acme_success res = (\<exists>c. r = Inr c)" "\<And>c. r = Inr c \<Longrightarrow> fullchain_pem res = Some c"
    using assms(1) r by (auto simp: perform_dns01_flow_def split: sum.splits)
  ultimately show ?thesis using that r by blast
qed

text \<open>C37. The challenge record does not outlive the exchange: if a TXT record was requested, the last
  request of the exchange clears it, whatever failed in between; the one exception is an exception
  of the client in the very request that sets it.\<close>

theorem acme_record_cleared:
  assumes "perform_dns01_flow env domain token pk directory_url p s = (res, s')" "events s = []"
    and "WebGet (txt_url domain token digest) \<in> set (events s')" "directory_url \<noteq> txt_url domain token digest"
  shows "last (events s') = WebGet (clear_url domain token) \<or>
    (\<exists>dg e. last (events s') = WebGet (txt_url domain token dg) \<and> reply env (events s') = ClientFault e)"
proof -
  obtain r where "settled env directory_url domain token r (events s')"
    using flow_settled [OF assms(1,2)] by blast
  with assms(3,4) show ?thesis by (auto simp: settled_def only_gets_def)
qed

text \<open>A certificate is reported only if the server issued one: it is the content of the answer to
  the last signed request, which only the clearing of the record follows.\<close>

theorem acme_certificate_from_server:
  assumes "perform_dns01_flow env domain token pk directory_url p s = (res, s')" "events s = []" "acme_success res"
  shows "\<exists>pre u q rep. events s' = pre @ [WebPost u q, WebGet (clear_url domain token)] \<and>
    reply env (pre @ [WebPost u q]) = Answer rep \<and> fullchain_pem res = Some (reply_content rep)"
proof -
  obtain r c where st: "settled env directory_url domain token r (events s')" and c: "r = Inr c" "fullchain_pem res = Some c"
    using flow_settled [OF assms(1,2)] assms(3) by metis
  from st c(1) obtain pre u q rep where "events s' = (pre @ [WebPost u q]) @ [WebGet (clear_url domain token)]"
    "reply env (pre @ [WebPost u q]) = Answer rep" "c = reply_content rep"
    unfolding settled_def by auto
  with c(2) show ?thesis by auto
qed

subsection \<open>Reading signed requests and addresses\<close>

text \<open>What the server does with a part of a signed request.\<close>

definition decode_part :: "string \<Rightarrow> json option" where
  "decode_part p =
     (case urlsafe_b64decode (restore_pad p) of
        None \<Rightarrow> None
      | Some raw \<Rightarrow> (case utf8_decode raw of None \<Rightarrow> None | Some t \<Rightarrow> loads t))"

lemma decode_part_dumps:
  assumes "separators isep ksep" "json_plain j"
  shows "decode_part (b64url (utf8_encode (dumps fr isep ksep j))) = Some j"
  using b64_token_part [of "utf8_encode (dumps fr isep ksep j)"] loads_dumps [OF assms]
  by (simp add: decode_part_def b64url_def utf8_decode_encode)

lemma default_separators: "separators '', '' '': ''"
  by (simp add: separators_def is_ws_def)

lemma jws_header_plain: "json_plain (jws_header key url nonce kid)"
  by (simp add: jws_header_def jwk_dict_def split: option.split list.split)

text \<open>A signed request says what it was made from: its protected part decodes to the header with
  the address, the nonce and the account or, before there is an account, the public key; its payload
  decodes to the payload; and the signature is that of the two parts as they are sent.\<close>

theorem signed_request_reads:
  assumes "json_plain j"
  shows "decode_part (protected (sign_jws env key url nonce (Some j) kid)) = Some (jws_header key url nonce kid) \<and>
    decode_part (payload (sign_jws env key url nonce (Some j) kid)) = Some j \<and>
    signature (sign_jws env key url nonce (Some j) kid) =
      b64url (rsa_sign key (protected (sign_jws env key url nonce (Some j) kid) @ ''.'' @
        payload (sign_jws env key url nonce (Some j) kid)))"
  using decode_part_dumps [OF default_separators jws_header_plain] decode_part_dumps [OF default_separators assms]
  by (simp add: sign_jws_def Let_def)

theorem signed_request_reads_witness:
  "decode_part (payload (sign_jws env key url nonce (Some (JObj [])) kid)) = Some (JObj [])"
  using signed_request_reads [of "JObj []" env key url nonce kid] by simp

lemma cut_at_append: "c \<notin> set a \<Longrightarrow> cut_at c (a @ b) = a @ cut_at c b"
  by (simp add: cut_at_def takeWhile_append)

text \<open>A domain in any of the forms an operator may enter gives the same subdomain.\<close>

lemma startswith_before:
  "startswith (a @ c # t) p \<Longrightarrow> c \<notin> set p \<Longrightarrow> set p \<subseteq> set a"
proof (induction a arbitrary: p)
  case (Cons x a)
  then show ?case by (cases p) auto
next
  case Nil
  then show ?case by (cases p) auto
qed

lemma lower_id: "list_all (\<lambda>c. lower_char c = c) s \<Longrightarrow> lower s = s"
  by (induction s) (simp_all add: lower_def)

definition label_char :: "char \<Rightarrow> bool" where
  "label_char c \<longleftrightarrow> (97 \<le> ord c \<and> ord c \<le> 122) \<or> is_digit c \<or> c = CHR ''-''"

lemma label_class: "label_char c \<Longrightarrow> lower_char c = c \<and> \<not> is_space c \<and> c \<noteq> CHR '':'' \<and> c \<noteq> CHR ''/''"
  by (auto simp: label_char_def is_digit_def lower_char_def is_space_def ord_def)

lemma subdomain_of_address:
  assumes "list_all label_char name" "name \<noteq> []" "scheme \<in> {[], ''https://'', ''http://''}"
    and "rest = [] \<or> hd rest \<in> {CHR '':'', CHR ''/''} \<and> \<not> is_space (last rest)"
  shows "extract_subdomain (scheme @ name @ ''.duckdns.org'' @ rest) = name"
proof -
  let ?host = "name @ ''.duckdns.org''" and ?s = "scheme @ name @ ''.duckdns.org'' @ rest"
  have label: "\<forall>c \<in> set name. lower_char c = c \<and> \<not> is_space c \<and> c \<noteq> CHR '':'' \<and> c \<noteq> CHR ''/''"
    using assms(1) label_class by (auto simp: list_all_iff)
  have org: "\<not> is_space (CHR ''h'')" "\<not> is_space (CHR ''g'')" "lower ''.duckdns.org'' = ''.duckdns.org''"
    "lower ''https://'' = ''https://''" "lower ''http://'' = ''http://''" "lower_char (CHR '':'') = CHR '':''"
    "lower_char (CHR ''/'') = CHR ''/''"
    by (simp_all add: is_space_def lower_def lower_char_def ord_def)
  have "\<not> is_space (hd name)" using label assms(2) by (cases name) auto
  then have "\<not> is_space (hd ?s)" using assms(2,3) org(1) by (auto simp: hd_append)
  moreover have "\<not> is_space (last ?s)" using assms(4) org(2) by (cases "rest = []") auto
  ultimately have "strip ?s = ?s" by (intro strip_id) simp
  moreover have "lower name = name" using label by (intro lower_id) (simp add: list_all_iff)
  moreover have "lower scheme = scheme" using assms(3) org by (auto simp: lower_def)
  ultimately have low: "lower (strip ?s) = scheme @ ?host @ lower rest"
    using org by (simp add: lower_def)
  have "\<not> startswith (name @ CHR ''.'' # t) p" if "CHR '':'' \<in> set p" "CHR ''.'' \<notin> set p" for t p
    using startswith_before [of name "CHR ''.''" t p] that label by auto
  then have none: "removeprefix (?host @ t) ''https://'' = ?host @ t" "removeprefix (?host @ t) ''http://'' = ?host @ t" for t
    by (simp_all add: removeprefix_def)
  have pre: "removeprefix (removeprefix (scheme @ ?host @ t) ''https://'') ''http://'' = ?host @ t" for t
    using assms(3) none [simplified] by (auto simp: removeprefix_def [of "CHR ''h'' # _"])
  have "clean_domain_name ?s = cut_at (CHR '':'') (cut_at (CHR ''/'') (?host @ lower rest))"
    by (simp only: clean_domain_name_def low Let_def pre)
  also have "\<dots> = ?host"
  proof (cases rest)
    case (Cons c r)
    then show ?thesis
      using assms(4) label org by (auto simp: cut_at_def takeWhile_append lower_def)
  qed (use label in \<open>auto simp: cut_at_def takeWhile_append lower_def\<close>)
  finally show ?thesis by (simp add: extract_subdomain_def removesuffix_def endswith_def)
qed

subsection \<open>An exchange\<close>

definition demo_reply :: web_reply where
  "demo_reply = \<lparr>reply_status = 200,
     reply_header = (\<lambda>h. if h = ''Replay-Nonce'' then Some ''N'' else if h = ''Location'' then Some ''L'' else None),
     reply_json = Some (JObj [(''newNonce'', JStr ''H''), (''newAccount'', JStr ''A''), (''newOrder'', JStr ''O''),
       (''authorizations'', JArr [JStr ''Z'']), (''finalize'', JStr ''F''), (''status'', JStr ''valid''),
       (''challenges'', JArr [JObj [(''type'', JStr ''dns-01''), (''token'', JStr ''t''), (''url'', JStr ''C'')]]),
       (''certificate'', JStr ''U'')]),
     reply_text = ''OK'', reply_content = ''PEM''\<rparr>"

definition demo_key :: rsa_key where
  "demo_key = \<lparr>key_e = 3, key_n = 33, rsa_sign = (\<lambda>s. s), key_pem = ''K''\<rparr>"

definition demo_acme :: acme_env where
  "demo_acme = \<lparr>reply = (\<lambda>_. Answer demo_reply), sha256_digest = (\<lambda>s. ''d''), load_key = (\<lambda>_. Inr (Some demo_key)),
     new_key = demo_key, key_dir_fails = False, key_read_fails = False, key_io = demo_io, show_json = (\<lambda>_. []),
     show_float = (\<lambda>_. []), show_error = (\<lambda>_. []), csr_der = (\<lambda>_ _. ''csr'')\<rparr>"

definition demo_acme_state :: acme_state where
  "demo_acme_state = \<lparr>events = [], key_store = demo_world\<rparr>"

lemma demo_send:
  "send demo_acme ev s = (Inr demo_reply, s\<lparr>events := events s @ [ev]\<rparr>)"
  by (simp add: send_def and_then_def record_event_def demo_acme_def) (simp add: demo_reply_def)

lemma demo_post:
  "post_signed demo_acme key (JStr h) (JStr u) body kid s =
     (Inr demo_reply, s\<lparr>events := events s @ [WebHead h, WebPost u (sign_jws demo_acme key u ''N'' body kid)]\<rparr>)"
proof -
  have "reply_header demo_reply ''Replay-Nonce'' = Some ''N''" by (simp add: demo_reply_def)
  then show ?thesis
    by (simp add: post_signed_def get_nonce_def address_def and_then_def demo_send return_def)
qed

definition demo_body :: "(string, json) dict" where
  "demo_body = (case reply_json demo_reply of Some (JObj d) \<Rightarrow> d | _ \<Rightarrow> [])"

lemma demo_json:
  "body_dict demo_reply s = (Inr demo_body, s)" "json_dict demo_reply = Inr demo_body" "location demo_reply s = (Inr ''L'', s)"
  by (simp_all add: body_dict_def lift_def body_object_def json_dict_def location_def return_def demo_reply_def demo_body_def)

lemma demo_fields:
  "json_get demo_body ''newNonce'' x = JStr ''H''" "json_get demo_body ''newAccount'' x = JStr ''A''"
  "json_get demo_body ''newOrder'' x = JStr ''O''" "json_get demo_body ''authorizations'' x = JArr [JStr ''Z'']"
  "json_get demo_body ''finalize'' x = JStr ''F''" "json_get demo_body ''status'' x = JStr ''valid''"
  "json_get demo_body ''certificate'' x = JStr ''U''"
  "json_get demo_body ''challenges'' x = JArr [JObj [(''type'', JStr ''dns-01''), (''token'', JStr ''t''), (''url'', JStr ''C'')]]"
  by (simp_all add: demo_body_def demo_reply_def json_get_def)

lemma demo_digest: "\<exists>g. compute_key_authorization_digest demo_acme ''t'' demo_key = Inr g"
proof -
  have "is_ascii (''t.'' @ b64url x)" for x
    using is_ascii_b64 [of x] by (simp add: b64url_def is_ascii_def ord_def)
  then show ?thesis by (simp add: compute_key_authorization_digest_def jwk_thumbprint_def)
qed

lemma demo_poll_loop:
  "poll_loop (Suc k) demo_acme acct key (JStr u) (JStr ''H'') s =
     (Inr demo_body, s\<lparr>events := events s @ [WebHead ''H'', WebPost u (sign_jws demo_acme key u ''N'' None (Some acct))]\<rparr>)"
  by (simp add: and_then_def demo_post demo_json demo_fields return_def)

lemma demo_poll:
  "poll_order_status demo_acme acct key (JStr u) (JStr ''H'') s =
     (Inr demo_body, s\<lparr>events := events s @ [WebHead ''H'', WebPost u (sign_jws demo_acme key u ''N'' None (Some acct))]\<rparr>)"
  using demo_poll_loop [of 39] by (simp add: poll_order_status_def ACME_MAX_POLL_ATTEMPTS_def del: poll_loop.simps)

definition demo_run :: "ACMECertificateResult \<times> acme_state" where
  "demo_run = perform_dns01_flow demo_acme ''x'' ''k'' demo_key ''D'' demo_target demo_acme_state"

lemma demo_challenge_fields:
  "json_get [(''type'', JStr ''dns-01''), (''token'', JStr ''t''), (''url'', JStr ''C'')] ''type'' x = JStr ''dns-01''"
  "json_get [(''type'', JStr ''dns-01''), (''token'', JStr ''t''), (''url'', JStr ''C'')] ''token'' x = JStr ''t''"
  "json_get [(''type'', JStr ''dns-01''), (''token'', JStr ''t''), (''url'', JStr ''C'')] ''url'' x = JStr ''C''"
  by (simp_all add: json_get_def)

lemma demo_run_result:
  "acme_success (fst demo_run) \<and> (\<exists>q g rest. events (snd demo_run) = [WebGet ''D'', WebHead ''H''] @ WebPost ''A'' q # rest \<and>
     WebGet (txt_url ''x'' ''k'' g) \<in> set rest)"
proof -
  obtain g where g: "compute_key_authorization_digest demo_acme ''t'' demo_key = Inr g" using demo_digest by blast
  have key: "create_or_load_account_key demo_acme demo_target s = (Inr demo_key, s)" if "key_store s = demo_world" for s
    using that by (simp add: create_or_load_account_key_def demo_acme_def file_at_def demo_world_def)
  have upd: "duckdns_update demo_acme u s = (Inr True, s\<lparr>events := events s @ [WebGet u]\<rparr>)" for u s
    by (simp add: duckdns_update_def demo_send) (simp add: demo_reply_def)
  have issue: "\<exists>evs. prove_and_issue demo_acme ''x'' acct key pk \<lparr>order_url = ''L'', authorization_urls = a, finalize_url = JStr ''F''\<rparr>
      \<lparr>challenge_url = JStr ''C'', challenge_token = t, key_authorization_digest = dg\<rparr> (JStr ''H'') s =
    (Inr (reply_content demo_reply), s\<lparr>events := events s @ evs\<rparr>)" for acct key pk a t dg s
    by (simp add: prove_and_issue_def and_then_def record_event_def respond_to_challenge_def demo_post return_def demo_poll
        demo_fields finalize_order_def demo_json download_certificate_def, rule exI, rule refl)
  define s1 where "s1 = demo_acme_state\<lparr>events := [WebGet ''D'']\<rparr>"
  have dir: "get_acme_directory demo_acme ''D'' demo_acme_state = (Inr demo_body, s1)" "key_store s1 = demo_world"
    by (simp_all add: get_acme_directory_def and_then_def demo_send demo_json lift_def s1_def demo_acme_state_def)
  obtain q where reg: "register_account demo_acme demo_key (JStr ''A'') (JStr ''H'') s1 =
      (Inr ''L'', s1\<lparr>events := [WebGet ''D'', WebHead ''H'', WebPost ''A'' q]\<rparr>)"
    by (simp add: register_account_def and_then_def demo_post demo_json s1_def demo_acme_state_def)
  have ord: "\<exists>evs. create_order demo_acme ''L'' demo_key ''x'' (JStr ''O'') (JStr ''H'') s =
      (Inr \<lparr>order_url = ''L'', authorization_urls = JArr [JStr ''Z''], finalize_url = JStr ''F''\<rparr>, s\<lparr>events := events s @ evs\<rparr>)" for s
    by (simp add: create_order_def and_then_def demo_post demo_json demo_fields return_def, rule exI, rule refl)
  have chl: "\<exists>evs. get_dns01_challenge demo_acme ''L'' demo_key (JStr ''Z'') (JStr ''H'') s =
      (Inr \<lparr>challenge_url = JStr ''C'', challenge_token = JStr ''t'', key_authorization_digest = g\<rparr>, s\<lparr>events := events s @ evs\<rparr>)" for s
    by (simp add: get_dns01_challenge_def and_then_def demo_post demo_json demo_fields lift_def demo_challenge_fields g, rule exI, rule refl)
  define s2 where "s2 = s1\<lparr>events := [WebGet ''D'', WebHead ''H'', WebPost ''A'' q]\<rparr>"
  obtain e1 where o: "create_order demo_acme ''L'' demo_key ''x'' (JStr ''O'') (JStr ''H'') s2 =
      (Inr \<lparr>order_url = ''L'', authorization_urls = JArr [JStr ''Z''], finalize_url = JStr ''F''\<rparr>, s2\<lparr>events := events s2 @ e1\<rparr>)"
    using ord by blast
  define s3 where "s3 = s2\<lparr>events := events s2 @ e1\<rparr>"
  obtain e2 where c: "get_dns01_challenge demo_acme ''L'' demo_key (JStr ''Z'') (JStr ''H'') s3 =
      (Inr \<lparr>challenge_url = JStr ''C'', challenge_token = JStr ''t'', key_authorization_digest = g\<rparr>, s3\<lparr>events := events s3 @ e2\<rparr>)"
    using chl by blast
  define s5 where "s5 = s3\<lparr>events := events s3 @ e2 @ [WebGet (txt_url ''x'' ''k'' g)]\<rparr>"
  obtain e3 where i: "prove_and_issue demo_acme ''x'' ''L'' demo_key demo_key
      \<lparr>order_url = ''L'', authorization_urls = JArr [JStr ''Z''], finalize_url = JStr ''F''\<rparr>
      \<lparr>challenge_url = JStr ''C'', challenge_token = JStr ''t'', key_authorization_digest = g\<rparr> (JStr ''H'') s5 =
    (Inr (reply_content demo_reply), s5\<lparr>events := events s5 @ e3\<rparr>)"
    using issue by blast
  have set: "set_duckdns_txt_record demo_acme ''x'' ''k'' g (s3\<lparr>events := events s3 @ e2\<rparr>) = (Inr True, s5)"
    by (simp add: set_duckdns_txt_record_def upd s5_def)
  have "dns01_steps demo_acme ''x'' ''k'' demo_key ''D'' demo_target demo_acme_state =
    (Inr (reply_content demo_reply), s5\<lparr>events := events s5 @ e3 @ [WebGet (clear_url ''x'' ''k'')]\<rparr>)"
    unfolding dns01_steps_def Let_def
    by (simp add: and_then_def dir demo_fields key reg [folded s2_def] o [folded s3_def] lift_def c with_txt_record_def set i
        clear_duckdns_txt_record_def upd)
  then show ?thesis
    by (simp add: demo_run_def perform_dns01_flow_def s5_def s3_def s2_def) (metis Un_iff list.set_intros(1))
qed


lemma demo_run_pair:
  "perform_dns01_flow demo_acme ''x'' ''k'' demo_key ''D'' demo_target demo_acme_state = (fst demo_run, snd demo_run)"
  "events demo_acme_state = []"
  by (simp_all add: demo_run_def demo_acme_state_def)

theorem acme_nonces_fresh_witness:
  "\<exists>q key body kid. WebPost ''A'' q \<in> set (events (snd demo_run)) \<and> q = sign_jws demo_acme key ''A'' ''N'' body kid"
proof -
  obtain q rest where e: "events (snd demo_run) = [WebGet ''D'', WebHead ''H''] @ WebPost ''A'' q # rest"
    using demo_run_result by blast
  from acme_nonces_fresh [OF demo_run_pair e] obtain key body kid where "q = sign_jws demo_acme key ''A'' ''N'' body kid"
    by (auto simp: demo_acme_def demo_reply_def)
  with e show ?thesis by auto
qed

theorem acme_record_cleared_witness: "last (events (snd demo_run)) = WebGet (clear_url ''x'' ''k'')"
proof -
  obtain g where g: "WebGet (txt_url ''x'' ''k'' g) \<in> set (events (snd demo_run))"
    using demo_run_result by force
  have "''D'' \<noteq> txt_url ''x'' ''k'' g" by (simp add: duckdns_url_def)
  from acme_record_cleared [OF demo_run_pair g this] show ?thesis by (simp add: demo_acme_def)
qed

theorem acme_certificate_from_server_witness: "fullchain_pem (fst demo_run) = Some ''PEM''"
proof -
  have "acme_success (fst demo_run)" using demo_run_result by blast
  from acme_certificate_from_server [OF demo_run_pair this] show ?thesis
    by (auto simp: demo_acme_def demo_reply_def)
qed

end
