(* ===== verification/Tls_Manager.thy ===== *)
theory Tls_Manager
  imports Acme_Client Operations_Api
begin

section \<open>Certificates of the portal\<close>

text \<open>
  \<^verbatim>\<open>app/engine/tls_manager.py\<close>, \<^verbatim>\<open>app/engine/tls_scheduler.py\<close>, the certificate handlers
  of \<^verbatim>\<open>app/routers/system.py\<close> and the part of \<^verbatim>\<open>app/core/config.py\<close> they read: the state of the
  staged certificate, its provision through ACME with the self-signed fallback, the renewal
  scheduler turn by turn, the settings singleton, and the discovery of a usable key pair. Parsing
  and signing certificates belong to the cryptography library and are parameters; times are
  microseconds as in \<^verbatim>\<open>Py_Datetime\<close>.
\<close>

subsection \<open>Settings and state\<close>

record tls_settings =
  ssl_cert_mode :: string
  ssl_auto_renew :: bool
  ssl_auto_detect :: bool
  ssl_cert_path :: "path option"
  ssl_key_path :: "path option"
  ssl_cert_dir :: "string option"
  duckdns_domain :: string
  duckdns_token :: string
  web_port :: nat

record certificate =
  issuer_cn :: "string option"
  subject_cn :: "string option"
  cert_sans :: "string list"
  valid_from :: nat
  valid_until :: nat

text \<open>The settings object that the routers imported, and the singleton of \<open>get_settings\<close>: the same
  object until a reload replaces it.\<close>

record tls_state =
  exchange :: acme_state
  restarts :: nat
  imported_settings :: tls_settings
  singleton :: "tls_settings option"
  operations :: ops_state

record tls_env =
  load_cert :: "string \<Rightarrow> certificate result"
  sign_cert :: "certificate \<Rightarrow> rsa_key \<Rightarrow> string result"
  acme :: acme_env
  fresh_key :: rsa_key
  tls_now :: nat
  cert_io :: "path \<Rightarrow> io_env"
  stage_mkdir_fails :: bool
  cert_read_fails :: bool
  chain_loads :: "string \<Rightarrow> string \<Rightarrow> bool"
  user_dir :: string
  reloaded :: tls_settings
  on_posix_host :: bool
  restart_fault :: "py_error option"
  requests :: ops_env

text \<open>\<open>get_settings\<close> and \<open>reload_settings\<close>\<close>

definition get_settings :: "tls_state \<Rightarrow> tls_settings" where
  "get_settings s = (case singleton s of None \<Rightarrow> imported_settings s | Some x \<Rightarrow> x)"

definition reload_settings :: "tls_env \<Rightarrow> tls_state \<Rightarrow> tls_state" where
  "reload_settings env s = s\<lparr>singleton := Some (reloaded env)\<rparr>"

subsection \<open>The staged certificate\<close>

definition DEFAULT_CERT_DIR :: string where
  "DEFAULT_CERT_DIR = ''/var/lib/palmanager/certs''"

text \<open>The settings have no attribute \<open>cert_dir\<close>, so without an argument the directory is always the
  default one.\<close>

definition cert_dir_of :: "string option \<Rightarrow> string" where
  "cert_dir_of custom_dir = (case custom_dir of None \<Rightarrow> DEFAULT_CERT_DIR | Some d \<Rightarrow> d)"

definition fullchain_of :: "string \<Rightarrow> path" where
  "fullchain_of d = (d, ''fullchain.pem'')"

definition privkey_of :: "string \<Rightarrow> path" where
  "privkey_of d = (d, ''privkey.pem'')"

definition stage_tls_bundle :: "tls_env \<Rightarrow> string \<Rightarrow> string \<Rightarrow> string option \<Rightarrow> world \<Rightarrow> (path \<times> path) result \<times> world" where
  "stage_tls_bundle env cert key custom_dir w =
     (let d = cert_dir_of custom_dir
      in if stage_mkdir_fails env then (Inl OSError, w)
         else
           (case atomic_write_file (cert_io env (fullchain_of d)) (fullchain_of d) cert 5 False (Some 420) True w of
              (Inl e, w1) \<Rightarrow> (Inl e, w1)
            | (Inr _, w1) \<Rightarrow>
                (case atomic_write_file (cert_io env (privkey_of d)) (privkey_of d) key 5 False (Some 384) True w1 of
                   (Inl e, w2) \<Rightarrow> (Inl e, w2)
                 | (Inr _, w2) \<Rightarrow> (Inr (fullchain_of d, privkey_of d), w2))))"

record TLSCertificateStatus =
  is_valid :: bool
  tls_domain :: string
  tls_issuer :: string
  subject_alt_names :: "string list"
  not_before :: "nat option"
  not_after :: "nat option"
  days_remaining :: int
  is_self_signed :: bool
  tls_error :: "string option"
  status_dir :: string

definition unusable :: "string option \<Rightarrow> string \<Rightarrow> string \<Rightarrow> TLSCertificateStatus" where
  "unusable domain d message =
     \<lparr>is_valid = False, tls_domain = (case domain of Some (c # cs) \<Rightarrow> c # cs | _ \<Rightarrow> ''unknown''), tls_issuer = ''unknown'',
      subject_alt_names = [], not_before = None, not_after = None, days_remaining = 0, is_self_signed = False,
      tls_error = Some message, status_dir = d\<rparr>"

definition day :: nat where
  "day = 86400 * 1000000"

definition days_left :: "nat \<Rightarrow> nat \<Rightarrow> int" where
  "days_left expiry t = max 0 ((int expiry - int t) div int day)"

definition name_or_unknown :: "string option \<Rightarrow> string" where
  "name_or_unknown n = (case n of None \<Rightarrow> ''unknown'' | Some s \<Rightarrow> s)"

definition status_of_cert :: "certificate \<Rightarrow> nat \<Rightarrow> string option \<Rightarrow> string \<Rightarrow> TLSCertificateStatus" where
  "status_of_cert c t domain d =
     (let left = days_left (valid_until c) t; ok = (0 < left \<and> valid_from c \<le> t)
      in \<lparr>is_valid = ok,
          tls_domain = (case domain of Some (x # xs) \<Rightarrow> x # xs | _ \<Rightarrow> name_or_unknown (subject_cn c)),
          tls_issuer = name_or_unknown (issuer_cn c), subject_alt_names = cert_sans c,
          not_before = Some (valid_from c), not_after = Some (valid_until c), days_remaining = left,
          is_self_signed = (name_or_unknown (issuer_cn c) = name_or_unknown (subject_cn c)),
          tls_error = (if ok then None else Some ''Certificate expired or not yet valid''), status_dir = d\<rparr>)"

definition get_tls_certificate_status :: "tls_env \<Rightarrow> string option \<Rightarrow> string option \<Rightarrow> world \<Rightarrow> TLSCertificateStatus result" where
  "get_tls_certificate_status env custom_dir domain w =
     (let d = cert_dir_of custom_dir
      in case file_at w (fullchain_of d) of
           None \<Rightarrow> Inr (unusable domain d ''Certificate files missing'')
         | Some f \<Rightarrow>
             if file_at w (privkey_of d) = None then Inr (unusable domain d ''Certificate files missing'')
             else if cert_read_fails env then Inl OSError
             else (case load_cert env (f_data f) of
                     Inl e \<Rightarrow> if is_value_error e
                               then Inr (unusable domain d (''Failed to load certificate: '' @ show_error (acme env) e))
                               else Inl e
                   | Inr c \<Rightarrow> Inr (status_of_cert c (tls_now env) domain d)))"

subsection \<open>Provision\<close>

datatype TLSProvisionMode = ACME_LETSENCRYPT | SELF_SIGNED_FALLBACK | EXISTING_VALID

record TLSProvisionResult =
  provisioned :: bool
  provision_mode :: TLSProvisionMode
  provision_domain :: string
  provision_days :: int
  provision_message :: string
  provision_error :: "string option"

definition RENEWAL_THRESHOLD_DAYS :: int where
  "RENEWAL_THRESHOLD_DAYS = 30"

definition generate_self_signed_certificate :: "tls_env \<Rightarrow> rsa_key \<Rightarrow> string \<Rightarrow> nat \<Rightarrow> string result" where
  "generate_self_signed_certificate env key domain days_valid =
     sign_cert env \<lparr>issuer_cn = Some domain, subject_cn = Some domain, cert_sans = [domain],
       valid_from = tls_now env, valid_until = tls_now env + days_valid * day\<rparr> key"

definition outcome :: "TLSProvisionMode \<Rightarrow> string \<Rightarrow> int \<Rightarrow> string \<Rightarrow> TLSProvisionResult" where
  "outcome m domain days message =
     \<lparr>provisioned = True, provision_mode = m, provision_domain = domain, provision_days = days,
      provision_message = message, provision_error = None\<rparr>"

text \<open>The first tier, inside its broad handler: whether a certificate was obtained and staged.\<close>

definition acme_tier :: "tls_env \<Rightarrow> string \<Rightarrow> string \<Rightarrow> string option \<Rightarrow> acme_state \<Rightarrow> bool \<times> acme_state" where
  "acme_tier env domain token custom_dir s =
     (case perform_dns01_flow (acme env) domain token (fresh_key env) ''https://acme-v02.api.letsencrypt.org/directory''
             (''/var/lib/palmanager/acme'', ''account.key'') s of
        (res, s1) \<Rightarrow>
          (case fullchain_pem res of
             Some (c # cs) \<Rightarrow>
               if acme_success res then
                 (case stage_tls_bundle env (c # cs) (key_pem (fresh_key env)) custom_dir (key_store s1) of
                    (Inl e, w) \<Rightarrow> (False, s1\<lparr>key_store := w\<rparr>)
                  | (Inr _, w) \<Rightarrow> (True, s1\<lparr>key_store := w\<rparr>))
               else (False, s1)
           | _ \<Rightarrow> (False, s1)))"

definition self_signed_tier :: "tls_env \<Rightarrow> string \<Rightarrow> string option \<Rightarrow> acme_state \<Rightarrow> TLSProvisionResult result \<times> acme_state" where
  "self_signed_tier env domain custom_dir s =
     (case generate_self_signed_certificate env (fresh_key env) domain 365 of
        Inl e \<Rightarrow> (Inl e, s)
      | Inr cert_pem \<Rightarrow>
          (case stage_tls_bundle env cert_pem (key_pem (fresh_key env)) custom_dir (key_store s) of
             (Inl e, w) \<Rightarrow> (Inl e, s\<lparr>key_store := w\<rparr>)
           | (Inr _, w) \<Rightarrow>
               (Inr (outcome SELF_SIGNED_FALLBACK domain 365 ''Provisioned self-signed fallback certificate.''),
                s\<lparr>key_store := w\<rparr>)))"

definition provision_tls_certificates ::
  "tls_env \<Rightarrow> string \<Rightarrow> string \<Rightarrow> bool \<Rightarrow> string option \<Rightarrow> acme_state \<Rightarrow> TLSProvisionResult result \<times> acme_state" where
  "provision_tls_certificates env domain token force custom_dir s =
     (case get_tls_certificate_status env custom_dir (Some domain) (key_store s) of
        Inl e \<Rightarrow> (Inl e, s)
      | Inr st \<Rightarrow>
          if \<not> force \<and> is_valid st \<and> RENEWAL_THRESHOLD_DAYS < days_remaining st
          then (Inr (outcome EXISTING_VALID domain (days_remaining st) ''Existing certificate is valid and not near expiry.''), s)
          else if strip token \<noteq> [] then
            (case acme_tier env domain token custom_dir s of
               (True, s1) \<Rightarrow>
                 (Inr (outcome ACME_LETSENCRYPT domain 90 ''Provisioned Let's Encrypt certificate via ACME DNS-01.''), s1)
             | (False, s1) \<Rightarrow> self_signed_tier env domain custom_dir s1)
          else self_signed_tier env domain custom_dir s)"

text \<open>Provision as an action of the portal.\<close>

definition provision :: "tls_env \<Rightarrow> string \<Rightarrow> string \<Rightarrow> bool \<Rightarrow> tls_state \<Rightarrow> TLSProvisionResult result \<times> tls_state" where
  "provision env domain token force s =
     (case provision_tls_certificates env domain token force None (exchange s) of (r, x) \<Rightarrow> (r, s\<lparr>exchange := x\<rparr>))"

definition dispatch_manager_service_restart :: "tls_env \<Rightarrow> tls_state \<Rightarrow> tls_state" where
  "dispatch_manager_service_restart env s =
     (if on_posix_host env \<and> restart_fault env = None then s\<lparr>restarts := Suc (restarts s)\<rparr> else s)"

subsection \<open>The renewal scheduler\<close>

definition or_localhost :: "string \<Rightarrow> string" where
  "or_localhost d = (if d = [] then ''localhost'' else d)"

text \<open>One turn of the loop: how long it sleeps, in seconds.\<close>

definition scheduler_turn :: "tls_env \<Rightarrow> tls_state \<Rightarrow> int \<times> tls_state" where
  "scheduler_turn env s =
     (let cfg = get_settings s; domain = or_localhost (duckdns_domain cfg)
      in if ssl_cert_mode cfg = ''custom'' then (86400, s)
         else if \<not> ssl_auto_renew cfg then (3600, s)
         else
           (case get_tls_certificate_status env None (Some domain) (key_store (exchange s)) of
              Inl e \<Rightarrow> (3600, s)
            | Inr st \<Rightarrow>
                if is_valid st \<and> 30 < days_remaining st
                then (min (max ((days_remaining st - 30) * 86400) 3600) 86400, s)
                else
                  (case provision env domain (if ssl_cert_mode cfg = ''letsencrypt'' then duckdns_token cfg else []) False s of
                     (Inl e, s1) \<Rightarrow> (3600, s1)
                   | (Inr r, s1) \<Rightarrow>
                       if provisioned r then (86400, dispatch_manager_service_restart env s1)
                       else (21600, s1))))"

definition trigger_duckdns_sync :: "tls_env \<Rightarrow> tls_state \<Rightarrow> bool option result \<times> tls_state" where
  "trigger_duckdns_sync env s =
     (let cfg = get_settings s
      in if duckdns_domain cfg = [] \<or> duckdns_token cfg = [] then (Inr None, s)
         else (case sync_duckdns_ip (acme env) (duckdns_domain cfg) (duckdns_token cfg) [] (exchange s) of
                 (Inl e, x) \<Rightarrow> (Inl e, s\<lparr>exchange := x\<rparr>)
               | (Inr b, x) \<Rightarrow> (Inr (Some b), s\<lparr>exchange := x\<rparr>)))"

subsection \<open>Discovery of a key pair\<close>

definition ssl_candidates :: "tls_env \<Rightarrow> tls_settings \<Rightarrow> (path \<times> path) list" where
  "ssl_candidates env cfg =
     (case (ssl_cert_path cfg, ssl_key_path cfg) of (Some c, Some k) \<Rightarrow> [(c, k)] | _ \<Rightarrow> []) @
     (case ssl_cert_dir cfg of
        None \<Rightarrow> []
      | Some d \<Rightarrow> [((d, ''tls.crt''), (d, ''tls.key'')), ((d, ''fullchain.pem''), (d, ''privkey.pem'')),
                    ((d, ''cert.pem''), (d, ''key.pem'')), ((d, ''server.crt''), (d, ''server.key''))]) @
     (if ssl_auto_detect cfg then
        [(fullchain_of DEFAULT_CERT_DIR, privkey_of DEFAULT_CERT_DIR)] @
        (if duckdns_domain cfg \<noteq> []
         then (let live = ''/etc/letsencrypt/live/'' @ lower (strip (duckdns_domain cfg))
               in [(fullchain_of live, privkey_of live)]) else []) @
        [(fullchain_of (user_dir env @ ''/.palmanager/certs''), privkey_of (user_dir env @ ''/.palmanager/certs''))]
      else [])"

definition usable_pair :: "tls_env \<Rightarrow> world \<Rightarrow> path \<times> path \<Rightarrow> bool" where
  "usable_pair env w ck =
     (case (file_at w (fst ck), file_at w (snd ck)) of
        (Some c, Some k) \<Rightarrow> chain_loads env (f_data c) (f_data k)
      | _ \<Rightarrow> False)"

definition resolve_ssl_paths :: "tls_env \<Rightarrow> tls_settings \<Rightarrow> world \<Rightarrow> (path \<times> path) option" where
  "resolve_ssl_paths env cfg w = find (usable_pair env w) (ssl_candidates env cfg)"

definition trigger_tls_provisioning_check :: "tls_env \<Rightarrow> tls_state \<Rightarrow> unit result \<times> tls_state" where
  "trigger_tls_provisioning_check env s =
     (let cfg = get_settings s; raw_domain = lower (strip (duckdns_domain cfg))
      in if resolve_ssl_paths env cfg (key_store (exchange s)) \<noteq> None then (Inr (), s)
         else if raw_domain \<in> {[], ''localhost'', ''yourdomain.duckdns.org''} then (Inr (), s)
         else (case provision env (duckdns_domain cfg) (duckdns_token cfg) False s of
                 (Inl e, s1) \<Rightarrow> (Inl e, s1)
               | (Inr r, s1) \<Rightarrow> (Inr (), if provisioned r then dispatch_manager_service_restart env s1 else s1)))"

subsection \<open>The handlers\<close>

definition resolve_canonical_url :: "tls_settings \<Rightarrow> string" where
  "resolve_canonical_url cfg =
     (let d = lower (strip (duckdns_domain cfg));
          domain = (if d \<in> {[], ''localhost'', ''yourdomain.duckdns.org''} then ''thestygianarchitect.duckdns.org'' else d)
      in ''https://'' @ domain @ '':'' @ nat_str (web_port cfg))"

text \<open>The handlers run only for an administrator.\<close>

definition as_admin :: "tls_env \<Rightarrow> http_request \<Rightarrow> (tls_state \<Rightarrow> 'a result \<times> tls_state) \<Rightarrow> tls_state \<Rightarrow> 'a result \<times> tls_state" where
  "as_admin env req body s =
     (case needs_admin (requests env) req (operations s) of Inl e \<Rightarrow> (Inl e, s) | Inr _ \<Rightarrow> body s)"

record TLSCertificateInfo =
  info_subject :: string
  info_issuer :: string
  info_from :: string
  info_expires :: string
  info_days :: int
  info_expired :: bool
  info_self_signed :: bool
  info_sans :: "string list"

record TLSStatusResponse =
  enabled :: bool
  url_scheme :: string
  shown_domain :: string
  shown_port :: nat
  shown_certificate :: "TLSCertificateInfo option"
  shown_path :: string
  auto_renew_active :: bool
  warning :: "string option"
  canonical_url :: string
  shown_mode :: string
  next_renewal_at :: "string option"
  renewal_countdown_seconds :: "int option"

text \<open>\<open>isoformat\<close> of a time without a zone, and the \<open>Z\<close> the handler adds.\<close>

definition naive_isoformat_z :: "nat \<Rightarrow> string" where
  "naive_isoformat_z t =
     (let us = t mod 1000000; sec = t div 1000000
      in date_text (date_of_day (sec div 86400)) @ ''T'' @ clock_text (clock_of (sec mod 86400)) @
         (if us = 0 then [] else ''.'' @ pad 6 us) @ ''Z'')"

definition certificate_info :: "TLSCertificateStatus \<Rightarrow> TLSCertificateInfo" where
  "certificate_info st =
     \<lparr>info_subject = tls_domain st, info_issuer = tls_issuer st,
      info_from = (case not_before st of None \<Rightarrow> [] | Some t \<Rightarrow> naive_isoformat_z t),
      info_expires = (case not_after st of None \<Rightarrow> [] | Some t \<Rightarrow> naive_isoformat_z t),
      info_days = days_remaining st, info_expired = (\<not> is_valid st), info_self_signed = is_self_signed st,
      info_sans = subject_alt_names st\<rparr>"

definition renewal_time :: "TLSCertificateStatus \<Rightarrow> nat option" where
  "renewal_time st = (if is_valid st then map_option (\<lambda>t. t - 30 * day) (not_after st) else None)"

definition tls_status_of :: "tls_env \<Rightarrow> tls_settings \<Rightarrow> TLSCertificateStatus \<Rightarrow> TLSStatusResponse" where
  "tls_status_of env cfg st =
     \<lparr>enabled = is_valid st,
      url_scheme = (if is_valid st then ''https'' else ''http''),
      shown_domain = or_localhost (duckdns_domain cfg), shown_port = web_port cfg,
      shown_certificate = (if is_valid st then Some (certificate_info st) else None),
      shown_path = status_dir st @ ''/fullchain.pem'',
      auto_renew_active = (ssl_auto_renew cfg \<and> ssl_cert_mode cfg \<noteq> ''custom''),
      warning =
        (if \<not> is_valid st
         then Some (case tls_error st of
                Some (c # cs) \<Rightarrow> c # cs
              | _ \<Rightarrow> ''Running unencrypted plaintext HTTP. No valid certificate detected.'')
         else if days_remaining st \<le> 15
         then Some (''Certificate expires in '' @ int_str (days_remaining st) @ '' days. Renewal recommended.'')
         else None),
      canonical_url = resolve_canonical_url cfg, shown_mode = ssl_cert_mode cfg,
      next_renewal_at = map_option isoformat (renewal_time st),
      renewal_countdown_seconds =
        map_option (\<lambda>t. if t < tls_now env then 0 else int ((t - tls_now env) div 1000000)) (renewal_time st)\<rparr>"

definition get_tls_status :: "tls_env \<Rightarrow> http_request \<Rightarrow> tls_state \<Rightarrow> TLSStatusResponse result \<times> tls_state" where
  "get_tls_status env req =
     as_admin env req (\<lambda>s.
       let cfg = imported_settings s
       in (bind_result (get_tls_certificate_status env None (Some (or_localhost (duckdns_domain cfg))) (key_store (exchange s)))
             (\<lambda>st. Inr (tls_status_of env cfg st)), s))"

record TLSSettingsUpdateRequest =
  want_auto_renew :: "bool option"
  want_cert_mode :: "string option"

definition valid_tls_update :: "TLSSettingsUpdateRequest \<Rightarrow> bool" where
  "valid_tls_update p \<longleftrightarrow> (case want_cert_mode p of None \<Rightarrow> True | Some m \<Rightarrow> m \<in> {''letsencrypt'', ''self_signed'', ''custom''})"

record TLSSettingsUpdateResponse =
  update_ok :: bool
  update_message :: string
  now_auto_renew :: bool
  now_cert_mode :: string
  update_url :: string

text \<open>Assignments to the object the router imported. While no reload has happened, it is also the
  singleton.\<close>

definition assign_settings :: "(tls_settings \<Rightarrow> tls_settings) \<Rightarrow> tls_state \<Rightarrow> tls_state" where
  "assign_settings f s = s\<lparr>imported_settings := f (imported_settings s)\<rparr>"

definition settings_reply :: "bool \<Rightarrow> string \<Rightarrow> tls_state \<Rightarrow> TLSSettingsUpdateResponse" where
  "settings_reply ok message s =
     \<lparr>update_ok = ok, update_message = message, now_auto_renew = ssl_auto_renew (imported_settings s),
      now_cert_mode = ssl_cert_mode (imported_settings s), update_url = resolve_canonical_url (imported_settings s)\<rparr>"

definition mode_text :: "TLSProvisionMode \<Rightarrow> string" where
  "mode_text m = (case m of ACME_LETSENCRYPT \<Rightarrow> ''letsencrypt'' | SELF_SIGNED_FALLBACK \<Rightarrow> ''self_signed'' | EXISTING_VALID \<Rightarrow> ''existing'')"

text \<open>The background task of a successful request restarts the service after the answer.\<close>

definition update_tls_settings ::
  "tls_env \<Rightarrow> http_request \<Rightarrow> TLSSettingsUpdateRequest \<Rightarrow> tls_state \<Rightarrow> TLSSettingsUpdateResponse result \<times> tls_state" where
  "update_tls_settings env req p =
     as_admin env req (\<lambda>s.
       let renew_changed = (case want_auto_renew p of None \<Rightarrow> False | Some b \<Rightarrow> b \<noteq> ssl_auto_renew (imported_settings s));
           s1 = (if renew_changed then assign_settings (\<lambda>c. c\<lparr>ssl_auto_renew := the (want_auto_renew p)\<rparr>) s else s);
           mode_changed = (case want_cert_mode p of None \<Rightarrow> False | Some m \<Rightarrow> m \<noteq> ssl_cert_mode (imported_settings s1));
           s2 = (if mode_changed then assign_settings (\<lambda>c. c\<lparr>ssl_cert_mode := the (want_cert_mode p)\<rparr>) s1 else s1);
           s3 = (if renew_changed \<or> mode_changed then reload_settings env s2 else s2);
           cfg = imported_settings s3
       in if mode_changed \<and> want_cert_mode p \<noteq> Some ''custom'' then
            (case provision env (or_localhost (duckdns_domain cfg))
                    (if want_cert_mode p = Some ''letsencrypt'' then duckdns_token cfg else []) True s3 of
               (Inl e, s4) \<Rightarrow> (Inl e, s4)
             | (Inr r, s4) \<Rightarrow>
                 if provisioned r then
                   (Inr (settings_reply True (''Certificate mode changed to '' @ [CHR 0x27] @ the (want_cert_mode p) @ [CHR 0x27] @
                      ''. New '' @ mode_text (provision_mode r) @ '' certificate provisioned. Service restarting.'') s4),
                    dispatch_manager_service_restart env s4)
                 else
                   (Inr (settings_reply False (''Failed to provision certificate for mode '' @ [CHR 0x27] @ the (want_cert_mode p) @
                      [CHR 0x27] @ '': '' @ (case provision_error r of None \<Rightarrow> ''None'' | Some e \<Rightarrow> e)) s4), s4))
          else (Inr (settings_reply True ''TLS settings updated successfully.'' s3), s3))"

record TLSRenewResponse =
  renew_ok :: bool
  renew_message :: string
  renew_error :: "string option"
  renew_url :: string
  renew_at :: string

definition trigger_tls_renewal :: "tls_env \<Rightarrow> http_request \<Rightarrow> bool \<Rightarrow> tls_state \<Rightarrow> TLSRenewResponse result \<times> tls_state" where
  "trigger_tls_renewal env req force =
     as_admin env req (\<lambda>s.
       let cfg = imported_settings s
       in case provision env (duckdns_domain cfg) (duckdns_token cfg) force s of
            (Inl e, s1) \<Rightarrow> (Inl e, s1)
          | (Inr r, s1) \<Rightarrow>
              if provisioned r then
                (Inr \<lparr>renew_ok = True,
                      renew_message = provision_message r @ '' Web management service is restarting to activate HTTPS.'',
                      renew_error = None, renew_url = resolve_canonical_url cfg, renew_at = isoformat (tls_now env)\<rparr>,
                 dispatch_manager_service_restart env s1)
              else
                (Inr \<lparr>renew_ok = False, renew_message = provision_message r, renew_error = provision_error r,
                      renew_url = resolve_canonical_url cfg, renew_at = isoformat (tls_now env)\<rparr>, s1))"

text \<open>The public addresses.\<close>

definition redirect_canonical :: "tls_state \<Rightarrow> int \<times> string" where
  "redirect_canonical s = (307, resolve_canonical_url (imported_settings s) @ ''/'')"

record SystemVersionResponse =
  system_version :: string
  version_url :: string
  tls_active :: bool

definition get_system_version :: "tls_env \<Rightarrow> http_request \<Rightarrow> tls_state \<Rightarrow> SystemVersionResponse result \<times> tls_state" where
  "get_system_version env req s =
     (case get_current_user (who (requests env)) (accounts_db (operations s)) req of
        Inl e \<Rightarrow> (Inl e, s)
      | Inr _ \<Rightarrow>
          (Inr \<lparr>system_version = ''0.5.1'', version_url = resolve_canonical_url (imported_settings s),
                tls_active = (resolve_ssl_paths env (imported_settings s) (key_store (exchange s)) \<noteq> None)\<rparr>, s))"

text \<open>The command line: exit code and effect.\<close>

definition handle_renew :: "tls_env \<Rightarrow> string \<Rightarrow> string \<Rightarrow> bool \<Rightarrow> tls_state \<Rightarrow> int result \<times> tls_state" where
  "handle_renew env domain token force s =
     (case provision env (or_localhost domain) token force s of
        (Inl e, s1) \<Rightarrow> (Inl e, s1)
      | (Inr r, s1) \<Rightarrow>
          if provision_error r \<noteq> None \<and> provision_error r \<noteq> Some [] then (Inr 1, s1)
          else if provisioned r then
            (case restart_fault env of
               None \<Rightarrow> (Inr 0, s1\<lparr>restarts := Suc (restarts s1)\<rparr>)
             | Some e \<Rightarrow> (if e = LibraryError ''SupervisorClientError'' \<or> is_os_error e then Inr 0 else Inl e, s1))
          else (Inr 0, s1))"

definition handle_sync_dns :: "tls_env \<Rightarrow> string \<Rightarrow> string \<Rightarrow> string \<Rightarrow> tls_state \<Rightarrow> int result \<times> tls_state" where
  "handle_sync_dns env domain token ip s =
     (case sync_duckdns_ip (acme env) domain token ip (exchange s) of
        (Inl e, x) \<Rightarrow> (Inl e, s\<lparr>exchange := x\<rparr>)
      | (Inr b, x) \<Rightarrow> (Inr (if b then 0 else 1), s\<lparr>exchange := x\<rparr>))"

text \<open>The commands after the parser of the arguments.\<close>

definition handle_status :: "tls_env \<Rightarrow> string \<Rightarrow> tls_state \<Rightarrow> int result \<times> tls_state" where
  "handle_status env domain s =
     (bind_result (get_tls_certificate_status env None (Some domain) (key_store (exchange s))) (\<lambda>_. Inr 0), s)"

datatype tls_command = RenewCommand string string bool | SyncDnsCommand string string string | StatusCommand string

definition tls_main :: "tls_env \<Rightarrow> tls_command \<Rightarrow> tls_state \<Rightarrow> int result \<times> tls_state" where
  "tls_main env command s =
     (case command of
        RenewCommand domain token force \<Rightarrow> handle_renew env domain token force s
      | SyncDnsCommand domain token ip \<Rightarrow> handle_sync_dns env domain token ip s
      | StatusCommand domain \<Rightarrow> handle_status env domain s)"

subsection \<open>Staging the pair\<close>

definition io_healthy :: "io_env \<Rightarrow> bool" where
  "io_healthy io \<longleftrightarrow> \<not> mkdir_fails io \<and> \<not> mktemp_fails io \<and> \<not> write_fails io \<and> \<not> fsync_fails io \<and> \<not> replace_fails io"

text \<open>The temporary names of the two writes are new and do not clash with the other file.\<close>

definition names_ok :: "tls_env \<Rightarrow> string \<Rightarrow> world \<Rightarrow> bool" where
  "names_ok env d w \<longleftrightarrow>
     (let io1 = cert_io env (fullchain_of d); io2 = cert_io env (privkey_of d)
      in tmp_ok io1 (fullchain_of d) w \<and> tmp_ok io2 (privkey_of d) w \<and>
         tmp_path_of io1 (fullchain_of d) \<noteq> privkey_of d \<and> tmp_path_of io2 (privkey_of d) \<noteq> fullchain_of d \<and>
         tmp_path_of io1 (fullchain_of d) \<noteq> tmp_path_of io2 (privkey_of d) \<and>
         \<not> is_backup_of (fullchain_of d) (tmp_path_of io2 (privkey_of d)))"

lemma pair_names: "fullchain_of d \<noteq> privkey_of d" "\<not> is_backup_of (fullchain_of d) (privkey_of d)"
  "\<not> is_backup_of (privkey_of d) (fullchain_of d)"
  by (simp_all add: fullchain_of_def privkey_of_def is_backup_of_def backup_prefix_def)

lemma written_data: "new_content raw (file_at w p) \<Longrightarrow> \<exists>f. file_at w p = Some f \<and> f_data f = raw"
  by (auto simp: new_content_def split: option.splits)

text \<open>The chain is written first; whatever happens to the second write, the key is the old or the
  new one.\<close>

lemma first_write:
  assumes "names_ok env d w" "io_healthy (cert_io env (fullchain_of d))"
  obtains q w1 f where "atomic_write_file (cert_io env (fullchain_of d)) (fullchain_of d) cert 5 False (Some 420) True w = (Inr q, w1)"
    "file_at w1 (fullchain_of d) = Some f" "f_data f = cert"
    "file_at w1 (privkey_of d) = file_at w (privkey_of d)" "tmp_ok (cert_io env (privkey_of d)) (privkey_of d) w1"
proof -
  let ?io = "cert_io env (fullchain_of d)" and ?io2 = "cert_io env (privkey_of d)"
  obtain q w1 where a: "atomic_write_file ?io (fullchain_of d) cert 5 False (Some 420) True w = (Inr q, w1)"
    using atomic_write_file_no_faults assms(2) unfolding io_healthy_def by blast
  have t: "tmp_ok ?io (fullchain_of d) w" "tmp_ok ?io2 (privkey_of d) w" "privkey_of d \<noteq> tmp_path_of ?io (fullchain_of d)"
    "tmp_path_of ?io2 (privkey_of d) \<noteq> fullchain_of d" "tmp_path_of ?io2 (privkey_of d) \<noteq> tmp_path_of ?io (fullchain_of d)"
    "\<not> is_backup_of (fullchain_of d) (tmp_path_of ?io2 (privkey_of d))"
    using assms(1) by (auto simp: names_ok_def Let_def)
  have frame: "file_at w1 x = file_at w x"
    if "x \<noteq> fullchain_of d" "x \<noteq> tmp_path_of ?io (fullchain_of d)" "\<not> is_backup_of (fullchain_of d) x" for x
    using atomic_write_frame [OF t(1) that, of cert 5 False "Some 420" True] a by simp
  have "new_content cert (file_at w1 (fullchain_of d))"
    using atomic_write_old_or_new [OF t(1) a] by simp
  then obtain f where "file_at w1 (fullchain_of d) = Some f" "f_data f = cert" using written_data by blast
  moreover have "file_at w1 (privkey_of d) = file_at w (privkey_of d)"
    using frame [of "privkey_of d"] t(3) pair_names by metis
  moreover have "tmp_ok ?io2 (privkey_of d) w1"
    using t(2) frame [OF t(4,5,6)] by (simp add: tmp_ok_def)
  ultimately show ?thesis using that a by blast
qed

lemma second_frame:
  assumes "names_ok env d w" "tmp_ok (cert_io env (privkey_of d)) (privkey_of d) w1"
    and "atomic_write_file (cert_io env (privkey_of d)) (privkey_of d) key 5 False (Some 384) True w1 = (r, w2)"
  shows "file_at w2 (fullchain_of d) = file_at w1 (fullchain_of d)"
  using atomic_write_frame [OF assms(2) pair_names(1) _ pair_names(3), of key 5 False "Some 384" True] assms(1,3)
  by (auto simp: names_ok_def Let_def)

lemma bundle_staged:
  assumes "names_ok env (cert_dir_of dir) w" "\<not> stage_mkdir_fails env"
    and "io_healthy (cert_io env (fullchain_of (cert_dir_of dir)))" "io_healthy (cert_io env (privkey_of (cert_dir_of dir)))"
  shows "\<exists>w' f g. stage_tls_bundle env cert key dir w = (Inr (fullchain_of (cert_dir_of dir), privkey_of (cert_dir_of dir)), w') \<and>
    file_at w' (fullchain_of (cert_dir_of dir)) = Some f \<and> f_data f = cert \<and>
    file_at w' (privkey_of (cert_dir_of dir)) = Some g \<and> f_data g = key"
proof -
  let ?d = "cert_dir_of dir"
  obtain q w1 f where a: "atomic_write_file (cert_io env (fullchain_of ?d)) (fullchain_of ?d) cert 5 False (Some 420) True w = (Inr q, w1)"
    "file_at w1 (fullchain_of ?d) = Some f" "f_data f = cert" "tmp_ok (cert_io env (privkey_of ?d)) (privkey_of ?d) w1"
    using first_write [OF assms(1,3)] by blast
  obtain q2 w2 where b: "atomic_write_file (cert_io env (privkey_of ?d)) (privkey_of ?d) key 5 False (Some 384) True w1 = (Inr q2, w2)"
    using atomic_write_file_no_faults assms(4) unfolding io_healthy_def by blast
  have "new_content key (file_at w2 (privkey_of ?d))"
    using atomic_write_old_or_new [OF a(4) b] by simp
  then obtain g where "file_at w2 (privkey_of ?d) = Some g" "f_data g = key" using written_data by blast
  then show ?thesis
    using a second_frame [OF assms(1) a(4) b] b assms(2) by (simp add: stage_tls_bundle_def Let_def)
qed

text \<open>The pair of chain and key is not replaced atomically: when the second of the two writes
  fails, the call raises and leaves the new chain beside the old key.\<close>

theorem bundle_can_mismatch:
  assumes "names_ok env (cert_dir_of dir) w" "\<not> stage_mkdir_fails env"
    and "io_healthy (cert_io env (fullchain_of (cert_dir_of dir)))" "replace_fails (cert_io env (privkey_of (cert_dir_of dir)))"
  shows "\<exists>w' f. stage_tls_bundle env cert key dir w = (Inl OSError, w') \<and>
    file_at w' (fullchain_of (cert_dir_of dir)) = Some f \<and> f_data f = cert \<and>
    file_at w' (privkey_of (cert_dir_of dir)) = file_at w (privkey_of (cert_dir_of dir))"
proof -
  let ?d = "cert_dir_of dir"
  obtain q w1 f where a: "atomic_write_file (cert_io env (fullchain_of ?d)) (fullchain_of ?d) cert 5 False (Some 420) True w = (Inr q, w1)"
    "file_at w1 (fullchain_of ?d) = Some f" "f_data f = cert" "file_at w1 (privkey_of ?d) = file_at w (privkey_of ?d)"
    "tmp_ok (cert_io env (privkey_of ?d)) (privkey_of ?d) w1"
    using first_write [OF assms(1,3)] by blast
  obtain r w2 where b: "atomic_write_file (cert_io env (privkey_of ?d)) (privkey_of ?d) key 5 False (Some 384) True w1 = (r, w2)"
    by fastforce
  then have "r = Inl OSError"
    using assms(4) by (auto simp: atomic_write_file_def abort_write_def Let_def split: if_splits prod.splits)
  moreover from this have "file_at w2 (privkey_of ?d) = file_at w1 (privkey_of ?d)"
    using atomic_write_old_or_new [OF a(5) b] by (simp add: keeps_def)
  ultimately show ?thesis
    using a second_frame [OF assms(1) a(5) b] b assms(2) by (simp add: stage_tls_bundle_def Let_def)
qed

subsection \<open>Renewal\<close>

text \<open>The scheduler never spins: every turn sleeps at least an hour and at most a day, whatever the
  certificate, the settings and the servers.\<close>

theorem scheduler_never_spins: "3600 \<le> fst (scheduler_turn env s) \<and> fst (scheduler_turn env s) \<le> 86400"
  by (auto simp: scheduler_turn_def Let_def split: sum.split prod.split)

lemma provision_reports_success:
  "provision_tls_certificates env domain token force dir s = (Inr r, s') \<Longrightarrow> provisioned r \<and> provision_error r = None"
  by (auto simp: provision_tls_certificates_def self_signed_tier_def outcome_def split: sum.splits prod.splits if_splits bool.splits)

text \<open>A provision never reports a failure: it answers with success or raises, so the branches of
  its callers for a failed provision are never taken.\<close>

theorem provision_never_reports_failure:
  "case fst (provision env domain token force s) of Inr r \<Rightarrow> provisioned r \<and> provision_error r = None | Inl _ \<Rightarrow> True"
  using provision_reports_success [of env domain token force None "exchange s"]
  by (auto simp: provision_def split: prod.split sum.split)

text \<open>What the cryptography library guarantees of a certificate it signed: it is read back, with
  whole seconds.\<close>

definition whole_seconds :: "nat \<Rightarrow> nat" where
  "whole_seconds t = t div 1000000 * 1000000"

definition reads_signed :: "tls_env \<Rightarrow> bool" where
  "reads_signed env \<longleftrightarrow> (\<forall>c k pem. sign_cert env c k = Inr pem \<longrightarrow>
     load_cert env pem = Inr (c\<lparr>valid_from := whole_seconds (valid_from c), valid_until := whole_seconds (valid_until c)\<rparr>))"

definition self_signed_for :: "string \<Rightarrow> nat \<Rightarrow> certificate" where
  "self_signed_for domain t = \<lparr>issuer_cn = Some domain, subject_cn = Some domain, cert_sans = [domain],
     valid_from = whole_seconds t, valid_until = whole_seconds (t + 365 * day)\<rparr>"

lemma self_signed_staged:
  assumes "reads_signed env" "names_ok env (cert_dir_of dir) (key_store s)" "\<not> stage_mkdir_fails env"
    and "io_healthy (cert_io env (fullchain_of (cert_dir_of dir)))" "io_healthy (cert_io env (privkey_of (cert_dir_of dir)))"
    and "generate_self_signed_certificate env (fresh_key env) domain 365 = Inr pem"
  shows "\<exists>s' f g. self_signed_tier env domain dir s =
      (Inr (outcome SELF_SIGNED_FALLBACK domain 365 ''Provisioned self-signed fallback certificate.''), s') \<and>
    file_at (key_store s') (fullchain_of (cert_dir_of dir)) = Some f \<and>
    load_cert env (f_data f) = Inr (self_signed_for domain (tls_now env)) \<and>
    file_at (key_store s') (privkey_of (cert_dir_of dir)) = Some g \<and> f_data g = key_pem (fresh_key env)"
proof -
  note pem = assms(6)
  then have "load_cert env pem = Inr (self_signed_for domain (tls_now env))"
    using assms(1) by (auto simp: generate_self_signed_certificate_def reads_signed_def self_signed_for_def)
  moreover obtain w' f g where "stage_tls_bundle env pem (key_pem (fresh_key env)) dir (key_store s) =
      (Inr (fullchain_of (cert_dir_of dir), privkey_of (cert_dir_of dir)), w')"
    "file_at w' (fullchain_of (cert_dir_of dir)) = Some f" "f_data f = pem"
    "file_at w' (privkey_of (cert_dir_of dir)) = Some g" "f_data g = key_pem (fresh_key env)"
    using bundle_staged [OF assms(2-5), of pem "key_pem (fresh_key env)"] by blast
  ultimately show ?thesis by (simp add: self_signed_tier_def pem)
qed

lemma whole_seconds_bounds: "whole_seconds t \<le> t" "t < whole_seconds t + 1000000"
proof -
  have "t mod 1000000 < 1000000" by simp
  then show "whole_seconds t \<le> t" "t < whole_seconds t + 1000000"
    using div_mult_mod_eq [of t 1000000] unfolding whole_seconds_def by linarith+
qed

lemma self_signed_lasts:
  assumes "t \<le> t'" "t' \<le> t + 334 * day - 1000000"
  shows "0 < days_left (valid_until (self_signed_for domain t)) t' \<and> 30 < days_left (valid_until (self_signed_for domain t)) t' \<and>
    valid_from (self_signed_for domain t) \<le> t'"
proof -
  have d: "day = 86400000000" by (simp add: day_def)
  note e = whole_seconds_bounds(1) [of t] whole_seconds_bounds(2) [of "t + 365 * day"]
  have "31 * int day \<le> int (whole_seconds (t + 365 * day)) - int t'"
    using assms e(2) unfolding d by linarith
  then have "31 * int day div int day \<le> (int (whole_seconds (t + 365 * day)) - int t') div int day"
    by (intro zdiv_mono1) (simp_all add: d)
  then have "31 \<le> (int (whole_seconds (t + 365 * day)) - int t') div int day"
    by (simp add: d)
  then show ?thesis
    using e(1) assms(1) by (simp add: days_left_def self_signed_for_def)
qed

text \<open>One failed renewal.\<close>

definition lets_encrypt_flow :: "tls_env \<Rightarrow> string \<Rightarrow> string \<Rightarrow> acme_state \<Rightarrow> ACMECertificateResult \<times> acme_state" where
  "lets_encrypt_flow env domain token =
     perform_dns01_flow (acme env) domain token (fresh_key env) ''https://acme-v02.api.letsencrypt.org/directory''
       (''/var/lib/palmanager/acme'', ''account.key'')"

lemma acme_tier_fails:
  "lets_encrypt_flow env domain token s = (res, s1) \<Longrightarrow> \<not> acme_success res \<Longrightarrow> acme_tier env domain token dir s = (False, s1)"
  by (auto simp: acme_tier_def lets_encrypt_flow_def split: option.splits list.splits)

lemma provision_downgrades:
  assumes "get_tls_certificate_status env dir (Some domain) (key_store s) = Inr st" "days_remaining st \<le> 30"
    and "strip token \<noteq> []" "lets_encrypt_flow env domain token s = (res, s1)" "\<not> acme_success res"
  shows "provision_tls_certificates env domain token False dir s = self_signed_tier env domain dir s1"
  using assms acme_tier_fails [OF assms(4,5), of dir]
  by (simp add: provision_tls_certificates_def RENEWAL_THRESHOLD_DAYS_def)

text \<open>What a healthy host does when it stages a self-signed pair in the default directory.\<close>

definition staging_works :: "tls_env \<Rightarrow> string \<Rightarrow> world \<Rightarrow> bool" where
  "staging_works env domain w \<longleftrightarrow> reads_signed env \<and>
     (\<exists>pem. generate_self_signed_certificate env (fresh_key env) domain 365 = Inr pem) \<and>
     names_ok env DEFAULT_CERT_DIR w \<and> \<not> stage_mkdir_fails env \<and>
     io_healthy (cert_io env (fullchain_of DEFAULT_CERT_DIR)) \<and> io_healthy (cert_io env (privkey_of DEFAULT_CERT_DIR))"

definition staged_self_signed :: "tls_env \<Rightarrow> string \<Rightarrow> nat \<Rightarrow> world \<Rightarrow> bool" where
  "staged_self_signed env domain t w \<longleftrightarrow>
     (case (file_at w (fullchain_of DEFAULT_CERT_DIR), file_at w (privkey_of DEFAULT_CERT_DIR)) of
        (Some f, Some g) \<Rightarrow> load_cert env (f_data f) = Inr (self_signed_for domain t)
      | _ \<Rightarrow> False)"

lemma cert_dir_default [simp]: "cert_dir_of None = DEFAULT_CERT_DIR"
  by (simp add: cert_dir_of_def)

lemma self_signed_staged_default:
  assumes "staging_works env domain (key_store s)"
  shows "\<exists>s'. self_signed_tier env domain None s =
      (Inr (outcome SELF_SIGNED_FALLBACK domain 365 ''Provisioned self-signed fallback certificate.''), s') \<and>
    staged_self_signed env domain (tls_now env) (key_store s')"
  using self_signed_staged [of env None s domain] assms
  by (fastforce simp: staging_works_def staged_self_signed_def)

text \<open>A staged self-signed certificate keeps the scheduler asleep for eleven months.\<close>

lemma self_signed_keeps_asleep:
  assumes "staged_self_signed env domain t (key_store (exchange s))" "t \<le> tls_now env"
    and "tls_now env \<le> t + 334 * day - 1000000"
  shows "snd (scheduler_turn env s) = s"
proof -
  let ?c = "self_signed_for domain t"
  obtain f g where f: "file_at (key_store (exchange s)) (fullchain_of DEFAULT_CERT_DIR) = Some f"
    "file_at (key_store (exchange s)) (privkey_of DEFAULT_CERT_DIR) = Some g" "load_cert env (f_data f) = Inr ?c"
    using assms(1) by (auto simp: staged_self_signed_def split: option.splits)
  note l = self_signed_lasts [OF assms(2,3), of domain]
  show ?thesis
  proof (cases "cert_read_fails env")
    case True
    then show ?thesis
      using f by (simp add: scheduler_turn_def get_tls_certificate_status_def Let_def)
  next
    case False
    have "is_valid (status_of_cert ?c (tls_now env) d DEFAULT_CERT_DIR) \<and>
      30 < days_remaining (status_of_cert ?c (tls_now env) d DEFAULT_CERT_DIR)" for d
      using l by (simp add: status_of_cert_def Let_def)
    then show ?thesis
      using f False by (simp add: scheduler_turn_def get_tls_certificate_status_def Let_def)
  qed
qed

text \<open>C38. A renewal that fails replaces a certificate that is still valid: when Let's Encrypt cannot be
  reached during the last thirty days, the scheduler stages a self-signed certificate over it, restarts the
  portal, and then neither retries nor changes anything at any turn for eleven months.\<close>

theorem failed_renewal_downgrades:
  assumes "ssl_cert_mode (get_settings s) = ''letsencrypt''" "ssl_auto_renew (get_settings s)"
    and "get_tls_certificate_status env None (Some (or_localhost (duckdns_domain (get_settings s)))) (key_store (exchange s)) = Inr st"
    and "days_remaining st \<le> 30" "strip (duckdns_token (get_settings s)) \<noteq> []"
    and "lets_encrypt_flow env (or_localhost (duckdns_domain (get_settings s))) (duckdns_token (get_settings s)) (exchange s) = (res, s1)"
    and "\<not> acme_success res" "staging_works env (or_localhost (duckdns_domain (get_settings s))) (key_store s1)" "on_posix_host env" "restart_fault env = None"
  shows "\<exists>s'. scheduler_turn env s = (86400, s') \<and> restarts s' = Suc (restarts s) \<and>
    staged_self_signed env (or_localhost (duckdns_domain (get_settings s))) (tls_now env) (key_store (exchange s')) \<and>
    (\<forall>t. tls_now env \<le> t \<longrightarrow> t \<le> tls_now env + 334 * day - 1000000 \<longrightarrow>
         snd (scheduler_turn (env\<lparr>tls_now := t\<rparr>) s') = s')"
proof -
  let ?d = "or_localhost (duckdns_domain (get_settings s))"
  obtain x where x: "self_signed_tier env ?d None s1 =
      (Inr (outcome SELF_SIGNED_FALLBACK ?d 365 ''Provisioned self-signed fallback certificate.''), x)"
    and staged: "staged_self_signed env ?d (tls_now env) (key_store x)"
    using self_signed_staged_default [OF assms(8)] by blast
  let ?s = "s\<lparr>exchange := x, restarts := Suc (restarts s)\<rparr>"
  have "provision env ?d (duckdns_token (get_settings s)) False s =
      (Inr (outcome SELF_SIGNED_FALLBACK ?d 365 ''Provisioned self-signed fallback certificate.''), s\<lparr>exchange := x\<rparr>)"
    using provision_downgrades [OF assms(3,4,5,6,7)] x by (simp add: provision_def)
  then have "scheduler_turn env s = (86400, ?s)"
    using assms(1-4,9,10) by (simp add: scheduler_turn_def Let_def outcome_def dispatch_manager_service_restart_def)
  moreover have "snd (scheduler_turn (env\<lparr>tls_now := t\<rparr>) ?s) = ?s"
    if "tls_now env \<le> t" "t \<le> tls_now env + 334 * day - 1000000" for t
    using that staged by (intro self_signed_keeps_asleep [of _ ?d "tls_now env"]) (simp_all add: staged_self_signed_def cong: option.case_cong)
  ultimately show ?thesis using staged by (intro exI [of _ ?s]) simp
qed

subsection \<open>The settings object\<close>

text \<open>Enabling automatic renewal in the portal does not start the scheduler: the handler answers that it is
  on, but it sets the old settings object and then replaces the one the scheduler reads by a new object
  made from the environment, so the next turn is still idle.\<close>

theorem renewal_toggle_is_lost:
  assumes "update_tls_settings env req \<lparr>want_auto_renew = Some True, want_cert_mode = None\<rparr> s = (Inr r, s')"
    and "\<not> ssl_auto_renew (imported_settings s)" "\<not> ssl_auto_renew (reloaded env)"
    and "ssl_cert_mode (reloaded env) \<noteq> ''custom''"
  shows "now_auto_renew r \<and> scheduler_turn env s' = (3600, s')"
  using assms
  by (auto simp: update_tls_settings_def as_admin_def reload_settings_def assign_settings_def settings_reply_def
      scheduler_turn_def get_settings_def Let_def split: sum.splits)

subsection \<open>The status report\<close>

definition consistent_report :: "TLSStatusResponse \<Rightarrow> bool" where
  "consistent_report r \<longleftrightarrow>
     (url_scheme r = ''https'') = enabled r \<and> (shown_certificate r \<noteq> None) = enabled r \<and>
     (next_renewal_at r \<noteq> None) = (renewal_countdown_seconds r \<noteq> None) \<and>
     (case shown_certificate r of None \<Rightarrow> warning r \<noteq> None \<and> renewal_countdown_seconds r = None
      | Some c \<Rightarrow> \<not> info_expired c \<and> 1 \<le> info_days c \<and> (warning r \<noteq> None) = (info_days c \<le> 15)) \<and>
     (case renewal_countdown_seconds r of None \<Rightarrow> True | Some n \<Rightarrow> 0 \<le> n)"

lemma status_days: "get_tls_certificate_status env dir d w = Inr st \<Longrightarrow> is_valid st \<Longrightarrow> 1 \<le> days_remaining st"
  by (auto simp: get_tls_certificate_status_def unusable_def status_of_cert_def Let_def split: option.splits sum.splits if_splits)

text \<open>C40. The answer of the certificate status handler is consistent: TLS is enabled exactly when the scheme
  is https and exactly when a certificate is shown, a shown certificate has not expired and has at least one day,
  the warning is there exactly for a missing or nearly expired certificate, and the countdown is never negative.\<close>

theorem tls_status_consistent:
  "case fst (get_tls_status env req s) of Inr r \<Rightarrow> consistent_report r | Inl _ \<Rightarrow> True"
proof (cases "fst (get_tls_status env req s)")
  case (Inr r)
  then obtain d st where st: "get_tls_certificate_status env None d (key_store (exchange s)) = Inr st"
    and r: "r = tls_status_of env (imported_settings s) st"
    by (auto simp: get_tls_status_def as_admin_def bind_result_Inr_iff Let_def split: sum.splits)
  have "consistent_report r"
    unfolding r using status_days [OF st]
    by (auto simp: tls_status_of_def consistent_report_def certificate_info_def renewal_time_def split: option.splits)
  then show ?thesis using Inr by simp
qed simp

subsection \<open>A host\<close>

definition demo_staged :: "nat \<Rightarrow> certificate" where
  "demo_staged t = \<lparr>issuer_cn = Some ''CA'', subject_cn = Some ''x.org'', cert_sans = [''x.org''], valid_from = 0, valid_until = t\<rparr>"

definition host_settings :: tls_settings where
  "host_settings = \<lparr>ssl_cert_mode = ''letsencrypt'', ssl_auto_renew = True, ssl_auto_detect = False, ssl_cert_path = None,
     ssl_key_path = None, ssl_cert_dir = None, duckdns_domain = ''x.org'', duckdns_token = ''k'', web_port = 443\<rparr>"

definition demo_chain :: world where
  "demo_chain = \<lparr>files = [((DEFAULT_CERT_DIR, ''fullchain.pem''), demo_file ''old'' 5), ((DEFAULT_CERT_DIR, ''privkey.pem''), demo_file ''key'' 5)],
     trace = [], dir_durable = True\<rparr>"

definition demo_tls_state :: tls_state where
  "demo_tls_state = \<lparr>exchange = demo_acme_state\<lparr>key_store := demo_chain\<rparr>, restarts = 0, imported_settings = host_settings,
     singleton = None, operations = demo_ops_state\<rparr>"

text \<open>The old chain ends after \<open>n\<close> days; Let's Encrypt does not answer.\<close>

definition demo_tls :: "nat \<Rightarrow> tls_env" where
  "demo_tls n = \<lparr>load_cert = (\<lambda>p. if p = ''old'' then Inr (demo_staged (n * day)) else Inr (self_signed_for ''x.org'' 0)),
     sign_cert = (\<lambda>c k. if c = \<lparr>issuer_cn = Some ''x.org'', subject_cn = Some ''x.org'', cert_sans = [''x.org''],
        valid_from = 0, valid_until = 365 * day\<rparr> then Inr ''new'' else Inl ValueError),
     acme = demo_acme\<lparr>reply := (\<lambda>_. RequestError)\<rparr>, fresh_key = demo_key, tls_now = 0, cert_io = (\<lambda>p. demo_io\<lparr>tmp_rand := snd p\<rparr>),
     stage_mkdir_fails = False, cert_read_fails = False, chain_loads = (\<lambda>_ _. True), user_dir = ''/u'',
     reloaded = host_settings\<lparr>ssl_auto_renew := False\<rparr>, on_posix_host = True, restart_fault = None, requests = demo_ops_env\<rparr>"

lemma demo_host: "on_posix_host (demo_tls n)" "restart_fault (demo_tls n) = None" "tls_now (demo_tls n) = 0"
  by (simp_all add: demo_tls_def)

lemma demo_files:
  "file_at demo_chain (fullchain_of DEFAULT_CERT_DIR) = Some (demo_file ''old'' 5)"
  "file_at demo_chain (privkey_of DEFAULT_CERT_DIR) = Some (demo_file ''key'' 5)"
  by (simp_all add: demo_chain_def file_at_def fullchain_of_def privkey_of_def)

lemma chain_status:
  "get_tls_certificate_status (demo_tls n) None d demo_chain = Inr (status_of_cert (demo_staged (n * day)) 0 d DEFAULT_CERT_DIR)"
  by (simp add: get_tls_certificate_status_def demo_files demo_tls_def demo_file_def Let_def)

lemma demo_days: "days_remaining (status_of_cert (demo_staged (n * day)) 0 d x) = int n"
  "is_valid (status_of_cert (demo_staged (n * day)) 0 d x) = (0 < n)"
  by (simp_all add: status_of_cert_def demo_staged_def days_left_def day_def Let_def)

lemma demo_names: "names_ok (demo_tls n) DEFAULT_CERT_DIR demo_chain"
  by (simp add: names_ok_def tmp_ok_def tmp_path_of_def demo_tls_def demo_io_def fullchain_of_def privkey_of_def
      file_at_def demo_chain_def is_backup_of_def startswith_def backup_prefix_def)

lemma demo_healthy: "io_healthy (cert_io (demo_tls n) p)"
  by (simp add: io_healthy_def demo_tls_def demo_io_def)

lemma demo_signs: "generate_self_signed_certificate (demo_tls n) (fresh_key (demo_tls n)) ''x.org'' 365 = Inr ''new''"
  by (simp add: generate_self_signed_certificate_def demo_tls_def)

lemma demo_reads: "reads_signed (demo_tls n)"
  by (auto simp: reads_signed_def demo_tls_def self_signed_for_def whole_seconds_def)

lemma demo_config: "get_settings demo_tls_state = host_settings" "key_store (exchange demo_tls_state) = demo_chain"
  "or_localhost (duckdns_domain host_settings) = ''x.org''" "strip (duckdns_token host_settings) = ''k''"
  by (simp_all add: get_settings_def demo_tls_state_def host_settings_def or_localhost_def strip_def lstrip_def rstrip_def is_space_def ord_def)

lemma demo_flow:
  "\<exists>res s1. lets_encrypt_flow (demo_tls n) ''x.org'' ''k'' (exchange demo_tls_state) = (res, s1) \<and> \<not> acme_success res \<and> key_store s1 = demo_chain"
  by (simp add: lets_encrypt_flow_def perform_dns01_flow_def dns01_steps_def demo_tls_def get_acme_directory_def
      and_then_def send_def record_event_def demo_acme_def demo_tls_state_def Let_def)

theorem failed_renewal_downgrades_witness:
  "\<exists>s'. scheduler_turn (demo_tls 20) demo_tls_state = (86400, s') \<and> staged_self_signed (demo_tls 20) ''x.org'' 0 (key_store (exchange s'))"
proof -
  obtain res s1 where f: "lets_encrypt_flow (demo_tls 20) ''x.org'' ''k'' (exchange demo_tls_state) = (res, s1)"
    "\<not> acme_success res" "key_store s1 = demo_chain"
    using demo_flow by blast
  have m: "duckdns_token host_settings = ''k''" "ssl_cert_mode host_settings = ''letsencrypt''" "ssl_auto_renew host_settings"
    by (simp_all add: host_settings_def)
  have w: "staging_works (demo_tls 20) ''x.org'' (key_store s1)"
    using demo_names demo_healthy demo_signs demo_reads f(3) by (simp add: staging_works_def) (simp add: demo_tls_def)
  show ?thesis
    using failed_renewal_downgrades [of demo_tls_state "demo_tls 20", unfolded demo_config, OF m(2,3) chain_status _ _ _ f(2)]
      f(1) w demo_host [of 20] demo_days(1) [of 20] m(1) demo_config(4) by auto
qed

theorem bundle_can_mismatch_witness:
  "fst (stage_tls_bundle ((demo_tls 20)\<lparr>cert_io := (\<lambda>p. demo_io\<lparr>tmp_rand := snd p, replace_fails := snd p = ''privkey.pem''\<rparr>)\<rparr>) ''new'' ''k2'' None demo_chain) = Inl OSError"
proof -
  let ?e = "(demo_tls 20)\<lparr>cert_io := (\<lambda>p. demo_io\<lparr>tmp_rand := snd p, replace_fails := snd p = ''privkey.pem''\<rparr>)\<rparr>"
  have "names_ok ?e (cert_dir_of None) demo_chain"
    using demo_names [of 20] by (simp add: names_ok_def tmp_ok_def tmp_path_of_def demo_tls_def demo_io_def Let_def)
  moreover have "\<not> stage_mkdir_fails ?e" "io_healthy (cert_io ?e (fullchain_of (cert_dir_of None)))"
    "replace_fails (cert_io ?e (privkey_of (cert_dir_of None)))"
    by (simp_all add: demo_tls_def io_healthy_def demo_io_def fullchain_of_def privkey_of_def)
  ultimately show ?thesis using bundle_can_mismatch [of ?e None demo_chain "''new''" "''k2''"] by auto
qed

definition idle_settings :: tls_settings where
  "idle_settings = host_settings\<lparr>ssl_auto_renew := False\<rparr>"

lemma demo_admin_passes: "needs_admin demo_ops_env remote_request demo_ops_state = Inr demo_admin"
  by (simp add: needs_admin_def require_admin_def remote_is_admin) (simp add: demo_admin_def)

theorem renewal_toggle_is_lost_witness:
  "\<exists>r s'. update_tls_settings (demo_tls 20) remote_request \<lparr>want_auto_renew = Some True, want_cert_mode = None\<rparr>
      (demo_tls_state\<lparr>imported_settings := idle_settings\<rparr>) = (Inr r, s') \<and>
    now_auto_renew r \<and> scheduler_turn (demo_tls 20) s' = (3600, s')"
proof -
  let ?s = "demo_tls_state\<lparr>imported_settings := idle_settings\<rparr>"
  have "requests (demo_tls 20) = demo_ops_env" "operations ?s = demo_ops_state"
    by (simp_all add: demo_tls_def demo_tls_state_def)
  then obtain r s' where u: "update_tls_settings (demo_tls 20) remote_request
      \<lparr>want_auto_renew = Some True, want_cert_mode = None\<rparr> ?s = (Inr r, s')"
    by (simp add: update_tls_settings_def as_admin_def demo_admin_passes Let_def)
  moreover have "\<not> ssl_auto_renew (imported_settings ?s)" "\<not> ssl_auto_renew (reloaded (demo_tls 20))"
    "ssl_cert_mode (reloaded (demo_tls 20)) \<noteq> ''custom''"
    by (simp_all add: idle_settings_def demo_tls_def host_settings_def)
  ultimately show ?thesis using renewal_toggle_is_lost [OF u] by blast
qed

end
