(* ===== verification/Log_Redaction.thy ===== *)
theory Log_Redaction
  imports Py_Text Json Text_Codec
begin

section \<open>Logging\<close>

text \<open>
  \<^verbatim>\<open>app/core/logger.py\<close>: the redaction of secrets in log texts, the filter that applies it to
  records, the handler that mirrors records to Discord through a bounded queue and its worker, and
  the set-up of the handlers. Formatting a record, HTTP answers and the clock are arguments. The
  symbols in titles have code points above 255 and stand as their names in braces.
\<close>

subsection \<open>Patterns\<close>

text \<open>\<open>pattern.sub\<close>: from the left, the text a match stands for is replaced and the search goes on
  behind it. The argument yields the replacement and the rest of a match at the start of a text.\<close>

function sub_all :: "(string \<Rightarrow> (string \<times> string) option) \<Rightarrow> string \<Rightarrow> string" where
  "sub_all m [] = []"
| "sub_all m (c # cs) =
     (case m (c # cs) of
        Some (out, rest) \<Rightarrow> if length rest \<le> length cs then out @ sub_all m rest else c # sub_all m cs
      | None \<Rightarrow> c # sub_all m cs)"
  by pat_completeness auto
termination by (relation "measure (\<lambda>(m, s). length s)") auto

text \<open>\<open>(?i)(admin_password|password|token|secret)\s*[:=]\s*["']?([^"'\s,]+)\<close>\<close>

definition secret_keys :: "string list" where
  "secret_keys = [''admin_password'', ''password'', ''token'', ''secret'']"

definition leading_key :: "string list \<Rightarrow> string \<Rightarrow> string option" where
  "leading_key keys s = find (\<lambda>k. lower (take (length k) s) = k) keys"

definition quotes :: "char set" where
  "quotes = {CHR 0x22, CHR 0x27}"

definition secret_char :: "char \<Rightarrow> bool" where
  "secret_char c \<longleftrightarrow> c \<notin> quotes \<and> \<not> is_space c \<and> c \<noteq> CHR '',''"

text \<open>What follows the key: the separator, an optional quote and the value; the result is the rest.\<close>

definition secret_value :: "string \<Rightarrow> string option" where
  "secret_value s =
     (case lstrip s of
        [] \<Rightarrow> None
      | c # r \<Rightarrow>
          if c \<noteq> CHR '':'' \<and> c \<noteq> CHR ''='' then None
          else
            (let v = lstrip r; w = (if v \<noteq> [] \<and> hd v \<in> quotes then tl v else v)
             in if takeWhile secret_char w = [] then None else Some (dropWhile secret_char w)))"

definition redacted :: string where
  "redacted = ''[REDACTED]''"

definition match_secret :: "string \<Rightarrow> (string \<times> string) option" where
  "match_secret s =
     (case leading_key secret_keys s of
        None \<Rightarrow> None
      | Some k \<Rightarrow> map_option (\<lambda>rest. (take (length k) s @ CHR ''='' # redacted, rest)) (secret_value (drop (length k) s)))"

text \<open>\<open>(?i)(Basic|Bearer)\s+[A-Za-z0-9+/=._-]+\<close>\<close>

definition credential_char :: "char \<Rightarrow> bool" where
  "credential_char c \<longleftrightarrow> is_ascii_alpha c \<or> is_digit c \<or> c \<in> set ''+/=._-''"

definition match_authorization :: "string \<Rightarrow> (string \<times> string) option" where
  "match_authorization s =
     (case leading_key [''basic'', ''bearer''] s of
        None \<Rightarrow> None
      | Some k \<Rightarrow>
          (let r = drop (length k) s; v = lstrip r
           in if r = v \<or> takeWhile credential_char v = [] then None
              else Some (take (length k) s @ CHR '' '' # redacted, dropWhile credential_char v)))"

text \<open>\<open>[0-9a-fA-F]{8}-[0-9a-fA-F]{4}-[0-9a-fA-F]{4}-[0-9a-fA-F]{4}-[0-9a-fA-F]{12}\<close>\<close>

definition hex_run :: "nat \<Rightarrow> string \<Rightarrow> bool" where
  "hex_run n s \<longleftrightarrow> length s = n \<and> list_all (\<lambda>c. hex_val c \<noteq> None) s"

definition match_uuid :: "string \<Rightarrow> (string \<times> string) option" where
  "match_uuid s =
     (case split_on (CHR ''-'') (take 36 s) of
        [a, b, c, d, e] \<Rightarrow>
          if hex_run 8 a \<and> hex_run 4 b \<and> hex_run 4 c \<and> hex_run 4 d \<and> hex_run 12 e
          then Some (''[REDACTED_UUID]'', drop 36 s) else None
      | _ \<Rightarrow> None)"

definition PATTERNS :: "(string \<Rightarrow> (string \<times> string) option) list" where
  "PATTERNS = [match_secret, match_authorization, match_uuid]"

definition sanitize_log_text :: "string \<Rightarrow> string" where
  "sanitize_log_text s = foldl (\<lambda>t m. sub_all m t) s PATTERNS"

subsection \<open>Records and the filter\<close>

record log_record =
  rec_name :: string
  rec_levelno :: int
  rec_levelname :: string
  rec_msg :: "string option"
  rec_args :: "string list"
  rec_filename :: string
  rec_lineno :: nat
  rec_exc :: "string option"

text \<open>A message that is not a text is left alone. The filter never drops a record.\<close>

definition filter_record :: "log_record \<Rightarrow> bool \<times> log_record" where
  "filter_record r = (True, r\<lparr>rec_msg := map_option (\<lambda>msg. foldl (\<lambda>t m. sub_all m t) msg PATTERNS) (rec_msg r)\<rparr>)"

subsection \<open>Mirroring to Discord\<close>

text \<open>An answer of Discord, or the failure of the request.\<close>

record discord_reply =
  discord_status :: int
  discord_json :: "json option"

datatype discord_outcome = Delivered discord_reply | DeliveryFault py_error

definition py_float_of :: "json \<Rightarrow> pyfloat result" where
  "py_float_of v =
     (case v of
        JFloat f \<Rightarrow> Inr f
      | JInt i \<Rightarrow> Inr (PyFin (i < 0) (of_int \<bar>i\<bar>))
      | JBool b \<Rightarrow> Inr (PyFin False (if b then 1 else 0))
      | JStr s \<Rightarrow> (case py_float_any s of None \<Rightarrow> Inl ValueError | Some f \<Rightarrow> Inr f)
      | _ \<Rightarrow> Inl TypeError)"

definition parse_discord_retry_after :: "discord_reply \<Rightarrow> pyfloat result" where
  "parse_discord_retry_after r =
     (case bind_result (body_object (discord_json r)) (\<lambda>d. py_float_of (json_get d ''retry_after'' (JFloat (PyFin False (3 / 2))))) of
        Inl e \<Rightarrow> if is_value_error e \<or> e = KeyError then Inr (PyFin False 2) else Inl e
      | Inr f \<Rightarrow> Inr f)"

record discord_handler =
  webhook_url :: string
  critical_ping :: string
  min_level :: int
  pending :: "json option list"
  posted :: "json list"
  worker_alive :: bool

definition COLOR_CRITICAL :: int where "COLOR_CRITICAL = 10027008"
definition COLOR_ERROR :: int where "COLOR_ERROR = 15680580"
definition COLOR_WARNING :: int where "COLOR_WARNING = 16096779"
definition COLOR_INFO :: int where "COLOR_INFO = 3900150"

definition discord_prefix :: string where
  "discord_prefix = ''https://discord.com/api/webhooks/''"

text \<open>\<open>str.upper\<close> on the ASCII texts it is called with.\<close>

definition upper :: "string \<Rightarrow> string" where
  "upper s = map (\<lambda>c. if 97 \<le> ord c \<and> ord c \<le> 122 then char_of (ord c - 32) else c) s"

definition is_runtime_error :: "py_error \<Rightarrow> bool" where
  "is_runtime_error e = (case e of RuntimeError _ \<Rightarrow> True | _ \<Rightarrow> False)"

text \<open>\<open>httpx.HTTPError\<close> and its subclasses.\<close>

definition is_http_error :: "py_error \<Rightarrow> bool" where
  "is_http_error e = (case e of
     LibraryError n \<Rightarrow> n \<in> {''HTTPError'', ''RequestError'', ''HTTPStatusError'', ''TimeoutException'', ''ConnectError''}
   | _ \<Rightarrow> False)"

text \<open>Colour, title and content by level.\<close>

definition embed_style :: "discord_handler \<Rightarrow> log_record \<Rightarrow> int \<times> string \<times> string" where
  "embed_style h r =
     (if 50 \<le> rec_levelno r then (COLOR_CRITICAL, ''{siren}{siren} [CRITICAL ALERT] '' @ rec_name r, critical_ping h)
      else if 40 \<le> rec_levelno r then (COLOR_ERROR, ''{siren} [ERROR] '' @ rec_name r, [])
      else if 30 \<le> rec_levelno r then (COLOR_WARNING, ''{warning} [WARNING] '' @ rec_name r, [])
      else (COLOR_INFO, CHR ''['' # upper (rec_levelname r) @ ''] '' @ rec_name r, []))"

definition fence :: string where
  "fence = [CHR 0x60, CHR 0x60, CHR 0x60]"

definition fenced :: "string \<Rightarrow> string" where
  "fenced msg = (if length msg < 1000 then fence @ msg @ fence else fence @ take 990 msg @ ''...'' @ fence)"

definition traceback_text :: "string \<Rightarrow> string" where
  "traceback_text tb = fence @ ''python'' @ [CHR 0x0A] @ drop (length tb - 800) tb @ [CHR 0x0A] @ fence"

definition embed_field :: "string \<Rightarrow> string \<Rightarrow> bool \<Rightarrow> json" where
  "embed_field n v inline = JObj [(''name'', JStr n), (''value'', JStr v), (''inline'', JBool inline)]"

definition ticked :: "string \<Rightarrow> string" where
  "ticked s = CHR 0x60 # s @ [CHR 0x60]"

definition log_payload :: "discord_handler \<Rightarrow> log_record \<Rightarrow> string \<Rightarrow> string \<Rightarrow> json" where
  "log_payload h r msg stamp_text =
     (case embed_style h r of
        (color, heading, content) \<Rightarrow>
          JObj [(''content'', if content = [] then JNull else JStr content),
            (''embeds'', JArr [JObj
               [(''title'', JStr heading), (''description'', JStr (fenced msg)), (''color'', JInt color),
                (''fields'', JArr
                   ([embed_field ''Location'' (ticked (rec_filename r @ '':'' @ nat_str (rec_lineno r))) True,
                     embed_field ''Severity'' (ticked (upper (rec_levelname r))) True] @
                    (case rec_exc r of None \<Rightarrow> [] | Some tb \<Rightarrow> [embed_field ''Traceback'' (traceback_text tb) False]))),
                (''footer'', JObj [(''text'', JStr ''Palworld Operations Suite Logging Mirror'')]),
                (''timestamp'', JStr stamp_text)]])])"

definition QUEUE_SIZE :: nat where
  "QUEUE_SIZE = 200"

definition new_handler :: "string \<Rightarrow> int \<Rightarrow> string \<Rightarrow> discord_handler" where
  "new_handler url level ping =
     \<lparr>webhook_url = url, critical_ping = ping, min_level = level, pending = [], posted = [], worker_alive = True\<rparr>"

text \<open>\<open>put_nowait\<close>: a full queue drops the payload with a note on the standard error.\<close>

definition put_nowait :: "json option \<Rightarrow> discord_handler \<Rightarrow> discord_handler" where
  "put_nowait p h = (if QUEUE_SIZE \<le> length (pending h) then h else h\<lparr>pending := pending h @ [p]\<rparr>)"

definition emit_record :: "(log_record \<Rightarrow> string result) \<Rightarrow> string \<Rightarrow> log_record \<Rightarrow> discord_handler \<Rightarrow> unit result \<times> discord_handler" where
  "emit_record fmt stamp_text r h =
     (if \<not> startswith (webhook_url h) discord_prefix then (Inr (), h)
      else (case fmt r of
              Inl e \<Rightarrow> (if e = TypeError \<or> is_value_error e \<or> e = AttributeError \<or> is_runtime_error e then Inr () else Inl e, h)
            | Inr msg \<Rightarrow> (Inr (), put_nowait (Some (log_payload h r msg stamp_text)) h)))"

text \<open>One round of the worker. A sleep refuses a negative, undefined or too long duration; the
  handlers of the worker catch what \<open>worker_survives\<close> says, and any other exception ends it.\<close>

definition MAX_SLEEP :: rat where
  "MAX_SLEEP = 9223372036"

fun sleep_fault :: "pyfloat \<Rightarrow> py_error option" where
  "sleep_fault (PyFin neg m) =
     (if neg \<and> m \<noteq> 0 then Some ValueError else if MAX_SLEEP < m then Some OverflowError else None)"
| "sleep_fault (PyInf neg) = Some OverflowError"
| "sleep_fault PyNan = Some ValueError"

definition worker_survives :: "py_error \<Rightarrow> bool" where
  "worker_survives e \<longleftrightarrow> is_http_error e \<or> is_os_error e \<or> is_runtime_error e"

definition retry_post :: "(json list \<Rightarrow> discord_outcome) \<Rightarrow> json \<Rightarrow> discord_reply \<Rightarrow> discord_handler \<Rightarrow> discord_handler" where
  "retry_post deliver p r h =
     (case bind_result (parse_discord_retry_after r) (\<lambda>f. case sleep_fault f of None \<Rightarrow> Inr () | Some e \<Rightarrow> Inl e) of
        Inl e \<Rightarrow> h\<lparr>worker_alive := worker_survives e\<rparr>
      | Inr _ \<Rightarrow>
          (let h1 = h\<lparr>posted := posted h @ [p]\<rparr>
           in case deliver (posted h1) of DeliveryFault e \<Rightarrow> h1\<lparr>worker_alive := worker_survives e\<rparr> | Delivered _ \<Rightarrow> h1))"

definition worker_turn :: "(json list \<Rightarrow> discord_outcome) \<Rightarrow> discord_handler \<Rightarrow> discord_handler" where
  "worker_turn deliver h =
     (if \<not> worker_alive h then h
      else (case pending h of
              [] \<Rightarrow> h
            | None # q \<Rightarrow> h\<lparr>pending := q, worker_alive := False\<rparr>
            | Some p # q \<Rightarrow>
                (let h1 = h\<lparr>pending := q, posted := posted h @ [p]\<rparr>
                 in case deliver (posted h1) of
                      DeliveryFault e \<Rightarrow> h1\<lparr>worker_alive := worker_survives e\<rparr>
                    | Delivered r \<Rightarrow> if discord_status r = 429 then retry_post deliver p r h1 else h1)))"

definition close_handler :: "discord_handler \<Rightarrow> discord_handler" where
  "close_handler h = put_nowait None h"

subsection \<open>Set-up\<close>

record LogRotationConfig =
  max_bytes :: nat
  backup_count :: nat

record DiscordLogConfig =
  discord_url :: "string option"
  discord_level :: "string + int"
  discord_ping :: string

datatype log_sink = StreamSink int | FileSink string string int LogRotationConfig | DiscordSink string int string

record logger =
  logger_level :: int
  logger_filters :: nat
  sinks :: "log_sink list"

record log_env =
  nt_host :: bool
  log_home :: string
  log_dir_fails :: bool
  log_open_fails :: bool
  env_webhook :: "string option"
  env_ping :: "string option"

definition setup_file_handler :: "log_env \<Rightarrow> string \<Rightarrow> string option \<Rightarrow> int \<Rightarrow> LogRotationConfig \<Rightarrow> logger \<Rightarrow> logger" where
  "setup_file_handler env name log_dir level rotation l =
     (let target_dir = (case log_dir of
            Some d \<Rightarrow> d
          | None \<Rightarrow> if nt_host env then log_home env @ ''/.palmanager/logs'' else ''/var/log/palmanager'')
      in if log_dir_fails env \<or> log_open_fails env then l
         else l\<lparr>sinks := sinks l @ [FileSink target_dir (name @ ''.log'') level rotation]\<rparr>)"

definition level_number :: "string \<Rightarrow> int" where
  "level_number n =
     (case map_of [(''CRITICAL'', 50), (''FATAL'', 50), (''ERROR'', 40), (''WARNING'', 30), (''WARN'', 30), (''INFO'', 20),
         (''DEBUG'', 10), (''NOTSET'', 0)] (upper n) of None \<Rightarrow> 40 | Some i \<Rightarrow> i)"

definition setup_discord_handler :: "log_env \<Rightarrow> DiscordLogConfig \<Rightarrow> logger \<Rightarrow> logger" where
  "setup_discord_handler env cfg l =
     (let webhook = (case discord_url cfg of Some (c # cs) \<Rightarrow> c # cs | _ \<Rightarrow> (case env_webhook env of None \<Rightarrow> [] | Some u \<Rightarrow> u));
          level = (case discord_level cfg of Inl n \<Rightarrow> level_number n | Inr i \<Rightarrow> i);
          ping = (if discord_ping cfg \<noteq> [] then discord_ping cfg
                  else (case env_ping env of None \<Rightarrow> ''@thestygianarchitect'' | Some p \<Rightarrow> p))
      in if webhook = [] then l else l\<lparr>sinks := sinks l @ [DiscordSink webhook level ping]\<rparr>)"

definition setup_logger :: "log_env \<Rightarrow> string \<Rightarrow> string option \<Rightarrow> int \<Rightarrow> LogRotationConfig option \<Rightarrow> DiscordLogConfig option \<Rightarrow> logger \<Rightarrow> logger" where
  "setup_logger env name log_dir level rotation discord l0 =
     (let l = l0\<lparr>logger_level := level\<rparr>
      in if sinks l \<noteq> [] then l
         else
           (let l1 = l\<lparr>logger_filters := Suc (logger_filters l), sinks := [StreamSink level]\<rparr>;
                rot = (case rotation of None \<Rightarrow> \<lparr>max_bytes = 10485760, backup_count = 5\<rparr> | Some r \<Rightarrow> r);
                disc = (case discord of None \<Rightarrow> \<lparr>discord_url = None, discord_level = Inr 40, discord_ping = ''@thestygianarchitect''\<rparr> | Some c \<Rightarrow> c)
            in setup_discord_handler env disc (setup_file_handler env name log_dir level rot l1)))"

subsection \<open>Redaction is complete\<close>

definition key_char :: "char \<Rightarrow> bool" where
  "key_char c \<longleftrightarrow> is_ascii_alpha c \<or> c = CHR ''_''"

definition redact_secrets :: "string \<Rightarrow> string" where
  "redact_secrets = sub_all match_secret"

lemma lower_key_char: "key_char (lower_char c) \<Longrightarrow> key_char c"
proof -
  assume a: "key_char (lower_char c)"
  have "ord (char_of (ord c + 32)) = ord c + 32" if "ord c \<le> 222" for c
    using that by (simp add: ord_def)
  then have "ord (lower_char c) = ord c \<or> ord (lower_char c) = ord c + 32 \<and> (65 \<le> ord c \<and> ord c \<le> 90 \<or> 192 \<le> ord c)"
    by (simp add: lower_char_def)
  moreover have "c = CHR ''_'' \<longleftrightarrow> ord c = 95" for c
    by (simp add: char_eq_ord [of c "CHR ''_''"] ord_punct)
  ultimately show ?thesis using a unfolding key_char_def is_ascii_alpha_def by presburger
qed

lemma key_char_class: "key_char c \<Longrightarrow> \<not> is_space c \<and> c \<noteq> CHR '':'' \<and> c \<noteq> CHR ''='' \<and> c \<notin> quotes"
  by (auto simp: key_char_def is_ascii_alpha_def is_space_def ord_def quotes_def)

lemma secret_keys_chars: "k \<in> set secret_keys \<Longrightarrow> list_all key_char k"
  by (auto simp: secret_keys_def key_char_def is_ascii_alpha_def ord_def)

lemma secret_value_head: "secret_value s = Some r \<Longrightarrow> s \<noteq> [] \<and> \<not> key_char (hd s)"
  by (cases s) (auto simp: secret_value_def lstrip_def dest: key_char_class split: if_splits)

text \<open>A match starts with a whole run of key characters.\<close>

lemma match_secret_run:
  assumes "match_secret s = Some (out, rest)"
  shows "lower (takeWhile key_char s) \<in> set secret_keys \<and> out = takeWhile key_char s @ CHR ''='' # redacted \<and>
    secret_value (dropWhile key_char s) = Some rest"
proof -
  obtain k where k: "leading_key secret_keys s = Some k" "secret_value (drop (length k) s) = Some rest"
    "out = take (length k) s @ CHR ''='' # redacted"
    using assms by (auto simp: match_secret_def split: option.splits)
  have m: "lower (take (length k) s) = k" "k \<in> set secret_keys"
    using k(1) by (auto simp: leading_key_def find_Some_iff)
  have "list_all key_char (lower (take (length k) s))"
    using secret_keys_chars [OF m(2)] m(1) by simp
  then have "list_all key_char (take (length k) s)"
    by (auto simp: list_all_iff lower_def intro: lower_key_char)
  then have "takeWhile key_char (take (length k) s @ drop (length k) s) = take (length k) s \<and>
      dropWhile key_char (take (length k) s @ drop (length k) s) = drop (length k) s"
    using secret_value_head [OF k(2)] by (intro takeWhile_stop) auto
  then show ?thesis using k m by simp
qed

lemma leading_key_whole:
  assumes "lower (takeWhile key_char s) \<in> set secret_keys"
  shows "leading_key secret_keys s = Some (lower (takeWhile key_char s))"
proof -
  define u where "u = takeWhile key_char s"
  have s: "s = u @ dropWhile key_char s" by (simp add: u_def)
  have "leading_key secret_keys (u @ r) = Some (lower u)" if "lower u \<in> set secret_keys" for r
  proof -
    have pre: "lower (take n (u @ r)) = take n (lower u)" if "n \<le> length u" for n
      using that by (simp add: lower_def take_map)
    have len: "length u = length (lower u)" by (simp add: lower_def)
    have other: "lower (take (length k) (u @ r)) \<noteq> k" if "take (length (lower u)) k \<noteq> lower u" "take (length k) (lower u) \<noteq> k" for k
    proof (cases "length k \<le> length u")
      case True then show ?thesis using pre that by simp
    next
      case False
      then have "take (length u) (lower (take (length k) (u @ r))) = lower u"
        by (simp add: lower_def take_map)
      then show ?thesis using that(1) len by auto
    qed
    have self: "lower (take (length (lower u)) (u @ r)) = lower u" by (simp add: lower_def)
    show ?thesis
      using that self other unfolding leading_key_def secret_keys_def by (auto simp: lower_def)
  qed
  then show ?thesis using assms s unfolding u_def [symmetric] by metis
qed

lemma match_secretI:
  assumes "lower (takeWhile key_char s) \<in> set secret_keys" "secret_value (dropWhile key_char s) = Some rest"
  shows "match_secret s = Some (takeWhile key_char s @ CHR ''='' # redacted, rest)"
proof -
  have "length (lower (takeWhile key_char s)) = length (takeWhile key_char s)" by (simp add: lower_def)
  moreover have "take (length (takeWhile key_char s)) s = takeWhile key_char s"
    "drop (length (takeWhile key_char s)) s = dropWhile key_char s"
    by (metis append_eq_conv_conj takeWhile_dropWhile_id)+
  ultimately show ?thesis using leading_key_whole [OF assms(1)] assms(2) by (simp add: match_secret_def)
qed

lemma secret_value_shorter: "secret_value s = Some r \<Longrightarrow> length r < length s"
proof -
  assume a: "secret_value s = Some r"
  then obtain c t where c: "lstrip s = c # t" by (auto simp: secret_value_def split: list.splits)
  have "length (dropWhile secret_char x) \<le> length x" "length (lstrip x) \<le> length x" for x
    by (simp_all add: length_dropWhile_le lstrip_def)
  note l = this
  have "length r \<le> length (lstrip t)"
    using a c l(1) [of "lstrip t"] l(1) [of "tl (lstrip t)"]
    by (auto simp: secret_value_def Let_def split: if_splits)
  then show ?thesis using l(2) [of t] l(2) [of s] c by simp
qed

lemma match_secret_shorter: "match_secret (c # cs) = Some (out, rest) \<Longrightarrow> length rest \<le> length cs"
  using match_secret_run secret_value_shorter length_dropWhile_le [of key_char "c # cs"] by fastforce

lemma match_first_key: "match_secret (c # cs) = Some x \<Longrightarrow> key_char c"
proof (rule ccontr)
  assume "match_secret (c # cs) = Some x" "\<not> key_char c"
  then have "lower [] \<in> set secret_keys" using match_secret_run [of "c # cs" "fst x" "snd x"] by simp
  then show False by (simp add: secret_keys_def lower_def)
qed

lemma redact_simps:
  "redact_secrets [] = []"
  "match_secret (c # cs) = None \<Longrightarrow> redact_secrets (c # cs) = c # redact_secrets cs"
  "match_secret (c # cs) = Some (out, rest) \<Longrightarrow> redact_secrets (c # cs) = out @ redact_secrets rest"
  using match_secret_shorter [of c cs out rest] by (simp_all add: redact_secrets_def)

lemma redact_other: "\<not> key_char c \<Longrightarrow> redact_secrets (c # cs) = c # redact_secrets cs"
proof (cases "match_secret (c # cs)")
  case (Some x)
  assume "\<not> key_char c"
  then show ?thesis using match_first_key [OF Some] by simp
qed (simp add: redact_simps)

lemma redact_induct [case_names Nil Plain Match]:
  assumes "P []" "\<And>c cs. match_secret (c # cs) = None \<Longrightarrow> P cs \<Longrightarrow> P (c # cs)"
    and "\<And>c cs out rest. match_secret (c # cs) = Some (out, rest) \<Longrightarrow> P rest \<Longrightarrow> P (c # cs)"
  shows "P s"
proof (induction s rule: length_induct)
  case (1 s)
  show ?case
  proof (cases s)
    case (Cons c cs)
    show ?thesis
    proof (cases "match_secret (c # cs)")
      case None then show ?thesis using assms(2) 1 Cons by simp
    next
      case (Some x)
      then show ?thesis using assms(3) [of c cs "fst x" "snd x"] match_secret_shorter [of c cs "fst x" "snd x"] 1 Cons by simp
    qed
  qed (simp add: assms(1))
qed

lemma redacted_head: "redact_secrets s = [] \<longleftrightarrow> s = []" "hd (redact_secrets s) = hd s"
proof -
  have "(redact_secrets s = [] \<longleftrightarrow> s = []) \<and> (s \<noteq> [] \<longrightarrow> hd (redact_secrets s) = hd s)"
  proof (induction s rule: redact_induct)
    case (Match c cs out rest)
    then show ?case using match_secret_run [OF Match(1)] redact_simps(3) [OF Match(1)] match_first_key [OF Match(1)] by simp
  qed (simp_all add: redact_simps)
  then show "redact_secrets s = [] \<longleftrightarrow> s = []" "hd (redact_secrets s) = hd s"
    by (cases s; simp add: redact_simps)+
qed

lemma redacted_lstrip: "lstrip (redact_secrets s) = redact_secrets (lstrip s)"
proof (induction s)
  case (Cons c cs)
  show ?case
  proof (cases "is_space c")
    case True
    then have "\<not> key_char c" using key_char_class by blast
    then show ?thesis using True Cons by (simp add: lstrip_def redact_other)
  next
    case False
    then have "lstrip (redact_secrets (c # cs)) = redact_secrets (c # cs)"
      using redacted_head [of "c # cs"] unfolding lstrip_def by (intro dropWhile_hd_id) simp
    then show ?thesis using False by (simp add: lstrip_def)
  qed
qed (simp add: lstrip_def redact_simps)

lemma redacted_value: "secret_value (redact_secrets s) \<noteq> None \<Longrightarrow> secret_value s \<noteq> None"
proof -
  assume a: "secret_value (redact_secrets s) \<noteq> None"
  have "redact_secrets (lstrip s) \<noteq> []"
    using a by (auto simp: secret_value_def redacted_lstrip split: list.splits)
  then obtain c r where c: "lstrip s = c # r" using redacted_head(1) by (cases "lstrip s") auto
  have "hd (redact_secrets (c # r)) = c" using redacted_head(2) by simp
  then have sep: "c = CHR '':'' \<or> c = CHR ''=''"
    using a c by (auto simp: secret_value_def redacted_lstrip split: list.splits if_splits)
  then have n: "redact_secrets (c # r) = c # redact_secrets r"
    using key_char_class redact_other by blast
  define w where "w = (if lstrip r \<noteq> [] \<and> hd (lstrip r) \<in> quotes then tl (lstrip r) else lstrip r)"
  define w' where "w' = (if lstrip (redact_secrets r) \<noteq> [] \<and> hd (lstrip (redact_secrets r)) \<in> quotes
    then tl (lstrip (redact_secrets r)) else lstrip (redact_secrets r))"
  have "w' = redact_secrets w"
  proof (cases "lstrip r")
    case (Cons q v)
    show ?thesis
    proof (cases "q \<in> quotes")
      case True
      then have "redact_secrets (q # v) = q # redact_secrets v" using key_char_class redact_other by blast
      then show ?thesis using True Cons by (simp add: w_def w'_def redacted_lstrip)
    next
      case False
      then show ?thesis using Cons redacted_head [of "q # v"] by (simp add: w_def w'_def redacted_lstrip)
    qed
  qed (simp add: w_def w'_def redacted_lstrip redact_simps)
  moreover have "takeWhile secret_char w' \<noteq> []"
    using a c n sep by (auto simp: secret_value_def redacted_lstrip w'_def Let_def split: if_splits)
  ultimately have "takeWhile secret_char w \<noteq> []"
    using redacted_head [of w] by (cases w; cases "redact_secrets w") (auto split: if_splits)
  then show ?thesis using c sep by (simp add: secret_value_def w_def Let_def)
qed

lemma redacted_run: "takeWhile key_char (redact_secrets s) = takeWhile key_char s"
proof (induction s rule: redact_induct)
  case (Match c cs out rest)
  define u where "u = takeWhile key_char (c # cs)"
  have u: "list_all key_char u" "redact_secrets (c # cs) = u @ CHR ''='' # redacted @ redact_secrets rest"
    using redact_simps(3) [OF Match(1)] match_secret_run [OF Match(1)] by (auto simp: u_def list_all_iff dest: set_takeWhileD)
  have "\<not> key_char (CHR ''='')" using key_char_class by blast
  then have "takeWhile key_char (u @ CHR ''='' # redacted @ redact_secrets rest) = u"
    using takeWhile_stop [OF u(1), of "CHR ''='' # redacted @ redact_secrets rest"] by simp
  then show ?case using u(2) by (simp add: u_def)
qed (simp_all add: redact_simps)

lemma redacted_tail:
  "secret_value (dropWhile key_char (redact_secrets s)) \<noteq> None \<Longrightarrow> secret_value (dropWhile key_char s) \<noteq> None"
proof (induction s rule: redact_induct)
  case (Plain c cs)
  show ?case
  proof (cases "key_char c")
    case True then show ?thesis using Plain by (simp add: redact_simps)
  next
    case False
    then show ?thesis using Plain redacted_value [of "c # cs"] by (simp add: redact_simps)
  qed
next
  case (Match c cs out rest)
  then show ?case using match_secret_run [OF Match(1)] by simp
qed (simp add: redact_simps)

lemma rest_head: "secret_value s = Some r \<Longrightarrow> r = [] \<or> \<not> secret_char (hd r)"
  by (auto simp: secret_value_def Let_def hd_dropWhile split: list.splits if_splits)

lemma redacted_chars: "list_all secret_char redacted"
  by (simp add: redacted_def secret_char_def quotes_def is_space_def ord_def)

lemma redacted_value_eq: "r = [] \<or> \<not> secret_char (hd r) \<Longrightarrow> secret_value (CHR ''='' # redacted @ r) = Some r"
proof -
  assume "r = [] \<or> \<not> secret_char (hd r)"
  then have t: "takeWhile secret_char (redacted @ r) = redacted" "dropWhile secret_char (redacted @ r) = r"
    using takeWhile_stop [OF redacted_chars] by blast+
  have "redacted \<noteq> []" "\<not> is_space (hd redacted)" "hd redacted \<notin> quotes" "\<not> is_space (CHR ''='')"
    by (simp_all add: redacted_def is_space_def ord_def quotes_def)
  moreover from this have "lstrip (redacted @ r) = redacted @ r" "lstrip (CHR ''='' # redacted @ r) = CHR ''='' # redacted @ r"
    unfolding lstrip_def by (auto intro!: dropWhile_hd_id simp: hd_append)
  ultimately show ?thesis using t by (simp add: secret_value_def)
qed

text \<open>Inside the replacement nothing matches.\<close>

lemma lower_redacted:
  "lower_char (CHR ''R'') = CHR ''r'' \<and> lower_char (CHR ''E'') = CHR ''e'' \<and> lower_char (CHR ''D'') = CHR ''d'' \<and>
   lower_char (CHR ''A'') = CHR ''a'' \<and> lower_char (CHR ''C'') = CHR ''c'' \<and> lower_char (CHR ''T'') = CHR ''t''"
  by code_simp

lemma inside_replacement:
  assumes "n < 11"
  shows "match_secret (drop n (CHR ''='' # redacted) @ r) = None"
proof (cases "match_secret (drop n (CHR ''='' # redacted) @ r)")
  case (Some x)
  have "n \<in> {10, 9, 8, 7, 6, 5, 4, 3, 2, 1, 0}"
    unfolding insert_iff empty_iff using assms by arith
  then have "lower (takeWhile key_char (drop n (CHR ''='' # redacted) @ r)) \<notin> set secret_keys"
    by (elim insertE emptyE) (simp_all add: redacted_def key_char_def is_ascii_alpha_def ord_def lower_def lower_redacted secret_keys_def)
  then show ?thesis using match_secret_run [of _ "fst x" "snd x"] Some by simp
qed

text \<open>A run that is followed by the replacement reproduces itself.\<close>

lemma replaced_again:
  assumes "list_all key_char u" "r = [] \<or> \<not> secret_char (hd r)"
    and "match_secret (u @ CHR ''='' # redacted @ r) = Some (out, rest)"
  shows "u @ CHR ''='' # redacted @ r = out @ rest"
proof -
  have "\<not> key_char (CHR ''='')" using key_char_class by blast
  then have "takeWhile key_char (u @ CHR ''='' # redacted @ r) = u \<and>
      dropWhile key_char (u @ CHR ''='' # redacted @ r) = CHR ''='' # redacted @ r"
    by (intro takeWhile_stop assms(1)) simp
  then show ?thesis
    using match_secret_run [OF assms(3)] redacted_value_eq [OF assms(2)] by simp
qed

lemma suffix_cases:
  assumes "u @ v = a @ b"
  obtains (left) x where "u = a @ x" "b = x @ v" | (right) y where "v = y @ b" "a = u @ y"
  using assms by (metis append_eq_append_conv2)

lemma redacted_matches:
  assumes "redact_secrets s = a @ t" "match_secret t = Some (out, rest)"
  shows "t = out @ rest"
  using assms
proof (induction s arbitrary: a t rule: redact_induct)
  case Nil
  then show ?case by (simp add: redact_simps match_secret_def leading_key_def secret_keys_def lower_def)
next
  case (Plain c cs)
  show ?case
  proof (cases a)
    case Nil
    then have t: "t = redact_secrets (c # cs)" using Plain by simp
    obtain r where "secret_value (dropWhile key_char (c # cs)) = Some r"
      using redacted_tail [of "c # cs"] match_secret_run [OF Plain(4)] t by auto
    then have "match_secret (c # cs) \<noteq> None"
      using match_secretI [of "c # cs" r] match_secret_run [OF Plain(4)] redacted_run [of "c # cs"] t by simp
    then show ?thesis using Plain(1) by simp
  qed (use Plain in \<open>auto simp: redact_simps\<close>)
next
  case (Match c cs out' rest')
  define u where "u = takeWhile key_char (c # cs)"
  have m: "out' = u @ CHR ''='' # redacted" "secret_value (dropWhile key_char (c # cs)) = Some rest'" "list_all key_char u"
    using match_secret_run [OF Match(1)] by (auto simp: u_def list_all_iff dest: set_takeWhileD)
  define r where "r = redact_secrets rest'"
  have r: "r = [] \<or> \<not> secret_char (hd r)"
    using rest_head [OF m(2)] redacted_head [of rest'] by (auto simp: r_def)
  have e: "u @ (CHR ''='' # redacted @ r) = a @ t"
    using Match(3) redact_simps(3) [OF Match(1)] m(1) by (simp add: r_def)
  show ?case
    using e
  proof (cases rule: suffix_cases)
    case (left x)
    then show ?thesis using replaced_again [of x r out rest] m(3) r Match(4) by simp
  next
    case (right y)
    have f: "(CHR ''='' # redacted) @ r = y @ t" using right(1) by simp
    show ?thesis
      using f
    proof (cases rule: suffix_cases)
      case (left x)
      show ?thesis
      proof (cases "length y < 11")
        case True
        have "x = drop (length y) (CHR ''='' # redacted)" using left(1) by simp
        then show ?thesis using inside_replacement [OF True, of r] left(2) Match(4) by simp
      next
        case False
        moreover have "length y + length x = 11" using arg_cong [OF left(1), of length] by (simp add: redacted_def)
        ultimately have "length x = 0" by linarith
        then have "x = []" by simp
        then show ?thesis using Match(2) [of "[]" t] Match(4) left(2) by (simp add: r_def)
      qed
    next
      case (right z)
      then show ?thesis using Match(2) Match(4) by (auto simp: r_def)
    qed
  qed
qed

text \<open>So redacting twice is redacting once.\<close>

lemma redaction_fixed:
  assumes "\<And>a t out rest. s = a @ t \<Longrightarrow> match_secret t = Some (out, rest) \<Longrightarrow> t = out @ rest"
  shows "redact_secrets s = s"
  using assms
proof (induction s rule: redact_induct)
  case (Plain c cs)
  have "redact_secrets cs = cs"
  proof (rule Plain(2))
    fix a t out rest assume "cs = a @ t" "match_secret t = Some (out, rest)"
    then show "t = out @ rest" using Plain(3) [of "c # a" t out rest] by simp
  qed
  then show ?case using Plain(1) by (simp add: redact_simps)
next
  case (Match c cs out rest)
  have e: "c # cs = out @ rest" using Match(3) [of "[]"] Match(1) by simp
  have "redact_secrets rest = rest"
  proof (rule Match(2))
    fix a t out' rest' assume "rest = a @ t" "match_secret t = Some (out', rest')"
    then show "t = out' @ rest'" using Match(3) [of "out @ a" t out' rest'] e by simp
  qed
  then have "redact_secrets (c # cs) = out @ rest" using redact_simps(3) [OF Match(1)] by simp
  then show ?case using e by simp
qed (simp add: redact_simps)

lemma redaction_idempotent: "redact_secrets (redact_secrets s) = redact_secrets s"
  using redaction_fixed redacted_matches by blast

subsection \<open>What the patterns leave in a text\<close>

text \<open>Where the patterns of the filter act, seen from the result: the replacement of the leftmost match
  is preceded by the text as it was.\<close>

definition consuming :: "(string \<Rightarrow> (string \<times> string) option) \<Rightarrow> bool" where
  "consuming m \<longleftrightarrow> (\<forall>s out rest. m s = Some (out, rest) \<longrightarrow> (\<exists>p. p \<noteq> [] \<and> s = p @ rest))"

lemma consumingD: "consuming m \<Longrightarrow> m s = Some (out, rest) \<Longrightarrow> \<exists>p. p \<noteq> [] \<and> s = p @ rest"
  by (simp add: consuming_def)

lemma sub_all_match:
  assumes "consuming m" "m s = Some (out, rest)"
  shows "sub_all m s = out @ sub_all m rest"
proof -
  obtain p where p: "p \<noteq> []" "s = p @ rest"
    using consumingD [OF assms] by blast
  then obtain c cs where s: "s = c # cs"
    by (cases p) auto
  have "length rest < length (p @ rest)"
    using p(1) by simp
  moreover have "length (p @ rest) = Suc (length cs)"
    using p(2) s by (metis length_Cons)
  ultimately have "length rest \<le> length cs"
    using p(1) by (cases p) simp_all
  with assms(2) show ?thesis
    by (simp add: s)
qed

lemma sub_all_first:
  assumes "consuming m"
  obtains (none) "sub_all m s = s"
  | (first) p t out rest where "s = p @ t" "t \<noteq> []" "m t = Some (out, rest)" "sub_all m s = p @ out @ sub_all m rest"
proof (induction s arbitrary: thesis)
  case Nil
  then show ?case by simp
next
  case (Cons c cs)
  show ?case
  proof (cases "m (c # cs)")
    case None
    then have e: "sub_all m (c # cs) = c # sub_all m cs" by simp
    show ?thesis
    proof (rule Cons.IH)
      assume "sub_all m cs = cs"
      with e show ?thesis by (intro Cons.prems(1)) simp
    next
      fix p t out rest
      assume "cs = p @ t" "t \<noteq> []" "m t = Some (out, rest)" "sub_all m cs = p @ out @ sub_all m rest"
      with e show ?thesis by (intro Cons.prems(2) [of "c # p" t]) simp_all
    qed
  next
    case (Some x)
    then show ?thesis
      using sub_all_match [OF assms, of "c # cs" "fst x" "snd x"] by (intro Cons.prems(2) [of "[]" "c # cs" "fst x" "snd x"]) simp_all
  qed
qed

text \<open>If a property of texts is not created in front of or within a replacement, a text that has it
  behind the substitution had it before.\<close>

lemma sub_all_suffix:
  assumes "consuming m" "\<not> Q []"
    and "\<And>s. s \<noteq> [] \<Longrightarrow> m s = None \<Longrightarrow> Q (sub_all m s) \<Longrightarrow> Q s"
    and "\<And>s out rest a b. m s = Some (out, rest) \<Longrightarrow> out = a @ b \<Longrightarrow> b \<noteq> [] \<Longrightarrow> \<not> Q (b @ sub_all m rest)"
    and "sub_all m s = a @ t" "Q t"
  shows "\<exists>a' t'. s = a' @ t' \<and> Q t' \<and> m t' = None"
  using assms(5)
proof (induction s arbitrary: a rule: length_induct)
  case (1 s)
  show ?case
  proof (cases s)
    case Nil
    with 1(2) assms(2,6) show ?thesis by simp
  next
    case (Cons c cs)
    show ?thesis
    proof (cases "m s")
      case None
      show ?thesis
      proof (cases a)
        case Nil
        with 1(2) have "Q s" using assms(3) [of s] assms(6) None Cons by simp
        with None show ?thesis by blast
      next
        case (Cons d a1)
        with None \<open>s = c # cs\<close> 1(2) have "sub_all m cs = a1 @ t" by simp
        with 1(1) obtain a' t' where "cs = a' @ t'" "Q t'" "m t' = None" using \<open>s = c # cs\<close> by auto
        with \<open>s = c # cs\<close> show ?thesis by (intro exI [of _ "c # a'"] exI [of _ t']) simp
      qed
    next
      case (Some x)
      obtain out rest where x: "m s = Some (out, rest)" using Some by (cases x) simp
      have "out @ sub_all m rest = a @ t"
        using sub_all_match [OF assms(1) x] 1(2) Cons by simp
      then obtain a1 where a1: "sub_all m rest = a1 @ t"
      proof (cases rule: suffix_cases)
        case (left b)
        have "b = []" using assms(4) [OF x left(1)] left(2) assms(6) by auto
        then show ?thesis using left(2) that [of "[]"] by simp
      next
        case (right y)
        then show ?thesis using that by simp
      qed
      obtain p where p: "p \<noteq> []" "s = p @ rest"
        using consumingD [OF assms(1) x] by blast
      then have "length rest < length s" by simp
      with a1 1(1) obtain a' t' where "rest = a' @ t'" "Q t'" "m t' = None" by blast
      with p(2) show ?thesis by (intro exI [of _ "p @ a'"] exI [of _ t']) simp
    qed
  qed
qed

text \<open>The matches of the two other patterns.\<close>

lemma takeWhile_dropWhile_split: "s = takeWhile P s @ dropWhile P s"
  by simp

lemma match_authorization_form:
  assumes "match_authorization s = Some (out, rest)"
  obtains k w x v where "s = k @ w @ x # v @ rest" "lower k \<in> {''basic'', ''bearer''}" "w \<noteq> []" "list_all is_space w"
    "credential_char x" "rest = [] \<or> \<not> credential_char (hd rest)" "out = k @ CHR '' '' # redacted"
proof -
  obtain n where n: "leading_key [''basic'', ''bearer''] s = Some n"
    "drop (length n) s \<noteq> lstrip (drop (length n) s)" "takeWhile credential_char (lstrip (drop (length n) s)) \<noteq> []"
    "out = take (length n) s @ CHR '' '' # redacted" "rest = dropWhile credential_char (lstrip (drop (length n) s))"
    using assms by (auto simp: match_authorization_def Let_def split: option.splits if_splits)
  define k where "k = take (length n) s"
  define r where "r = drop (length n) s"
  have k: "lower k \<in> {''basic'', ''bearer''}"
    using find_Some_iff [THEN iffD1, OF n(1) [unfolded leading_key_def]]
    by (metis (no_types, lifting) k_def list.set(1) list.set(2) nth_mem)
  have s: "s = k @ r" by (simp add: k_def r_def)
  define w where "w = takeWhile is_space r"
  have r: "r = w @ lstrip r" by (simp add: w_def lstrip_def)
  have "w \<noteq> []" using n(2) r unfolding r_def [symmetric] by auto
  moreover have "list_all is_space w" by (auto simp: w_def list_all_iff dest: set_takeWhileD)
  moreover obtain x v where "takeWhile credential_char (lstrip r) = x # v"
    using n(3) unfolding r_def [symmetric] by (cases "takeWhile credential_char (lstrip r)") auto
  moreover from this have "credential_char x" by (metis list.set_intros(1) set_takeWhileD)
  moreover have "lstrip r = takeWhile credential_char (lstrip r) @ rest"
    using n(5) by (simp add: r_def)
  moreover have "rest = [] \<or> \<not> credential_char (hd rest)"
    using n(5) hd_dropWhile [of credential_char] by auto
  moreover have "out = k @ CHR '' '' # redacted" using n(4) by (simp add: k_def)
  ultimately show ?thesis
    using that [of k w x v] k s r by simp
qed

lemma match_authorizationI:
  assumes "s = k @ w @ x # v" "lower k \<in> {''basic'', ''bearer''}" "w \<noteq> []" "list_all is_space w" "credential_char x"
  shows "match_authorization s \<noteq> None"
proof -
  have sp: "\<not> is_space x"
    using assms(5) by (auto simp: credential_char_def is_space_def is_ascii_alpha_def is_digit_def ord_def)
  have l: "length k = length (lower k)" by (simp add: lower_def)
  have "leading_key [''basic'', ''bearer''] s = Some (lower k)"
    using assms(2) l by (auto simp: leading_key_def assms(1) lower_def)
  moreover have "drop (length (lower k)) s = w @ x # v" using assms(1) l by simp
  moreover have "lstrip (w @ x # v) = x # v"
    using assms(4) sp takeWhile_stop [OF assms(4), of "x # v"] by (simp add: lstrip_def)
  ultimately show ?thesis
    using assms(3,5) by (simp add: match_authorization_def Let_def)
qed

lemma consuming_authorization: "consuming match_authorization"
  unfolding consuming_def
proof (intro allI impI)
  fix s out rest assume "match_authorization s = Some (out, rest)"
  then show "\<exists>p. p \<noteq> [] \<and> s = p @ rest"
    by (rule match_authorization_form) (rule exI [of _ "_ @ _ @ _ # _"], simp)
qed

definition uuid_text :: "string \<Rightarrow> bool" where
  "uuid_text u \<longleftrightarrow> (\<exists>a b c d e. u = a @ ''-'' @ b @ ''-'' @ c @ ''-'' @ d @ ''-'' @ e \<and>
     hex_run 8 a \<and> hex_run 4 b \<and> hex_run 4 c \<and> hex_run 4 d \<and> hex_run 12 e)"

lemma hex_not_dash: "hex_run n s \<Longrightarrow> CHR ''-'' \<notin> set s"
  by (auto simp: hex_run_def list_all_iff hex_val_def is_digit_def ord_def)

lemma split_five:
  assumes "hex_run 8 a" "hex_run 4 b" "hex_run 4 c" "hex_run 4 d" "hex_run 12 e"
  shows "split_on (CHR ''-'') (a @ ''-'' @ b @ ''-'' @ c @ ''-'' @ d @ ''-'' @ e) = [a, b, c, d, e]"
  using assms [THEN hex_not_dash] by (simp add: split_on_append split_on_single)

lemma match_uuid_form:
  assumes "match_uuid s = Some (out, rest)"
  obtains u where "s = u @ rest" "length u = 36" "uuid_text u" "out = ''[REDACTED_UUID]''"
proof -
  obtain a b c d e where p: "split_on (CHR ''-'') (take 36 s) = [a, b, c, d, e]"
    "hex_run 8 a" "hex_run 4 b" "hex_run 4 c" "hex_run 4 d" "hex_run 12 e"
    "out = ''[REDACTED_UUID]''" "rest = drop 36 s"
    using assms by (auto simp: match_uuid_def split: list.splits if_splits)
  have "take 36 s = a @ ''-'' @ b @ ''-'' @ c @ ''-'' @ d @ ''-'' @ e"
    using join_split_on [of "CHR ''-''" "take 36 s"] by (simp add: p(1))
  moreover from this have "length (take 36 s) = 36"
    using p(2-6) by (simp add: hex_run_def)
  moreover from calculation(1) have "uuid_text (take 36 s)"
    using p(2-6) unfolding uuid_text_def by blast
  ultimately have "length (take 36 s) = 36" "uuid_text (take 36 s)"
    by (simp_all only:)
  then show ?thesis
    using p(7,8) by (intro that [of "take 36 s"]) (simp_all only: append_take_drop_id)
qed

lemma match_uuidI:
  assumes "uuid_text u"
  shows "match_uuid (u @ r) \<noteq> None"
proof -
  obtain a b c d e where u: "u = a @ ''-'' @ b @ ''-'' @ c @ ''-'' @ d @ ''-'' @ e"
    "hex_run 8 a" "hex_run 4 b" "hex_run 4 c" "hex_run 4 d" "hex_run 12 e"
    using assms by (auto simp: uuid_text_def)
  then have "length u = 36" by (simp add: hex_run_def)
  then have "take 36 (u @ r) = u" by simp
  then show ?thesis
    unfolding match_uuid_def using split_five [OF u(2-6)] u by simp
qed

lemma consuming_uuid: "consuming match_uuid"
  unfolding consuming_def
proof (intro allI impI)
  fix s out rest assume "match_uuid s = Some (out, rest)"
  then show "\<exists>p. p \<noteq> [] \<and> s = p @ rest"
    by (rule match_uuid_form) auto
qed

text \<open>What a text assigns behind a key, and the texts that start with a secret.\<close>

definition unquoted :: "string \<Rightarrow> string" where
  "unquoted v = (if v \<noteq> [] \<and> hd v \<in> quotes then tl v else v)"

definition assigned_value :: "string \<Rightarrow> string option" where
  "assigned_value s =
     (case lstrip s of
        [] \<Rightarrow> None
      | c # r \<Rightarrow> if c = CHR '':'' \<or> c = CHR ''='' then Some (takeWhile secret_char (unquoted (lstrip r))) else None)"

definition open_secret :: "string \<Rightarrow> bool" where
  "open_secret t \<longleftrightarrow> lower (takeWhile key_char t) \<in> set secret_keys \<and>
     (\<exists>v. assigned_value (dropWhile key_char t) = Some v \<and> v \<noteq> [] \<and> v \<noteq> redacted)"

definition open_credentials :: "string \<Rightarrow> bool" where
  "open_credentials t \<longleftrightarrow> lower (takeWhile key_char t) \<in> {''basic'', ''bearer''} \<and>
     (let r = dropWhile key_char t in r \<noteq> lstrip r \<and> lstrip r \<noteq> [] \<and> credential_char (hd (lstrip r)))"

lemma assigned_secret: "assigned_value s = Some v \<Longrightarrow> v \<noteq> [] \<Longrightarrow> \<exists>rest. secret_value s = Some rest"
  by (auto simp: assigned_value_def secret_value_def unquoted_def Let_def split: list.splits if_splits)

lemma redacted_no_secret: "redact_secrets s = a @ t \<Longrightarrow> \<not> open_secret t"
proof
  assume r: "redact_secrets s = a @ t" and "open_secret t"
  then obtain v rest where v: "lower (takeWhile key_char t) \<in> set secret_keys"
    "assigned_value (dropWhile key_char t) = Some v" "v \<noteq> redacted" "secret_value (dropWhile key_char t) = Some rest"
    unfolding open_secret_def using assigned_secret by blast
  from redacted_matches [OF r match_secretI [OF v(1,4)]]
  have "takeWhile key_char t @ dropWhile key_char t = takeWhile key_char t @ CHR ''='' # redacted @ rest"
    by simp
  then have d: "dropWhile key_char t = CHR ''='' # redacted @ rest"
    by (rule same_append_eq [THEN iffD1])
  have "takeWhile secret_char (redacted @ rest) = redacted"
    using takeWhile_stop [OF redacted_chars] rest_head [OF v(4)] by blast
  moreover have "lstrip (CHR ''='' # redacted @ rest) = CHR ''='' # redacted @ rest" "lstrip (redacted @ rest) = redacted @ rest"
    "unquoted (redacted @ rest) = redacted @ rest"
    by (simp_all add: lstrip_def unquoted_def redacted_def is_space_def ord_def quotes_def)
  ultimately show False
    using v(2,3) by (simp add: d assigned_value_def)
qed

lemma lstrip_append: "\<not> list_all is_space p \<Longrightarrow> lstrip (p @ t) = lstrip p @ t"
  by (induction p) (auto simp: lstrip_def)

lemma lstrip_all: "list_all is_space p \<Longrightarrow> lstrip (p @ t) = lstrip t"
  by (induction p) (auto simp: lstrip_def)

lemma lstrip_nonempty: "\<not> list_all is_space p \<Longrightarrow> lstrip p \<noteq> [] \<and> last (lstrip p) = last p"
  by (induction p) (auto simp: lstrip_def)

lemma last_not_space: "p \<noteq> [] \<Longrightarrow> key_char (last p) \<Longrightarrow> \<not> list_all is_space p"
  using key_char_class [of "last p"] last_in_set [of p] by (auto simp: list_all_iff)

lemma unquoted_append: "v \<noteq> [] \<Longrightarrow> unquoted (v @ t) = unquoted v @ t"
  by (auto simp: unquoted_def)

lemma assigned_value_space:
  assumes "p \<noteq> []" "key_char (last p)" "is_space x" "is_space y"
  shows "assigned_value (p @ x # r) = assigned_value (p @ y # r')"
proof -
  note p = last_not_space [OF assms(1,2)]
  obtain c q where q: "lstrip p = c # q" "last (c # q) = last p"
    using lstrip_nonempty [OF p] by (cases "lstrip p") auto
  show ?thesis
  proof (cases "c = CHR '':'' \<or> c = CHR ''=''")
    case True
    then have "\<not> key_char c" using key_char_class by blast
    then have "q \<noteq> []" "key_char (last q)" using q(2) assms(2) by (auto split: if_splits)
    note n = last_not_space [OF this]
    have "\<not> secret_char x" "\<not> secret_char y" using assms(3,4) by (simp_all add: secret_char_def)
    then show ?thesis
      using lstrip_nonempty [OF n]
      by (simp add: assigned_value_def lstrip_append [OF p] q(1) lstrip_append [OF n] unquoted_append takeWhile_tail)
  qed (simp add: assigned_value_def lstrip_append [OF p] q(1))
qed

lemma first_run:
  assumes "\<not> list_all key_char p"
  shows "takeWhile key_char (p @ t) = takeWhile key_char p" "dropWhile key_char (p @ t) = dropWhile key_char p @ t"
  using assms by (induction p) auto

lemma rest_of_run:
  assumes "\<not> list_all key_char p" "key_char (last p)"
  shows "dropWhile key_char p \<noteq> []" "key_char (last (dropWhile key_char p))"
proof -
  show n: "dropWhile key_char p \<noteq> []" using assms(1) by (auto simp: list_all_iff)
  have "last (takeWhile key_char p @ dropWhile key_char p) = last (dropWhile key_char p)"
    using n by (rule last_appendR)
  then show "key_char (last (dropWhile key_char p))" using assms(2) by simp
qed

lemma whole_run: "list_all key_char p \<Longrightarrow> \<not> key_char x \<Longrightarrow>
    takeWhile key_char (p @ x # r) = p \<and> dropWhile key_char (p @ x # r) = x # r"
  by (intro takeWhile_stop) simp_all

lemma secret_key_last: "k \<in> set secret_keys \<Longrightarrow> last k \<in> {CHR ''d'', CHR ''n'', CHR ''t''}"
  by (auto simp: secret_keys_def)

lemma scheme_facts:
  assumes "lower k \<in> {''basic'', ''bearer''}"
  shows "k \<noteq> []" "list_all key_char k" "last (lower k) \<notin> {CHR ''d'', CHR ''n'', CHR ''t''}"
proof -
  show "k \<noteq> []" using assms by (auto simp: lower_def)
  have "list_all key_char (lower k)"
    using assms by (auto simp: key_char_def is_ascii_alpha_def ord_def)
  then show "list_all key_char k"
    by (auto simp: list_all_iff lower_def intro: lower_key_char)
  show "last (lower k) \<notin> {CHR ''d'', CHR ''n'', CHR ''t''}" using assms by auto
qed

lemma scheme_no_key:
  assumes "lower k \<in> {''basic'', ''bearer''}"
  shows "lower (p @ k) \<notin> set secret_keys"
proof
  assume "lower (p @ k) \<in> set secret_keys"
  moreover have "last (lower (p @ k)) = last (lower k)"
    using scheme_facts(1) [OF assms] by (simp add: lower_def)
  ultimately show False
    using secret_key_last scheme_facts(3) [OF assms] by metis
qed

lemma space_no_key: "is_space x \<Longrightarrow> \<not> key_char x"
  using key_char_class by blast

subsubsection \<open>Neither substitution uncovers a secret\<close>

text \<open>The text in front of a replaced authorization ends with its scheme, that in front of a replaced
  identifier is followed by a bracket.\<close>

lemma secret_before_authorization:
  assumes "lower k \<in> {''basic'', ''bearer''}" "is_space x" "is_space y"
    and "open_secret ((p @ k) @ x # r)"
  shows "open_secret ((p @ k) @ y # r')"
proof -
  note k = scheme_facts [OF assms(1)]
  have l: "key_char (last (p @ k))"
    using k(1,2) last_in_set [of k] by (simp add: list_all_iff)
  have n: "\<not> list_all key_char (p @ k)"
  proof
    assume "list_all key_char (p @ k)"
    then have "takeWhile key_char ((p @ k) @ x # r) = p @ k"
      using whole_run space_no_key [OF assms(2)] by blast
    then show False
      using assms(4) scheme_no_key [OF assms(1)] by (simp add: open_secret_def)
  qed
  show ?thesis
    using assms(4) unfolding open_secret_def first_run [OF n]
    using assigned_value_space [OF rest_of_run [OF n l] assms(2,3)] by metis
qed

lemma credentials_before_authorization:
  assumes "lower k \<in> {''basic'', ''bearer''}" "is_space x" "w \<noteq> []" "list_all is_space w" "credential_char y"
    and "open_credentials ((p @ k) @ x # r)"
  shows "open_credentials ((p @ k) @ w @ y # r')"
proof -
  note k = scheme_facts [OF assms(1)]
  have l: "key_char (last (p @ k))"
    using k(1,2) last_in_set [of k] by (simp add: list_all_iff)
  have y: "\<not> is_space y"
    using assms(5) by (auto simp: credential_char_def is_space_def is_ascii_alpha_def is_digit_def ord_def)
  obtain z w' where w: "w = z # w'" "is_space z"
    using assms(3,4) by (cases w) auto
  show ?thesis
  proof (cases "list_all key_char (p @ k)")
    case True
    have "takeWhile key_char ((p @ k) @ x # r) = p @ k"
      using whole_run [OF True] space_no_key [OF assms(2)] by blast
    moreover have "takeWhile key_char ((p @ k) @ z # w' @ y # r') = p @ k"
      "dropWhile key_char ((p @ k) @ z # w' @ y # r') = z # w' @ y # r'"
      using whole_run [OF True] space_no_key [OF w(2)] by blast+
    moreover have "lstrip (w @ y # r') = y # r'"
      using assms(4) y by (simp add: lstrip_all) (simp add: lstrip_def)
    ultimately show ?thesis
      using assms(5,6) w by (simp add: open_credentials_def)
  next
    case False
    note q = last_not_space [OF rest_of_run [OF False l]]
    show ?thesis
      using assms(6) lstrip_nonempty [OF q]
      unfolding open_credentials_def first_run [OF False] Let_def lstrip_append [OF q] by simp
  qed
qed

definition plain_start :: "char \<Rightarrow> bool" where
  "plain_start c \<longleftrightarrow> \<not> is_space c \<and> c \<notin> quotes"

lemma lstrip_plain: "plain_start c \<Longrightarrow> lstrip (c # t) = c # t"
  by (simp add: plain_start_def lstrip_def)

lemma takeWhile_long: "list_all P u \<Longrightarrow> takeWhile P (v @ u @ r) = takeWhile P v \<or>
    length u \<le> length (takeWhile P (v @ u @ r))"
  by (cases "list_all P v") (auto simp: list_all_iff takeWhile_append)

lemma assigned_value_marker:
  assumes "assigned_value (p @ c # r) = Some v" "plain_start c" "c \<notin> {CHR '':'', CHR ''=''}" "secret_char c"
    and "plain_start d" "list_all secret_char (d # u)" "v \<noteq> []" "v \<noteq> redacted" "10 < length (d # u)"
  shows "\<exists>v'. assigned_value (p @ (d # u) @ r') = Some v' \<and> v' \<noteq> [] \<and> v' \<noteq> redacted"
proof -
  have long: "v' \<noteq> [] \<and> v' \<noteq> redacted" if "length (d # u) \<le> length v'" for v' :: string
    using that assms(9) by (auto simp: redacted_def)
  have s: "\<not> list_all is_space p"
  proof
    assume "list_all is_space p"
    then show False
      using assms(1-3) by (simp add: assigned_value_def lstrip_all lstrip_plain)
  qed
  obtain e q where q: "lstrip p = e # q"
    using lstrip_nonempty [OF s] by (cases "lstrip p") auto
  then have sep: "e = CHR '':'' \<or> e = CHR ''=''" and v: "v = takeWhile secret_char (unquoted (lstrip (q @ c # r)))"
    using assms(1) by (auto simp: assigned_value_def lstrip_append [OF s] split: if_splits)
  have a: "assigned_value (p @ (d # u) @ r') = Some (takeWhile secret_char (unquoted (lstrip (q @ (d # u) @ r'))))"
    using sep q by (auto simp: assigned_value_def lstrip_append [OF s])
  show ?thesis
  proof (cases "list_all is_space q")
    case True
    have "unquoted (lstrip (q @ (d # u) @ r')) = (d # u) @ r'"
      using assms(5) by (simp add: lstrip_all [OF True] lstrip_plain) (simp add: unquoted_def plain_start_def)
    moreover have "takeWhile secret_char ((d # u) @ r') = (d # u) @ takeWhile secret_char r'"
      using assms(6) by (intro takeWhile_append2) (auto simp: list_all_iff)
    ultimately show ?thesis
      using a long [of "(d # u) @ takeWhile secret_char r'"] by simp
  next
    case False
    define w where "w = unquoted (lstrip q)"
    have w: "unquoted (lstrip (q @ t)) = w @ t" for t
      using lstrip_nonempty [OF False] by (simp add: lstrip_append [OF False] unquoted_append w_def)
    have av: "assigned_value (p @ (d # u) @ r') = Some (takeWhile secret_char (w @ (d # u) @ r'))"
      using a by (simp only: w)
    show ?thesis
    proof (cases "list_all secret_char w")
      case True
      then have "takeWhile secret_char (w @ (d # u) @ r') = w @ (d # u) @ takeWhile secret_char r'"
        using assms(6) takeWhile_append2 [of "w @ d # u" secret_char r'] by (auto simp: list_all_iff)
      then show ?thesis
        using av long [of "w @ (d # u) @ takeWhile secret_char r'"] by simp
    next
      case False
      then obtain x where x: "x \<in> set w" "\<not> secret_char x" by (auto simp: list_all_iff)
      have "takeWhile secret_char (w @ t) = takeWhile secret_char w" for t
        using x by (rule takeWhile_append1)
      then show ?thesis
        using av v w assms(7,8) by simp
    qed
  qed
qed

lemma secret_before_marker:
  assumes "open_secret (p @ c # r)" "plain_start c" "c \<notin> {CHR '':'', CHR ''=''}" "secret_char c" "\<not> key_char c"
    and "plain_start d" "list_all secret_char (d # u)" "10 < length (d # u)"
  shows "open_secret (p @ (d # u) @ r')"
proof -
  have n: "\<not> list_all key_char p"
  proof
    assume "list_all key_char p"
    from whole_run [OF this assms(5)] show False
      using assms(1-3) by (auto simp: open_secret_def assigned_value_def lstrip_plain)
  qed
  from assms(1) obtain v where v: "assigned_value (dropWhile key_char p @ c # r) = Some v" "v \<noteq> []" "v \<noteq> redacted"
    "lower (takeWhile key_char p) \<in> set secret_keys"
    by (auto simp: open_secret_def first_run [OF n])
  from assigned_value_marker [OF v(1) assms(2,3,4,6,7) v(2,3) assms(8)] v(4)
  show ?thesis unfolding open_secret_def first_run [OF n] by blast
qed

lemma credentials_before_marker:
  assumes "open_credentials (p @ c # r)" "plain_start c" "\<not> credential_char c" "\<not> key_char c"
  shows "open_credentials (p @ r')"
proof -
  have n: "\<not> list_all key_char p"
  proof
    assume "list_all key_char p"
    from whole_run [OF this assms(4)] show False
      using assms(1,2) by (simp add: open_credentials_def lstrip_plain)
  qed
  have s: "\<not> list_all is_space (dropWhile key_char p)"
  proof
    assume "list_all is_space (dropWhile key_char p)"
    then show False
      using assms(1-3) by (simp add: open_credentials_def first_run [OF n] lstrip_all lstrip_plain)
  qed
  show ?thesis
    using assms(1) lstrip_nonempty [OF s]
    unfolding open_credentials_def first_run [OF n] Let_def lstrip_append [OF s] by simp
qed

text \<open>Within a replacement nothing of the kind starts.\<close>

definition REPLACEMENTS :: "string list" where
  "REPLACEMENTS = [CHR '' '' # redacted, ''[REDACTED_UUID]'']"

definition no_key_within :: "string \<Rightarrow> bool" where
  "no_key_within x \<longleftrightarrow>
     list_all (\<lambda>n. lower (takeWhile key_char (drop n x)) \<notin> set ([''basic'', ''bearer''] @ secret_keys)) [0..<length x]"

lemma lower_uuid: "lower_char (CHR ''U'') = CHR ''u'' \<and> lower_char (CHR ''I'') = CHR ''i'' \<and> lower_char (CHR ''_'') = CHR ''_''"
  by code_simp

lemma key_chars_in_marker:
  "key_char (CHR ''R'')" "key_char (CHR ''E'')" "key_char (CHR ''D'')" "key_char (CHR ''A'')" "key_char (CHR ''C'')"
  "key_char (CHR ''T'')" "key_char (CHR ''U'')" "key_char (CHR ''I'')" "key_char (CHR ''_'')"
  "\<not> key_char (CHR '']'')" "\<not> key_char (CHR ''['')" "\<not> key_char (CHR '' '')"
  by (simp_all add: key_char_def is_ascii_alpha_def ord_def)

lemma replacements_ok: "list_all (\<lambda>x. no_key_within x \<and> last x = CHR '']'') REPLACEMENTS"
  by (simp add: REPLACEMENTS_def redacted_def no_key_within_def upt_rec [of 0] upt_rec key_chars_in_marker lower_def
      lower_redacted lower_uuid secret_keys_def)

lemma inside_marker:
  assumes "y @ b \<in> set REPLACEMENTS" "b \<noteq> []"
  shows "lower (takeWhile key_char (b @ r)) \<notin> set ([''basic'', ''bearer''] @ secret_keys)"
proof -
  have ok: "no_key_within (y @ b)" "last b = CHR '']''"
    using replacements_ok assms by (auto simp: list_all_iff)
  have "CHR '']'' \<in> set b" using ok(2) assms(2) last_in_set by metis
  moreover have "\<not> key_char (CHR '']'')" by (simp add: key_chars_in_marker)
  ultimately have "takeWhile key_char (b @ r) = takeWhile key_char b" by (rule takeWhile_append1)
  moreover have "lower (takeWhile key_char (drop (length y) (y @ b))) \<notin> set ([''basic'', ''bearer''] @ secret_keys)"
    using ok(1) unfolding no_key_within_def list_all_iff by (rule bspec) (use assms(2) in simp)
  ultimately show ?thesis by simp
qed

lemma inside_authorization:
  assumes "lower k \<in> {''basic'', ''bearer''}" "k @ CHR '' '' # redacted = a @ b" "b \<noteq> []"
  shows "\<not> open_secret (b @ r) \<and> \<not> open_credentials (b @ r)"
  using assms(2)
proof (cases rule: suffix_cases)
  case (left x)
  show ?thesis
  proof (cases "x = []")
    case True
    then have "[] @ b \<in> set REPLACEMENTS" using left by (simp add: REPLACEMENTS_def)
    from inside_marker [OF this assms(3)] show ?thesis
      by (simp add: open_secret_def open_credentials_def)
  next
    case False
    have x: "list_all key_char x" "last (lower x) = last (lower k)"
      using scheme_facts(2) [OF assms(1)] left(1) False by (auto simp: lower_def)
    have run: "takeWhile key_char (b @ r) = x \<and> dropWhile key_char (b @ r) = CHR '' '' # redacted @ r"
      using whole_run [OF x(1), of "CHR '' ''" "redacted @ r"] left(2) space_no_key [of "CHR '' ''"]
      by (simp add: is_space_def ord_def)
    have "lower x \<notin> set secret_keys"
      using secret_key_last [of "lower x"] x(2) scheme_facts(3) [OF assms(1)] by metis
    moreover have "lstrip (CHR '' '' # redacted @ r) = redacted @ r" "\<not> credential_char (hd (redacted @ r))"
      by (simp_all add: lstrip_def redacted_def is_space_def ord_def credential_char_def is_ascii_alpha_def is_digit_def)
    ultimately show ?thesis
      using run by (simp add: open_secret_def open_credentials_def)
  qed
next
  case (right y)
  then have "y @ b \<in> set REPLACEMENTS" by (simp add: REPLACEMENTS_def)
  from inside_marker [OF this assms(3)] show ?thesis
    by (simp add: open_secret_def open_credentials_def)
qed

lemma blank_is_space: "is_space (CHR '' '')"
  by (simp add: is_space_def ord_def)

lemma before_authorization:
  shows secret_was_open: "open_secret (sub_all match_authorization s) \<Longrightarrow> open_secret s"
    and credentials_were_open: "open_credentials (sub_all match_authorization s) \<Longrightarrow> open_credentials s"
proof -
  have "(open_secret (sub_all match_authorization s) \<longrightarrow> open_secret s) \<and>
      (open_credentials (sub_all match_authorization s) \<longrightarrow> open_credentials s)"
  proof (rule sub_all_first [OF consuming_authorization, of s])
    fix p t out rest
    assume f: "s = p @ t" "match_authorization t = Some (out, rest)"
      "sub_all match_authorization s = p @ out @ sub_all match_authorization rest"
    obtain k w x v where k: "t = k @ w @ x # v @ rest" "lower k \<in> {''basic'', ''bearer''}" "w \<noteq> []" "list_all is_space w"
      "credential_char x" "out = k @ CHR '' '' # redacted"
      using f(2) by (rule match_authorization_form)
    obtain z w' where w: "w = z # w'" "is_space z"
      using k(3,4) by (cases w) auto
    have e: "s = (p @ k) @ z # w' @ x # v @ rest" "s = (p @ k) @ w @ x # v @ rest"
      "sub_all match_authorization s = (p @ k) @ CHR '' '' # redacted @ sub_all match_authorization rest"
      using f(1,3) k(1,6) w(1) by simp_all
    show ?thesis
      unfolding e(3)
      using secret_before_authorization [OF k(2) blank_is_space w(2), of p _ "w' @ x # v @ rest", folded e(1)]
        credentials_before_authorization [OF k(2) blank_is_space k(3,4,5), of p _ "v @ rest", folded e(2)] by blast
  qed simp
  then show "open_secret (sub_all match_authorization s) \<Longrightarrow> open_secret s"
    "open_credentials (sub_all match_authorization s) \<Longrightarrow> open_credentials s" by blast+
qed

lemma empty_is_closed: "\<not> open_secret []" "\<not> open_credentials []"
  by (simp_all add: open_secret_def open_credentials_def secret_keys_def lower_def)

lemma within_authorization:
  assumes "match_authorization s = Some (out, rest)" "out = a @ b" "b \<noteq> []"
  shows "\<not> open_secret (b @ r)" "\<not> open_credentials (b @ r)"
proof -
  obtain k where "lower k \<in> {''basic'', ''bearer''}" "out = k @ CHR '' '' # redacted"
    using assms(1) by (rule match_authorization_form)
  then show "\<not> open_secret (b @ r)" "\<not> open_credentials (b @ r)"
    using inside_authorization assms(2,3) by blast+
qed

lemma authorization_uncovers_nothing:
  assumes "\<And>a t. s = a @ t \<Longrightarrow> \<not> open_secret t" "sub_all match_authorization s = a @ t"
  shows "\<not> open_secret t"
proof
  assume o: "open_secret t"
  have "\<exists>a' t'. s = a' @ t' \<and> open_secret t' \<and> match_authorization t' = None"
    by (rule sub_all_suffix [OF consuming_authorization empty_is_closed(1) _ _ assms(2) o])
       (blast intro: secret_was_open, blast dest: within_authorization(1))
  then show False using assms(1) by blast
qed

lemma open_credentials_match: "open_credentials t \<Longrightarrow> match_authorization t \<noteq> None"
proof -
  assume o: "open_credentials t"
  define k where "k = takeWhile key_char t"
  define r where "r = dropWhile key_char t"
  have t: "t = k @ r" by (simp add: k_def r_def)
  have r: "lower k \<in> {''basic'', ''bearer''}" "r \<noteq> lstrip r" "lstrip r \<noteq> []" "credential_char (hd (lstrip r))"
    using o by (simp_all add: open_credentials_def Let_def k_def r_def)
  have s: "r = takeWhile is_space r @ lstrip r" by (simp add: lstrip_def)
  then have w: "takeWhile is_space r \<noteq> []" using r(2) by (metis append_Nil)
  have "list_all is_space (takeWhile is_space r)" by (auto simp: list_all_iff dest: set_takeWhileD)
  moreover have "t = k @ takeWhile is_space r @ hd (lstrip r) # tl (lstrip r)"
    using t s r(3) by simp
  ultimately show ?thesis using match_authorizationI [OF _ r(1) w _ r(4)] by blast
qed

lemma authorization_complete: "sub_all match_authorization s = a @ t \<Longrightarrow> \<not> open_credentials t"
proof
  assume e: "sub_all match_authorization s = a @ t" and o: "open_credentials t"
  have "\<exists>a' t'. s = a' @ t' \<and> open_credentials t' \<and> match_authorization t' = None"
    by (rule sub_all_suffix [OF consuming_authorization empty_is_closed(2) _ _ e o])
       (blast intro: credentials_were_open, blast dest: within_authorization(2))
  then show False using open_credentials_match by blast
qed

subsubsection \<open>Identifiers\<close>

definition open_uuid :: "string \<Rightarrow> bool" where
  "open_uuid t \<longleftrightarrow> (\<exists>u r. t = u @ r \<and> uuid_text u)"

definition uuid_char :: "char \<Rightarrow> bool" where
  "uuid_char c \<longleftrightarrow> hex_val c \<noteq> None \<or> c = CHR ''-''"

lemma uuid_facts:
  assumes "uuid_text u"
  shows "length u = 36" "list_all uuid_char u"
  using assms by (auto simp: uuid_text_def hex_run_def list_all_iff uuid_char_def)

lemma uuid_char_class:
  "uuid_char c \<Longrightarrow> plain_start c \<and> secret_char c \<and> c \<noteq> CHR ''['' \<and> c \<noteq> CHR '']''"
  by (auto simp: uuid_char_def plain_start_def secret_char_def quotes_def hex_val_def is_digit_def is_space_def ord_def
      split: if_splits)

lemma bracket_class:
  "plain_start (CHR ''['')" "CHR ''['' \<notin> {CHR '':'', CHR ''=''}" "secret_char (CHR ''['')" "\<not> key_char (CHR ''['')"
  "\<not> credential_char (CHR ''['')"
  by (simp_all add: plain_start_def secret_char_def quotes_def is_space_def key_char_def credential_char_def
      is_ascii_alpha_def is_digit_def ord_def)

lemma before_uuid:
  shows secret_was_open': "open_secret (sub_all match_uuid s) \<Longrightarrow> open_secret s"
    and credentials_were_open': "open_credentials (sub_all match_uuid s) \<Longrightarrow> open_credentials s"
    and uuid_was_open: "open_uuid (sub_all match_uuid s) \<Longrightarrow> open_uuid s"
proof -
  have "(open_secret (sub_all match_uuid s) \<longrightarrow> open_secret s) \<and>
      (open_credentials (sub_all match_uuid s) \<longrightarrow> open_credentials s) \<and>
      (open_uuid (sub_all match_uuid s) \<longrightarrow> open_uuid s)"
  proof (rule sub_all_first [OF consuming_uuid, of s])
    fix p t out rest
    assume f: "s = p @ t" "match_uuid t = Some (out, rest)" "sub_all match_uuid s = p @ out @ sub_all match_uuid rest"
    obtain u where u: "t = u @ rest" "uuid_text u" "out = ''[REDACTED_UUID]''"
      using f(2) by (rule match_uuid_form)
    note uf = uuid_facts [OF u(2)]
    obtain d v where d: "u = d # v" using uf(1) by (cases u) auto
    have c: "plain_start d" "list_all secret_char (d # v)" "10 < length (d # v)"
      using uf uuid_char_class by (auto simp: d list_all_iff)
    have e: "s = p @ (d # v) @ rest" "s = p @ (u @ rest)"
      "sub_all match_uuid s = p @ CHR ''['' # ''REDACTED_UUID]'' @ sub_all match_uuid rest"
      using f(1,3) u d by simp_all
    have "open_uuid s" if "open_uuid (sub_all match_uuid s)"
    proof -
      obtain x r where x: "uuid_text x" "x @ r = p @ CHR ''['' # ''REDACTED_UUID]'' @ sub_all match_uuid rest"
        using \<open>open_uuid (sub_all match_uuid s)\<close> unfolding e(3) open_uuid_def by metis
      have n: "CHR ''['' \<notin> set x"
        using uuid_facts(2) [OF x(1)] uuid_char_class by (auto simp: list_all_iff)
      from x(2) show ?thesis
      proof (cases rule: suffix_cases)
        case (left y)
        then have "x = p" using n by (cases y) auto
        then show ?thesis using x(1) f(1) unfolding open_uuid_def by blast
      next
        case (right y)
        then show ?thesis using x(1) f(1) unfolding open_uuid_def by auto
      qed
    qed
    then show ?thesis
      unfolding e(3)
      using secret_before_marker [OF _ bracket_class(1,2,3,4) c, of p _ rest, folded e(1)]
        credentials_before_marker [OF _ bracket_class(1,5,4), of p _ "u @ rest", folded e(2)] e(3) by metis
  qed simp
  then show "open_secret (sub_all match_uuid s) \<Longrightarrow> open_secret s"
    "open_credentials (sub_all match_uuid s) \<Longrightarrow> open_credentials s"
    "open_uuid (sub_all match_uuid s) \<Longrightarrow> open_uuid s" by blast+
qed

lemma empty_no_uuid: "\<not> open_uuid []"
  using uuid_facts(1) by (force simp: open_uuid_def)

lemma within_uuid:
  assumes "match_uuid s = Some (out, rest)" "out = a @ b" "b \<noteq> []"
  shows "\<not> open_secret (b @ r)" "\<not> open_credentials (b @ r)" "\<not> open_uuid (b @ r)"
proof -
  have o: "out = ''[REDACTED_UUID]''" using assms(1) by (rule match_uuid_form)
  then have "a @ b \<in> set REPLACEMENTS" using assms(2) by (simp add: REPLACEMENTS_def)
  from inside_marker [OF this assms(3)]
  show "\<not> open_secret (b @ r)" "\<not> open_credentials (b @ r)"
    by (simp_all add: open_secret_def open_credentials_def)
  show "\<not> open_uuid (b @ r)"
  proof
    assume "open_uuid (b @ r)"
    then obtain u q where u: "uuid_text u" "b @ r = u @ q" by (auto simp: open_uuid_def)
    have "length (a @ b) = 15" unfolding assms(2) [symmetric] o by simp
    then have "length b < length u" using uuid_facts(1) [OF u(1)] by simp
    with u(2) have "set b \<subseteq> set u" by (auto simp: append_eq_append_conv2)
    moreover have "last (a @ b) = CHR '']''" unfolding assms(2) [symmetric] o by simp
    then have "CHR '']'' \<in> set b" using assms(3) last_in_set [of b] by simp
    ultimately show False
      using uuid_facts(2) [OF u(1)] uuid_char_class by (auto simp: list_all_iff)
  qed
qed

lemma uuid_uncovers_nothing:
  assumes "sub_all match_uuid s = a @ t"
  shows "\<lbrakk>\<And>a t. s = a @ t \<Longrightarrow> \<not> open_secret t\<rbrakk> \<Longrightarrow> \<not> open_secret t"
    and "\<lbrakk>\<And>a t. s = a @ t \<Longrightarrow> \<not> open_credentials t\<rbrakk> \<Longrightarrow> \<not> open_credentials t"
    and "\<not> open_uuid t"
proof -
  show "\<not> open_secret t" if n: "\<And>a t. s = a @ t \<Longrightarrow> \<not> open_secret t"
  proof
    assume o: "open_secret t"
    have "\<exists>a' t'. s = a' @ t' \<and> open_secret t' \<and> match_uuid t' = None"
      by (rule sub_all_suffix [OF consuming_uuid empty_is_closed(1) _ _ assms o])
         (blast intro: secret_was_open', blast dest: within_uuid(1))
    then show False using n by blast
  qed
  show "\<not> open_credentials t" if n: "\<And>a t. s = a @ t \<Longrightarrow> \<not> open_credentials t"
  proof
    assume o: "open_credentials t"
    have "\<exists>a' t'. s = a' @ t' \<and> open_credentials t' \<and> match_uuid t' = None"
      by (rule sub_all_suffix [OF consuming_uuid empty_is_closed(2) _ _ assms o])
         (blast intro: credentials_were_open', blast dest: within_uuid(2))
    then show False using n by blast
  qed
  show "\<not> open_uuid t"
  proof
    assume o: "open_uuid t"
    have "\<exists>a' t'. s = a' @ t' \<and> open_uuid t' \<and> match_uuid t' = None"
      by (rule sub_all_suffix [OF consuming_uuid empty_no_uuid _ _ assms o])
         (blast intro: uuid_was_open, blast dest: within_uuid(3))
    then obtain u r where "uuid_text u" "match_uuid (u @ r) = None" by (auto simp: open_uuid_def)
    then show False using match_uuidI by blast
  qed
qed

lemma sanitized_text:
  assumes "sanitize_log_text s = a @ t"
  shows "\<not> open_secret t" "\<not> open_credentials t" "\<not> open_uuid t"
proof -
  have e: "sub_all match_uuid (sub_all match_authorization (redact_secrets s)) = a @ t"
    using assms by (simp add: sanitize_log_text_def PATTERNS_def redact_secrets_def)
  show "\<not> open_secret t"
    by (rule uuid_uncovers_nothing(1) [OF e], rule authorization_uncovers_nothing, rule redacted_no_secret)
  show "\<not> open_credentials t"
    by (rule uuid_uncovers_nothing(2) [OF e], rule authorization_complete)
  show "\<not> open_uuid t"
    by (rule uuid_uncovers_nothing(3) [OF e])
qed

subsubsection \<open>The redacted texts, described without the patterns\<close>

text \<open>\<open>assigns_secret t v\<close>: the text starts with the name of a secret, a separator and the whole value
  \<open>v\<close>, which reaches up to a quote, a comma, white space or the end.\<close>

definition value_end :: "char \<Rightarrow> bool" where
  "value_end c \<longleftrightarrow> c = CHR 0x22 \<or> c = CHR 0x27 \<or> c = CHR '','' \<or> is_space c"

definition assigns_secret :: "string \<Rightarrow> string \<Rightarrow> bool" where
  "assigns_secret t v \<longleftrightarrow>
     (\<exists>k w c w' q b. t = k @ w @ [c] @ w' @ q @ v @ b \<and>
        lower k \<in> {''password'', ''admin_password'', ''token'', ''secret''} \<and> list_all is_space w \<and>
        c \<in> {CHR '':'', CHR ''=''} \<and> list_all is_space w' \<and> q \<in> {[], [CHR 0x22], [CHR 0x27]} \<and>
        v \<noteq> [] \<and> \<not> list_ex value_end v \<and> (b = [] \<or> value_end (hd b)))"

text \<open>An authorization scheme with at least the first character of its credentials.\<close>

definition shows_credentials :: "string \<Rightarrow> bool" where
  "shows_credentials t \<longleftrightarrow>
     (\<exists>k w x b. t = k @ w @ x # b \<and> lower k \<in> {''basic'', ''bearer''} \<and> w \<noteq> [] \<and> list_all is_space w \<and>
        (is_ascii_alpha x \<or> is_digit x \<or> x \<in> set ''+/=._-''))"

definition hex_text :: "string \<Rightarrow> bool" where
  "hex_text s \<longleftrightarrow> set s \<subseteq> set ''0123456789abcdefABCDEF''"

definition shows_identifier :: "string \<Rightarrow> bool" where
  "shows_identifier t \<longleftrightarrow>
     (\<exists>a b c d e r. t = a @ ''-'' @ b @ ''-'' @ c @ ''-'' @ d @ ''-'' @ e @ r \<and>
        map length [a, b, c, d, e] = [8, 4, 4, 4, 12] \<and> list_all hex_text [a, b, c, d, e])"

lemma value_end_iff: "value_end c \<longleftrightarrow> \<not> secret_char c"
  by (auto simp: value_end_def secret_char_def quotes_def)

lemma assigns_secret_open:
  assumes "assigns_secret t v" "v \<noteq> redacted"
  shows "open_secret t"
proof -
  obtain k w c w' q b where t: "t = k @ w @ [c] @ w' @ q @ v @ b"
    "lower k \<in> {''password'', ''admin_password'', ''token'', ''secret''}" "list_all is_space w"
    "c \<in> {CHR '':'', CHR ''=''}" "list_all is_space w'" "q \<in> {[], [CHR 0x22], [CHR 0x27]}"
    "v \<noteq> []" "\<not> list_ex value_end v" "b = [] \<or> value_end (hd b)"
    using assms(1) unfolding assigns_secret_def by blast
  have k: "lower k \<in> set secret_keys" using t(2) by (auto simp: secret_keys_def)
  then have "list_all key_char (lower k)" by (rule secret_keys_chars)
  then have kc: "list_all key_char k"
    by (auto simp: list_all_iff lower_def intro: lower_key_char)
  have c: "\<not> key_char c" "\<not> is_space c" using t(4) key_char_class by (auto simp: is_space_def ord_def)
  define rest where "rest = w @ c # w' @ q @ v @ b"
  have "rest \<noteq> []" "\<not> key_char (hd rest)"
    using t(3) c space_no_key by (cases w; simp add: rest_def)+
  then have run: "takeWhile key_char t = k" "dropWhile key_char t = rest"
    using takeWhile_stop [OF kc, of rest] t(1) by (simp_all add: rest_def)
  have v: "list_all secret_char v" using t(8) by (auto simp: value_end_iff list_ex_iff list_all_iff)
  then have vh: "plain_start (hd v)" using t(7) by (cases v) (auto simp: plain_start_def secret_char_def)
  have tail: "takeWhile secret_char (v @ b) = v"
    using takeWhile_stop [OF v, of b] t(9) by (auto simp: value_end_iff)
  have qs: "\<not> is_space (CHR 0x22)" "\<not> is_space (CHR 0x27)" by (simp_all add: is_space_def ord_def)
  have hv: "\<not> is_space (hd v)" "hd v \<notin> quotes" using vh by (simp_all add: plain_start_def)
  have "lstrip (q @ v @ b) = q @ v @ b"
    using t(6) qs hv t(7) by (cases v) (auto simp: lstrip_def)
  moreover have "unquoted (q @ v @ b) = v @ b"
    using t(6) hv t(7) by (cases v) (auto simp: unquoted_def quotes_def)
  moreover have "lstrip rest = c # w' @ q @ v @ b"
    using c(2) by (simp add: rest_def lstrip_all [OF t(3)]) (simp add: lstrip_def)
  ultimately have "assigned_value rest = Some v"
    using t(4) tail by (auto simp: assigned_value_def lstrip_all [OF t(5)])
  then show ?thesis
    using k run t(7) assms(2) by (simp add: open_secret_def)
qed

lemma shows_credentials_open: "shows_credentials t \<Longrightarrow> open_credentials t"
proof -
  assume "shows_credentials t"
  then obtain k w x b where t: "t = k @ w @ x # b" "lower k \<in> {''basic'', ''bearer''}" "w \<noteq> []" "list_all is_space w"
    "credential_char x"
    unfolding shows_credentials_def credential_char_def by blast
  obtain z w' where w: "w = z # w'" "is_space z" using t(3,4) by (cases w) auto
  have x: "\<not> is_space x"
    using t(5) by (auto simp: credential_char_def is_space_def is_ascii_alpha_def is_digit_def ord_def)
  have "takeWhile key_char t = k \<and> dropWhile key_char t = w @ x # b"
    using whole_run [OF scheme_facts(2) [OF t(2)] space_no_key [OF w(2)]] t(1) w(1) by simp
  moreover have "lstrip (w @ x # b) = x # b"
    using x by (simp add: lstrip_all [OF t(4)]) (simp add: lstrip_def)
  ultimately show ?thesis
    using t(2,3,5) by (simp add: open_credentials_def)
qed

lemma hex_digits: "list_all (\<lambda>c. hex_val c \<noteq> None) ''0123456789abcdefABCDEF''"
  by (simp add: hex_val_def is_digit_def ord_def)

lemma hex_textD: "hex_text s \<Longrightarrow> length s = n \<Longrightarrow> hex_run n s"
  using hex_digits unfolding hex_text_def hex_run_def list_all_iff by blast

lemma shows_identifier_open: "shows_identifier t \<Longrightarrow> open_uuid t"
proof -
  assume "shows_identifier t"
  then obtain a b c d e r where t: "t = a @ ''-'' @ b @ ''-'' @ c @ ''-'' @ d @ ''-'' @ e @ r \<and>
    map length [a, b, c, d, e] = [8, 4, 4, 4, 12] \<and> list_all hex_text [a, b, c, d, e]"
    unfolding shows_identifier_def by (elim exE)
  then have "hex_run 8 a" "hex_run 4 b" "hex_run 4 c" "hex_run 4 d" "hex_run 12 e"
    by (simp_all add: hex_textD)
  then have "uuid_text (a @ ''-'' @ b @ ''-'' @ c @ ''-'' @ d @ ''-'' @ e)"
    unfolding uuid_text_def by blast
  then show ?thesis
    using t unfolding open_uuid_def by (intro exI [of _ "a @ ''-'' @ b @ ''-'' @ c @ ''-'' @ d @ ''-'' @ e"] exI [of _ r]) simp
qed

text \<open>C28. What the filter lets through shows no secret. Wherever in the filtered message a name such as
  \<open>password\<close> or \<open>token\<close>, in any case, is followed by a separator and a value, with white space and an
  opening quote allowed, that whole value is the placeholder; nowhere does an authorization scheme stand
  before credentials, and nowhere a UUID.\<close>

theorem redaction_complete:
  assumes "rec_msg r = Some s"
  shows "\<exists>t. rec_msg (snd (filter_record r)) = Some t \<and> t = sanitize_log_text s \<and>
    (\<forall>a b. t = a @ b \<longrightarrow>
       (\<forall>v. assigns_secret b v \<longrightarrow> v = ''[REDACTED]'') \<and> \<not> shows_credentials b \<and> \<not> shows_identifier b)"
proof -
  have "rec_msg (snd (filter_record r)) = Some (sanitize_log_text s)"
    using assms by (simp add: filter_record_def sanitize_log_text_def)
  moreover have "(\<forall>v. assigns_secret b v \<longrightarrow> v = ''[REDACTED]'') \<and> \<not> shows_credentials b \<and> \<not> shows_identifier b"
    if "sanitize_log_text s = a @ b" for a b
    using sanitized_text [OF that] assigns_secret_open [of b] shows_credentials_open [of b] shows_identifier_open [of b]
    by (auto simp: redacted_def)
  ultimately show ?thesis
    by blast
qed

definition demo_log_record :: log_record where
  "demo_log_record = \<lparr>rec_name = ''engine'', rec_levelno = 40, rec_levelname = ''ERROR'',
     rec_msg = Some ''Token : xyz1'', rec_args = [], rec_filename = ''service.py'', rec_lineno = 1, rec_exc = None\<rparr>"

theorem redaction_complete_witness:
  "rec_msg (snd (filter_record demo_log_record)) = Some ''Token=[REDACTED]'' \<and>
   \<not> shows_credentials ''Token=[REDACTED]''"
proof -
  have "sanitize_log_text ''Token : xyz1'' = ''Token=[REDACTED]''"
    by code_simp
  moreover have "rec_msg demo_log_record = Some ''Token : xyz1''"
    by (simp add: demo_log_record_def)
  ultimately show ?thesis
    using redaction_complete [of demo_log_record "''Token : xyz1''"] by auto
qed

text \<open>Two leaks. A key in quotes, as JSON writes it, is no match, because the pattern expects the
  separator right behind the key. And the filter rewrites the message of a record but not its
  arguments, which the formatter inserts afterwards.\<close>

definition quoted_password :: string where
  "quoted_password = CHR 0x22 # ''password'' @ [CHR 0x22] @ '': '' @ [CHR 0x22] @ ''hunter2'' @ [CHR 0x22]"

lemma json_secret_kept: "sanitize_log_text quoted_password = quoted_password"
  by code_simp

lemma arguments_kept: "rec_args (snd (filter_record r)) = rec_args r"
  by (simp add: filter_record_def)

subsection \<open>The queue and its worker\<close>

datatype handler_op = Emit log_record string | WorkerTurn | CloseHandler

fun handler_step :: "(log_record \<Rightarrow> string result) \<Rightarrow> (json list \<Rightarrow> discord_outcome) \<Rightarrow> handler_op \<Rightarrow> discord_handler \<Rightarrow> discord_handler" where
  "handler_step fmt deliver (Emit r t) h = snd (emit_record fmt t r h)"
| "handler_step fmt deliver WorkerTurn h = worker_turn deliver h"
| "handler_step fmt deliver CloseHandler h = close_handler h"

definition run_handler :: "(log_record \<Rightarrow> string result) \<Rightarrow> (json list \<Rightarrow> discord_outcome) \<Rightarrow> handler_op list \<Rightarrow> discord_handler \<Rightarrow> discord_handler" where
  "run_handler fmt deliver ops h = foldl (\<lambda>h op. handler_step fmt deliver op h) h ops"

lemma retry_post_frame:
  "pending (retry_post deliver p r h) = pending h \<and> length (posted (retry_post deliver p r h)) \<le> Suc (length (posted h))"
  by (auto simp: retry_post_def Let_def split: sum.split discord_outcome.split)

lemma handler_step_bounds:
  assumes "length (pending h) \<le> QUEUE_SIZE" "length (posted h) + 2 * length (pending h) \<le> 2 * n"
  shows "length (pending (handler_step fmt deliver op h)) \<le> QUEUE_SIZE \<and>
    length (posted (handler_step fmt deliver op h)) + 2 * length (pending (handler_step fmt deliver op h))
      \<le> 2 * (n + (if op = WorkerTurn then 0 else 1))"
proof (cases op)
  case WorkerTurn
  have "length (pending (worker_turn deliver h)) \<le> length (pending h) \<and>
      length (posted (worker_turn deliver h)) + 2 * length (pending (worker_turn deliver h)) \<le>
      length (posted h) + 2 * length (pending h)"
  proof (cases "worker_alive h \<and> pending h \<noteq> []")
    case True
    then obtain x q where "pending h = x # q" by (cases "pending h") auto
    moreover define h1 where "h1 = h\<lparr>pending := q, posted := posted h @ [the x]\<rparr>"
    ultimately show ?thesis
      using True retry_post_frame [of deliver "the x" _ h1]
      by (cases x) (auto simp: worker_turn_def Let_def split: discord_outcome.split intro: le_trans)
  qed (auto simp: worker_turn_def)
  then show ?thesis using assms WorkerTurn by simp
qed (use assms in \<open>auto simp: emit_record_def close_handler_def put_nowait_def split: sum.split\<close>)

text \<open>Mirroring is bounded: whatever is logged and whatever Discord answers, at most two hundred payloads wait,
  and every emitted record is posted at most twice.\<close>

theorem mirror_bounded:
  "length (pending (run_handler fmt deliver ops (new_handler url level ping))) \<le> QUEUE_SIZE \<and>
   length (posted (run_handler fmt deliver ops (new_handler url level ping))) \<le> 2 * length (filter (\<lambda>op. op \<noteq> WorkerTurn) ops)"
proof -
  have "length (pending h) \<le> QUEUE_SIZE \<Longrightarrow> length (posted h) + 2 * length (pending h) \<le> 2 * n \<Longrightarrow>
      length (pending (run_handler fmt deliver ops h)) \<le> QUEUE_SIZE \<and>
      length (posted (run_handler fmt deliver ops h)) + 2 * length (pending (run_handler fmt deliver ops h))
        \<le> 2 * (n + length (filter (\<lambda>op. op \<noteq> WorkerTurn) ops))" for h n
  proof (induction ops arbitrary: h n)
    case (Cons op ops)
    show ?case
      using Cons(1) [of "handler_step fmt deliver op h" "n + (if op = WorkerTurn then 0 else 1)"]
        handler_step_bounds [OF Cons(2,3), of fmt deliver op]
      by (cases "op = WorkerTurn") (simp_all add: run_handler_def)
  qed (simp add: run_handler_def)
  from this [of "new_handler url level ping" 0] show ?thesis by (simp add: new_handler_def)
qed

lemma dead_worker_stays:
  "\<not> worker_alive h \<Longrightarrow> \<not> worker_alive (run_handler fmt deliver ops h) \<and> posted (run_handler fmt deliver ops h) = posted h"
proof (induction ops arbitrary: h)
  case (Cons op ops)
  have "\<not> worker_alive (handler_step fmt deliver op h) \<and> posted (handler_step fmt deliver op h) = posted h"
    using Cons(2) by (cases op) (auto simp: worker_turn_def emit_record_def close_handler_def put_nowait_def split: sum.split)
  then show ?case using Cons(1) [of "handler_step fmt deliver op h"] by (simp add: run_handler_def)
qed (simp add: run_handler_def)

text \<open>\<open>flush\<close> waits until every payload has been taken and worked on, which only a live worker does.
  The interpreter flushes the handler when it exits.\<close>

definition flush_returns :: "discord_handler \<Rightarrow> bool" where
  "flush_returns h \<longleftrightarrow> pending h = [] \<or> worker_alive h"

lemma flush_never_returns:
  assumes "\<not> worker_alive h" "pending h \<noteq> []"
  shows "\<not> flush_returns (run_handler fmt deliver ops h)"
proof -
  have "pending (run_handler fmt deliver ops h) \<noteq> [] \<and> \<not> worker_alive (run_handler fmt deliver ops h)"
    using assms
  proof (induction ops arbitrary: h)
    case (Cons op ops)
    have "\<not> worker_alive (handler_step fmt deliver op h) \<and> pending (handler_step fmt deliver op h) \<noteq> []"
      using Cons(2,3) by (cases op) (auto simp: worker_turn_def emit_record_def close_handler_def put_nowait_def split: sum.split)
    then show ?case using Cons(1) [of "handler_step fmt deliver op h"] by (simp add: run_handler_def)
  qed (simp add: run_handler_def)
  then show ?thesis by (simp add: flush_returns_def)
qed

text \<open>C29. One malformed answer ends the mirror for good: when Discord limits the rate with a JSON body
  that is no object, be it a list, a text, a number, a truth value or null, the worker dies on an
  exception it does not catch, and nothing logged later is ever posted.\<close>

theorem malformed_limit_ends_mirror:
  assumes "worker_alive h" "pending h = Some p # q"
    and "deliver (posted h @ [p]) = Delivered \<lparr>discord_status = 429, discord_json = Some body\<rparr>"
    and "\<not> (\<exists>d. body = JObj d)"
  shows "\<not> worker_alive (run_handler fmt deliver ops (worker_turn deliver h)) \<and>
    posted (run_handler fmt deliver ops (worker_turn deliver h)) = posted h @ [p]"
proof -
  have "body_object (Some body) = Inl AttributeError"
    using assms(4) by (cases body) (simp_all add: body_object_def)
  then have "\<not> worker_alive (worker_turn deliver h) \<and> posted (worker_turn deliver h) = posted h @ [p]"
    using assms(1-3) by (simp add: worker_turn_def retry_post_def parse_discord_retry_after_def
        worker_survives_def is_http_error_def is_os_error_def is_runtime_error_def is_value_error_def Let_def)
  then show ?thesis using dead_worker_stays by simp
qed

subsection \<open>Witnesses\<close>

definition limited :: "json list \<Rightarrow> discord_outcome" where
  "limited ps = Delivered \<lparr>discord_status = 429, discord_json = Some JNull\<rparr>"

theorem malformed_limit_ends_mirror_witness:
  "posted (run_handler (\<lambda>r. Inr ''m'') limited [WorkerTurn, WorkerTurn]
     (worker_turn limited (put_nowait (Some JNull) (put_nowait (Some JNull) (new_handler discord_prefix 40 ''@x''))))) = [JNull]"
  by (subst malformed_limit_ends_mirror [THEN conjunct2, of _ JNull "[Some JNull]" _ JNull])
    (simp_all add: put_nowait_def new_handler_def QUEUE_SIZE_def limited_def)

end
