(* ===== verification/Json_Store.thy ===== *)
theory Json_Store
  imports Update_Watcher
begin

section \<open>Small JSON files\<close>

text \<open>
  The session cache of \<^verbatim>\<open>app/monitoring/log_scraper.py\<close> and the player ledger of
  \<^verbatim>\<open>app/monitoring/tracker.py\<close> are kept in the same way: written as indented JSON to a file
  with the suffix \<^verbatim>\<open>.tmp\<close>, which then replaces the old file. This theory holds that writer,
  the matching reader, and what both guarantee together.
\<close>

definition with_suffix :: "path \<Rightarrow> string \<Rightarrow> path" where
  "with_suffix p s = (fst p, (case before_last (CHR ''.'') (snd p) of
     Some (c # cs) \<Rightarrow> if endswith (snd p) ''.'' then snd p else c # cs
   | _ \<Rightarrow> snd p) @ s)"

text \<open>A write that fails leaves what it had written so far.\<close>

record store_env =
  store_mkdir_fails :: bool
  store_write_leaves :: "string option"
  store_replace_fails :: bool
  store_read_fault :: "py_error option"
  store_clock :: nat
  store_mtime :: rat
  store_float :: "pyfloat \<Rightarrow> string"

definition written_file :: "store_env \<Rightarrow> string \<Rightarrow> file_entry" where
  "written_file env s = \<lparr>f_data = s, f_mode = 420, f_mtime = store_mtime env, f_synced = False\<rparr>"

definition save_json :: "store_env \<Rightarrow> path \<Rightarrow> json \<Rightarrow> world \<Rightarrow> world" where
  "save_json env p v w =
     (let tmp = with_suffix p ''.tmp''
      in if store_mkdir_fails env then w
         else (case store_write_leaves env of
                 Some part \<Rightarrow> put_file tmp (written_file env part) w
               | None \<Rightarrow>
                   (let w1 = put_file tmp (written_file env (utf8_encode (dumps_indent (store_float env) 2 v))) w
                    in if store_replace_fails env then w1 else replace_file tmp p w1)))"

text \<open>The reader keeps what it had for a missing file, a file that cannot be read and one that is
  no JSON; a text that is not UTF-8 raises.\<close>

definition load_json :: "store_env \<Rightarrow> path \<Rightarrow> world \<Rightarrow> json option result" where
  "load_json env p w =
     (if file_at w p = None then Inr None
      else (case read_text (store_read_fault env) w p of
              Inl e \<Rightarrow> if is_os_error e then Inr None else Inl e
            | Inr raw \<Rightarrow> Inr (loads raw)))"

definition storable :: "path \<Rightarrow> bool" where
  "storable p \<longleftrightarrow> with_suffix p ''.tmp'' \<noteq> p"

definition store_works :: "store_env \<Rightarrow> bool" where
  "store_works env \<longleftrightarrow> \<not> store_mkdir_fails env \<and> store_write_leaves env = None \<and> \<not> store_replace_fails env \<and> store_read_fault env = None"

lemma file_at_save:
  assumes "storable p" "store_works env"
  shows "file_at (save_json env p v w) p = Some (written_file env (utf8_encode (dumps_indent (store_float env) 2 v)))"
  using assms by (simp add: save_json_def store_works_def storable_def Let_def file_at_replace file_at_put)

text \<open>The file of another path is not touched, and the file itself is the old or the new one.\<close>

lemma save_json_other:
  assumes "q \<noteq> p" "q \<noteq> with_suffix p ''.tmp''"
  shows "file_at (save_json env p v w) q = file_at w q"
  using assms by (auto simp: save_json_def Let_def file_at_replace file_at_put split: option.split)

lemma save_json_old_or_new:
  assumes "storable p"
  shows "file_at (save_json env p v w) p = file_at w p \<or>
    file_at (save_json env p v w) p = Some (written_file env (utf8_encode (dumps_indent (store_float env) 2 v)))"
  using assms by (auto simp: save_json_def storable_def Let_def file_at_replace file_at_put split: option.split)

lemma read_dumped:
  assumes "json_plain v" "file_at w p = Some f" "f_data f = utf8_encode (dumps_indent fr k v)"
  shows "\<exists>raw. read_text None w p = Inr raw \<and> loads raw = Some v"
proof -
  have "CHR 0x0D \<notin> set (dumps_indent fr k v)"
    unfolding dumps_indent_def using assms(1) by (intro dumps_lines_no_cr) (auto simp: new_line_def)
  then show ?thesis
    using assms loads_indent [OF assms(1), of fr k] by (simp add: read_text_def utf8_decode_encode universal_newlines_id)
qed

lemma load_saved:
  assumes "storable p" "store_works env" "json_plain v"
  shows "load_json env p (save_json env p v w) = Inr (Some v)"
proof -
  have f: "file_at (save_json env p v w) p = Some (written_file env (utf8_encode (dumps_indent (store_float env) 2 v)))"
    by (rule file_at_save [OF assms(1,2)])
  obtain raw where "read_text None (save_json env p v w) p = Inr raw" "loads raw = Some v"
    using read_dumped [OF assms(3) f, of "store_float env" 2] by (auto simp: written_file_def)
  then show ?thesis
    using f assms(2) by (simp add: load_json_def store_works_def)
qed

end
