(* ===== verification/Log_Scraper.thy ===== *)
theory Log_Scraper
  imports Json_Store Log_Redaction
begin

section \<open>The log scraper\<close>

text \<open>
  \<^verbatim>\<open>app/monitoring/log_scraper.py\<close>: finding the session of the game server in its log files and
  in the journal, the cache of the session, and the log console with its filters. Files are those
  of \<^verbatim>\<open>Atomic_IO\<close>; the journal, the regular expressions an operator types and which directories
  exist are arguments. A byte sequence that is not UTF-8 is dropped, as the files are opened with
  \<open>errors="ignore"\<close>.
\<close>

subsection \<open>Lines\<close>

fun utf8_ignore :: "string \<Rightarrow> string" where
  "utf8_ignore [] = []"
| "utf8_ignore (c # cs) =
     (if ord c < 128 then c # utf8_ignore cs
      else (case cs of
              [] \<Rightarrow> []
            | d # ds \<Rightarrow>
                if 194 \<le> ord c \<and> ord c \<le> 195 \<and> 128 \<le> ord d \<and> ord d < 192
                then char_of ((ord c - 192) * 64 + (ord d - 128)) # utf8_ignore ds
                else utf8_ignore (d # ds)))"

text \<open>\<open>readlines\<close> after the translation of line ends: every line but possibly the last ends in a
  line feed.\<close>

function text_lines :: "string \<Rightarrow> string list" where
  "text_lines s =
     (if s = [] then []
      else (case dropWhile (\<lambda>c. c \<noteq> CHR 0x0A) s of
              [] \<Rightarrow> [s]
            | nl # r \<Rightarrow> (takeWhile (\<lambda>c. c \<noteq> CHR 0x0A) s @ [CHR 0x0A]) # text_lines r))"
  by pat_completeness auto
termination
proof (relation "measure length")
  fix s :: string and x r
  assume "dropWhile (\<lambda>c. c \<noteq> CHR 0x0A) s = x # r"
  then show "(r, s) \<in> measure length"
    using length_dropWhile_le [of "\<lambda>c. c \<noteq> CHR 0x0A" s] by simp
qed simp

declare text_lines.simps [simp del]

record scraper_env =
  cache_store :: store_env
  log_home_exists :: "string \<Rightarrow> bool"
  listing_fails :: "string \<Rightarrow> bool"
  open_fails :: "path \<Rightarrow> bool"
  boot_journal :: "(int \<times> string) option"
  tail_journal :: "nat \<Rightarrow> (int \<times> string) option"
  posix_checked :: bool
  posix_host :: bool
  regex_search :: "string \<Rightarrow> string \<Rightarrow> bool option"

definition read_lines :: "scraper_env \<Rightarrow> world \<Rightarrow> path \<Rightarrow> string list option" where
  "read_lines env w p =
     (case file_at w p of
        None \<Rightarrow> None
      | Some f \<Rightarrow> if open_fails env p then None else Some (text_lines (universal_newlines (utf8_ignore (f_data f)))))"

subsection \<open>Patterns\<close>

fun search_at :: "(string \<Rightarrow> 'a option) \<Rightarrow> string \<Rightarrow> 'a option" where
  "search_at m [] = m []"
| "search_at m (c # cs) = (case m (c # cs) of Some x \<Rightarrow> Some x | None \<Rightarrow> search_at m cs)"

text \<open>\<open>re.search\<close> for a literal and for two literals with \<open>.*\<close> between them, ignoring case, in one
  line.\<close>

definition holds_text :: "string \<Rightarrow> string \<Rightarrow> bool" where
  "holds_text p line = contains (lower p) (lower line)"

definition holds_both :: "string \<Rightarrow> string \<Rightarrow> string \<Rightarrow> bool" where
  "holds_both p q line = (case after_first (lower p) (lower line) of None \<Rightarrow> False | Some r \<Rightarrow> contains (lower q) r)"

definition matches_log_search :: "string \<Rightarrow> bool" where
  "matches_log_search line \<longleftrightarrow>
     holds_text ''Created public lobby session'' line \<or> holds_both ''EOS-SDK'' ''sessions'' line \<or>
     holds_both ''Lobby'' ''Registered'' line \<or> holds_text ''PublicSession'' line \<or>
     holds_text ''Steam server initialized'' line \<or> holds_text ''Server registration succeeded'' line \<or>
     holds_text ''LogPalServer'' line"

definition session_char :: "char \<Rightarrow> bool" where
  "session_char c \<longleftrightarrow> is_ascii_alpha c \<or> is_digit c \<or> c = CHR ''_'' \<or> c = CHR ''-''"

text \<open>\<open>SessionId:\s*([A-Za-z0-9_\-]+)\<close>\<close>

definition match_session :: "string \<Rightarrow> string option" where
  "match_session s =
     (let sid = takeWhile session_char (lstrip (drop 10 s))
      in if startswith s ''SessionId:'' \<and> sid \<noteq> [] then Some sid else None)"

text \<open>\<open>\[(\d{4}\.\d{2}\.\d{2}-\d{2}\.\d{2}\.\d{2})\<close>: the shape of the nineteen characters.\<close>

definition stamp_shape :: "string" where
  "stamp_shape = ''9999.99.99-99.99.99''"

definition fits_shape :: "string \<Rightarrow> string \<Rightarrow> bool" where
  "fits_shape shape s \<longleftrightarrow> length s = length shape \<and>
     list_all2 (\<lambda>p c. if p = CHR ''9'' then is_digit c else c = p) shape s"

definition match_stamp :: "string \<Rightarrow> string option" where
  "match_stamp s = (if startswith s ''['' \<and> fits_shape stamp_shape (take 19 (drop 1 s)) then Some (take 19 (drop 1 s)) else None)"

text \<open>\<open>.replace(".", "-").replace("-", " ", 1)\<close>\<close>

definition replace_first_dash :: "string \<Rightarrow> string" where
  "replace_first_dash s =
     (case dropWhile (\<lambda>c. c \<noteq> CHR ''-'') s of [] \<Rightarrow> s | d # r \<Rightarrow> takeWhile (\<lambda>c. c \<noteq> CHR ''-'') s @ CHR '' '' # r)"

definition shown_stamp :: "string \<Rightarrow> string" where
  "shown_stamp s = replace_first_dash (map (\<lambda>c. if c = CHR ''.'' then CHR ''-'' else c) s)"

text \<open>\<open>strftime("%Y-%m-%d %H:%M:%S")\<close>\<close>

definition plain_time :: "nat \<Rightarrow> string" where
  "plain_time t =
     (let sec = t div 1000000 in date_text (date_of_day (sec div 86400)) @ '' '' @ clock_text (clock_of (sec mod 86400)))"

subsection \<open>State and session cache\<close>

record scraper =
  session_cache_path :: path
  registered :: bool
  first_seen :: json
  session_id :: "string option"
  last_matched_line :: json

definition has_session :: "scraper \<Rightarrow> bool" where
  "has_session s \<longleftrightarrow> session_id s \<noteq> None \<and> session_id s \<noteq> Some []"

definition optional_text :: "string option \<Rightarrow> json" where
  "optional_text x = (case x of None \<Rightarrow> JNull | Some t \<Rightarrow> JStr t)"

definition load_session_cache :: "(json \<Rightarrow> string) \<Rightarrow> scraper_env \<Rightarrow> world \<Rightarrow> scraper \<Rightarrow> scraper result" where
  "load_session_cache show_value env w s =
     bind_result (load_json (cache_store env) (session_cache_path s) w) (\<lambda>cached.
       case cached of
         None \<Rightarrow> Inr s
       | Some (JObj d) \<Rightarrow>
           if truthy (json_get d ''session_id'' JNull)
           then Inr (s\<lparr>session_id := Some (py_str show_value (json_get d ''session_id'' JNull)), registered := True,
                       first_seen := json_get d ''first_seen'' JNull,
                       last_matched_line := json_get d ''last_line'' (last_matched_line s)\<rparr>)
           else Inr s
       | Some _ \<Rightarrow> Inl AttributeError)"

definition new_scraper :: "(json \<Rightarrow> string) \<Rightarrow> scraper_env \<Rightarrow> world \<Rightarrow> path \<Rightarrow> scraper result" where
  "new_scraper show_value env w cache_path =
     load_session_cache show_value env w
       \<lparr>session_cache_path = cache_path, registered = False, first_seen = JNull, session_id = None,
        last_matched_line = JStr ''Awaiting initial engine log lines...''\<rparr>"

definition session_record :: "scraper_env \<Rightarrow> scraper \<Rightarrow> json" where
  "session_record env s =
     JObj [(''session_id'', optional_text (session_id s)), (''first_seen'', first_seen s), (''last_line'', last_matched_line s),
       (''updated_at'', JStr (isoformat (store_clock (cache_store env))))]"

definition save_session_cache :: "scraper_env \<Rightarrow> scraper \<Rightarrow> world \<Rightarrow> world" where
  "save_session_cache env s w =
     (if \<not> has_session s then w else save_json (cache_store env) (session_cache_path s) (session_record env s) w)"

subsection \<open>Scanning\<close>

definition log_dirs :: "string list" where
  "log_dirs = [''/home/steam/.steam/steam/steamapps/common/PalServer/Pal/Saved/Logs'',
     ''/home/steam/Steam/steamapps/common/PalServer/Pal/Saved/Logs'', ''/home/steam/PalServer/Pal/Saved/Logs'']"

text \<open>\<open>sorted(dir.glob("Pal*.log"), key=mtime, reverse=True)\<close>, stable.\<close>

definition pal_logs :: "world \<Rightarrow> string \<Rightarrow> path list" where
  "pal_logs w d =
     rev (sort_key (\<lambda>p. case file_at w p of None \<Rightarrow> 0 | Some f \<Rightarrow> f_mtime f)
       (rev (filter (\<lambda>p. fst p = d \<and> 7 \<le> length (snd p) \<and> startswith (snd p) ''Pal'' \<and> endswith (snd p) ''.log'')
         (map fst (files w)))))"

fun find_log_files :: "scraper_env \<Rightarrow> world \<Rightarrow> string list \<Rightarrow> path option \<Rightarrow> path option \<times> path list" where
  "find_log_files env w [] live = (live, [])"
| "find_log_files env w (d # ds) live =
     (if \<not> log_home_exists env d then find_log_files env w ds live
      else
        (let live1 = (if file_at w (d, ''Pal.log'') \<noteq> None then Some (d, ''Pal.log'') else live);
             found = (if listing_fails env d then [] else pal_logs w d)
         in if found \<noteq> [] then (live1, found) else find_log_files env w ds live1))"

definition telling :: "string \<Rightarrow> bool" where
  "telling line \<longleftrightarrow> line \<noteq> [] \<and> \<not> startswith line ''='' \<and> 5 < length line"

definition last_n :: "nat \<Rightarrow> 'a list \<Rightarrow> 'a list" where
  "last_n n xs = drop (length xs - n) xs"

text \<open>The last telling line among the last fifty, cut to 120 characters.\<close>

definition note_last_line :: "string list \<Rightarrow> scraper \<Rightarrow> scraper" where
  "note_last_line ls s =
     (case find telling (map strip (rev (last_n 50 ls))) of
        None \<Rightarrow> s | Some l \<Rightarrow> s\<lparr>last_matched_line := JStr (take 120 l)\<rparr>)"

definition tail_active_log :: "scraper_env \<Rightarrow> world \<Rightarrow> path option \<Rightarrow> scraper \<Rightarrow> scraper" where
  "tail_active_log env w live s =
     (case live of
        None \<Rightarrow> s
      | Some p \<Rightarrow> (case read_lines env w p of None \<Rightarrow> s | Some ls \<Rightarrow> note_last_line ls s))"

text \<open>The first line that matches decides; whether there was one is the result.\<close>

fun extract_session_from_lines :: "scraper_env \<Rightarrow> string list \<Rightarrow> scraper \<Rightarrow> bool \<times> scraper" where
  "extract_session_from_lines env [] s = (False, s)"
| "extract_session_from_lines env (line # ls) s =
     (if \<not> matches_log_search line then extract_session_from_lines env ls s
      else
        (let s1 = s\<lparr>registered := True\<rparr>;
             s2 = (case search_at match_session line of None \<Rightarrow> s1 | Some sid \<Rightarrow> s1\<lparr>session_id := Some sid\<rparr>);
             s3 = (if truthy (first_seen s2) then s2
                   else s2\<lparr>first_seen := JStr (case search_at match_stamp line of
                               Some t \<Rightarrow> shown_stamp t | None \<Rightarrow> plain_time (store_clock (cache_store env)))\<rparr>)
         in (True, s3)))"

fun scan_historical_log_files :: "scraper_env \<Rightarrow> world \<Rightarrow> path list \<Rightarrow> scraper \<Rightarrow> scraper" where
  "scan_historical_log_files env w [] s = s"
| "scan_historical_log_files env w (p # ps) s =
     (case read_lines env w p of
        None \<Rightarrow> scan_historical_log_files env w ps s
      | Some ls \<Rightarrow>
          (case extract_session_from_lines env (take 10000 ls) s of
             (hit, s1) \<Rightarrow> if hit \<and> has_session s1 then s1 else scan_historical_log_files env w ps s1))"

definition scan_journalctl :: "scraper_env \<Rightarrow> scraper \<Rightarrow> scraper" where
  "scan_journalctl env s =
     (if registered s \<or> \<not> posix_checked env then s
      else (case boot_journal env of
              Some (rc, out) \<Rightarrow>
                if rc \<noteq> 0 then s
                else (let ls = splitlines out in snd (extract_session_from_lines env ls (note_last_line ls s)))
            | None \<Rightarrow> s))"

record LogScraperInfo =
  info_registered :: bool
  info_session :: "string option"
  info_first_seen :: json
  info_last_line :: json
  info_label :: string
  info_color :: string
  info_platforms :: string

definition scraper_info :: "scraper \<Rightarrow> LogScraperInfo" where
  "scraper_info s =
     \<lparr>info_registered = registered s,
      info_session = (if has_session s then session_id s else if registered s then Some ''EOS-Session-Active'' else None),
      info_first_seen = first_seen s, info_last_line = last_matched_line s,
      info_label = (if registered s then ''CONSOLE SEARCH READY'' else ''AWAITING EOS HANDSHAKE''),
      info_color = (if registered s then ''emerald'' else ''amber''),
      info_platforms = ''(Steam, Xbox, PS5, Mac)''\<rparr>"

definition probe_local_logs :: "scraper_env \<Rightarrow> scraper \<Rightarrow> world \<Rightarrow> LogScraperInfo \<times> scraper \<times> world" where
  "probe_local_logs env s w =
     (case find_log_files env w log_dirs None of
        (live, logs) \<Rightarrow>
          (let s1 = tail_active_log env w live s
           in if registered s1 \<and> has_session s1 then (scraper_info s1, s1, w)
              else
                (let s2 = scan_journalctl env (scan_historical_log_files env w logs s1);
                     w2 = (if registered s2 then save_session_cache env s2 w else w)
                 in (scraper_info s2, s2, w2))))"

subsection \<open>The log console\<close>

definition keeps_level :: "string \<Rightarrow> string \<Rightarrow> bool" where
  "keeps_level level clean \<longleftrightarrow>
     (lower level = ''engine'' \<longrightarrow> contains ''logpalserver'' (lower clean)) \<and>
     (lower level = ''eos'' \<longrightarrow> list_ex (\<lambda>p. holds_text p clean) [''eos'', ''session'', ''lobby'', ''steam'']) \<and>
     (lower level = ''warn_error'' \<longrightarrow>
        list_ex (\<lambda>p. holds_text p clean) [''warning'', ''error'', ''fatal'', ''crash'', ''fail''])"

definition keeps_query :: "scraper_env \<Rightarrow> string option \<Rightarrow> string \<Rightarrow> bool" where
  "keeps_query env filter_query clean =
     (case filter_query of
        Some (c # cs) \<Rightarrow>
          (case regex_search env (c # cs) clean of
             Some b \<Rightarrow> b
           | None \<Rightarrow> contains (lower (c # cs)) (lower clean))
      | _ \<Rightarrow> True)"

definition strip_newlines :: "string \<Rightarrow> string" where
  "strip_newlines s = (let nl = (\<lambda>c. c \<in> {CHR 0x0D, CHR 0x0A}) in rev (dropWhile nl (rev (dropWhile nl s))))"

definition filter_log_lines :: "scraper_env \<Rightarrow> string list \<Rightarrow> string option \<Rightarrow> string \<Rightarrow> string list" where
  "filter_log_lines env raw_lines filter_query level =
     map sanitize_log_text
       (filter (\<lambda>clean. clean \<noteq> [] \<and> keeps_level level clean \<and> keeps_query env filter_query clean)
         (map strip_newlines raw_lines))"

definition read_journal_tail :: "scraper_env \<Rightarrow> nat \<Rightarrow> string list" where
  "read_journal_tail env n =
     (case tail_journal env (n * 3) of Some (rc, out) \<Rightarrow> if rc = 0 then splitlines out else [] | None \<Rightarrow> [])"

fun first_readable :: "scraper_env \<Rightarrow> world \<Rightarrow> path list \<Rightarrow> (path \<times> string list) option" where
  "first_readable env w [] = None"
| "first_readable env w (p # ps) =
     (case read_lines env w p of None \<Rightarrow> first_readable env w ps | Some ls \<Rightarrow> Some (p, ls))"

record log_page =
  page_source :: string
  total_lines_scanned :: nat
  returned_lines :: nat
  page_lines :: "string list"

definition clamp_tail :: "int \<Rightarrow> nat" where
  "clamp_tail tail = nat (max 10 (min tail 2000))"

definition read_server_logs :: "scraper_env \<Rightarrow> world \<Rightarrow> int \<Rightarrow> string option \<Rightarrow> string \<Rightarrow> log_page" where
  "read_server_logs env w tail_wanted filter_query level =
     (let n = clamp_tail tail_wanted;
          (source, from_file) =
            (case first_readable env w (map (\<lambda>d. (d, ''Pal.log'')) log_dirs) of
               None \<Rightarrow> (''journalctl'', [])
             | Some (p, ls) \<Rightarrow> (fst p @ ''/'' @ snd p, last_n (n * 3) ls));
          raw_lines = (if from_file = [] \<and> posix_host env then read_journal_tail env n else from_file);
          kept = last_n n (filter_log_lines env raw_lines filter_query level)
      in \<lparr>page_source = source, total_lines_scanned = length raw_lines, returned_lines = length kept, page_lines = kept\<rparr>)"

subsection \<open>What a probe keeps\<close>

lemma note_last_line_frame [simp]:
  "registered (note_last_line ls s) = registered s" "session_id (note_last_line ls s) = session_id s"
  "session_cache_path (note_last_line ls s) = session_cache_path s" "first_seen (note_last_line ls s) = first_seen s"
  by (simp_all add: note_last_line_def split: option.split)

lemma tail_active_frame [simp]:
  "registered (tail_active_log env w a s) = registered s" "session_id (tail_active_log env w a s) = session_id s"
  "session_cache_path (tail_active_log env w a s) = session_cache_path s"
  "first_seen (tail_active_log env w a s) = first_seen s"
  by (simp_all add: tail_active_log_def split: option.split)

lemma has_session_cong: "session_id s = session_id t \<Longrightarrow> has_session s = has_session t"
  by (simp add: has_session_def)

text \<open>A session that is known is never looked for again: whatever the log files and the journal hold at any
  later probe, the scraper reports the same session and leaves the cache alone.\<close>

fun probes :: "(scraper_env \<times> world) list \<Rightarrow> scraper \<Rightarrow> LogScraperInfo list \<times> scraper" where
  "probes [] s = ([], s)"
| "probes ((env, w) # rs) s =
     (case probe_local_logs env s w of (i, s1, w1) \<Rightarrow> (case probes rs s1 of (is, s2) \<Rightarrow> (i # is, s2)))"

lemma probe_known:
  assumes "registered s" "has_session s"
  shows "\<exists>i s1. probe_local_logs env s w = (i, s1, w) \<and> info_session i = session_id s \<and> registered s1 \<and>
    session_id s1 = session_id s"
proof -
  obtain live logs where f: "find_log_files env w log_dirs None = (live, logs)" by fastforce
  have "registered (tail_active_log env w live s) \<and> has_session (tail_active_log env w live s)"
    using assms has_session_cong [of "tail_active_log env w live s" s] by simp
  then show ?thesis using f assms by (simp add: probe_local_logs_def scraper_info_def Let_def)
qed

theorem session_never_refreshed:
  assumes "registered s" "session_id s = Some sid" "sid \<noteq> []"
  shows "\<forall>i \<in> set (fst (probes rs s)). info_session i = Some sid"
  using assms
proof (induction rs arbitrary: s)
  case (Cons r rs)
  obtain env w where r: "r = (env, w)" by fastforce
  obtain i s1 where p: "probe_local_logs env s w = (i, s1, w)" "info_session i = Some sid" "registered s1" "session_id s1 = Some sid"
    using probe_known [of s env w] Cons.prems by (auto simp: has_session_def)
  obtain js s2 where q: "probes rs s1 = (js, s2)" by fastforce
  then show ?case using Cons.IH [OF p(3,4) Cons.prems(3)] p r by simp
qed simp

text \<open>Registration is never taken back.\<close>

lemma extract_registered: "registered s \<Longrightarrow> registered (snd (extract_session_from_lines env ls s))"
  by (induction env ls s rule: extract_session_from_lines.induct) (auto simp: Let_def split: option.split)

lemma scan_registered: "registered s \<Longrightarrow> registered (scan_historical_log_files env w ps s)"
proof (induction ps arbitrary: s)
  case (Cons p ps)
  have "registered t" if "extract_session_from_lines env ls s = (hit, t)" for ls hit t
    using extract_registered [OF Cons.prems, of env ls] that by simp
  then show ?case
    using Cons by (auto split: option.split prod.split)
qed simp

lemma registration_lasts: "registered s \<Longrightarrow> registered (fst (snd (probe_local_logs env s w)))"
proof -
  assume a: "registered s"
  obtain live logs where f: "find_log_files env w log_dirs None = (live, logs)" by fastforce
  have "registered (scan_historical_log_files env w logs (tail_active_log env w live s))"
    using a by (intro scan_registered) simp
  then show ?thesis using f a by (simp add: probe_local_logs_def scan_journalctl_def Let_def)
qed

text \<open>Only the first line that matches the search is read: when it names no session, the scan reports a
  registration and leaves the session unknown, whatever the lines behind it say.\<close>

theorem session_behind_first_line_is_missed:
  assumes "\<forall>l \<in> set before. \<not> matches_log_search l" "matches_log_search line" "search_at match_session line = None"
  shows "fst (extract_session_from_lines env (before @ line # rest) s) \<and>
    session_id (snd (extract_session_from_lines env (before @ line # rest) s)) = session_id s"
  using assms by (induction before) (auto simp: Let_def)

text \<open>The time a session was first seen is garbled, and any line of the game's own log category
  counts as a registration.\<close>

lemma first_seen_garbled: "shown_stamp ''2026.01.02-03.04.05'' = ''2026 01-02-03-04-05''"
  by code_simp

lemma any_engine_line_registers: "matches_log_search ''LogPalServer: Warning: tick overrun''"
  by code_simp

subsection \<open>The session cache\<close>

text \<open>A saved session survives a restart of the portal: the new scraper knows the same session, the
  same time and the same line.\<close>

theorem session_cache_round_trip:
  assumes "registered s" "has_session s" "storable (session_cache_path s)" "store_works (cache_store env)"
    and "json_plain (first_seen s)" "json_plain (last_matched_line s)"
  shows "new_scraper show_value env (save_session_cache env s w) (session_cache_path s) = Inr s"
proof -
  obtain c cs where sid: "session_id s = Some (c # cs)"
    using assms(2) by (auto simp: has_session_def neq_Nil_conv)
  have "json_plain (session_record env s)"
    using assms(5,6) by (simp add: session_record_def optional_text_def sid)
  then have "load_json (cache_store env) (session_cache_path s) (save_session_cache env s w) = Inr (Some (session_record env s))"
    using load_saved [OF assms(3,4), of "session_record env s" w] assms(2) by (simp add: save_session_cache_def)
  then show ?thesis
    using assms(1) sid by (simp add: new_scraper_def load_session_cache_def session_record_def optional_text_def json_get_def)
qed

subsection \<open>The console\<close>

lemma length_last_n [simp]: "length (last_n n xs) = min n (length xs)"
  by (simp add: last_n_def min_def)

lemma set_last_n: "set (last_n n xs) \<subseteq> set xs"
  by (simp add: last_n_def set_drop_subset)

text \<open>A page of the log console is bounded and redacted: it has at most two thousand lines and never more than
  were scanned, its count is right, and every line went through the redaction of secrets.\<close>

theorem console_page_bounded:
  "returned_lines (read_server_logs env w n q lvl) = length (page_lines (read_server_logs env w n q lvl)) \<and>
   returned_lines (read_server_logs env w n q lvl) \<le> min 2000 (total_lines_scanned (read_server_logs env w n q lvl)) \<and>
   set (page_lines (read_server_logs env w n q lvl)) \<subseteq> range sanitize_log_text"
proof -
  have c: "clamp_tail n \<le> 2000" by (simp add: clamp_tail_def)
  have f: "length (filter_log_lines env raw q lvl) \<le> length raw" for raw
    using length_filter_le [of _ "map strip_newlines raw"] by (simp add: filter_log_lines_def)
  have s: "set (last_n k (filter_log_lines env raw q lvl)) \<subseteq> range sanitize_log_text" for k raw
    using set_last_n [of k "filter_log_lines env raw q lvl"] by (auto simp: filter_log_lines_def)
  show ?thesis
    using c f s by (auto simp: read_server_logs_def Let_def min_le_iff_disj split: option.split prod.split intro: le_trans)
qed

subsection \<open>Witnesses\<close>

definition demo_json_store :: store_env where
  "demo_json_store = \<lparr>store_mkdir_fails = False, store_write_leaves = None, store_replace_fails = False, store_read_fault = None,
     store_clock = 0, store_mtime = 0, store_float = (\<lambda>_. [])\<rparr>"

definition demo_scraper_env :: scraper_env where
  "demo_scraper_env = \<lparr>cache_store = demo_json_store, log_home_exists = (\<lambda>_. False), listing_fails = (\<lambda>_. False),
     open_fails = (\<lambda>_. False), boot_journal = None, tail_journal = (\<lambda>_. None), posix_checked = True, posix_host = True,
     regex_search = (\<lambda>_ _. None)\<rparr>"

definition demo_scraper :: scraper where
  "demo_scraper = \<lparr>session_cache_path = (''/v'', ''c.json''), registered = True, first_seen = JStr ''t'', session_id = Some ''abc'',
     last_matched_line = JStr ''l''\<rparr>"

theorem session_never_refreshed_witness:
  "map info_session (fst (probes [(demo_scraper_env, empty_world), (demo_scraper_env, demo_world)] demo_scraper)) = [Some ''abc'', Some ''abc'']"
proof -
  let ?p = "probes [(demo_scraper_env, empty_world), (demo_scraper_env, demo_world)] demo_scraper"
  have "\<forall>i \<in> set (fst ?p). info_session i = Some ''abc''"
    by (rule session_never_refreshed) (simp_all add: demo_scraper_def)
  moreover have "length (fst ?p) = 2"
    by (auto split: prod.split)
  ultimately show ?thesis by (cases "fst ?p") (auto simp: length_Suc_conv numeral_2_eq_2)
qed

theorem session_behind_first_line_is_missed_witness:
  "session_id (snd (extract_session_from_lines demo_scraper_env [''x'', ''LogPalServer: up'', ''PublicSession SessionId: abc'']
     (demo_scraper\<lparr>session_id := None\<rparr>))) = None"
proof -
  have m: "\<forall>l \<in> set [''x'']. \<not> matches_log_search l" "matches_log_search ''LogPalServer: up''"
    "search_at match_session ''LogPalServer: up'' = None"
    by code_simp+
  show ?thesis
    using session_behind_first_line_is_missed [OF m, of demo_scraper_env "[''PublicSession SessionId: abc'']" "demo_scraper\<lparr>session_id := None\<rparr>"]
    by simp
qed

theorem session_cache_round_trip_witness:
  "new_scraper (\<lambda>_. []) demo_scraper_env (save_session_cache demo_scraper_env demo_scraper empty_world) (''/v'', ''c.json'') = Inr demo_scraper"
proof -
  have "storable (''/v'', ''c.json'')" by code_simp
  then show ?thesis
    using session_cache_round_trip [of demo_scraper demo_scraper_env "\<lambda>_. []" empty_world]
    by (simp add: demo_scraper_def has_session_def demo_scraper_env_def store_works_def demo_json_store_def)
qed

end
