(* ===== verification/Net_Diagnostics.thy ===== *)
theory Net_Diagnostics
  imports Py_Text Json Config_Pipeline
begin

section \<open>Network diagnostics\<close>

text \<open>
  \<^verbatim>\<open>app/monitoring/net_diagnostics.py\<close>: transfer rates from interface counters, the validation of
  probe targets, the reading of ping output with the TCP fallback, the default gateway from the
  kernel's routing table, and the verdict on the cause of lag. Running \<^verbatim>\<open>ping\<close>, connecting sockets
  and reading counters are arguments. Floats are exact rationals, \<open>round\<close> is exact decimal
  rounding to even, and symbols with code points above 255 stand as their names in braces.
\<close>

subsection \<open>Rounding\<close>

definition py_round :: "nat \<Rightarrow> rat \<Rightarrow> rat" where
  "py_round n x = of_int (round_half_even (x * 10 ^ n)) / 10 ^ n"

text \<open>\<open>f"{x:.1f}"\<close>\<close>

definition fixed1 :: "rat \<Rightarrow> string" where
  "fixed1 x =
     (let t = nat (round_half_even (\<bar>x\<bar> * 10))
      in (if x < 0 then ''-'' else []) @ nat_str (t div 10) @ ''.'' @ nat_str (t mod 10))"

subsection \<open>Transfer rates\<close>

record throughput =
  last_recv :: int
  last_sent :: int
  last_time :: rat
  cached_rx :: rat
  cached_tx :: rat

definition reset_throughput :: throughput where
  "reset_throughput = \<lparr>last_recv = 0, last_sent = 0, last_time = 0, cached_rx = 0, cached_tx = 0\<rparr>"

record net_rates =
  rx_rate_kbps :: rat
  tx_rate_kbps :: rat
  rx_rate_mbps :: rat
  tx_rate_mbps :: rat
  traffic_status :: string

definition update_counters :: "rat \<Rightarrow> int \<Rightarrow> int \<Rightarrow> throughput \<Rightarrow> throughput" where
  "update_counters t recv sent s =
     (let dt = t - last_time s
      in if 4 / 5 \<le> dt \<and> 0 < last_recv s
         then s\<lparr>cached_rx := py_round 2 (of_int (max 0 (recv - last_recv s)) / (1024 * dt)),
                cached_tx := py_round 2 (of_int (max 0 (sent - last_sent s)) / (1024 * dt)),
                last_recv := recv, last_sent := sent, last_time := t\<rparr>
         else if last_recv s = 0 then s\<lparr>last_recv := recv, last_sent := sent, last_time := t\<rparr>
         else s)"

definition classify_traffic :: "rat \<Rightarrow> string" where
  "classify_traffic mbps = (if 50 \<le> mbps then ''SATURATED'' else if 15 \<le> mbps then ''ELEVATED'' else ''HEALTHY'')"

definition calculate_rates :: "rat \<Rightarrow> int \<Rightarrow> int \<Rightarrow> throughput \<Rightarrow> net_rates \<times> throughput" where
  "calculate_rates t recv sent s =
     (let s1 = update_counters t recv sent s;
          rx = py_round 3 (cached_rx s1 * 8 / 1000); tx = py_round 3 (cached_tx s1 * 8 / 1000)
      in (\<lparr>rx_rate_kbps = cached_rx s1, tx_rate_kbps = cached_tx s1, rx_rate_mbps = rx, tx_rate_mbps = tx,
           traffic_status = classify_traffic (rx + tx)\<rparr>, s1))"

subsection \<open>Probe targets\<close>

text \<open>\<open>ipaddress.ip_address\<close>: whether a text is an address.\<close>

definition octet_ok :: "string \<Rightarrow> bool" where
  "octet_ok o4 \<longleftrightarrow> o4 \<noteq> [] \<and> list_all is_digit o4 \<and> length o4 \<le> 3 \<and> (o4 = ''0'' \<or> hd o4 \<noteq> CHR ''0'') \<and> digits_val o4 \<le> 255"

definition ipv4_ok :: "string \<Rightarrow> bool" where
  "ipv4_ok s \<longleftrightarrow> CHR ''/'' \<notin> set s \<and> length (split_on (CHR ''.'') s) = 4 \<and> list_all octet_ok (split_on (CHR ''.'') s)"

definition hextet_ok :: "string \<Rightarrow> bool" where
  "hextet_ok h \<longleftrightarrow> h \<noteq> [] \<and> list_all (\<lambda>c. hex_val c \<noteq> None) h \<and> length h \<le> 4"

text \<open>The groups between colons; a dotted address at the end counts as two groups.\<close>

definition ipv6_parts :: "string \<Rightarrow> string list option" where
  "ipv6_parts s =
     (let parts = split_on (CHR '':'') s
      in if length parts < 3 then None
         else if CHR ''.'' \<in> set (last parts)
         then (if ipv4_ok (last parts) then Some (butlast parts @ [''0'', ''0'']) else None)
         else Some parts)"

text \<open>The inner empty groups stand for the \<open>::\<close>. At most one is allowed; an empty group at an end
  is allowed only beside it.\<close>

definition groups_ok :: "string list \<Rightarrow> bool" where
  "groups_ok parts \<longleftrightarrow>
     length parts \<le> 9 \<and>
     (case filter (\<lambda>i. parts ! i = []) [1..<length parts - 1] of
        [] \<Rightarrow> length parts = 8 \<and> list_all hextet_ok parts
      | [i] \<Rightarrow>
          (let hi = take i parts; lo = drop (Suc i) parts
           in (if hd parts = [] then i = 1 else list_all hextet_ok hi) \<and>
              (if last parts = [] then length lo = 1 else list_all hextet_ok lo) \<and>
              (if hd parts = [] then 0 else length hi) + (if last parts = [] then 0 else length lo) \<le> 7)
      | _ \<Rightarrow> False)"

definition ipv6_ok :: "string \<Rightarrow> bool" where
  "ipv6_ok s \<longleftrightarrow>
     CHR ''/'' \<notin> set s \<and>
     (CHR ''%'' \<in> set s \<longrightarrow>
        (case dropWhile (\<lambda>c. c \<noteq> CHR ''%'') s of _ # scope \<Rightarrow> scope \<noteq> [] \<and> CHR ''%'' \<notin> set scope | [] \<Rightarrow> False)) \<and>
     (case ipv6_parts (takeWhile (\<lambda>c. c \<noteq> CHR ''%'') s) of None \<Rightarrow> False | Some parts \<Rightarrow> groups_ok parts)"

definition is_ip_address :: "string \<Rightarrow> bool" where
  "is_ip_address s \<longleftrightarrow> ipv4_ok s \<or> ipv6_ok s"

definition alnum :: "char \<Rightarrow> bool" where
  "alnum c \<longleftrightarrow> is_ascii_alpha c \<or> is_digit c"

text \<open>\<open>[a-zA-Z0-9](?:[a-zA-Z0-9-]{0,61}[a-zA-Z0-9])?\<close>, and such labels joined by dots.\<close>

definition host_label :: "string \<Rightarrow> bool" where
  "host_label l \<longleftrightarrow> l \<noteq> [] \<and> length l \<le> 63 \<and> alnum (hd l) \<and> alnum (last l) \<and> list_all (\<lambda>c. alnum c \<or> c = CHR ''-'') l"

definition hostname_matches :: "string \<Rightarrow> bool" where
  "hostname_matches s \<longleftrightarrow> list_all host_label (split_on (CHR ''.'') s)"

definition validate_probe_target :: "string \<Rightarrow> string result" where
  "validate_probe_target target =
     (let clean = strip target
      in if clean = [] then Inl ValueError
         else if startswith clean ''-'' then Inl ValueError
         else if is_ip_address clean then Inr clean
         else if length clean \<le> 253 \<and> hostname_matches clean then Inr clean
         else Inl ValueError)"

subsection \<open>Reading ping output\<close>

text \<open>Pieces of patterns: a literal without regard to case, white space, and a run of a class.\<close>

definition literal :: "string \<Rightarrow> string \<Rightarrow> string option" where
  "literal p s = (if lower (take (length p) s) = lower p then Some (drop (length p) s) else None)"

definition spaces1 :: "string \<Rightarrow> string option" where
  "spaces1 s = (if lstrip s = s then None else Some (lstrip s))"

definition run_of :: "(char \<Rightarrow> bool) \<Rightarrow> string \<Rightarrow> (string \<times> string) option" where
  "run_of P s = (if takeWhile P s = [] then None else Some (takeWhile P s, dropWhile P s))"

fun find_match :: "(string \<Rightarrow> 'a option) \<Rightarrow> string \<Rightarrow> 'a option" where
  "find_match m [] = m []"
| "find_match m (c # cs) = (case m (c # cs) of Some x \<Rightarrow> Some x | None \<Rightarrow> find_match m cs)"

definition option_or :: "'a option \<Rightarrow> 'a \<Rightarrow> 'a" where
  "option_or x y = (case x of None \<Rightarrow> y | Some z \<Rightarrow> z)"

text \<open>\<open>(\d+(?:\.\d+)?)%\s*(?:packet\s*)?loss\<close>\<close>

definition match_loss :: "string \<Rightarrow> string option" where
  "match_loss s =
     do { (whole, r) \<leftarrow> run_of is_digit s;
          let (num, r1) = (case do { r' \<leftarrow> literal ''.'' r; run_of is_digit r' } of
                             Some (fr, r2) \<Rightarrow> (whole @ ''.'' @ fr, r2) | None \<Rightarrow> (whole, r));
          r3 \<leftarrow> literal ''%'' r1;
          let r4 = lstrip r3;
          r5 \<leftarrow> literal ''loss'' (option_or (map_option lstrip (literal ''packet'' r4)) r4);
          Some num }"

definition number_char :: "char \<Rightarrow> bool" where
  "number_char c \<longleftrightarrow> is_digit c \<or> c = CHR ''.''"

definition either :: "'a option \<Rightarrow> 'a option \<Rightarrow> 'a option" where
  "either x y = (case x of None \<Rightarrow> y | Some z \<Rightarrow> Some z)"

text \<open>\<open>(?:rtt|round-trip)\s+min/avg/max/(?:mdev|stddev)\s*=\s*([\d\.]+)/([\d\.]+)/([\d\.]+)/([\d\.]+)\<close>: the
  second and the fourth group.\<close>

definition match_rtt :: "string \<Rightarrow> (string \<times> string) option" where
  "match_rtt s =
     do { r1 \<leftarrow> either (literal ''rtt'' s) (literal ''round-trip'' s);
          r2 \<leftarrow> spaces1 r1;
          r3 \<leftarrow> literal ''min/avg/max/'' r2;
          r4 \<leftarrow> either (literal ''mdev'' r3) (literal ''stddev'' r3);
          r5 \<leftarrow> literal ''='' (lstrip r4);
          (a, r6) \<leftarrow> run_of number_char (lstrip r5);
          r7 \<leftarrow> literal ''/'' r6;
          (b, r8) \<leftarrow> run_of number_char r7;
          r9 \<leftarrow> literal ''/'' r8;
          (c, r10) \<leftarrow> run_of number_char r9;
          r11 \<leftarrow> literal ''/'' r10;
          (d, r12) \<leftarrow> run_of number_char r11;
          Some (b, d) }"

definition labelled_ms :: "string \<Rightarrow> string \<Rightarrow> (string \<times> string) option" where
  "labelled_ms label s =
     do { r1 \<leftarrow> literal label s;
          r2 \<leftarrow> literal ''='' (lstrip r1);
          (n, r3) \<leftarrow> run_of is_digit (lstrip r2);
          r4 \<leftarrow> literal ''ms'' r3;
          Some (n, r4) }"

definition match_windows :: "string \<Rightarrow> (string \<times> string \<times> string) option" where
  "match_windows s =
     do { (a, r1) \<leftarrow> labelled_ms ''Minimum'' s;
          r2 \<leftarrow> literal '','' r1;
          (b, r3) \<leftarrow> labelled_ms ''Maximum'' (lstrip r2);
          r4 \<leftarrow> literal '','' r3;
          (c, r5) \<leftarrow> labelled_ms ''Average'' (lstrip r4);
          Some (a, b, c) }"

text \<open>\<open>float\<close> of a matched group, for numbers within the range of floats.\<close>

definition number_value :: "string \<Rightarrow> rat result" where
  "number_value s = (case py_float_any s of Some (PyFin neg m) \<Rightarrow> Inr (if neg then - m else m) | _ \<Rightarrow> Inl ValueError)"

datatype ping_outcome = PingOutput string | PingTimeout | PingOsError

type_synonym probe_stats = "rat \<times> rat \<times> rat"

definition unreachable :: probe_stats where
  "unreachable = (999, 99, 100)"

text \<open>The numbers of a ping output; \<open>None\<close> when neither summary line is there.\<close>

definition read_ping_output :: "string \<Rightarrow> probe_stats option result" where
  "read_ping_output out =
     bind_result (case find_match match_loss out of None \<Rightarrow> Inr 0 | Some l \<Rightarrow> number_value l) (\<lambda>loss.
       case find_match match_rtt out of
         Some (avg, dev) \<Rightarrow>
           bind_result (number_value avg) (\<lambda>a. bind_result (number_value dev) (\<lambda>j.
             Inr (Some (py_round 2 a, py_round 2 j, py_round 1 loss))))
       | None \<Rightarrow>
           (case find_match match_windows out of
              Some (lo, hi, avg) \<Rightarrow>
                bind_result (number_value lo) (\<lambda>l. bind_result (number_value hi) (\<lambda>h. bind_result (number_value avg) (\<lambda>a.
                  Inr (Some (py_round 2 a, py_round 2 (max 0 (h - l)), py_round 1 loss)))))
            | None \<Rightarrow> Inr None))"

record probe_env =
  ping_run :: "string \<Rightarrow> nat \<Rightarrow> ping_outcome"
  connect_ms :: "string \<Rightarrow> nat \<Rightarrow> nat \<Rightarrow> rat option"
  posix_net :: bool
  route_table :: "string result option"
  eth_counters :: "(int \<times> int) result"

definition execute_socket_probes :: "probe_env \<Rightarrow> string \<Rightarrow> nat \<Rightarrow> probe_stats" where
  "execute_socket_probes env target tries =
     (let port = (if target \<in> {''1.1.1.1'', ''8.8.8.8''} then 53 else 80);
          outcomes = map (connect_ms env target port) [0..<tries];
          latencies = map the (filter (\<lambda>x. x \<noteq> None) outcomes);
          dropped = length (filter (\<lambda>x. x = None) outcomes)
      in if latencies = [] then unreachable
         else (py_round 2 (sum_list latencies / of_nat (length latencies)),
               py_round 2 (Max (set latencies) - Min (set latencies)),
               py_round 1 (of_nat dropped / of_nat tries * 100)))"

definition execute_ping_probes :: "probe_env \<Rightarrow> string \<Rightarrow> int \<Rightarrow> probe_stats result" where
  "execute_ping_probes env target tries =
     (case validate_probe_target target of
        Inl e \<Rightarrow> Inr unreachable
      | Inr clean \<Rightarrow>
          (let n = nat (max 1 (min tries 20))
           in case ping_run env clean n of
                PingTimeout \<Rightarrow> Inr unreachable
              | PingOsError \<Rightarrow> Inr (execute_socket_probes env clean n)
              | PingOutput out \<Rightarrow>
                  bind_result (read_ping_output out) (\<lambda>st.
                    case st of Some x \<Rightarrow> Inr x | None \<Rightarrow> Inr (execute_socket_probes env clean n))))"

subsection \<open>The default gateway\<close>

text \<open>\<open>line.split()\<close> and \<open>int(s, 16)\<close>.\<close>

function split_words :: "string \<Rightarrow> string list" where
  "split_words s =
     (let r = lstrip s
      in if r = [] then [] else takeWhile (\<lambda>c. \<not> is_space c) r # split_words (dropWhile (\<lambda>c. \<not> is_space c) r))"
  by pat_completeness auto
termination
proof (relation "measure length")
  fix s r :: string assume r: "r = lstrip s" "r \<noteq> []"
  then have "\<not> is_space (hd r)" unfolding lstrip_def by (metis hd_dropWhile)
  then have "length (dropWhile (\<lambda>c. \<not> is_space c) r) < length r"
    using r(2) by (cases r) (auto simp: le_imp_less_Suc length_dropWhile_le)
  moreover have "length r \<le> length s" unfolding r(1) lstrip_def by (rule length_dropWhile_le)
  ultimately show "(dropWhile (\<lambda>c. \<not> is_space c) r, s) \<in> measure length" by simp
qed simp

declare split_words.simps [simp del]

definition hex_number :: "string \<Rightarrow> nat" where
  "hex_number s = foldl (\<lambda>n c. 16 * n + (case hex_val c of Some d \<Rightarrow> d | None \<Rightarrow> 0)) 0 s"

definition py_int16 :: "string \<Rightarrow> int option" where
  "py_int16 s =
     (let (neg, body) = split_sign (strip s);
          digits = (if lower (take 2 body) = ''0x'' then (if startswith (drop 2 body) ''_'' then drop 3 body else drop 2 body) else body);
          parts = split_on (CHR ''_'') digits
      in if list_all (\<lambda>p. p \<noteq> [] \<and> list_all (\<lambda>c. hex_val c \<noteq> None) p) parts
         then Some (if neg then - int (hex_number (concat parts)) else int (hex_number (concat parts))) else None)"

text \<open>\<open>socket.inet_ntoa(struct.pack("<I", n))\<close>\<close>

definition pack_ntoa :: "int \<Rightarrow> string result" where
  "pack_ntoa i =
     (if i < 0 \<or> 2 ^ 32 \<le> i then Inl (LibraryError ''struct.error'')
      else
        (let n = nat i
         in Inr (join ''.'' (map nat_str [n mod 256, n div 256 mod 256, n div 65536 mod 256, n div 16777216]))))"

fun gateway_of_lines :: "string list \<Rightarrow> string option result" where
  "gateway_of_lines [] = Inr None"
| "gateway_of_lines (line # ls) =
     (case split_words line of
        _ # dest # gateway # _ \<Rightarrow>
          if dest = ''00000000'' \<and> gateway \<noteq> ''00000000''
          then (case py_int16 gateway of
                  None \<Rightarrow> Inl ValueError
                | Some i \<Rightarrow> bind_result (pack_ntoa i) (\<lambda>g. Inr (Some g)))
          else gateway_of_lines ls
      | _ \<Rightarrow> gateway_of_lines ls)"

definition fallback_gateway :: string where
  "fallback_gateway = ''192.168.1.1''"

definition resolve_default_gateway :: "probe_env \<Rightarrow> string result" where
  "resolve_default_gateway env =
     (if \<not> posix_net env then Inr fallback_gateway
      else (case route_table env of
              None \<Rightarrow> Inr fallback_gateway
            | Some contents \<Rightarrow>
                (case bind_result contents (\<lambda>text_read. gateway_of_lines (drop 1 (splitlines text_read))) of
                   Inl e \<Rightarrow> if is_os_error e \<or> is_value_error e then Inr fallback_gateway else Inl e
                 | Inr None \<Rightarrow> Inr fallback_gateway
                 | Inr (Some g) \<Rightarrow> Inr g)))"

definition check_udp_drops :: "probe_env \<Rightarrow> bool result" where
  "check_udp_drops env =
     (case eth_counters env of
        Inl e \<Rightarrow> if is_os_error e then Inr False else Inl e
      | Inr (dropin, errin) \<Rightarrow> Inr (0 < dropin \<or> 0 < errin))"

subsection \<open>The verdict\<close>

record diag_metrics =
  dm_fps :: rat
  dm_frame :: rat
  dm_gw :: probe_stats
  dm_net :: probe_stats
  dm_drops :: bool
  dm_aligned :: bool

definition avg_of :: "probe_stats \<Rightarrow> rat" where "avg_of p = fst p"
definition jitter_of :: "probe_stats \<Rightarrow> rat" where "jitter_of p = fst (snd p)"
definition loss_of :: "probe_stats \<Rightarrow> rat" where "loss_of p = snd (snd p)"

definition evaluate_diagnostics_verdict :: "diag_metrics \<Rightarrow> string \<times> string \<times> string \<times> string" where
  "evaluate_diagnostics_verdict m =
     (if dm_fps m < 25 \<or> 40 < dm_frame m then
        (''SERVER_TICK_STARVATION'', ''{warning} Server Engine Tick Lag (Low FPS)'',
         ''The server is ticking at '' @ fixed1 (dm_fps m) @ '' FPS ('' @ fixed1 (dm_frame m) @ ''ms frame time). '' @
         ''Palworld movement reconciliation assumes >= 30 FPS. When engine ticks drop below this threshold, '' @
         ''player positions desynchronize and snap back (rubberbanding), even with zero network latency.'',
         ''Lower Pal/Item spawn multipliers (PalSpawnNumRate, DropItemMaxNum), restart the server to clear '' @
         ''memory fragmentation, or allocate more CPU threads.'')
      else if 20 < jitter_of (dm_gw m) \<or> 0 < loss_of (dm_gw m) then
        (''NETWORK_JITTER'', ''{warning} Local LAN / Router Jitter Detected'',
         ''Local router gateway latency variance is high (Jitter: '' @ fixed1 (jitter_of (dm_gw m)) @ ''ms, Loss: '' @
         fixed1 (loss_of (dm_gw m)) @ ''%). '' @
         ''This indicates local Wi-Fi interference, powerline ethernet instability, or router CPU saturation.'',
         ''Connect the server directly via Cat6 Ethernet cable, bypass Wi-Fi repeaters, and check router CPU load.'')
      else if 2 < loss_of (dm_net m) \<or> dm_drops m then
        (''NAT_PACKET_LOSS'', ''{warning} UDP Packet Drops / NAT State Saturation'',
         ''Detected '' @ fixed1 (loss_of (dm_net m)) @ ''% public internet packet loss or kernel UDP drops. Router NAT state tables '' @
         ''may be overflowing or UDP socket queues are dropping packets.'',
         ''Verify router port forwarding for UDP 8211. Increase Linux UDP socket buffer limits '' @
         ''(sysctl -w net.core.rmem_max=26214400).'')
      else if 35 < jitter_of (dm_net m) then
        (''NETWORK_JITTER'', ''{warning} ISP WAN Bufferbloat / Jitter'',
         ''Local LAN is clean, but public internet ping spikes significantly (Jitter: '' @ fixed1 (jitter_of (dm_net m)) @ ''ms). '' @
         ''Bufferbloat or ISP WAN congestion is causing erratic packet arrival times.'',
         ''Enable SQM / Smart Queue Management on your router to eliminate WAN bufferbloat under load.'')
      else
        (''CLEAN'', ''{green} Network & NAT Healthy (No Bottlenecks Detected)'',
         ''Local gateway latency is steady ('' @ fixed1 (avg_of (dm_gw m)) @ ''ms, jitter: '' @ fixed1 (jitter_of (dm_gw m)) @
         ''ms, 0% loss). '' @ ''Internet latency is steady ('' @ fixed1 (avg_of (dm_net m)) @ ''ms, jitter: '' @
         fixed1 (jitter_of (dm_net m)) @ ''ms). '' @ ''Server tickrate is optimal ('' @ fixed1 (dm_fps m) @ '' FPS, '' @
         fixed1 (dm_frame m) @ ''ms). '' @ ''NAT alignment is '' @ (if dm_aligned m then ''VERIFIED'' else ''PENDING'') @ ''.'',
         ''Host network, NAT, and engine tick rate are running smoothly. If individual tamers report '' @
         ''rubberbanding, the bottleneck is on their local ISP, high-latency Wi-Fi, or remote connection.''))"

record NetworkDiagnosticsResult =
  gateway_ip :: string
  gateway_stats :: probe_stats
  internet_stats :: probe_stats
  diag_fps :: rat
  diag_frame_ms :: rat
  udp_drops_detected :: bool
  diag_aligned :: bool
  verdict :: string
  verdict_title :: string
  verdict_details :: string
  recommendation :: string

definition run_network_diagnostics_sweep :: "probe_env \<Rightarrow> rat \<Rightarrow> rat \<Rightarrow> bool \<Rightarrow> NetworkDiagnosticsResult result" where
  "run_network_diagnostics_sweep env fps frame aligned =
     bind_result (resolve_default_gateway env) (\<lambda>gw.
     bind_result (execute_ping_probes env gw 5) (\<lambda>gs.
     bind_result (execute_ping_probes env ''1.1.1.1'' 5) (\<lambda>ns.
     bind_result (check_udp_drops env) (\<lambda>drops.
       (case evaluate_diagnostics_verdict \<lparr>dm_fps = fps, dm_frame = frame, dm_gw = gs, dm_net = ns, dm_drops = drops, dm_aligned = aligned\<rparr> of
          (v, t, d, r) \<Rightarrow>
            Inr \<lparr>gateway_ip = gw, gateway_stats = gs, internet_stats = ns, diag_fps = fps, diag_frame_ms = frame,
                 udp_drops_detected = drops, diag_aligned = aligned, verdict = v, verdict_title = t, verdict_details = d,
                 recommendation = r\<rparr>)))))"

subsection \<open>Rates and probes stay in range\<close>

lemma round_half_even_mono_0: "0 \<le> x \<Longrightarrow> 0 \<le> round_half_even x"
  by (simp add: round_half_even_def Let_def)

lemma py_round_nonneg: "0 \<le> x \<Longrightarrow> 0 \<le> py_round n x"
  by (simp add: py_round_def round_half_even_mono_0)

definition rates_ok :: "throughput \<Rightarrow> bool" where
  "rates_ok s \<longleftrightarrow> 0 \<le> cached_rx s \<and> 0 \<le> cached_tx s"

lemma update_counters_rates: "rates_ok s \<Longrightarrow> rates_ok (update_counters t recv sent s)"
  by (auto simp: rates_ok_def update_counters_def Let_def intro!: py_round_nonneg divide_nonneg_nonneg)

fun rate_calls :: "(rat \<times> int \<times> int) list \<Rightarrow> throughput \<Rightarrow> net_rates list" where
  "rate_calls [] s = []"
| "rate_calls ((t, recv, sent) # cs) s = (case calculate_rates t recv sent s of (r, s1) \<Rightarrow> r # rate_calls cs s1)"

lemma rate_calls_nonneg:
  "rates_ok s \<Longrightarrow> \<forall>r \<in> set (rate_calls cs s). 0 \<le> rx_rate_kbps r \<and> 0 \<le> tx_rate_kbps r \<and> 0 \<le> rx_rate_mbps r \<and> 0 \<le> tx_rate_mbps r"
proof (induction cs s rule: rate_calls.induct)
  case (2 t recv sent cs s)
  have "rates_ok (update_counters t recv sent s)" by (rule update_counters_rates [OF "2.prems"])
  then show ?case
    using "2.IH" by (auto simp: calculate_rates_def Let_def rates_ok_def intro!: py_round_nonneg)
qed simp

text \<open>Whatever the interface counters and the clock do (counters that wrap or restart, a clock that goes
  back), no reported rate is ever negative.\<close>

theorem rates_never_negative:
  "list_all (\<lambda>r. 0 \<le> rx_rate_kbps r \<and> 0 \<le> tx_rate_kbps r \<and> 0 \<le> rx_rate_mbps r \<and> 0 \<le> tx_rate_mbps r)
     (rate_calls calls reset_throughput)"
  using rate_calls_nonneg [of reset_throughput calls] by (simp add: list_all_iff rates_ok_def reset_throughput_def)

text \<open>The rate reported as \<open>kbps\<close> counts kibibytes: one second with 102400 bytes is 100, not 819.2.\<close>

lemma kbps_counts_bytes:
  "rx_rate_kbps (fst (calculate_rates 2 103424 0 (reset_throughput\<lparr>last_recv := 1024, last_time := 1\<rparr>))) = 100"
  by code_simp

subsection \<open>Accepted targets\<close>

definition target_char :: "char \<Rightarrow> bool" where
  "target_char c \<longleftrightarrow> alnum c \<or> c = CHR ''.'' \<or> c = CHR '':'' \<or> c = CHR ''-''"

lemma split_on_chars: "c \<in> set s \<Longrightarrow> c = d \<or> (\<exists>p \<in> set (split_on d s). c \<in> set p)"
  by (induction s) (auto split: list.splits)

lemma octet_chars: "octet_ok p \<Longrightarrow> c \<in> set p \<Longrightarrow> target_char c"
  by (auto simp: octet_ok_def list_all_iff target_char_def alnum_def)

lemma ipv4_chars: "ipv4_ok s \<Longrightarrow> c \<in> set s \<Longrightarrow> target_char c"
  using split_on_chars [of c s "CHR ''.''"] octet_chars by (auto simp: ipv4_ok_def list_all_iff target_char_def)

lemma hex_alnum: "hex_val c \<noteq> None \<Longrightarrow> alnum c"
  by (auto simp: hex_val_def alnum_def is_ascii_alpha_def split: if_splits)

lemma hextet_chars: "hextet_ok p \<Longrightarrow> c \<in> set p \<Longrightarrow> target_char c"
  using hex_alnum by (auto simp: hextet_ok_def list_all_iff target_char_def)

lemma hostname_chars: "hostname_matches s \<Longrightarrow> c \<in> set s \<Longrightarrow> target_char c"
  using split_on_chars [of c s "CHR ''.''"]
  by (fastforce simp: hostname_matches_def host_label_def list_all_iff target_char_def)

lemma groups_member:
  assumes "groups_ok parts" "p \<in> set parts"
  shows "p = [] \<or> hextet_ok p"
proof (cases "filter (\<lambda>i. parts ! i = []) [1..<length parts - 1]")
  case Nil
  then show ?thesis using assms by (auto simp: groups_ok_def list_all_iff)
next
  case (Cons i js)
  then have js: "js = []" using assms(1) by (cases js) (auto simp: groups_ok_def)
  have "i \<in> set (filter (\<lambda>i. parts ! i = []) [1..<length parts - 1])" unfolding Cons by (rule list.set_intros)
  then have i: "1 \<le> i" "i < length parts" "parts ! i = []" by auto
  have parts: "parts = take i parts @ [] # drop (Suc i) parts"
    using id_take_nth_drop [OF i(2)] i(3) by simp
  have hi: "q = [] \<or> hextet_ok q" if "q \<in> set (take i parts)" for q
    using assms(1) that i Cons js by (cases parts) (auto simp: groups_ok_def list_all_iff Let_def split: if_splits)
  have lo: "q = [] \<or> hextet_ok q" if "q \<in> set (drop (Suc i) parts)" for q
  proof (cases "last parts = []")
    case True
    then have "length (drop (Suc i) parts) = 1" using assms(1) Cons js by (simp add: groups_ok_def Let_def)
    then obtain z where z: "drop (Suc i) parts = [z]" by (auto simp: length_Suc_conv simp del: length_drop)
    then have "last parts = z" by (metis last_drop last.simps drop_eq_Nil list.distinct(1) not_le)
    then show ?thesis using that z True by simp
  next
    case False
    then show ?thesis using assms(1) that Cons js by (auto simp: groups_ok_def list_all_iff Let_def)
  qed
  have "p \<in> set (take i parts) \<or> p = [] \<or> p \<in> set (drop (Suc i) parts)"
    using assms(2) arg_cong [OF parts, of set] by auto
  then show ?thesis using hi lo by blast
qed

lemma ipv6_chars:
  assumes "ipv6_ok s" "CHR ''%'' \<notin> set s" "c \<in> set s"
  shows "target_char c"
proof -
  have "takeWhile (\<lambda>c. c \<noteq> CHR ''%'') s = s" using assms(2) by (auto simp: takeWhile_eq_all_conv)
  then have "case ipv6_parts s of None \<Rightarrow> False | Some parts \<Rightarrow> groups_ok parts"
    using assms(1) unfolding ipv6_ok_def by metis
  then obtain ps where ps: "ipv6_parts s = Some ps" "groups_ok ps" by (cases "ipv6_parts s") simp_all
  have "q = [] \<or> hextet_ok q \<or> ipv4_ok q" if q: "q \<in> set (split_on (CHR '':'') s)" for q
  proof (cases "CHR ''.'' \<in> set (last (split_on (CHR '':'') s))")
    case True
    let ?p = "split_on (CHR '':'') s"
    have "ps = butlast ?p @ [''0'', ''0'']" "ipv4_ok (last ?p)"
      using ps(1) True by (auto simp: ipv6_parts_def Let_def split: if_splits)
    moreover have "q \<in> set (butlast ?p) \<or> q = last ?p"
      using q append_butlast_last_id [of ?p] by (metis UnE empty_iff empty_set set_ConsD set_append split_on_not_Nil)
    ultimately show ?thesis using groups_member [OF ps(2), of q] by auto
  next
    case False
    then have "ps = split_on (CHR '':'') s" using ps(1) by (auto simp: ipv6_parts_def Let_def split: if_splits)
    then show ?thesis using groups_member [OF ps(2), of q] q by auto
  qed
  then show ?thesis
    using split_on_chars [OF assms(3), of "CHR '':''"] hextet_chars ipv4_chars by (fastforce simp: target_char_def)
qed

lemma accepted_target:
  assumes "validate_probe_target t = Inr s"
  shows "s = strip t" "s \<noteq> []" "\<not> startswith s ''-''" "is_ip_address s \<or> (length s \<le> 253 \<and> hostname_matches s)"
  using assms by (auto simp: validate_probe_target_def Let_def split: if_splits)

text \<open>An accepted probe target is the text without surrounding white space, it is no command line option, and
  when it has no scope identifier (\<open>%\<close>) it consists of letters, digits, dots, colons and
  hyphens only.\<close>

theorem probe_target_safe:
  assumes "validate_probe_target t = Inr s"
  shows "s = strip t \<and> s \<noteq> [] \<and> hd s \<noteq> CHR ''-'' \<and> (CHR ''%'' \<in> set s \<or> list_all target_char s)"
proof -
  note a = accepted_target [OF assms]
  have "hd s \<noteq> CHR ''-''" using a(2,3) by (cases s) (auto simp: startswith_def)
  moreover have "list_all target_char s" if "CHR ''%'' \<notin> set s"
    using a(4) that ipv4_chars ipv6_chars hostname_chars by (auto simp: list_all_iff is_ip_address_def)
  ultimately show ?thesis using a(1,2) by blast
qed

text \<open>A scope identifier may hold anything but \<open>%\<close> and \<open>/\<close>.\<close>

lemma scope_admits_shell_characters: "validate_probe_target ''fe80::1%$(reboot);'' = Inr ''fe80::1%$(reboot);''"
  by code_simp

subsection \<open>The gateway\<close>

definition route_digit :: "nat \<Rightarrow> char" where
  "route_digit n = ''0123456789ABCDEF'' ! n"

definition route_byte :: "nat \<Rightarrow> string" where
  "route_byte n = [route_digit (n div 16), route_digit (n mod 16)]"

text \<open>The kernel prints the address \<open>a.b.c.d\<close> with its bytes in reverse.\<close>

definition route_entry :: "nat \<Rightarrow> nat \<Rightarrow> nat \<Rightarrow> nat \<Rightarrow> string" where
  "route_entry a b c d = route_byte d @ route_byte c @ route_byte b @ route_byte a"

lemma hex_val_route_digit: "n < 16 \<Longrightarrow> hex_val (route_digit n) = Some n"
proof -
  have "\<forall>k \<in> set [0..<16]. hex_val (route_digit k) = Some k" by code_simp
  then show "n < 16 \<Longrightarrow> ?thesis" by simp
qed

lemma ord_x: "ord (CHR ''x'') = 120"
  by (simp add: ord_def)

lemma hex_not_special: "hex_val c \<noteq> None \<Longrightarrow> c \<noteq> CHR ''-'' \<and> c \<noteq> CHR ''+'' \<and> c \<noteq> CHR ''_'' \<and> \<not> is_space c \<and> lower_char c \<noteq> CHR ''x''"
proof -
  assume h: "hex_val c \<noteq> None"
  have "ord (char_of (ord c + 32) :: char) = ord c + 32" if "ord c \<le> 70" using that by (simp add: ord_def)
  then have "lower_char c \<noteq> CHR ''x''" using h
    by (auto simp: hex_val_def is_digit_def lower_char_def char_eq_ord [of _ "CHR ''x''"] ord_x split: if_splits)
  then show ?thesis using h by (auto simp: hex_val_def is_digit_def is_space_def ord_def split: if_splits)
qed

lemma py_int16_run:
  assumes "list_all (\<lambda>c. hex_val c \<noteq> None) s" "2 \<le> length s"
  shows "py_int16 s = Some (int (hex_number s))"
proof -
  obtain x y zs where s: "s = x # y # zs" using assms(2) by (auto simp: numeral_2_eq_2 Suc_le_length_iff)
  have h: "hex_val x \<noteq> None" "hex_val y \<noteq> None" "CHR ''_'' \<notin> set s"
    using assms(1) hex_not_special s by (auto simp: list_all_iff)
  have "last s \<in> set s" using s by (intro last_in_set) simp
  then have "hex_val (last s) \<noteq> None" using assms(1) by (simp add: list_all_iff)
  then have "\<not> is_space (last s)" using hex_not_special by blast
  moreover have "\<not> is_space (hd s)" using hex_not_special [OF h(1)] by (simp add: s)
  ultimately have "strip s = s" by (intro strip_id) simp_all
  moreover have "split_sign s = (False, s)" using hex_not_special [OF h(1)] by (simp add: s)
  moreover have "lower (take 2 s) \<noteq> ''0x''" using hex_not_special [OF h(2)] by (simp add: s lower_def)
  moreover have "s \<noteq> []" using s by simp
  moreover note split_on_single [OF h(3)] assms(1)
  ultimately show ?thesis unfolding py_int16_def Let_def by simp
qed

lemma route_entry_value:
  assumes "a < 256" "b < 256" "c < 256" "d < 256"
  shows "py_int16 (route_entry a b c d) = Some (int (a + 256 * b + 65536 * c + 16777216 * d))"
proof -
  have "hex_val (route_digit (n div 16)) = Some (n div 16)" "hex_val (route_digit (n mod 16)) = Some (n mod 16)" if "n < 256" for n
    using that by (auto intro!: hex_val_route_digit)
  note h = this [OF assms(1)] this [OF assms(2)] this [OF assms(3)] this [OF assms(4)]
  have m: "16 * (n div 16) + n mod 16 = n" for n :: nat by simp
  have n: "hex_number (route_entry a b c d) = 16777216 * (16 * (d div 16) + d mod 16) + 65536 * (16 * (c div 16) + c mod 16) +
     256 * (16 * (b div 16) + b mod 16) + (16 * (a div 16) + a mod 16)"
    by (simp add: hex_number_def route_entry_def route_byte_def h)
  have "py_int16 (route_entry a b c d) = Some (int (hex_number (route_entry a b c d)))"
    by (rule py_int16_run) (simp_all add: route_entry_def route_byte_def h)
  then show ?thesis unfolding n m by (simp add: add.commute)
qed

definition dotted :: "nat \<Rightarrow> nat \<Rightarrow> nat \<Rightarrow> nat \<Rightarrow> string" where
  "dotted a b c d = nat_str a @ ''.'' @ nat_str b @ ''.'' @ nat_str c @ ''.'' @ nat_str d"

lemma pack_ntoa_bytes:
  assumes "a < 256" "b < 256" "c < 256" "d < 256"
  shows "pack_ntoa (int (a + 256 * b + 65536 * c + 16777216 * d)) = Inr (dotted a b c d)"
proof -
  let ?n = "a + 256 * b + 65536 * c + 16777216 * d"
  define q where "q = b + 256 * (c + 256 * d)"
  define r where "r = c + 256 * d"
  have n: "?n = a + 256 * q" "q = b + 256 * r" by (simp_all add: q_def r_def)
  have q: "?n mod 256 = a" "?n div 256 = q" using assms(1) unfolding n(1) by simp_all
  have r: "q mod 256 = b" "q div 256 = r" using assms(2) unfolding n(2) by simp_all
  have s: "r mod 256 = c" "r div 256 = d" using assms(3) unfolding r_def by simp_all
  have "?n div 65536 = ?n div 256 div 256" "?n div 16777216 = ?n div 256 div 256 div 256"
    by (simp_all add: div_mult2_eq [symmetric])
  then have e: "?n mod 256 = a" "?n div 256 mod 256 = b" "?n div 65536 mod 256 = c" "?n div 16777216 = d"
    by (simp_all only: q r s)
  have lt: "?n < 4294967296" using assms by linarith
  have "(2 :: int) ^ 32 = int 4294967296" by simp
  then have "\<not> (int ?n < 0 \<or> 2 ^ 32 \<le> int ?n)" using lt by (simp only: of_nat_le_iff of_nat_less_0_iff not_le) simp
  then show ?thesis unfolding pack_ntoa_def Let_def nat_int e by (simp add: dotted_def)
qed

text \<open>Reading the routing table inverts what the kernel writes: for a default route through the
  gateway \<open>a.b.c.d\<close> the resolved gateway is the dotted address, wherever the line stands among
  routes to other networks.\<close>

theorem gateway_round_trip:
  assumes "a < 256" "b < 256" "c < 256" "d < 256" "route_entry a b c d \<noteq> ''00000000''"
    and "\<forall>l \<in> set before. \<exists>i dest g r. split_words l = i # dest # g # r \<and> dest \<noteq> ''00000000''"
    and "split_words line = iface # ''00000000'' # route_entry a b c d # others"
  shows "gateway_of_lines (before @ line # rest) = Inr (Some (dotted a b c d))"
  using assms(6)
proof (induction before)
  case Nil
  show ?case
    using assms(5,7) route_entry_value [OF assms(1-4)] pack_ntoa_bytes [OF assms(1-4)] by simp
next
  case (Cons l ls)
  then show ?case by fastforce
qed

subsection \<open>The verdict\<close>

text \<open>The verdict is \<open>CLEAN\<close> exactly when every measured value is within its threshold.\<close>

theorem clean_verdict_thresholds:
  "fst (evaluate_diagnostics_verdict m) = ''CLEAN'' \<longleftrightarrow>
     25 \<le> dm_fps m \<and> dm_frame m \<le> 40 \<and> jitter_of (dm_gw m) \<le> 20 \<and> loss_of (dm_gw m) \<le> 0 \<and>
     loss_of (dm_net m) \<le> 2 \<and> \<not> dm_drops m \<and> jitter_of (dm_net m) \<le> 35"
  by (auto simp: evaluate_diagnostics_verdict_def not_less)

text \<open>The drop counter of the interface only grows, so one frame dropped since boot excludes the
  verdict \<open>CLEAN\<close> until the next boot.\<close>

lemma one_drop_since_boot:
  assumes "eth_counters env = Inr (k, e)" "0 < k" "run_network_diagnostics_sweep env fps frame aligned = Inr r"
  shows "verdict r \<noteq> ''CLEAN''"
proof -
  have "check_udp_drops env = Inr True" using assms(1,2) by (simp add: check_udp_drops_def)
  then obtain gw gs ns where "(case evaluate_diagnostics_verdict
       \<lparr>dm_fps = fps, dm_frame = frame, dm_gw = gs, dm_net = ns, dm_drops = True, dm_aligned = aligned\<rparr> of
          (v, t, d, rc) \<Rightarrow>
            Inr \<lparr>gateway_ip = gw, gateway_stats = gs, internet_stats = ns, diag_fps = fps, diag_frame_ms = frame,
                 udp_drops_detected = True, diag_aligned = aligned, verdict = v, verdict_title = t, verdict_details = d,
                 recommendation = rc\<rparr>) = (Inr r :: NetworkDiagnosticsResult result)"
    using assms(3) unfolding run_network_diagnostics_sweep_def bind_result_Inr_iff by auto
  then have "verdict r = fst (evaluate_diagnostics_verdict
       \<lparr>dm_fps = fps, dm_frame = frame, dm_gw = gs, dm_net = ns, dm_drops = True, dm_aligned = aligned\<rparr>)"
    by (auto split: prod.splits)
  then show ?thesis by (simp add: evaluate_diagnostics_verdict_def)
qed

subsection \<open>Witnesses\<close>

theorem probe_target_safe_witness:
  "hd ''one.one'' \<noteq> CHR ''-'' \<and> validate_probe_target '' one.one '' = Inr ''one.one''"
proof -
  have v: "validate_probe_target '' one.one '' = Inr ''one.one''" by code_simp
  then show ?thesis using probe_target_safe [OF v] by blast
qed

theorem gateway_round_trip_witness:
  "gateway_of_lines [''eth0 0000A8C0 00000000 0001'', ''eth0 00000000 0101A8C0 0003''] = Inr (Some (dotted 192 168 1 1))"
proof -
  have s: "split_words ''eth0 0000A8C0 00000000 0001'' = [''eth0'', ''0000A8C0'', ''00000000'', ''0001'']"
    "split_words ''eth0 00000000 0101A8C0 0003'' = [''eth0'', ''00000000'', ''0101A8C0'', ''0003'']"
    "route_entry 192 168 1 1 = ''0101A8C0''"
    by code_simp+
  have ne: "route_entry 192 168 1 1 \<noteq> ''00000000''" unfolding s(3) by simp
  have b: "\<forall>l \<in> set [''eth0 0000A8C0 00000000 0001'']. \<exists>i dest g r. split_words l = i # dest # g # r \<and> dest \<noteq> ''00000000''"
    using s(1) by simp
  have l: "split_words ''eth0 00000000 0101A8C0 0003'' = ''eth0'' # ''00000000'' # route_entry 192 168 1 1 # [''0003'']"
    unfolding s(2,3) by (rule refl)
  show ?thesis
    using gateway_round_trip [OF _ _ _ _ ne b l, of "[]"] by (simp only: append.simps)
qed

end
