(* ===== verification/Steam_Query.thy ===== *)
theory Steam_Query
  imports Json_Store Log_Scraper Net_Diagnostics
begin

section \<open>Steam server queries\<close>

text \<open>
  The A2S part of \<^verbatim>\<open>app/monitoring/tracker.py\<close>: the parser of the binary reply, the exchange
  with an optional challenge, and the sweep over hosts and ports. Bytes are characters; a decoded
  name is a list of code points, as the decoder replaces what is no UTF-8 by code point 65533.
\<close>

subsection \<open>Decoding with replacement\<close>

type_synonym code_points = "nat list"

definition code_points_of :: "string \<Rightarrow> code_points" where
  "code_points_of s = map ord s"

text \<open>The number of continuation bytes a first byte asks for, the range of the first of them, and
  the bits the first byte carries.\<close>

definition utf8_lead :: "nat \<Rightarrow> (nat \<times> nat \<times> nat \<times> nat) option" where
  "utf8_lead b =
     (if 194 \<le> b \<and> b \<le> 223 then Some (1, 128, 191, b - 192)
      else if b = 224 then Some (2, 160, 191, 0)
      else if b = 237 then Some (2, 128, 159, 13)
      else if 225 \<le> b \<and> b \<le> 239 then Some (2, 128, 191, b - 224)
      else if b = 240 then Some (3, 144, 191, 0)
      else if 241 \<le> b \<and> b \<le> 243 then Some (3, 128, 191, b - 240)
      else if b = 244 then Some (3, 128, 143, 4)
      else None)"

text \<open>Reads continuation bytes; what does not fit ends the character, which is then replaced, and
  is read again as a first byte.\<close>

fun utf8_tail :: "nat \<Rightarrow> nat \<Rightarrow> nat \<Rightarrow> nat \<Rightarrow> string \<Rightarrow> nat \<times> string" where
  "utf8_tail 0 lo hi acc s = (acc, s)"
| "utf8_tail (Suc n) lo hi acc [] = (65533, [])"
| "utf8_tail (Suc n) lo hi acc (c # cs) =
     (if lo \<le> ord c \<and> ord c \<le> hi then utf8_tail n 128 191 (acc * 64 + (ord c - 128)) cs else (65533, c # cs))"

lemma length_utf8_tail: "length (snd (utf8_tail n lo hi acc s)) \<le> length s"
  by (induction n lo hi acc s rule: utf8_tail.induct) (auto intro: le_SucI)

function utf8_replace :: "string \<Rightarrow> code_points" where
  "utf8_replace [] = []"
| "utf8_replace (c # cs) =
     (if ord c < 128 then ord c # utf8_replace cs
      else (case utf8_lead (ord c) of
              None \<Rightarrow> 65533 # utf8_replace cs
            | Some (n, lo, hi, bits) \<Rightarrow>
                fst (utf8_tail n lo hi bits cs) # utf8_replace (snd (utf8_tail n lo hi bits cs))))"
  by pat_completeness auto
termination
  by (relation "measure length") (auto simp: le_imp_less_Suc length_utf8_tail)

declare utf8_replace.simps [simp del]

subsection \<open>The reply\<close>

record SteamA2SInfo =
  responsive :: bool
  ping_ms :: "rat option"
  a2s_name :: code_points
  map_name :: code_points
  folder :: code_points
  game_name :: code_points
  query_port :: int
  players_now :: nat
  players_max :: nat

definition a2s_fallback :: "int \<Rightarrow> SteamA2SInfo" where
  "a2s_fallback port =
     \<lparr>responsive = False, ping_ms = None, a2s_name = [], map_name = [], folder = [], game_name = [], query_port = port,
      players_now = 0, players_max = 32\<rparr>"

definition nul :: char where "nul = CHR 0x00"
definition byte_ff :: char where "byte_ff = CHR 0xFF"

text \<open>Up to four strings that end in a zero byte, and the rest of the packet.\<close>

fun take_fields :: "nat \<Rightarrow> string \<Rightarrow> string list \<times> string" where
  "take_fields 0 s = ([], s)"
| "take_fields (Suc n) s =
     (if nul \<in> set s
      then (case take_fields n (drop 1 (dropWhile (\<lambda>c. c \<noteq> nul) s)) of (fs, r) \<Rightarrow> (takeWhile (\<lambda>c. c \<noteq> nul) s # fs, r))
      else ([], s))"

definition field_or :: "nat \<Rightarrow> string list \<Rightarrow> string \<Rightarrow> code_points" where
  "field_or i fs dflt = (if i < length fs then utf8_replace (fs ! i) else code_points_of dflt)"

definition parse_a2s_packet :: "string \<Rightarrow> rat option \<Rightarrow> int \<Rightarrow> SteamA2SInfo" where
  "parse_a2s_packet data latency port =
     (if length data < 6 \<or> take 4 data \<noteq> replicate 4 byte_ff \<or> data ! 4 \<noteq> CHR 0x49 then a2s_fallback port
      else
        (case take_fields 4 (drop 6 data) of
           (fs, r) \<Rightarrow>
             (let (n, m) = (if 4 \<le> length r then (ord (r ! 2), ord (r ! 3)) else (0, 32))
              in \<lparr>responsive = True, ping_ms = latency,
                  a2s_name = field_or 0 fs ''Palworld Dedicated Server'',
                  map_name = field_or 1 fs ''Pal/Maps/World'',
                  folder = field_or 2 fs ''Pal'',
                  game_name = field_or 3 fs ''Palworld'',
                  query_port = port, players_now = n, players_max = m\<rparr>)))"

subsection \<open>The exchange\<close>

definition A2S_INFO_REQUEST :: string where
  "A2S_INFO_REQUEST = replicate 4 byte_ff @ ''TSource Engine Query'' @ [nul]"

text \<open>An exchange sends a datagram and waits for the next one; the reply comes with the measured
  milliseconds. The exchanges of a query are numbered.\<close>

record udp_env =
  udp_exchange :: "string \<Rightarrow> int \<Rightarrow> nat \<Rightarrow> string \<Rightarrow> (string \<times> rat) result"

definition exchange :: "udp_env \<Rightarrow> string \<Rightarrow> int \<Rightarrow> nat \<Rightarrow> string \<Rightarrow> (string \<times> rat) result" where
  "exchange env ip port k msg =
     bind_result (udp_exchange env ip port k msg) (\<lambda>(data, ms). Inr (take 2048 data, py_round 1 ms))"

definition execute_a2s_socket_query :: "udp_env \<Rightarrow> string \<Rightarrow> int \<Rightarrow> SteamA2SInfo option result" where
  "execute_a2s_socket_query env ip port =
     (case bind_result (exchange env ip port 0 A2S_INFO_REQUEST) (\<lambda>(data, ms).
              if 9 \<le> length data \<and> data ! 4 = CHR 0x41
              then exchange env ip port 1 (A2S_INFO_REQUEST @ take 4 (drop 5 data))
              else Inr (data, ms)) of
        Inl e \<Rightarrow> if is_os_error e then Inr None else Inl e
      | Inr (data, ms) \<Rightarrow>
          (let info = parse_a2s_packet data (Some ms) port in Inr (if responsive info then Some info else None)))"

fun sweep :: "udp_env \<Rightarrow> (string \<times> int) list \<Rightarrow> SteamA2SInfo option result" where
  "sweep env [] = Inr None"
| "sweep env ((ip, port) # ts) =
     bind_result (execute_a2s_socket_query env ip port) (\<lambda>res.
       case res of Some info \<Rightarrow> Inr (Some info) | None \<Rightarrow> sweep env ts)"

fun keep_first :: "int list \<Rightarrow> int list \<Rightarrow> int list" where
  "keep_first seen [] = seen"
| "keep_first seen (x # xs) = keep_first (if x \<in> set seen then seen else seen @ [x]) xs"

record a2s_state =
  st_ping :: "rat option"
  st_responsive :: bool
  st_name :: "code_points option"
  st_map :: "code_points option"
  st_players :: nat
  st_max :: nat
  st_port :: int

definition new_a2s_state :: a2s_state where
  "new_a2s_state =
     \<lparr>st_ping = None, st_responsive = False, st_name = None, st_map = None, st_players = 0, st_max = 32, st_port = 27015\<rparr>"

definition sweep_targets :: "string \<Rightarrow> int \<Rightarrow> int list \<Rightarrow> (string \<times> int) list" where
  "sweep_targets host port candidates =
     (let hosts = (if host \<noteq> [] \<and> host \<notin> {''127.0.0.1'', ''localhost''} then [''127.0.0.1'', host] else [''127.0.0.1'']);
          ports = keep_first [] (if candidates = [] then [port, 27015, 8211] else candidates)
      in List.product hosts ports)"

definition probe_steam_a2s_info ::
  "udp_env \<Rightarrow> string \<Rightarrow> int \<Rightarrow> int list \<Rightarrow> a2s_state \<Rightarrow> SteamA2SInfo result \<times> a2s_state" where
  "probe_steam_a2s_info env host port candidates st =
     (let offline = (Inr (a2s_fallback port), st\<lparr>st_responsive := False, st_ping := None\<rparr>)
      in case sweep env (sweep_targets host port candidates) of
           Inl e \<Rightarrow> if is_os_error e \<or> is_runtime_error e \<or> is_value_error e then offline else (Inl e, st)
         | Inr None \<Rightarrow> offline
         | Inr (Some info) \<Rightarrow>
             (Inr info, st\<lparr>st_responsive := True, st_ping := ping_ms info, st_port := query_port info,
                st_players := players_now info, st_max := players_max info,
                st_name := (if a2s_name info \<noteq> [] then Some (a2s_name info) else st_name st),
                st_map := (if map_name info \<noteq> [] then Some (map_name info) else st_map st)\<rparr>))"

subsection \<open>What a reply says\<close>

text \<open>The encoder of a well-formed reply, as a game server writes it.\<close>

definition encode_a2s :: "string \<Rightarrow> string \<Rightarrow> string \<Rightarrow> string \<Rightarrow> string \<Rightarrow> nat \<Rightarrow> nat \<Rightarrow> string \<Rightarrow> string" where
  "encode_a2s sname mname fdir gname app n m more_bytes =
     [byte_ff, byte_ff, byte_ff, byte_ff, CHR 0x49, CHR 0x11] @ sname @ [nul] @ mname @ [nul] @ fdir @ [nul] @ gname @ [nul] @
     app @ [char_of n, char_of m] @ more_bytes"

lemma take_fields_step: "nul \<notin> set f \<Longrightarrow> take_fields (Suc n) (f @ nul # s) = (f # fst (take_fields n s), snd (take_fields n s))"
proof -
  assume a: "nul \<notin> set f"
  then have "takeWhile (\<lambda>c. c \<noteq> nul) (f @ nul # s) = f" "dropWhile (\<lambda>c. c \<noteq> nul) (f @ nul # s) = nul # s"
    by (induction f) auto
  then show ?thesis by (simp split: prod.split)
qed

lemma parse_reply:
  "parse_a2s_packet ([byte_ff, byte_ff, byte_ff, byte_ff, CHR 0x49, x] @ s) latency port =
     (case take_fields 4 s of
        (fs, r) \<Rightarrow>
          \<lparr>responsive = True, ping_ms = latency,
           a2s_name = field_or 0 fs ''Palworld Dedicated Server'', map_name = field_or 1 fs ''Pal/Maps/World'',
           folder = field_or 2 fs ''Pal'', game_name = field_or 3 fs ''Palworld'',
           query_port = port, players_now = (if 4 \<le> length r then ord (r ! 2) else 0),
           players_max = (if 4 \<le> length r then ord (r ! 3) else 32)\<rparr>)"
proof -
  have "take 4 ([byte_ff, byte_ff, byte_ff, byte_ff, CHR 0x49, x] @ s) = replicate 4 byte_ff"
    "([byte_ff, byte_ff, byte_ff, byte_ff, CHR 0x49, x] @ s) ! 4 = CHR 0x49"
    "drop 6 ([byte_ff, byte_ff, byte_ff, byte_ff, CHR 0x49, x] @ s) = s"
    "\<not> length ([byte_ff, byte_ff, byte_ff, byte_ff, CHR 0x49, x] @ s) < 6"
    by (simp_all add: numeral_eq_Suc)
  then show ?thesis
    unfolding parse_a2s_packet_def by (cases "take_fields 4 s") (simp add: Let_def del: append_Cons)
qed

text \<open>C27. The parser inverts the encoder: names without a zero byte, both counts and the measured latency come out
  as they went in, whatever follows in the packet.\<close>

theorem a2s_reply_round_trip:
  assumes "nul \<notin> set sname" "nul \<notin> set mname" "nul \<notin> set fdir" "nul \<notin> set gname" "length app = 2" "n < 256" "m < 256"
  shows "parse_a2s_packet (encode_a2s sname mname fdir gname app n m more_bytes) latency port =
     \<lparr>responsive = True, ping_ms = latency, a2s_name = utf8_replace sname, map_name = utf8_replace mname,
      folder = utf8_replace fdir, game_name = utf8_replace gname, query_port = port, players_now = n, players_max = m\<rparr>"
proof -
  obtain x y where app: "app = [x, y]" using assms(5) by (auto simp: length_Suc_conv numeral_2_eq_2)
  let ?r = "app @ [char_of n, char_of m] @ more_bytes"
  have f: "take_fields 4 (sname @ [nul] @ mname @ [nul] @ fdir @ [nul] @ gname @ [nul] @ ?r) = ([sname, mname, fdir, gname], ?r)"
    using assms(1-4) by (simp add: numeral_eq_Suc take_fields_step del: take_fields.simps(2))
  have o: "ord (char_of n) = n" "ord (char_of m) = m" using assms(6,7) by (simp_all add: ord_def)
  show ?thesis
    unfolding encode_a2s_def parse_reply f by (simp add: field_or_def app o)
qed

text \<open>A packet that stops inside the first name is still taken as a reply, and its player counts are
  bytes of the name.\<close>

lemma unterminated_reply_is_responsive:
  "responsive (parse_a2s_packet ([byte_ff, byte_ff, byte_ff, byte_ff, CHR 0x49, CHR 0x11] @ ''abcdef'') latency port) \<and>
   players_now (parse_a2s_packet ([byte_ff, byte_ff, byte_ff, byte_ff, CHR 0x49, CHR 0x11] @ ''abcdef'') latency port) = 99 \<and>
   players_max (parse_a2s_packet ([byte_ff, byte_ff, byte_ff, byte_ff, CHR 0x49, CHR 0x11] @ ''abcdef'') latency port) = 100"
proof -
  have n: "nul \<notin> set ''abcdef''" by code_simp
  then have f: "take_fields 4 ''abcdef'' = ([], ''abcdef'')" by (simp add: numeral_eq_Suc)
  show ?thesis unfolding parse_reply f by (simp add: ord_def)
qed

theorem a2s_reply_round_trip_witness:
  "players_now (parse_a2s_packet (encode_a2s ''PW'' ''m'' ''d'' ''g'' ''ab'' 4 32 []) None 27015) = 4"
proof -
  have n: "nul \<notin> set ''PW''" "nul \<notin> set ''m''" "nul \<notin> set ''d''" "nul \<notin> set ''g''" by code_simp+
  show ?thesis using a2s_reply_round_trip [OF n, of "''ab''" 4 32 "[]" None 27015] by simp
qed

end
