(* ===== verification/Community_Tracker.thy ===== *)
theory Community_Tracker
  imports Json_Store Log_Scraper Net_Diagnostics Steam_Query
begin

section \<open>The community tracker\<close>

text \<open>
  \<^verbatim>\<open>app/monitoring/tracker.py\<close> and its payloads in \<^verbatim>\<open>app/core/types.py\<close>: the identity of the
  server, the ledger of players, the probes of the public directory and of the address, hardware
  figures, and the combined telemetry. Replies of web services, name resolution, system counters
  and clocks are arguments; attribute names of older versions, which the class routes to the same
  fields, are read as those fields.
\<close>

subsection \<open>Identity\<close>

record tracker_identity =
  server_label :: string
  domain :: string
  player_ledger_path :: path

fun first_set :: "string option list \<Rightarrow> string \<Rightarrow> string" where
  "first_set [] dflt = dflt"
| "first_set (Some (c # cs) # xs) dflt = c # cs"
| "first_set (_ # xs) dflt = first_set xs dflt"

definition clean_domain :: "string \<Rightarrow> string" where
  "clean_domain raw =
     (let d = strip (cut_at (CHR '':'') raw)
      in if d \<noteq> [] \<and> CHR ''.'' \<notin> set d \<and> d \<noteq> ''yourdomain'' then d @ ''.duckdns.org'' else d)"

record pocketpair_state =
  listed :: bool
  server_id :: json
  listed_name :: json
  listed_version :: json
  last_check :: rat

record dns_state =
  cached_public_ip :: json
  cached_dns_ip :: string

record tracker =
  identity :: tracker_identity
  pocketpair :: pocketpair_state
  a2s :: a2s_state
  dns :: dns_state
  scraper_of :: scraper
  net_traffic :: throughput
  players_history :: json

definition load_player_ledger :: "store_env \<Rightarrow> world \<Rightarrow> tracker \<Rightarrow> tracker result" where
  "load_player_ledger env w t =
     bind_result (load_json env (player_ledger_path (identity t)) w) (\<lambda>j.
       Inr (case j of None \<Rightarrow> t | Some v \<Rightarrow> t\<lparr>players_history := v\<rparr>))"

definition save_player_ledger :: "store_env \<Rightarrow> tracker \<Rightarrow> world \<Rightarrow> world" where
  "save_player_ledger env t w = save_json env (player_ledger_path (identity t)) (players_history t) w"

text \<open>The names and addresses given to the constructor come first, then the environment.\<close>

definition new_tracker ::
  "(json \<Rightarrow> string) \<Rightarrow> scraper_env \<Rightarrow> (string \<Rightarrow> string option) \<Rightarrow> world \<Rightarrow> string option \<Rightarrow> string option \<Rightarrow> path \<Rightarrow> path \<Rightarrow> tracker result" where
  "new_tracker show_value env getenv w name own ledger cache =
     (let label = first_set [name, getenv ''PALWORLD_SERVER_NAME''] ''Palworld Dedicated Server'';
          raw = first_set [own, getenv ''PALWORLD_DOMAIN'', getenv ''PALWORLD_SERVER_DOMAIN'', getenv ''DUCKDNS_DOMAIN'']
                  ''yourdomain.duckdns.org''
      in bind_result (new_scraper show_value env w cache) (\<lambda>sc.
           load_player_ledger (cache_store env) w
             \<lparr>identity = \<lparr>server_label = label, domain = clean_domain raw, player_ledger_path = ledger\<rparr>,
              pocketpair = \<lparr>listed = False, server_id = JStr ''Unlisted'', listed_name = JStr label,
                listed_version = JStr ''Unknown'', last_check = 0\<rparr>,
              a2s = new_a2s_state,
              dns = \<lparr>cached_public_ip = JStr ''Detecting...'', cached_dns_ip = ''Resolving...''\<rparr>,
              scraper_of = sc, net_traffic = reset_throughput, players_history = JObj []\<rparr>))"

subsection \<open>The ledger of players\<close>

record PlayerRecord =
  playerId :: string
  userId :: json
  player_name :: json
  player_level :: json
  player_ping :: json
  location_x :: json
  location_y :: json
  seen_first :: json
  seen_last :: json
  player_status :: string

definition json_zero :: json where "json_zero = JFloat (PyFin False 0)"

definition json_or :: "json \<Rightarrow> json \<Rightarrow> json" where
  "json_or x y = (if truthy x then x else y)"

type_synonym obj = "(string, json) dict"

definition player_id :: "(json \<Rightarrow> string) \<Rightarrow> obj \<Rightarrow> string" where
  "player_id show_value p =
     py_str show_value (json_or (json_or (json_get p ''playerId'' JNull) (json_get p ''userId'' JNull)) (JStr ''Unknown''))"

definition display_name :: "obj \<Rightarrow> json" where
  "display_name p = json_or (json_or (json_get p ''name'' JNull) (json_get p ''accountName'' JNull)) (JStr ''Tamer'')"

definition new_record :: "string \<Rightarrow> string \<Rightarrow> obj \<Rightarrow> obj" where
  "new_record ts plid p =
     [(''playerId'', JStr plid), (''userId'', json_get p ''userId'' (JStr [])), (''name'', display_name p),
      (''first_seen'', JStr ts), (''last_seen'', JStr ts), (''level'', json_get p ''level'' (JInt 1)),
      (''ping'', json_get p ''ping'' json_zero), (''location_x'', json_get p ''location_x'' json_zero),
      (''location_y'', json_get p ''location_y'' json_zero)]"

definition refresh_record :: "string \<Rightarrow> obj \<Rightarrow> obj \<Rightarrow> obj" where
  "refresh_record ts p r =
     (let from_live = (\<lambda>k dflt r. dict_set k (json_get p k (json_get r k dflt)) r)
      in from_live ''location_y'' json_zero (from_live ''location_x'' json_zero (from_live ''ping'' json_zero
           (from_live ''level'' (JInt 1) (dict_set ''last_seen'' (JStr ts) (dict_set ''name'' (display_name p) r))))))"

text \<open>One live player: the ledger after it, and the entry of the active list. A ledger or a record
  that is no object raises; only the time first seen can be missing afterwards.\<close>

definition merge_player :: "(json \<Rightarrow> string) \<Rightarrow> string \<Rightarrow> json \<Rightarrow> json \<Rightarrow> PlayerRecord result \<times> json" where
  "merge_player show_value ts live history =
     (case live of
        JObj p \<Rightarrow>
          (let plid = player_id show_value p
           in case history of
                JObj d \<Rightarrow>
                  (case (case dict_get d plid of None \<Rightarrow> Inr (new_record ts plid p)
                         | Some (JObj r) \<Rightarrow> Inr (refresh_record ts p r)
                         | Some _ \<Rightarrow> Inl TypeError) of
                     Inl e \<Rightarrow> (Inl e, history)
                   | Inr r \<Rightarrow>
                       (case dict_get r ''first_seen'' of
                          None \<Rightarrow> Inl KeyError
                        | Some t \<Rightarrow>
                            Inr \<lparr>playerId = plid, userId = json_get r ''userId'' (JStr []), player_name = display_name p,
                                 player_level = json_get r ''level'' JNull, player_ping = json_get r ''ping'' JNull,
                                 location_x = json_get r ''location_x'' JNull, location_y = json_get r ''location_y'' JNull,
                                 seen_first = t, seen_last = JStr ts, player_status = ''ONLINE''\<rparr>,
                        JObj (dict_set plid (JObj r) d)))
              | _ \<Rightarrow> (Inl TypeError, history))
      | _ \<Rightarrow> (Inl AttributeError, history))"

fun merge_players :: "(json \<Rightarrow> string) \<Rightarrow> string \<Rightarrow> json list \<Rightarrow> json \<Rightarrow> PlayerRecord list result \<times> json" where
  "merge_players show_value ts [] history = (Inr [], history)"
| "merge_players show_value ts (p # ps) history =
     (case merge_player show_value ts p history of
        (Inl e, h) \<Rightarrow> (Inl e, h)
      | (Inr r, h) \<Rightarrow>
          (case merge_players show_value ts ps h of
             (Inl e, h') \<Rightarrow> (Inl e, h')
           | (Inr rs, h') \<Rightarrow> (Inr (r # rs), h')))"

fun offline_players :: "string \<Rightarrow> string set \<Rightarrow> obj \<Rightarrow> PlayerRecord list result" where
  "offline_players ts active_ids [] = Inr []"
| "offline_players ts active_ids ((plid, rec) # d) =
     (if plid \<in> active_ids then offline_players ts active_ids d
      else (case rec of
              JObj r \<Rightarrow>
                bind_result (offline_players ts active_ids d) (\<lambda>rs.
                  Inr (\<lparr>playerId = plid, userId = json_get r ''userId'' (JStr []), player_name = json_get r ''name'' (JStr ''Tamer''),
                        player_level = json_get r ''level'' (JInt 1), player_ping = json_zero,
                        location_x = json_get r ''location_x'' json_zero, location_y = json_get r ''location_y'' json_zero,
                        seen_first = json_get r ''first_seen'' (JStr ts), seen_last = json_get r ''last_seen'' (JStr ts),
                        player_status = ''OFFLINE''\<rparr> # rs))
            | _ \<Rightarrow> Inl AttributeError))"

record PlayerLedgerMatrix =
  active_count :: nat
  total_registered :: nat
  active_players :: "PlayerRecord list"
  offline_list :: "PlayerRecord list"

definition update_and_get_players ::
  "(json \<Rightarrow> string) \<Rightarrow> store_env \<Rightarrow> json list \<Rightarrow> tracker \<Rightarrow> world \<Rightarrow> PlayerLedgerMatrix result \<times> tracker \<times> world" where
  "update_and_get_players show_value env live t w =
     (let ts = plain_time (store_clock env)
      in case merge_players show_value ts live (players_history t) of
           (Inl e, h) \<Rightarrow> (Inl e, t\<lparr>players_history := h\<rparr>, w)
         | (Inr act, h) \<Rightarrow>
             (let t1 = t\<lparr>players_history := h\<rparr>
              in case h of
                   JObj d \<Rightarrow>
                     (case offline_players ts (set (map playerId act)) d of
                        Inl e \<Rightarrow> (Inl e, t1, w)
                      | Inr off \<Rightarrow>
                          (Inr \<lparr>active_count = length act, total_registered = length d, active_players = act, offline_list = off\<rparr>,
                           t1, if act \<noteq> [] then save_player_ledger env t1 w else w))
                 | _ \<Rightarrow> (Inl AttributeError, t1, w)))"

subsection \<open>Directory and address\<close>

datatype web_result = WebFault | WebReply int "json option"

definition json_items :: "json \<Rightarrow> json list result" where
  "json_items j =
     (case j of
        JArr xs \<Rightarrow> Inr xs
      | JObj d \<Rightarrow> Inr (map (\<lambda>x. JStr (fst x)) d)
      | JStr s \<Rightarrow> Inr (map (\<lambda>c. JStr [c]) s)
      | _ \<Rightarrow> Inl TypeError)"

fun match_server :: "string \<Rightarrow> json list \<Rightarrow> (obj \<times> string) option result" where
  "match_server label [] = Inr None"
| "match_server label (s # ss) =
     (case s of
        JObj d \<Rightarrow>
          (case json_get d ''name'' (JStr []) of
             JStr n \<Rightarrow> if contains (lower label) (lower n) then Inr (Some (d, n)) else match_server label ss
           | _ \<Rightarrow> Inl AttributeError)
      | _ \<Rightarrow> Inl AttributeError)"

definition read_directory :: "string \<Rightarrow> json option \<Rightarrow> pocketpair_state \<Rightarrow> pocketpair_state result" where
  "read_directory label body st =
     bind_result (body_object body) (\<lambda>d.
     bind_result (json_items (json_get d ''servers'' (JArr []))) (\<lambda>servers.
     bind_result (match_server label servers) (\<lambda>found.
       Inr (case found of
              None \<Rightarrow> st\<lparr>listed := False, server_id := JStr ''Unlisted''\<rparr>
            | Some (s, n) \<Rightarrow>
                st\<lparr>listed := True, server_id := json_get s ''serverId'' (json_get s ''id'' (JStr ''Listed'')),
                   listed_name := JStr n, listed_version := json_get s ''version'' (JStr ''Unknown'')\<rparr>))))"

text \<open>The time is read once before the request and once after it.\<close>

definition probe_pocketpair_master_list :: "rat \<Rightarrow> rat \<Rightarrow> web_result \<Rightarrow> tracker \<Rightarrow> unit result \<times> tracker" where
  "probe_pocketpair_master_list t0 t1 out t =
     (if t0 - last_check (pocketpair t) < 45 then (Inr (), t)
      else
        (let done_at = (\<lambda>st. t\<lparr>pocketpair := st\<lparr>last_check := t1\<rparr>\<rparr>)
         in case out of
              WebReply st body \<Rightarrow>
                if st = 200 then
                  (case read_directory (server_label (identity t)) body (pocketpair t) of
                     Inl e \<Rightarrow> (Inl e, t)
                   | Inr p \<Rightarrow> (Inr (), done_at p))
                else (Inr (), done_at (pocketpair t))
            | WebFault \<Rightarrow> (Inr (), done_at (pocketpair t))))"

record NetworkMatrixInfo =
  public_ip :: json
  dns_ip :: string
  matrix_domain :: string
  is_aligned :: bool
  lan_ip :: string
  public_port :: int
  direct_connect_addr :: string
  lan_connect_addr :: string

definition addresses_agree :: "dns_state \<Rightarrow> bool" where
  "addresses_agree d \<longleftrightarrow>
     truthy (cached_public_ip d) \<and> cached_public_ip d \<noteq> JStr ''Detecting...'' \<and> cached_public_ip d \<noteq> JStr ''Unknown'' \<and>
     cached_dns_ip d \<noteq> ''Unresolved'' \<and> cached_public_ip d = JStr (cached_dns_ip d)"

definition own_domain :: "string \<Rightarrow> bool" where
  "own_domain d \<longleftrightarrow> d \<noteq> [] \<and> \<not> contains ''yourdomain'' d"

definition with_port :: "string \<Rightarrow> int \<Rightarrow> string" where
  "with_port host port = host @ '':'' @ int_str port"

definition refresh_addresses :: "web_result \<Rightarrow> string result \<Rightarrow> tracker \<Rightarrow> unit result \<times> tracker" where
  "refresh_addresses ip_reply resolved t =
     (case (case ip_reply of
              WebReply st body \<Rightarrow>
                if st = 200 then bind_result (body_object body) (\<lambda>d. Inr (json_get d ''ip'' (JStr ''Unknown'')))
                else Inr (cached_public_ip (dns t))
            | WebFault \<Rightarrow> Inr (cached_public_ip (dns t))) of
        Inl e \<Rightarrow> (Inl e, t)
      | Inr ip \<Rightarrow>
          (let t1 = t\<lparr>dns := (dns t)\<lparr>cached_public_ip := ip\<rparr>\<rparr>
           in if domain (identity t) = [] then (Inr (), t1\<lparr>dns := (dns t1)\<lparr>cached_dns_ip := ''Unresolved''\<rparr>\<rparr>)
              else (case resolved of
                      Inr a \<Rightarrow> (Inr (), t1\<lparr>dns := (dns t1)\<lparr>cached_dns_ip := a\<rparr>\<rparr>)
                    | Inl e \<Rightarrow>
                        if is_os_error e then (Inr (), t1\<lparr>dns := (dns t1)\<lparr>cached_dns_ip := ''Unresolved''\<rparr>\<rparr>) else (Inl e, t1))))"

definition alignment_report :: "(json \<Rightarrow> string) \<Rightarrow> string \<Rightarrow> tracker \<Rightarrow> NetworkMatrixInfo" where
  "alignment_report show_value lan t =
     (let d = dns t; own = domain (identity t);
          host = (if own_domain own then own else py_str show_value (cached_public_ip d))
      in \<lparr>public_ip = json_or (cached_public_ip d) (JStr ''Unknown''),
          dns_ip = (if cached_dns_ip d = [] then ''Unresolved'' else cached_dns_ip d), matrix_domain = own,
          is_aligned = addresses_agree d, lan_ip = lan, public_port = 8211,
          direct_connect_addr = with_port host 8211, lan_connect_addr = with_port lan 8211\<rparr>)"

definition probe_network_alignment ::
  "(json \<Rightarrow> string) \<Rightarrow> web_result \<Rightarrow> string result \<Rightarrow> string \<Rightarrow> tracker \<Rightarrow> NetworkMatrixInfo result \<times> tracker" where
  "probe_network_alignment show_value ip_reply resolved lan t =
     (case refresh_addresses ip_reply resolved t of
        (Inl e, t1) \<Rightarrow> (Inl e, t1)
      | (Inr _, t1) \<Rightarrow> (Inr (alignment_report show_value lan t1), t1))"

subsection \<open>Hardware\<close>

record usage =
  used_bytes :: int
  total_bytes :: int
  percent :: rat

record net_io =
  io_sent :: int
  io_recv :: int
  io_dropin :: int
  io_dropout :: int
  io_errin :: int
  io_errout :: int

text \<open>\<open>None\<close> for the memory file of the service: no POSIX host, or the file does not exist.\<close>

record hardware_env =
  cgroup_text :: "string result option"
  virtual_memory :: usage
  swap_memory :: usage
  cpu_percents :: "rat list"
  disk_usage :: "usage result"
  net_counters :: net_io
  hw_clock :: rat

definition gib :: rat where "gib = 1024 ^ 3"

definition read_cgroup_memory :: "hardware_env \<Rightarrow> int result" where
  "read_cgroup_memory env =
     (case cgroup_text env of
        None \<Rightarrow> Inr 0
      | Some r \<Rightarrow>
          (case bind_result r (\<lambda>s. case py_int (strip s) of None \<Rightarrow> Inl ValueError | Some i \<Rightarrow> Inr i) of
             Inl e \<Rightarrow> if is_value_error e \<or> is_os_error e then Inr 0 else Inl e
           | Inr i \<Rightarrow> Inr i))"

definition read_disk_usage :: "hardware_env \<Rightarrow> (rat \<times> rat \<times> rat) result" where
  "read_disk_usage env =
     (case disk_usage env of
        Inl e \<Rightarrow> if is_os_error e then Inr (0, 0, 0) else Inl e
      | Inr d \<Rightarrow> Inr (py_round 1 (of_int (used_bytes d) / gib), py_round 1 (of_int (total_bytes d) / gib), py_round 1 (percent d)))"

record HardwareTelemetryInfo =
  host_ram_used_gb :: rat
  host_ram_total_gb :: rat
  host_ram_pct :: rat
  cgroup_ram_used_gb :: rat
  cgroup_limit_gb :: rat
  cgroup_ram_pct :: rat
  swap_used_gb :: rat
  swap_total_gb :: rat
  swap_pct :: rat
  cpu_cores :: "rat list"
  cpu_avg_pct :: rat
  disk_used_gb :: rat
  disk_total_gb :: rat
  disk_pct :: rat
  net_bytes_sent :: int
  net_bytes_recv :: int
  net_rates_now :: net_rates
  net_dropin :: int
  net_dropout :: int
  net_errin :: int
  net_errout :: int

definition cgroup_percent :: "int \<Rightarrow> rat" where
  "cgroup_percent bytes = min (py_round 1 (py_round 2 (of_int bytes / gib) / 14 * 100)) 100"

definition get_hardware_telemetry :: "hardware_env \<Rightarrow> tracker \<Rightarrow> HardwareTelemetryInfo result \<times> tracker" where
  "get_hardware_telemetry env t =
     (case read_cgroup_memory env of
        Inl e \<Rightarrow> (Inl e, t)
      | Inr cg \<Rightarrow>
          (case read_disk_usage env of
             Inl e \<Rightarrow> (Inl e, t)
           | Inr (du, dt, dp) \<Rightarrow>
               (let vm = virtual_memory env; sw = swap_memory env; cpu = cpu_percents env; net = net_counters env
                in case calculate_rates (hw_clock env) (io_recv net) (io_sent net) (net_traffic t) of
                     (rates, th) \<Rightarrow>
                       (Inr \<lparr>host_ram_used_gb = py_round 2 (of_int (used_bytes vm) / gib),
                             host_ram_total_gb = py_round 2 (of_int (total_bytes vm) / gib),
                             host_ram_pct = py_round 1 (percent vm),
                             cgroup_ram_used_gb = py_round 2 (of_int cg / gib), cgroup_limit_gb = 14,
                             cgroup_ram_pct = cgroup_percent cg,
                             swap_used_gb = py_round 2 (of_int (used_bytes sw) / gib),
                             swap_total_gb = py_round 2 (of_int (total_bytes sw) / gib), swap_pct = py_round 1 (percent sw),
                             cpu_cores = map (py_round 1) cpu,
                             cpu_avg_pct = (if cpu = [] then 0 else py_round 1 (sum_list cpu / of_nat (length cpu))),
                             disk_used_gb = du, disk_total_gb = dt, disk_pct = dp,
                             net_bytes_sent = io_sent net, net_bytes_recv = io_recv net, net_rates_now = rates,
                             net_dropin = io_dropin net, net_dropout = io_dropout net,
                             net_errin = io_errin net, net_errout = io_errout net\<rparr>,
                        t\<lparr>net_traffic := th\<rparr>))))"

subsection \<open>The combined telemetry\<close>

record TopBadgeInfo =
  badge_label :: string
  badge_style :: string
  badge_dot :: string

definition build_top_badge :: "tracker \<Rightarrow> LogScraperInfo \<Rightarrow> bool \<Rightarrow> string \<Rightarrow> int \<Rightarrow> TopBadgeInfo" where
  "build_top_badge t log_res is_multiplay direct_host port =
     (if listed (pocketpair t) then
        \<lparr>badge_label = ''Community Listed'',
         badge_style = ''bg-emerald-900/60 border border-emerald-500/50 text-emerald-300 font-bold'',
         badge_dot = ''bg-emerald-400''\<rparr>
      else if info_registered log_res then
        \<lparr>badge_label = ''Console Search Ready'',
         badge_style = ''bg-brand-900/60 border border-brand-500/50 text-brand-300 font-bold'',
         badge_dot = ''bg-brand-400 animate-pulse''\<rparr>
      else if \<not> is_multiplay then
        \<lparr>badge_label = ''Private Server'', badge_style = ''bg-slate-800 border border-slate-700 text-slate-300'',
         badge_dot = ''bg-slate-400''\<rparr>
      else
        \<lparr>badge_label = ''Direct Connect ('' @ with_port direct_host port @ '')'',
         badge_style = ''bg-amber-900/60 border border-amber-500/50 text-amber-300'', badge_dot = ''bg-amber-400''\<rparr>)"

record PocketpairMasterInfo =
  master_listed :: bool
  master_id :: json
  master_name :: json
  master_version :: json
  master_label :: string
  master_color :: string

record DiscoveryHubPayload =
  log_scraper_info :: LogScraperInfo
  pocketpair_master :: PocketpairMasterInfo
  network_matrix :: NetworkMatrixInfo

definition build_discovery_hub :: "tracker \<Rightarrow> LogScraperInfo \<Rightarrow> string \<Rightarrow> string \<Rightarrow> int \<Rightarrow> DiscoveryHubPayload" where
  "build_discovery_hub t log_res direct_host lan port =
     (let pp = pocketpair t; d = dns t
      in \<lparr>log_scraper_info = log_res,
          pocketpair_master = \<lparr>master_listed = listed pp, master_id = server_id pp, master_name = listed_name pp,
            master_version = listed_version pp,
            master_label = (if listed pp then ''OFFICIALLY LISTED'' else ''COMMUNITY / DIRECT MODE''),
            master_color = (if listed pp then ''emerald'' else ''amber'')\<rparr>,
          network_matrix = \<lparr>public_ip = cached_public_ip d, dns_ip = cached_dns_ip d, matrix_domain = domain (identity t),
            is_aligned = (cached_public_ip d = JStr (cached_dns_ip d)), lan_ip = lan, public_port = port,
            direct_connect_addr = with_port direct_host port, lan_connect_addr = with_port lan port\<rparr>\<rparr>)"

text \<open>The keyword arguments of the callers; an absent one takes the default of the code.\<close>

record telemetry_args =
  arg_host_ip :: "string option"
  arg_public_port :: "int option"
  arg_query_port :: "int option"
  arg_is_multiplay :: "bool option"
  arg_server_password :: "string option"
  arg_current_players :: "json option"
  arg_max_players :: "json option"
  arg_rcon_enabled :: "bool option"
  arg_rcon_port :: "int option"
  arg_rest_port :: "int option"

record SecurityMatrixInfo =
  is_password_protected :: bool
  password_status_label :: string
  server_password :: string
  rcon_port_shown :: int
  rcon_enabled_shown :: bool
  rcon_advisory :: string
  rest_port_shown :: int
  slots_max :: int
  slots_used :: int
  slot_capacity_label :: string

definition build_security_matrix :: "telemetry_args \<Rightarrow> SecurityMatrixInfo result" where
  "build_security_matrix a =
     (let pw = option_or (arg_server_password a) []; rcon = option_or (arg_rcon_enabled a) True
      in bind_result (py_int_of (option_or (arg_current_players a) (JInt 0))) (\<lambda>cur.
         bind_result (py_int_of (option_or (arg_max_players a) (JInt 32))) (\<lambda>mx.
           Inr \<lparr>is_password_protected = (pw \<noteq> []),
                password_status_label = (if pw \<noteq> [] then ''{lock} Password Protected'' else ''{open lock} Public Access (No Password)''),
                server_password = pw, rcon_port_shown = option_or (arg_rcon_port a) 25575, rcon_enabled_shown = rcon,
                rcon_advisory = (if rcon then ''enabled_warn'' else ''disabled_ok''),
                rest_port_shown = option_or (arg_rest_port a) 8212, slots_max = mx, slots_used = cur,
                slot_capacity_label = int_str cur @ '' / '' @ int_str mx @ '' Tamers''\<rparr>)))"

definition build_a2s_telemetry :: "tracker \<Rightarrow> SteamA2SInfo" where
  "build_a2s_telemetry t =
     (let st = a2s t; shown = (\<lambda>x dflt. case x of Some (c # cs) \<Rightarrow> c # cs | _ \<Rightarrow> code_points_of dflt)
      in \<lparr>responsive = st_responsive st, ping_ms = st_ping st, a2s_name = shown (st_name st) (server_label (identity t)),
          map_name = shown (st_map st) ''Pal/Maps/World'', folder = code_points_of ''Pal'',
          game_name = code_points_of ''Palworld'', query_port = st_port st, players_now = st_players st,
          players_max = st_max st\<rparr>)"

record CombinedTelemetryPayload =
  top_badge :: TopBadgeInfo
  discovery_hub :: DiscoveryHubPayload
  a2s_telemetry :: SteamA2SInfo
  security_matrix :: SecurityMatrixInfo

record telemetry_env =
  tel_show :: "json \<Rightarrow> string"
  tel_ip_reply :: web_result
  tel_resolved :: "string result"
  tel_lan :: string
  tel_clock_before :: rat
  tel_clock_after :: rat
  tel_directory :: web_result
  tel_udp :: udp_env
  tel_scraper :: scraper_env

definition lan_or_host :: "telemetry_env \<Rightarrow> string option \<Rightarrow> string" where
  "lan_or_host env host_ip =
     (case host_ip of Some (c # cs) \<Rightarrow> if c # cs = ''127.0.0.1'' then tel_lan env else c # cs | _ \<Rightarrow> tel_lan env)"

definition get_combined_telemetry ::
  "telemetry_env \<Rightarrow> telemetry_args \<Rightarrow> tracker \<Rightarrow> world \<Rightarrow> CombinedTelemetryPayload result \<times> tracker \<times> world" where
  "get_combined_telemetry env a t w =
     (let port = option_or (arg_public_port a) 8211; qport = option_or (arg_query_port a) 27015;
          host = (case arg_host_ip a of Some (c # cs) \<Rightarrow> c # cs | _ \<Rightarrow> ''127.0.0.1'')
      in case probe_network_alignment (tel_show env) (tel_ip_reply env) (tel_resolved env) (tel_lan env) t of
           (Inl e, t1) \<Rightarrow> (Inl e, t1, w)
         | (Inr _, t1) \<Rightarrow>
             (case probe_pocketpair_master_list (tel_clock_before env) (tel_clock_after env) (tel_directory env) t1 of
                (Inl e, t2) \<Rightarrow> (Inl e, t2, w)
              | (Inr _, t2) \<Rightarrow>
                  (case probe_steam_a2s_info (tel_udp env) host qport [qport, 27015, port] (a2s t2) of
                     (Inl e, st) \<Rightarrow> (Inl e, t2\<lparr>a2s := st\<rparr>, w)
                   | (Inr _, st) \<Rightarrow>
                       (case probe_local_logs (tel_scraper env) (scraper_of t2) w of
                          (log_res, sc, w1) \<Rightarrow>
                            (let t3 = t2\<lparr>a2s := st, scraper_of := sc\<rparr>;
                                 lan = lan_or_host env (arg_host_ip a);
                                 direct = (if own_domain (domain (identity t3)) then domain (identity t3)
                                           else if cached_public_ip (dns t3) \<noteq> JStr ''Detecting...''
                                           then py_str (tel_show env) (cached_public_ip (dns t3)) else lan)
                             in (bind_result (build_security_matrix a) (\<lambda>sec.
                                   Inr \<lparr>top_badge = build_top_badge t3 log_res (option_or (arg_is_multiplay a) True) direct port,
                                        discovery_hub = build_discovery_hub t3 log_res direct lan port,
                                        a2s_telemetry = build_a2s_telemetry t3, security_matrix = sec\<rparr>), t3, w1))))))"

definition run_network_diagnostics :: "probe_env \<Rightarrow> rat \<Rightarrow> rat \<Rightarrow> tracker \<Rightarrow> NetworkDiagnosticsResult result" where
  "run_network_diagnostics env fps frame t = run_network_diagnostics_sweep env fps frame (addresses_agree (dns t))"

subsection \<open>Endpoints\<close>

text \<open>The settings the endpoint passes on. The community endpoint declares no dependency: neither
  the request nor an account is looked at.\<close>

record tracker_settings =
  set_host_ip :: string
  set_PublicPort :: int
  set_QueryPort :: int
  set_ServerPassword :: string
  set_RCONPort :: int
  set_RCONEnabled :: bool
  set_RESTAPIPort :: int

definition get_tracker_telemetry_kwargs :: "tracker_settings \<Rightarrow> telemetry_args" where
  "get_tracker_telemetry_kwargs s =
     \<lparr>arg_host_ip = Some (set_host_ip s), arg_public_port = Some (set_PublicPort s), arg_query_port = Some (set_QueryPort s),
      arg_is_multiplay = None, arg_server_password = Some (set_ServerPassword s), arg_current_players = None,
      arg_max_players = None, arg_rcon_enabled = Some (set_RCONEnabled s), arg_rcon_port = Some (set_RCONPort s),
      arg_rest_port = Some (set_RESTAPIPort s)\<rparr>"

definition get_community_tracker_data ::
  "telemetry_env \<Rightarrow> tracker_settings \<Rightarrow> tracker \<Rightarrow> world \<Rightarrow> CombinedTelemetryPayload result \<times> tracker \<times> world" where
  "get_community_tracker_data env s t w = get_combined_telemetry env (get_tracker_telemetry_kwargs s) t w"

subsection \<open>The roster\<close>

definition is_object :: "json \<Rightarrow> bool" where
  "is_object j \<longleftrightarrow> (case j of JObj _ \<Rightarrow> True | _ \<Rightarrow> False)"

text \<open>A record of the ledger is an object with the time the player was first seen.\<close>

definition record_ok :: "json \<Rightarrow> bool" where
  "record_ok j \<longleftrightarrow> (case j of JObj r \<Rightarrow> dict_get r ''first_seen'' \<noteq> None | _ \<Rightarrow> False)"

definition ledger_ok :: "json \<Rightarrow> bool" where
  "ledger_ok j \<longleftrightarrow> (case j of JObj d \<Rightarrow> distinct (map fst d) \<and> list_all (\<lambda>x. record_ok (snd x)) d | _ \<Rightarrow> False)"

fun ledger_ids :: "json \<Rightarrow> string set" where
  "ledger_ids (JObj d) = set (map fst d)"
| "ledger_ids _ = {}"

fun first_seen_of :: "json \<Rightarrow> string \<Rightarrow> json option" where
  "first_seen_of (JObj d) plid = (case dict_get d plid of Some (JObj r) \<Rightarrow> dict_get r ''first_seen'' | _ \<Rightarrow> None)"
| "first_seen_of _ plid = None"

lemma ledger_ok_get: "ledger_ok (JObj d) \<Longrightarrow> dict_get d plid = Some v \<Longrightarrow> record_ok v"
  by (auto simp: ledger_ok_def list_all_iff dest!: map_of_SomeD)

lemma ledger_ok_set:
  assumes "ledger_ok (JObj d)" "record_ok v"
  shows "ledger_ok (JObj (dict_set plid v d))"
proof -
  have "x = v \<or> (k, x) \<in> set d" if "(k, x) \<in> set (dict_set plid v d)" for k x
    using that by (induction d) (auto split: if_splits)
  then have "record_ok x" if "(k, x) \<in> set (dict_set plid v d)" for k x
    using that assms by (fastforce simp: ledger_ok_def list_all_iff)
  then show ?thesis using assms(1) by (auto simp: ledger_ok_def list_all_iff distinct_update)
qed

lemma ledger_ids_set: "ledger_ids (JObj (dict_set plid v d)) = insert plid (ledger_ids (JObj d))"
  by (simp add: dom_update) 

lemma refresh_first_seen: "dict_get (refresh_record ts p r) ''first_seen'' = dict_get r ''first_seen''"
  by (simp add: refresh_record_def Let_def update_conv')

lemma new_record_ok: "record_ok (JObj (new_record ts plid p))"
  by (simp add: record_ok_def new_record_def)

lemma merge_player_ok:
  assumes "ledger_ok h" "is_object live"
  obtains r h' where "merge_player sv ts live h = (Inr r, h')" "ledger_ok h'" "ledger_ids h' = insert (playerId r) (ledger_ids h)"
    "\<And>q. q \<in> ledger_ids h \<Longrightarrow> first_seen_of h' q = first_seen_of h q"
proof -
  obtain p where p: "live = JObj p" using assms(2) by (cases live) (auto simp: is_object_def)
  obtain d where d: "h = JObj d" using assms(1) by (cases h) (auto simp: ledger_ok_def)
  let ?i = "player_id sv p"
  show ?thesis
  proof (cases "dict_get d ?i")
    case None
    let ?h = "JObj (dict_set ?i (JObj (new_record ts ?i p)) d)"
    have "ledger_ok ?h" using ledger_ok_set assms(1) new_record_ok d by blast
    moreover have "first_seen_of ?h q = first_seen_of h q" if "q \<in> ledger_ids h" for q
    proof -
      have "q \<noteq> ?i" using that None d by (force simp: map_of_eq_None_iff)
      then show ?thesis by (simp add: d update_conv')
    qed
    moreover have "\<exists>r. merge_player sv ts live h = (Inr r, ?h) \<and> playerId r = ?i"
      using None by (simp add: merge_player_def p d Let_def new_record_def)
    ultimately show ?thesis using that ledger_ids_set d by metis
  next
    case (Some v)
    then obtain r where r: "v = JObj r" "dict_get r ''first_seen'' \<noteq> None"
      using ledger_ok_get [of d ?i v] assms(1) d by (cases v) (auto simp: record_ok_def)
    let ?h = "JObj (dict_set ?i (JObj (refresh_record ts p r)) d)"
    have "record_ok (JObj (refresh_record ts p r))" using r(2) by (simp add: record_ok_def refresh_first_seen)
    then have "ledger_ok ?h" using ledger_ok_set assms(1) d by blast
    moreover have "first_seen_of ?h q = first_seen_of h q" for q
      using Some r d by (simp add: update_conv' refresh_first_seen)
    moreover have "\<exists>x. merge_player sv ts live h = (Inr x, ?h) \<and> playerId x = ?i"
      using Some r by (auto simp: merge_player_def p d Let_def refresh_first_seen)
    ultimately show ?thesis using that ledger_ids_set d by metis
  qed
qed

lemma merge_players_ok:
  assumes "ledger_ok h" "list_all is_object live"
  shows "\<exists>rs h'. merge_players sv ts live h = (Inr rs, h') \<and> ledger_ok h' \<and> length rs = length live \<and>
    ledger_ids h' = set (map playerId rs) \<union> ledger_ids h \<and> (\<forall>q \<in> ledger_ids h. first_seen_of h' q = first_seen_of h q)"
  using assms
proof (induction live arbitrary: h)
  case (Cons p ps)
  have o: "is_object p" using Cons.prems(2) by simp
  obtain r h1 where 1: "merge_player sv ts p h = (Inr r, h1)" "ledger_ok h1" "ledger_ids h1 = insert (playerId r) (ledger_ids h)"
    "\<And>q. q \<in> ledger_ids h \<Longrightarrow> first_seen_of h1 q = first_seen_of h q"
    by (rule merge_player_ok [OF Cons.prems(1) o, of sv ts]) blast
  obtain rs h2 where 2: "merge_players sv ts ps h1 = (Inr rs, h2)" "ledger_ok h2" "length rs = length ps"
    "ledger_ids h2 = set (map playerId rs) \<union> ledger_ids h1" "\<forall>q \<in> ledger_ids h1. first_seen_of h2 q = first_seen_of h1 q"
    using Cons.IH [OF 1(2)] Cons.prems(2) by auto
  then show ?case using 1 by auto
qed simp

text \<open>The identifier of a live player, as the server's answer gives it.\<close>

definition live_id :: "(json \<Rightarrow> string) \<Rightarrow> json \<Rightarrow> string" where
  "live_id sv live = (case live of JObj p \<Rightarrow> player_id sv p | _ \<Rightarrow> [])"

lemma merge_player_id: "merge_player sv ts live h = (Inr r, h') \<Longrightarrow> playerId r = live_id sv live"
  by (auto simp: merge_player_def live_id_def Let_def split: json.splits option.splits sum.splits)

lemma merge_players_ids: "merge_players sv ts live h = (Inr rs, h') \<Longrightarrow> map playerId rs = map (live_id sv) live"
  by (induction live arbitrary: h rs h') (auto dest: merge_player_id split: prod.splits sum.splits)

lemma offline_players_ok:
  assumes "list_all (\<lambda>x. record_ok (snd x)) d"
  shows "\<exists>rs. offline_players ts act d = Inr rs \<and> map playerId rs = filter (\<lambda>k. k \<notin> act) (map fst d)"
  using assms
proof (induction d)
  case (Cons x d)
  obtain k v where x: "x = (k, v)" by fastforce
  then obtain r where "v = JObj r" using Cons.prems by (cases v) (auto simp: record_ok_def)
  then show ?case using Cons x by auto
qed simp

text \<open>C26. The roster forgets nobody and mixes nobody up: on a well-formed ledger an update with any live
  players (objects) succeeds and keeps the ledger well-formed. The active list has one entry for each live
  player, in the order of the server's answer and under the identifier given there, twice if it is given
  twice; the offline list has exactly one entry for each player of the ledger whose identifier is not
  among these. The ledger then knows the old and the live players, the total counts each identifier
  once, and a player already known keeps the time first seen.\<close>

theorem roster_partition:
  assumes "ledger_ok (players_history t)" "list_all is_object live"
    and "update_and_get_players sv env live t w = (res, t', w')"
  shows "\<exists>m. res = Inr m \<and> ledger_ok (players_history t') \<and> active_count m = length live \<and>
    map playerId (active_players m) = map (live_id sv) live \<and>
    distinct (map playerId (offline_list m)) \<and>
    set (map playerId (offline_list m)) = ledger_ids (players_history t) - set (map (live_id sv) live) \<and>
    ledger_ids (players_history t') = ledger_ids (players_history t) \<union> set (map (live_id sv) live) \<and>
    total_registered m = card (ledger_ids (players_history t')) \<and>
    (\<forall>q \<in> ledger_ids (players_history t). first_seen_of (players_history t') q = first_seen_of (players_history t) q)"
proof -
  obtain rs h where m: "merge_players sv (plain_time (store_clock env)) live (players_history t) = (Inr rs, h)" "ledger_ok h"
    "length rs = length live" "ledger_ids h = set (map playerId rs) \<union> ledger_ids (players_history t)"
    "\<forall>q \<in> ledger_ids (players_history t). first_seen_of h q = first_seen_of (players_history t) q"
    using merge_players_ok [OF assms(1,2)] by blast
  obtain d where d: "h = JObj d" "distinct (map fst d)" "list_all (\<lambda>x. record_ok (snd x)) d"
    using m(2) by (cases h) (auto simp: ledger_ok_def)
  obtain off where off: "offline_players (plain_time (store_clock env)) (set (map playerId rs)) d = Inr off"
    "map playerId off = filter (\<lambda>k. k \<notin> set (map playerId rs)) (map fst d)"
    using offline_players_ok [OF d(3)] by blast
  have r: "res = Inr \<lparr>active_count = length rs, total_registered = length d, active_players = rs, offline_list = off\<rparr>"
    "players_history t' = h"
    using assms(3) m(1) off(1) by (auto simp: update_and_get_players_def d(1) Let_def)
  have s: "set (map playerId off) = ledger_ids h - set (map playerId rs)"
    unfolding off(2) d(1) by auto
  have c: "length d = card (ledger_ids h)" using distinct_card [OF d(2)] by (simp add: d(1))
  have i: "map playerId rs = map (live_id sv) live" by (rule merge_players_ids [OF m(1)])
  have dist: "distinct (map playerId off)" unfolding off(2) using d(2) by (rule distinct_filter)
  have "set (map playerId off) = ledger_ids (players_history t) - set (map playerId rs)"
    using s m(4) by blast
  moreover have "set (map playerId rs) = set (map (live_id sv) live)"
    by (simp only: i)
  ultimately show ?thesis
    using r m(2-5) c dist i by (simp only: Un_commute) simp
qed

subsection \<open>What the endpoints give away, and what stops them\<close>

lemma matrix_password: "build_security_matrix a = Inr m \<Longrightarrow> server_password m = option_or (arg_server_password a) []"
  by (auto simp: build_security_matrix_def bind_result_Inr_iff Let_def)

text \<open>The community endpoint answers anybody with the password that players need to join: its handler looks at
  no account, and every successful answer holds the configured server password in clear text.\<close>

theorem community_data_discloses_password:
  assumes "get_community_tracker_data env s t w = (Inr data, t', w')"
  shows "server_password (security_matrix data) = set_ServerPassword s"
proof -
  have "build_security_matrix (get_tracker_telemetry_kwargs s) = Inr (security_matrix data)"
    using assms unfolding get_community_tracker_data_def get_combined_telemetry_def Let_def
    by (auto simp: bind_result_Inr_iff split: prod.splits sum.splits)
  from matrix_password [OF this] show ?thesis by (simp add: get_tracker_telemetry_kwargs_def option_or_def)
qed

text \<open>One malformed answer of the public directory stops the whole telemetry: the exception of the directory
  probe ends the report, and since the time of the probe is not recorded, the next call asks the
  directory again instead of waiting 45 seconds.\<close>

theorem malformed_directory_stops_telemetry:
  assumes "fst (refresh_addresses (tel_ip_reply env) (tel_resolved env) t) = Inr ()"
    and "45 \<le> tel_clock_before env - last_check (pocketpair t)"
    and "tel_directory env = WebReply 200 body" "read_directory (server_label (identity t)) body (pocketpair t) = Inl e"
    and "get_combined_telemetry env a t w = (res, t', w')"
  shows "res = Inl e \<and> pocketpair t' = pocketpair t"
proof -
  obtain t1 where t1: "refresh_addresses (tel_ip_reply env) (tel_resolved env) t = (Inr (), t1)"
    using assms(1) by (cases "refresh_addresses (tel_ip_reply env) (tel_resolved env) t") auto
  have f: "pocketpair t1 = pocketpair t" "identity t1 = identity t"
    using t1 by (auto simp: refresh_addresses_def Let_def split: sum.splits if_splits web_result.splits)
  have "probe_pocketpair_master_list (tel_clock_before env) (tel_clock_after env) (tel_directory env) t1 = (Inl e, t1)"
    using assms(2-4) f by (simp add: probe_pocketpair_master_list_def)
  then show ?thesis
    using assms(5) t1 f by (auto simp: get_combined_telemetry_def probe_network_alignment_def Let_def)
qed

text \<open>A server counts as listed when its name occurs within the name of any listed server.\<close>

lemma foreign_server_counts_as_listed:
  "map_sum id (map_option snd) (match_server ''Palworld'' [JObj [(''name'', JStr ''my palworld fan server'')]]) = Inr (Some ''my palworld fan server'')"
  by code_simp

text \<open>The two judgements of the alignment of address and name agree unless the resolved address is a
  placeholder.\<close>

lemma hub_alignment_agrees:
  assumes "cached_dns_ip (dns t) \<notin> {[], ''Detecting...'', ''Unknown'', ''Unresolved''}"
  shows "is_aligned (network_matrix (build_discovery_hub t l h lan p)) = is_aligned (alignment_report sv lan t)"
  using assms by (auto simp: build_discovery_hub_def alignment_report_def addresses_agree_def Let_def)

lemma cgroup_percent_bounded: "cgroup_percent b \<le> 100"
  by (simp add: cgroup_percent_def)

subsection \<open>Witnesses\<close>

definition demo_tracker :: tracker where
  "demo_tracker =
     \<lparr>identity = \<lparr>server_label = ''PW'', domain = ''x.duckdns.org'', player_ledger_path = (''/v'', ''p.json'')\<rparr>,
      pocketpair = \<lparr>listed = False, server_id = JStr ''Unlisted'', listed_name = JStr ''PW'', listed_version = JStr ''Unknown'',
        last_check = 0\<rparr>,
      a2s = new_a2s_state, dns = \<lparr>cached_public_ip = JStr ''Detecting...'', cached_dns_ip = ''Resolving...''\<rparr>,
      scraper_of = demo_scraper, net_traffic = reset_throughput,
      players_history = JObj [(''p1'', JObj [(''first_seen'', JStr ''t'')])]\<rparr>"

definition demo_telemetry_env :: "web_result \<Rightarrow> telemetry_env" where
  "demo_telemetry_env directory =
     \<lparr>tel_show = (\<lambda>_. []), tel_ip_reply = WebFault, tel_resolved = Inr ''203.0.113.9'', tel_lan = ''192.168.1.5'',
      tel_clock_before = 100, tel_clock_after = 101, tel_directory = directory,
      tel_udp = \<lparr>udp_exchange = (\<lambda>_ _ _ _. Inl TimeoutError)\<rparr>, tel_scraper = demo_scraper_env\<rparr>"

definition demo_tracker_settings :: tracker_settings where
  "demo_tracker_settings =
     \<lparr>set_host_ip = ''192.168.1.5'', set_PublicPort = 8211, set_QueryPort = 27015, set_ServerPassword = ''letmein'',
      set_RCONPort = 25575, set_RCONEnabled = False, set_RESTAPIPort = 8212\<rparr>"

theorem roster_partition_witness:
  "map_sum id total_registered (fst (update_and_get_players (\<lambda>_. []) demo_json_store [JObj [(''userId'', JStr ''p2'')]] demo_tracker empty_world)) = Inr 2"
proof -
  let ?u = "update_and_get_players (\<lambda>_. []) demo_json_store [JObj [(''userId'', JStr ''p2'')]] demo_tracker empty_world"
  obtain res t' w' where u: "?u = (res, t', w')" by (cases ?u) auto
  have h: "ledger_ok (players_history demo_tracker)" "list_all is_object [JObj [(''userId'', JStr ''p2'')]]"
    by (simp_all add: demo_tracker_def ledger_ok_def record_ok_def is_object_def)
  have "ledger_ids (players_history (fst (snd ?u))) = {''p1'', ''p2''}"
    by (auto simp: update_and_get_players_def merge_player_def demo_tracker_def player_id_def json_or_def json_get_def
        new_record_def Let_def)
  then have "card (ledger_ids (players_history t')) = 2" using u by simp
  then show ?thesis using roster_partition [OF h u] u by auto
qed

lemma demo_telemetry_answers:
  "\<exists>data t' w'. get_community_tracker_data (demo_telemetry_env WebFault) demo_tracker_settings demo_tracker empty_world = (Inr data, t', w')"
proof -
  have e: "udp_exchange (tel_udp (demo_telemetry_env WebFault)) = (\<lambda>_ _ _ _. Inl TimeoutError)" by (simp add: demo_telemetry_env_def)
  have q: "execute_a2s_socket_query (tel_udp (demo_telemetry_env WebFault)) ip port = Inr None" for ip port
    by (simp add: execute_a2s_socket_query_def exchange_def e is_os_error_def)
  have s: "sweep (tel_udp (demo_telemetry_env WebFault)) ts = Inr None" for ts
    by (induction ts) (auto simp: q)
  have p: "probe_steam_a2s_info (tel_udp (demo_telemetry_env WebFault)) host port cs st = (Inr (a2s_fallback port), st\<lparr>st_responsive := False, st_ping := None\<rparr>)"
    for host port cs st by (simp add: probe_steam_a2s_info_def s)
  have l: "probe_pocketpair_master_list 100 101 WebFault t = (Inr (), t\<lparr>pocketpair := (pocketpair t)\<lparr>last_check := 101\<rparr>\<rparr>)"
    if "last_check (pocketpair t) = 0" for t
    using that by (simp add: probe_pocketpair_master_list_def)
  have n: "probe_network_alignment sv WebFault (Inr x) lan demo_tracker =
      (Inr (alignment_report sv lan (demo_tracker\<lparr>dns := (dns demo_tracker)\<lparr>cached_dns_ip := x\<rparr>\<rparr>)),
       demo_tracker\<lparr>dns := (dns demo_tracker)\<lparr>cached_dns_ip := x\<rparr>\<rparr>)" for sv x lan
    by (simp add: probe_network_alignment_def refresh_addresses_def demo_tracker_def)
  have f: "tel_ip_reply (demo_telemetry_env WebFault) = WebFault" "tel_resolved (demo_telemetry_env WebFault) = Inr ''203.0.113.9''"
    "tel_clock_before (demo_telemetry_env WebFault) = 100" "tel_clock_after (demo_telemetry_env WebFault) = 101"
    "tel_directory (demo_telemetry_env WebFault) = WebFault" "last_check (pocketpair demo_tracker) = 0"
    by (simp_all add: demo_telemetry_env_def demo_tracker_def)
  have k: "\<exists>sec. build_security_matrix (get_tracker_telemetry_kwargs demo_tracker_settings) = Inr sec"
    by (simp add: build_security_matrix_def get_tracker_telemetry_kwargs_def option_or_def Let_def)
  show ?thesis
    unfolding get_community_tracker_data_def get_combined_telemetry_def Let_def f n
    by (use k in \<open>auto simp: l f p split: prod.split\<close>)
qed

theorem community_data_discloses_password_witness:
  "\<exists>data t' w'. get_community_tracker_data (demo_telemetry_env WebFault) demo_tracker_settings demo_tracker empty_world = (Inr data, t', w') \<and>
     server_password (security_matrix data) = ''letmein''"
proof -
  obtain data t' w' where g: "get_community_tracker_data (demo_telemetry_env WebFault) demo_tracker_settings demo_tracker empty_world = (Inr data, t', w')"
    using demo_telemetry_answers by blast
  show ?thesis using community_data_discloses_password [OF g] g by (auto simp: demo_tracker_settings_def)
qed

theorem malformed_directory_stops_telemetry_witness:
  "fst (get_community_tracker_data (demo_telemetry_env (WebReply 200 None)) demo_tracker_settings demo_tracker empty_world) = Inl ValueError"
proof -
  let ?e = "demo_telemetry_env (WebReply 200 None)"
  obtain res t' w' where g: "get_combined_telemetry ?e (get_tracker_telemetry_kwargs demo_tracker_settings) demo_tracker empty_world = (res, t', w')"
    by (cases "get_combined_telemetry ?e (get_tracker_telemetry_kwargs demo_tracker_settings) demo_tracker empty_world") auto
  have h: "fst (refresh_addresses (tel_ip_reply ?e) (tel_resolved ?e) demo_tracker) = Inr ()"
    "45 \<le> tel_clock_before ?e - last_check (pocketpair demo_tracker)" "tel_directory ?e = WebReply 200 None"
    "read_directory (server_label (identity demo_tracker)) None (pocketpair demo_tracker) = Inl ValueError"
    by (simp_all add: demo_telemetry_env_def demo_tracker_def refresh_addresses_def read_directory_def body_object_def)
  show ?thesis using malformed_directory_stops_telemetry [OF h g] g by (simp add: get_community_tracker_data_def)
qed

end
