(* ===== verification/Notifications.thy ===== *)
theory Notifications
  imports Log_Redaction Engine_Lifecycle
begin

section \<open>Discord notifications\<close>

text \<open>
  \<^verbatim>\<open>app/engine/notifications.py\<close>: the embeds for broadcasts, readiness, reboots and moderation, and
  their delivery with one retry after a rate limit. The answers of Discord are an argument. A wait
  can be longer than any bound: an infinite \<open>retry_after\<close> never ends, which is an outcome of its
  own. Symbols beyond code point 255 stand as their names in braces.
\<close>

definition COLOR_SUCCESS :: int where "COLOR_SUCCESS = 1096065"
definition COLOR_ALERT :: int where "COLOR_ALERT = 15680580"
definition COLOR_BROADCAST :: int where "COLOR_BROADCAST = 9133302"

record embed_field =
  field_name :: string
  field_value :: string
  field_inline :: bool

record embed =
  embed_title :: string
  embed_description :: string
  embed_color :: int
  embed_fields :: "embed_field list"
  embed_footer :: string

definition DEFAULT_FOOTER :: string where
  "DEFAULT_FOOTER = ''Palworld Operations Suite''"

definition field_json :: "embed_field \<Rightarrow> json" where
  "field_json f = JObj [(''name'', JStr (field_name f)), (''value'', JStr (field_value f)), (''inline'', JBool (field_inline f))]"

definition embed_payload :: "string \<Rightarrow> embed \<Rightarrow> json" where
  "embed_payload stamp_text e =
     JObj [(''embeds'', JArr [JObj
       [(''title'', JStr (embed_title e)), (''description'', JStr (embed_description e)), (''color'', JInt (embed_color e)),
        (''fields'', JArr (map field_json (embed_fields e))), (''footer'', JObj [(''text'', JStr (embed_footer e))]),
        (''timestamp'', JStr stamp_text)]])]"

subsection \<open>Delivery\<close>

datatype notify_outcome = Notified bool | NotifyFault py_error | NeverReturns

text \<open>\<open>asyncio.sleep\<close>: no wait for a number that is not positive, an exception for what is not a
  number, and no end for infinity.\<close>

fun async_sleep :: "pyfloat \<Rightarrow> rat option result" where
  "async_sleep (PyFin neg m) = Inr (Some (if neg then 0 else m))"
| "async_sleep (PyInf neg) = Inr (if neg then Some 0 else None)"
| "async_sleep PyNan = Inl ValueError"

definition accepted_status :: "int \<Rightarrow> bool" where
  "accepted_status st \<longleftrightarrow> st = 200 \<or> st = 204"

text \<open>The outcome, what was posted, and the time waited.\<close>

definition send_embed ::
  "(json list \<Rightarrow> discord_outcome) \<Rightarrow> string option \<Rightarrow> string \<Rightarrow> embed \<Rightarrow> notify_outcome \<times> json list \<times> rat" where
  "send_embed deliver url stamp_text e =
     (let p = embed_payload stamp_text e;
          fault = (\<lambda>err. if is_http_error err then Notified False else NotifyFault err)
      in case url of
           None \<Rightarrow> (Notified False, [], 0)
         | Some u \<Rightarrow>
             if u = [] \<or> \<not> startswith (strip u) discord_prefix then (Notified False, [], 0)
             else
               (case deliver [p] of
                  DeliveryFault err \<Rightarrow> (fault err, [p], 0)
                | Delivered r \<Rightarrow>
                    if accepted_status (discord_status r) then (Notified True, [p], 0)
                    else if discord_status r = 429 then
                      (case bind_result (parse_discord_retry_after r) async_sleep of
                         Inl err \<Rightarrow> (fault err, [p], 0)
                       | Inr None \<Rightarrow> (NeverReturns, [p], 0)
                       | Inr (Some wait) \<Rightarrow>
                           (case deliver [p, p] of
                              DeliveryFault err \<Rightarrow> (fault err, [p, p], wait)
                            | Delivered r2 \<Rightarrow> (Notified (accepted_status (discord_status r2)), [p, p], wait)))
                    else (Notified False, [p], 0)))"

subsection \<open>The notices\<close>

function remove_text :: "string \<Rightarrow> string \<Rightarrow> string" where
  "remove_text p s =
     (if p = [] \<or> s = [] then s
      else if startswith s p then remove_text p (drop (length p) s)
      else hd s # remove_text p (tl s))"
  by pat_completeness auto
termination
  by (relation "measure (\<lambda>(p, s). length s)") auto

declare remove_text.simps [simp del]

definition or_text :: "string \<Rightarrow> string \<Rightarrow> string" where
  "or_text s dflt = (if s = [] then dflt else s)"

definition notify_admin_broadcast :: "string \<Rightarrow> string \<Rightarrow> embed" where
  "notify_admin_broadcast label message =
     \<lparr>embed_title = ''{loudspeaker} In-Game Admin Announcement'',
      embed_description = ''**'' @ strip (remove_text ''[ADMIN NOTICE]'' message) @ ''**'',
      embed_color = COLOR_BROADCAST, embed_fields = [],
      embed_footer = ''Server: '' @ or_text label ''Palworld Dedicated Server''\<rparr>"

definition notify_server_ready :: "string \<Rightarrow> string \<Rightarrow> string \<Rightarrow> int \<Rightarrow> embed" where
  "notify_server_ready label ver address port =
     \<lparr>embed_title = ''{green circle} Palworld Server Online & Ready'',
      embed_description = ''The dedicated server has successfully initialized and is accepting player connections.'',
      embed_color = COLOR_SUCCESS,
      embed_fields =
        [\<lparr>field_name = ''Server Name'', field_value = or_text label ''Palworld Dedicated Server'', field_inline = True\<rparr>,
         \<lparr>field_name = ''Engine Version'', field_value = or_text ver ''Live'', field_inline = True\<rparr>,
         \<lparr>field_name = ''Direct Connect'',
          field_value = (if address \<noteq> [] then ''`'' @ address @ '':'' @ int_str port @ ''`'' else ''`Port '' @ int_str port @ ''`''),
          field_inline = False\<rparr>],
      embed_footer = DEFAULT_FOOTER\<rparr>"

definition with_reason :: "string \<Rightarrow> string \<Rightarrow> string" where
  "with_reason reason desc =
     (if reason \<noteq> [] then ''**Reason:** '' @ reason @ [CHR 0x0A, CHR 0x0A] @ desc else desc)"

definition notify_reboot_countdown :: "string \<Rightarrow> bool \<Rightarrow> string \<Rightarrow> string \<Rightarrow> embed" where
  "notify_reboot_countdown remaining updating tag message =
     (let update_text = (if updating \<and> tag \<noteq> [] then '' (Updating to '' @ tag @ '')''
                         else if updating then '' (with SteamCMD update)'' else []);
          desc = (if lower remaining = ''immediately''
                  then ''Server is restarting **immediately**'' @ update_text @ ''. World save and maintenance in progress.''
                  else ''Server restart scheduled in **'' @ remaining @ ''**'' @ update_text @ ''.'' @
                       '' Please find a safe location to prevent data loss.'')
      in \<lparr>embed_title = ''{warning} Server Reboot in Progress'', embed_description = with_reason message desc,
          embed_color = COLOR_WARNING, embed_fields = [], embed_footer = DEFAULT_FOOTER\<rparr>)"

definition notify_reboot_complete :: "string \<Rightarrow> embed" where
  "notify_reboot_complete label =
     \<lparr>embed_title = ''{arrows} Server Maintenance Complete'',
      embed_description = ''**'' @ or_text label ''Palworld Server'' @ ''** has completed its restart cycle and is back online.'',
      embed_color = COLOR_SUCCESS, embed_fields = [], embed_footer = DEFAULT_FOOTER\<rparr>"

definition notify_reboot_cancelled :: "string \<Rightarrow> string \<Rightarrow> embed" where
  "notify_reboot_cancelled label reason =
     \<lparr>embed_title = ''{stop sign} Server Reboot Cancelled'',
      embed_description = with_reason reason
        (''The scheduled server restart has been **CANCELLED** by an administrator.'' @
         '' Gameplay may continue uninterrupted.''),
      embed_color = COLOR_INFO, embed_fields = [],
      embed_footer = ''Server: '' @ or_text label ''Palworld Dedicated Server''\<rparr>"

definition notify_player_action :: "string \<Rightarrow> string \<Rightarrow> string \<Rightarrow> embed" where
  "notify_player_action action player reason =
     \<lparr>embed_title = ''{shield} Admin Action: '' @ upper action,
      embed_description = ''Administrative moderation action executed on player `'' @ player @ ''`.'',
      embed_color = (if lower action = ''ban'' then COLOR_ALERT else COLOR_WARNING),
      embed_fields =
        [\<lparr>field_name = ''Action'', field_value = upper action, field_inline = True\<rparr>,
         \<lparr>field_name = ''Player ID / SteamID'', field_value = ''`'' @ player @ ''`'', field_inline = True\<rparr>] @
        (if reason \<noteq> [] then [\<lparr>field_name = ''Reason'', field_value = reason, field_inline = False\<rparr>] else []),
      embed_footer = DEFAULT_FOOTER\<rparr>"

text \<open>The notices behind the events of the engine, as \<^verbatim>\<open>app/engine/service.py\<close> calls them.\<close>

definition event_embed :: "string \<Rightarrow> event \<Rightarrow> embed option" where
  "event_embed label ev =
     (case ev of
        DiscordBroadcast m \<Rightarrow> Some (notify_admin_broadcast (or_text label ''Palworld Server'') m)
      | DiscordCountdown remaining updating tag m \<Rightarrow> Some (notify_reboot_countdown remaining updating tag m)
      | DiscordCancelled reason \<Rightarrow> Some (notify_reboot_cancelled (or_text label ''Palworld Dedicated Server'') reason)
      | DiscordComplete \<Rightarrow> Some (notify_reboot_complete (or_text label ''Palworld Server''))
      | DiscordPlayer action player reason \<Rightarrow> Some (notify_player_action action player reason)
      | _ \<Rightarrow> None)"

subsection \<open>Bounds and failures\<close>

definition webhook_accepted :: "string option \<Rightarrow> bool" where
  "webhook_accepted url \<longleftrightarrow> (case url of None \<Rightarrow> False | Some u \<Rightarrow> startswith (strip u) discord_prefix)"

text \<open>A notice is posted at most twice, always with the same payload, and not at all unless the configured
  address is a Discord webhook; success is reported only for a notice that was posted.\<close>

theorem notice_posts_bounded:
  "case send_embed deliver url stamp_text e of
     (out, posts, wait) \<Rightarrow>
       posts = replicate (length posts) (embed_payload stamp_text e) \<and>
       length posts \<le> (if webhook_accepted url then 2 else 0) \<and> (out = Notified True \<longrightarrow> posts \<noteq> [])"
  by (auto simp: send_embed_def webhook_accepted_def Let_def numeral_2_eq_2 startswith_def strip_def lstrip_def rstrip_def
        discord_prefix_def split: option.split discord_outcome.split sum.split)

text \<open>A rate limit whose body is no JSON object raises out of the notice after the first post. The callers do not
  expect it: a kick that already succeeded answers with an error, and a reboot countdown ends.\<close>

theorem malformed_limit_raises:
  assumes "webhook_accepted (Some url)" "deliver [embed_payload stamp_text e] = Delivered r" "discord_status r = 429"
    and "discord_json r = Some body" "\<not> (\<exists>d. body = JObj d)"
  shows "send_embed deliver (Some url) stamp_text e = (NotifyFault AttributeError, [embed_payload stamp_text e], 0)"
proof -
  have b: "body_object (discord_json r) = Inl AttributeError"
    using assms(4,5) by (cases body) (auto simp: body_object_def)
  have u: "url \<noteq> []" "startswith (strip url) discord_prefix"
    using assms(1) by (auto simp: webhook_accepted_def startswith_def strip_def lstrip_def rstrip_def discord_prefix_def)
  show ?thesis
    using assms(2,3) u b by (simp add: send_embed_def Let_def accepted_status_def parse_discord_retry_after_def
        is_value_error_def is_http_error_def)
qed

text \<open>An infinite \<open>retry_after\<close>, which the JSON reader accepts, is waited for without end.\<close>

lemma infinite_limit_never_returns:
  assumes "webhook_accepted (Some url)" "deliver [embed_payload stamp_text e] = Delivered r" "discord_status r = 429"
    and "discord_json r = Some (JObj [(''retry_after'', JFloat (PyInf False))])"
  shows "fst (send_embed deliver (Some url) stamp_text e) = NeverReturns"
proof -
  have u: "url \<noteq> []" "startswith (strip url) discord_prefix"
    using assms(1) by (auto simp: webhook_accepted_def startswith_def strip_def lstrip_def rstrip_def discord_prefix_def)
  show ?thesis
    using assms(2-4) u by (simp add: send_embed_def Let_def accepted_status_def parse_discord_retry_after_def body_object_def
        json_get_def py_float_of_def)
qed

theorem malformed_limit_raises_witness:
  "fst (send_embed (\<lambda>_. Delivered \<lparr>discord_status = 429, discord_json = Some (JArr [])\<rparr>)
     (Some ''https://discord.com/api/webhooks/1'') [] (notify_player_action ''kick'' ''p'' [])) = NotifyFault AttributeError"
proof -
  have "webhook_accepted (Some ''https://discord.com/api/webhooks/1'')" by code_simp
  then show ?thesis
    using malformed_limit_raises [of "''https://discord.com/api/webhooks/1''"
        "\<lambda>_. Delivered \<lparr>discord_status = 429, discord_json = Some (JArr [])\<rparr>" "[]" "notify_player_action ''kick'' ''p'' []"
        "\<lparr>discord_status = 429, discord_json = Some (JArr [])\<rparr>" "JArr []"] by simp
qed

end
