(* ===== verification/Telemetry_Tasks.thy ===== *)
theory Telemetry_Tasks
  imports Community_Tracker Notifications
begin

section \<open>Telemetry endpoints and background tasks\<close>

text \<open>
  What joins the game's REST interface, the tracker, the sample store and the dashboard:
  \<^verbatim>\<open>get_engine_metrics\<close> of \<^verbatim>\<open>app/engine/service.py\<close>, the log, community and diagnostics endpoints
  of \<^verbatim>\<open>app/routers/telemetry.py\<close>, and the telemetry and collector tasks, the startup and the
  shutdown of \<^verbatim>\<open>app/main.py\<close>. A number that is infinite or undefined has no place in the
  store of the model; such a sample is \<open>None\<close>. Cancellation is not modelled.
\<close>

subsection \<open>Engine metrics\<close>

record EngineMetrics =
  em_fps :: json
  em_frame :: pyfloat
  em_uptime :: json
  em_days :: json
  em_players :: json
  em_slots :: json

definition no_metrics :: EngineMetrics where
  "no_metrics = \<lparr>em_fps = JInt 0, em_frame = PyFin False 0, em_uptime = JInt 0, em_days = JInt 0, em_players = JInt 0, em_slots = JInt 32\<rparr>"

fun round_float :: "nat \<Rightarrow> pyfloat \<Rightarrow> pyfloat" where
  "round_float n (PyFin neg m) = PyFin neg (py_round n m)"
| "round_float n f = f"

definition get_engine_metrics :: "http_outcome \<Rightarrow> EngineMetrics result" where
  "get_engine_metrics out =
     (case out of
        Response st body \<Rightarrow>
          if st = 200 then
            bind_result (body_object body) (\<lambda>d.
            bind_result (py_float_of (json_get d ''serverframetime'' json_zero)) (\<lambda>frame.
              Inr \<lparr>em_fps = json_get d ''serverfps'' (JInt 0), em_frame = round_float 2 frame,
                   em_uptime = json_get d ''uptime'' (JInt 0), em_days = json_get d ''days'' (JInt 0),
                   em_players = json_get d ''currentplayernum'' (JInt 0), em_slots = json_get d ''maxplayernum'' (JInt 32)\<rparr>))
          else Inr no_metrics
      | _ \<Rightarrow> Inr no_metrics)"

definition finite_value :: "pyfloat \<Rightarrow> rat option" where
  "finite_value f = (case f of PyFin neg m \<Rightarrow> Some (if neg then - m else m) | _ \<Rightarrow> None)"

subsection \<open>Endpoints\<close>

definition get_logs ::
  "ops_env \<Rightarrow> scraper_env \<Rightarrow> http_request \<Rightarrow> int \<Rightarrow> string option \<Rightarrow> string \<Rightarrow> ops_state \<Rightarrow> world \<Rightarrow> log_page result" where
  "get_logs oe env req tail_wanted query level o_st w =
     bind_result (needs ''logs:view'' oe req o_st) (\<lambda>_. Inr (read_server_logs env w tail_wanted query level))"

definition download_logs :: "ops_env \<Rightarrow> scraper_env \<Rightarrow> http_request \<Rightarrow> ops_state \<Rightarrow> world \<Rightarrow> string result" where
  "download_logs oe env req o_st w =
     bind_result (needs ''logs:view'' oe req o_st) (\<lambda>_.
       Inr (join [CHR 0x0A] (page_lines (read_server_logs env w 2000 None ''ALL''))))"

definition run_network_diagnostics_test ::
  "ops_env \<Rightarrow> probe_env \<Rightarrow> http_request \<Rightarrow> http_outcome \<Rightarrow> ops_state \<Rightarrow> tracker \<Rightarrow> NetworkDiagnosticsResult option result" where
  "run_network_diagnostics_test oe env req metrics_reply o_st t =
     bind_result (needs_admin oe req o_st) (\<lambda>_.
     bind_result (get_engine_metrics metrics_reply) (\<lambda>m.
     bind_result (py_float_of (em_fps m)) (\<lambda>fps.
       case (finite_value fps, finite_value (em_frame m)) of
         (Some x, Some y) \<Rightarrow> bind_result (run_network_diagnostics env x y t) (\<lambda>r. Inr (Some r))
       | _ \<Rightarrow> Inr None)))"

subsection \<open>The collector\<close>

definition collect_sample :: "string \<Rightarrow> EngineMetrics \<Rightarrow> HardwareTelemetryInfo \<Rightarrow> snapshot option result" where
  "collect_sample ts m hw =
     bind_result (py_float_of (em_fps m)) (\<lambda>fps.
     bind_result (py_int_of (em_uptime m)) (\<lambda>up.
     bind_result (py_int_of (em_players m)) (\<lambda>now_playing.
     bind_result (py_int_of (em_slots m)) (\<lambda>slots.
       Inr (case (finite_value fps, finite_value (em_frame m)) of
              (Some x, Some y) \<Rightarrow>
                Some (MetricSnapshotRecord.make None ts x y up now_playing slots
                  (HardwareTelemetryInfo.cpu_avg_pct hw) (HardwareTelemetryInfo.host_ram_used_gb hw)
                  (HardwareTelemetryInfo.host_ram_total_gb hw) (HardwareTelemetryInfo.host_ram_pct hw)
                  (HardwareTelemetryInfo.cgroup_ram_used_gb hw) (HardwareTelemetryInfo.cgroup_ram_pct hw)
                  (HardwareTelemetryInfo.disk_used_gb hw) (HardwareTelemetryInfo.disk_pct hw)
                  (rx_rate_kbps (net_rates_now hw)) (tx_rate_kbps (net_rates_now hw)))
            | _ \<Rightarrow> None)))))"

text \<open>The exceptions after which the loop goes on; any other one ends the task.\<close>

definition collector_survives :: "py_error \<Rightarrow> bool" where
  "collector_survives e \<longleftrightarrow>
     is_database_error e \<or> is_http_error e \<or> is_os_error e \<or> is_runtime_error e \<or> e = NotImplementedError \<or>
     e \<in> {KeyError} \<or> is_value_error e"

record collector_task =
  collector_state :: collector_loop
  ended_by :: "py_error option"

record collector_env =
  ce_metrics_reply :: http_outcome
  ce_hardware :: hardware_env
  ce_stamp :: string
  ce_now :: rat
  ce_utc :: nat
  ce_flush_io :: metrics_io
  ce_prune_io :: metrics_io

text \<open>One round of \<open>metrics_collector_loop\<close>, from the request for the metrics on.\<close>

definition collector_round ::
  "rat \<Rightarrow> nat \<Rightarrow> collector_env \<Rightarrow> tracker \<Rightarrow> collector_task \<Rightarrow> collector_task \<times> tracker" where
  "collector_round flush_interval retention env t c =
     (let stop = (\<lambda>e. c\<lparr>ended_by := (if collector_survives e then None else Some e)\<rparr>)
      in if ended_by c \<noteq> None then (c, t)
         else (case get_engine_metrics (ce_metrics_reply env) of
                 Inl e \<Rightarrow> (stop e, t)
               | Inr m \<Rightarrow>
                   (case get_hardware_telemetry (ce_hardware env) t of
                      (Inl e, t1) \<Rightarrow> (stop e, t1)
                    | (Inr hw, t1) \<Rightarrow>
                        (case collect_sample (ce_stamp env) m hw of
                           Inl e \<Rightarrow> (stop e, t1)
                         | Inr None \<Rightarrow> (c, t1)
                         | Inr (Some smp) \<Rightarrow>
                             (case metrics_collector_turn flush_interval retention (ce_flush_io env) (ce_prune_io env) smp
                                     (ce_now env) (ce_utc env) (collector_state c) of
                                (r, l) \<Rightarrow>
                                  (c\<lparr>collector_state := l,
                                     ended_by := (case r of Inl e \<Rightarrow> if collector_survives e then None else Some e | Inr _ \<Rightarrow> None)\<rparr>, t1))))))"

text \<open>The shutdown awaits the task, which raises what ended it, and flushes the buffer last.\<close>

definition shutdown_flush :: "metrics_io \<Rightarrow> collector_task \<Rightarrow> unit result \<times> collector_task" where
  "shutdown_flush io c =
     (case ended_by c of
        Some e \<Rightarrow> (Inl e, c)
      | None \<Rightarrow>
          (case flush_metrics_buffer io [] (collected (collector_state c)) of
             (r, b) \<Rightarrow>
               (case r of Inr _ \<Rightarrow> Inr () | Inl e \<Rightarrow> if is_database_error e \<or> is_os_error e then Inr () else Inl e,
                c\<lparr>collector_state := (collector_state c)\<lparr>collected := b\<rparr>\<rparr>)))"

subsection \<open>The telemetry stream\<close>

record TelemetryPayload =
  tp_liveness :: bool
  tp_ready :: bool
  tp_version :: json
  tp_code :: string
  tp_message :: string
  tp_server_name :: string
  tp_server_password :: string
  tp_metrics :: EngineMetrics
  tp_players :: PlayerLedgerMatrix
  tp_hardware :: HardwareTelemetryInfo
  tp_combined :: CombinedTelemetryPayload

record stream_env =
  se_posix :: bool
  se_is_active :: "string result"
  se_game_name :: string
  se_rest_port :: int
  se_info_reply :: http_outcome
  se_players_reply :: http_outcome
  se_metrics_reply :: http_outcome
  se_store :: store_env
  se_hardware :: hardware_env
  se_telemetry :: telemetry_env
  se_multiplay :: "bool option"
  se_ServerName :: string
  se_broken :: "nat \<Rightarrow> bool"

definition liveness :: "stream_env \<Rightarrow> bool result" where
  "liveness env =
     (if \<not> se_posix env then Inr False
      else (case se_is_active env of
              Inr out \<Rightarrow> Inr (strip out = ''active'')
            | Inl e \<Rightarrow> if is_os_error e \<or> e = LibraryError ''SubprocessError'' then Inr False else Inl e))"

text \<open>The payload of one round, with the tracker and the files after it.\<close>

definition telemetry_payload ::
  "stream_env \<Rightarrow> tracker_settings \<Rightarrow> tracker \<Rightarrow> world \<Rightarrow> TelemetryPayload result \<times> tracker \<times> world" where
  "telemetry_payload env cfg t w =
     (case bind_result (liveness env) (\<lambda>live.
           bind_result (check_readiness (se_game_name env) (se_rest_port env) (se_info_reply env)) (\<lambda>rd.
           bind_result (get_raw_players (se_players_reply env)) (\<lambda>raw. Inr (live, rd, raw)))) of
        Inl e \<Rightarrow> (Inl e, t, w)
      | Inr (live, rd, raw) \<Rightarrow>
          (case update_and_get_players (tel_show (se_telemetry env)) (se_store env) raw t w of
             (Inl e, t1, w1) \<Rightarrow> (Inl e, t1, w1)
           | (Inr roster, t1, w1) \<Rightarrow>
               (case get_engine_metrics (se_metrics_reply env) of
                  Inl e \<Rightarrow> (Inl e, t1, w1)
                | Inr m \<Rightarrow>
                    (case get_hardware_telemetry (se_hardware env) t1 of
                       (Inl e, t2) \<Rightarrow> (Inl e, t2, w1)
                     | (Inr hw, t2) \<Rightarrow>
                         (case get_combined_telemetry (se_telemetry env)
                                 ((get_tracker_telemetry_kwargs cfg)\<lparr>arg_is_multiplay := Some (option_or (se_multiplay env) True),
                                    arg_max_players := Some (em_slots m), arg_current_players := Some (em_players m)\<rparr>) t2 w1 of
                            (Inl e, t3, w2) \<Rightarrow> (Inl e, t3, w2)
                          | (Inr comb, t3, w2) \<Rightarrow>
                              (Inr \<lparr>tp_liveness = live, tp_ready = ready rd, tp_version = version rd, tp_code = diagnostic_code rd,
                                    tp_message = diagnostic_message rd, tp_server_name = se_ServerName env,
                                    tp_server_password = set_ServerPassword cfg, tp_metrics = m, tp_players = roster,
                                    tp_hardware = hw, tp_combined = comb\<rparr>, t3, w2))))))"

text \<open>A round of the stream: every registered socket that works gets the payload, the others are
  dropped; any exception is logged and the loop goes on.\<close>

definition telemetry_round ::
  "stream_env \<Rightarrow> tracker_settings \<Rightarrow> nat list \<Rightarrow> tracker \<Rightarrow> world \<Rightarrow>
     (nat \<times> TelemetryPayload) list \<times> nat list \<times> tracker \<times> world" where
  "telemetry_round env cfg socks t w =
     (case telemetry_payload env cfg t w of
        (Inl e, t1, w1) \<Rightarrow> ([], socks, t1, w1)
      | (Inr p, t1, w1) \<Rightarrow>
          (let alive = filter (\<lambda>s. \<not> se_broken env s) socks in (map (\<lambda>s. (s, p)) alive, alive, t1, w1)))"

subsection \<open>Startup\<close>

text \<open>A reboot lock older than fifteen minutes is removed at startup.\<close>

definition purge_stale_lock :: "engine_env \<Rightarrow> engine \<Rightarrow> engine" where
  "purge_stale_lock env s =
     (case lock_mtime s of
        None \<Rightarrow> s
      | Some m \<Rightarrow>
          if lock_stat_error env = None \<and> 900 < wall_clock env - m \<and> lock_stale_unlink_error env = None
          then s\<lparr>lock_mtime := None\<rparr> else s)"

text \<open>A version that is no text stands as its text.\<close>

definition startup_notice :: "(json \<Rightarrow> string) \<Rightarrow> ReadinessInfo result \<Rightarrow> string \<Rightarrow> string \<Rightarrow> int \<Rightarrow> embed option result" where
  "startup_notice show_value readiness_now label duckdns port =
     bind_result readiness_now (\<lambda>rd.
       Inr (if ready rd
            then Some (notify_server_ready (or_text label ''Palworld Dedicated Server'')
                   (py_str show_value (json_or (version rd) (JStr ''Live''))) duckdns port)
            else None))"

subsection \<open>What one bad answer costs\<close>

definition collector_rounds :: "rat \<Rightarrow> nat \<Rightarrow> collector_env list \<Rightarrow> tracker \<Rightarrow> collector_task \<Rightarrow> collector_task \<times> tracker" where
  "collector_rounds flush_interval retention envs t c =
     fold (\<lambda>env (c, t). collector_round flush_interval retention env t c) envs (c, t)"

lemma ended_collector_stays: "ended_by c \<noteq> None \<Longrightarrow> collector_rounds fi ret envs t c = (c, t)"
  by (induction envs) (auto simp: collector_rounds_def collector_round_def)

lemma metrics_not_object:
  "\<not> (\<exists>d. body = JObj d) \<Longrightarrow> get_engine_metrics (Response 200 (Some body)) = Inl AttributeError"
  by (cases body) (auto simp: get_engine_metrics_def body_object_def)

text \<open>C30. One answer of the game server that is JSON but no object ends the collection of samples for good: no later
  round stores a sample or flushes the buffer, and the shutdown raises before its final flush, so what
  was still buffered is lost.\<close>

theorem malformed_metrics_end_collection:
  assumes "ended_by c = None" "ce_metrics_reply env = Response 200 (Some body)" "\<not> (\<exists>d. body = JObj d)"
  shows "case collector_rounds fi ret (env # later) t c of
           (c', t') \<Rightarrow> collector_state c' = collector_state c \<and> shutdown_flush io c' = (Inl AttributeError, c')"
proof -
  let ?c = "c\<lparr>ended_by := Some AttributeError\<rparr>"
  have "collector_round fi ret env t c = (?c, t)"
    using assms by (simp add: collector_round_def metrics_not_object collector_survives_def is_database_error_def is_http_error_def
        is_os_error_def is_runtime_error_def is_value_error_def)
  then have "collector_rounds fi ret (env # later) t c = collector_rounds fi ret later t ?c"
    by (simp add: collector_rounds_def)
  moreover have "collector_rounds fi ret later t ?c = (?c, t)" by (rule ended_collector_stays) simp
  ultimately show ?thesis by (simp add: shutdown_flush_def)
qed

text \<open>The telemetry stream outlives every exception, but a round that raises reaches nobody.\<close>

lemma stream_round_all_or_nobody:
  assumes "telemetry_round env cfg socks t w = (sent, socks', t', w')"
  shows "sent = [] \<or> map fst sent = socks'" "set socks' \<subseteq> set socks"
  using assms by (auto simp: telemetry_round_def Let_def comp_def split: prod.splits sum.splits)

text \<open>Every socket that receives telemetry receives the password players need to join, and
  connecting takes no credentials.\<close>

lemma stream_discloses_password:
  assumes "telemetry_round env cfg socks t w = (sent, socks', t', w')" "(s, p) \<in> set sent"
  shows "tp_server_password p = set_ServerPassword cfg"
  using assms by (auto simp: telemetry_round_def telemetry_payload_def Let_def split: prod.splits sum.splits)

lemma logs_need_permission:
  assumes "\<not> may ''logs:view'' (who oe) req (accounts_db s)"
  shows "\<exists>e. get_logs oe env req n q lvl s w = Inl e" "\<exists>e. download_logs oe env req s w = Inl e"
  using needs_refused [OF assms] by (auto simp: get_logs_def download_logs_def)

subsection \<open>Witnesses\<close>

definition demo_collector_env :: collector_env where
  "demo_collector_env =
     \<lparr>ce_metrics_reply = Response 200 (Some (JArr [])),
      ce_hardware = \<lparr>cgroup_text = None, virtual_memory = \<lparr>used_bytes = 0, total_bytes = 1, percent = 0\<rparr>,
        swap_memory = \<lparr>used_bytes = 0, total_bytes = 0, percent = 0\<rparr>, cpu_percents = [],
        disk_usage = Inl OSError,
        net_counters = \<lparr>io_sent = 0, io_recv = 0, io_dropin = 0, io_dropout = 0, io_errin = 0, io_errout = 0\<rparr>, hw_clock = 0\<rparr>,
      ce_stamp = [], ce_now = 0, ce_utc = 0, ce_flush_io = metrics_ok_io, ce_prune_io = metrics_ok_io\<rparr>"

theorem malformed_metrics_end_collection_witness:
  "fst (shutdown_flush metrics_ok_io (fst (collector_rounds 300 30 [demo_collector_env] demo_tracker
     \<lparr>collector_state = \<lparr>collected = empty_collector, last_flush_time = 0, last_prune_time = 0\<rparr>, ended_by = None\<rparr>)))
   = Inl AttributeError"
proof -
  let ?c = "\<lparr>collector_state = \<lparr>collected = empty_collector, last_flush_time = 0, last_prune_time = 0\<rparr>, ended_by = None\<rparr>"
  have h: "ended_by ?c = None" "ce_metrics_reply demo_collector_env = Response 200 (Some (JArr []))" "\<not> (\<exists>d. JArr [] = JObj d)"
    by (simp_all add: demo_collector_env_def)
  show ?thesis
    using malformed_metrics_end_collection [OF h, where fi = 300 and ret = 30 and later = "[]" and t = demo_tracker and io = metrics_ok_io] by (auto split: prod.splits)
qed

end
