(* ===== verification/App_Config.thy ===== *)
theory App_Config
  imports Tls_Manager Config_Pipeline Log_Redaction Net_Diagnostics
begin

section \<open>Application configuration\<close>

text \<open>
  The rest of \<^verbatim>\<open>app/core/config.py\<close>: the settings source that reads the game's configuration
  file, the search for paths and for the LAN address, the declared fields with their defaults and
  names, and the inspection of certificates; with it the start of the web server in
  \<^verbatim>\<open>app/server.py\<close> and the pages of \<^verbatim>\<open>app/routers/ui.py\<close>. How the settings library merges its
  sources, the decoding of certificates and the probes of the host are arguments.
\<close>

subsection \<open>The settings source of the configuration file\<close>

definition alias_map :: "(string \<times> string list) list" where
  "alias_map =
     [(''AdminPassword'', [''ADMIN_PASSWORD'', ''admin_password'']),
      (''ServerPassword'', [''SERVER_PASSWORD'', ''server_password'']),
      (''ServerName'', [''SERVER_NAME'', ''server_name'']),
      (''PublicPort'', [''PUBLIC_PORT'']),
      (''QueryPort'', [''QUERY_PORT'', ''query_port'']),
      (''RCONPort'', [''RCON_PORT'']),
      (''RCONEnabled'', [''RCON_ENABLED'', ''RCONEnabled'', ''rcon_enabled'']),
      (''bRCONEnabled'', [''RCON_ENABLED'', ''RCONEnabled'', ''rcon_enabled'']),
      (''RESTAPIPort'', [''REST_PORT'', ''RESTAPIPORT'']),
      (''RESTAPIEnabled'', [''REST_ENABLED'', ''RESTAPIEnabled'', ''rest_enabled'']),
      (''bRESTAPIEnabled'', [''REST_ENABLED'', ''RESTAPIEnabled'', ''rest_enabled''])]"

text \<open>\<open>k.upper()\<close>, for keys whose capitals are code points up to 255.\<close>

definition upper_key :: "string \<Rightarrow> string" where
  "upper_key k =
     concat (map (\<lambda>c. if ord c = 223 then ''SS''
                      else if (97 \<le> ord c \<and> ord c \<le> 122) \<or> (224 \<le> ord c \<and> ord c \<noteq> 247 \<and> ord c \<noteq> 255)
                      then [char_of (ord c - 32)] else [c]) k)"

text \<open>The names under which a key of the file is offered.\<close>

definition offered_names :: "string \<Rightarrow> string list" where
  "offered_names k = k # upper_key k # (case dict_get alias_map k of None \<Rightarrow> [] | Some as \<Rightarrow> as)"

definition map_key :: "string \<times> pyval \<Rightarrow> settings \<Rightarrow> settings" where
  "map_key kv mapped = fold (\<lambda>n m. dict_set n (snd kv) m) (offered_names (fst kv)) mapped"

definition map_keys :: "settings \<Rightarrow> settings" where
  "map_keys ini_data = fold map_key ini_data []"

text \<open>\<open>None\<close> for a file that does not exist; otherwise its content or the exception of reading it.\<close>

definition ini_settings_source :: "string result option \<Rightarrow> settings result" where
  "ini_settings_source contents =
     (case contents of
        None \<Rightarrow> Inr []
      | Some r \<Rightarrow>
          (case parse_ini_file r of
             Inl e \<Rightarrow> if is_os_error e then Inr [] else Inl e
           | Inr d \<Rightarrow> Inr (map_keys d)))"

definition source_path :: "string option \<Rightarrow> string option \<Rightarrow> (string \<Rightarrow> bool) \<Rightarrow> (string \<Rightarrow> bool) \<Rightarrow> string \<Rightarrow> string" where
  "source_path given env_path file_exists parent_exists default_path =
     (case given of
        Some p \<Rightarrow> p
      | None \<Rightarrow>
          (case env_path of
             Some (c # cs) \<Rightarrow> if file_exists (c # cs) \<or> parent_exists (c # cs) then c # cs else default_path
           | _ \<Rightarrow> default_path))"

subsection \<open>Paths\<close>

record host_env =
  is_windows :: bool
  home_path :: string
  file_check :: "string \<Rightarrow> bool result"
  path_exists :: "string \<Rightarrow> bool"
  dir_writable :: "string \<Rightarrow> bool result"
  environ :: "string \<Rightarrow> string option"
  routed_address :: "string result"
  interfaces :: "(string \<times> (bool \<times> string) list) list result"
  own_name_address :: "string result"

definition linux_server :: "string" where
  "linux_server = ''/Pal/Saved/Config/LinuxServer/PalWorldSettings.ini''"

definition ini_candidates :: "host_env \<Rightarrow> string list" where
  "ini_candidates env =
     [''/home/steam/.steam/steam/steamapps/common/PalServer'' @ linux_server,
      ''/home/steam/Steam/steamapps/common/PalServer'' @ linux_server,
      ''/home/steam/.local/share/Steam/steamapps/common/PalServer'' @ linux_server,
      ''/home/steam/PalServer'' @ linux_server,
      ''/opt/palworld'' @ linux_server,
      home_path env @ ''/.palmanager/PalWorldSettings.ini'']"

fun first_file :: "host_env \<Rightarrow> string list \<Rightarrow> string option result" where
  "first_file env [] = Inr None"
| "first_file env (p # ps) =
     (case file_check env p of
        Inr True \<Rightarrow> Inr (Some p)
      | Inr False \<Rightarrow> first_file env ps
      | Inl e \<Rightarrow> if is_os_error e then first_file env ps else Inl e)"

definition resolve_palworld_ini_path :: "host_env \<Rightarrow> string result" where
  "resolve_palworld_ini_path env =
     bind_result (first_file env (ini_candidates env)) (\<lambda>found.
       case found of
         Some p \<Rightarrow> Inr p
       | None \<Rightarrow>
           Inr (if \<not> is_windows env then
                  (if path_exists env ''/home/steam/.steam/steam/steamapps'' then ini_candidates env ! 0
                   else if path_exists env ''/home/steam/Steam/steamapps'' then ini_candidates env ! 1
                   else ini_candidates env ! 3)
                else home_path env @ ''/.palmanager/PalWorldSettings.ini''))"

definition is_directory_writable :: "host_env \<Rightarrow> string \<Rightarrow> bool result" where
  "is_directory_writable env d =
     (case dir_writable env d of Inl e \<Rightarrow> if is_os_error e then Inr False else Inl e | Inr b \<Rightarrow> Inr b)"

definition resolve_default_backup_dir :: "host_env \<Rightarrow> string" where
  "resolve_default_backup_dir env =
     (if \<not> is_windows env \<and> path_exists env ''/home/steam'' then ''/home/steam/Palworld_backups''
      else home_path env @ ''/.palmanager/Palworld_backups'')"

text \<open>The three defaults that need a writable system directory.\<close>

definition resolve_writable :: "host_env \<Rightarrow> string \<Rightarrow> string \<Rightarrow> string \<Rightarrow> string result" where
  "resolve_writable env d system own =
     (if is_windows env then Inr (home_path env @ own)
      else bind_result (is_directory_writable env d) (\<lambda>b. Inr (if b then system else home_path env @ own)))"

definition resolve_default_log_dir :: "host_env \<Rightarrow> string result" where
  "resolve_default_log_dir env = resolve_writable env ''/var/log/palmanager'' ''/var/log/palmanager'' ''/.palmanager/logs''"

definition resolve_default_db_path :: "host_env \<Rightarrow> string result" where
  "resolve_default_db_path env =
     resolve_writable env ''/var/lib/palmanager'' ''/var/lib/palmanager/palmanager.db'' ''/.palmanager/palmanager.db''"

definition resolve_default_metrics_db_path :: "host_env \<Rightarrow> string result" where
  "resolve_default_metrics_db_path env =
     resolve_writable env ''/var/lib/palmanager'' ''/var/lib/palmanager/metrics.db'' ''/.palmanager/metrics.db''"

subsection \<open>The LAN address\<close>

definition loopback :: "string \<Rightarrow> bool" where
  "loopback a \<longleftrightarrow> startswith a ''127.''"

definition probe_socket_lan_ip :: "host_env \<Rightarrow> string option result" where
  "probe_socket_lan_ip env =
     (case routed_address env of
        Inl e \<Rightarrow> if is_os_error e then Inr None else Inl e
      | Inr a \<Rightarrow> Inr (if a \<noteq> [] \<and> \<not> loopback a then Some a else None))"

definition lan_interface :: "string \<Rightarrow> bool" where
  "lan_interface n \<longleftrightarrow> list_ex (startswith n) [''eth'', ''en'', ''wl'', ''bond'', ''Ethernet'', ''Wi-Fi'']"

definition lan_addresses :: "(string \<times> (bool \<times> string) list) list \<Rightarrow> string list" where
  "lan_addresses ifs =
     concat (map (\<lambda>(n, addrs). map snd (filter (\<lambda>(inet, a). inet \<and> \<not> loopback a \<and> lan_interface n) addrs)) ifs)"

definition probe_iface_lan_ip :: "host_env \<Rightarrow> string option result" where
  "probe_iface_lan_ip env =
     (case interfaces env of
        Inl e \<Rightarrow> if is_os_error e \<or> e \<in> {LibraryError ''psutil.Error'', KeyError, AttributeError} then Inr None else Inl e
      | Inr ifs \<Rightarrow>
          Inr (case lan_addresses ifs of [] \<Rightarrow> None | a # _ \<Rightarrow> Some a))"

definition probe_hostname_lan_ip :: "host_env \<Rightarrow> string option result" where
  "probe_hostname_lan_ip env =
     (case own_name_address env of
        Inl e \<Rightarrow> if is_os_error e then Inr None else Inl e
      | Inr a \<Rightarrow> Inr (if a \<noteq> [] \<and> \<not> loopback a then Some a else None))"

text \<open>\<open>x or y\<close> for a value that is looked up only when the one before is empty.\<close>

definition or_else :: "string option result \<Rightarrow> string option result \<Rightarrow> string option result" where
  "or_else x y = bind_result x (\<lambda>a. case a of Some (c # cs) \<Rightarrow> Inr a | _ \<Rightarrow> y)"

definition configured_host_ip :: "host_env \<Rightarrow> string option" where
  "configured_host_ip env =
     (case environ env ''PALWORLD_HOST_IP'' of
        Some (c # cs) \<Rightarrow> Some (c # cs)
      | _ \<Rightarrow> environ env ''HOST_IP'')"

definition resolve_host_lan_ip :: "host_env \<Rightarrow> string result" where
  "resolve_host_lan_ip env =
     (case configured_host_ip env of
        Some (c # cs) \<Rightarrow>
          if c # cs \<noteq> ''127.0.0.1'' then Inr (c # cs)
          else bind_result (or_else (probe_socket_lan_ip env) (or_else (probe_iface_lan_ip env) (probe_hostname_lan_ip env)))
                 (\<lambda>a. Inr (case a of Some (c # cs) \<Rightarrow> c # cs | _ \<Rightarrow> ''127.0.0.1''))
      | _ \<Rightarrow>
          bind_result (or_else (probe_socket_lan_ip env) (or_else (probe_iface_lan_ip env) (probe_hostname_lan_ip env)))
            (\<lambda>a. Inr (case a of Some (c # cs) \<Rightarrow> c # cs | _ \<Rightarrow> ''127.0.0.1'')))"

subsection \<open>The declared fields\<close>

text \<open>The default of a field: a value, or what a function of the host gives.\<close>

datatype field_default = Fixed json | FromHost "host_env \<Rightarrow> string result"

record app_field =
  field_label :: string
  field_names :: "string list"
  field_default_of :: field_default

definition fld :: "string \<Rightarrow> string list \<Rightarrow> field_default \<Rightarrow> app_field" where
  "fld l ns d = \<lparr>field_label = l, field_names = ns, field_default_of = d\<rparr>"

definition core_fields :: "app_field list" where
  "core_fields =
     [fld ''AdminPassword'' [''ADMIN_PASSWORD''] (Fixed (JStr ''admin_password'')),
      fld ''ServerPassword'' [''SERVER_PASSWORD''] (Fixed (JStr [])),
      fld ''ServerName'' [''SERVER_NAME''] (Fixed (JStr ''Palworld Dedicated Server'')),
      fld ''ServerDescription'' [''SERVER_DESCRIPTION''] (Fixed (JStr [])),
      fld ''PublicPort'' [''PUBLIC_PORT''] (Fixed (JInt 8211)),
      fld ''QueryPort'' [''PALWORLD_QUERY_PORT'', ''QUERY_PORT'', ''query_port''] (Fixed (JInt 27015)),
      fld ''RCONPort'' [''RCON_PORT''] (Fixed (JInt 25575)),
      fld ''RCONEnabled'' [''RCON_ENABLED''] (Fixed (JBool True)),
      fld ''RESTAPIPort'' [''REST_PORT''] (Fixed (JInt 8212)),
      fld ''RESTAPIEnabled'' [''REST_ENABLED''] (Fixed (JBool True)),
      fld ''CrossplayPlatforms'' [''CROSSPLAY_PLATFORMS''] (Fixed (JStr ''(Steam,Xbox,PS5,Mac)''))]"

definition service_fields :: "app_field list" where
  "service_fields =
     [fld ''web_port'' [''WEB_PORT''] (Fixed (JInt 8080)),
      fld ''ini_path'' [''INI_PATH''] (FromHost resolve_palworld_ini_path),
      fld ''service_name'' [''SERVICE_NAME''] (Fixed (JStr ''palworld.service'')),
      fld ''backup_dir'' [''BACKUP_DIR''] (FromHost (\<lambda>env. Inr (resolve_default_backup_dir env))),
      fld ''log_dir'' [''LOG_DIR''] (FromHost resolve_default_log_dir),
      fld ''database_path'' [''PALWORLD_DATABASE_PATH'', ''DATABASE_PATH'', ''database_path''] (FromHost resolve_default_db_path),
      fld ''metrics_db_path'' [''PALWORLD_METRICS_DB_PATH'', ''METRICS_DB_PATH'', ''metrics_db_path'']
        (FromHost resolve_default_metrics_db_path),
      fld ''metrics_retention_days'' [''PALWORLD_METRICS_RETENTION_DAYS'', ''METRICS_RETENTION_DAYS'', ''metrics_retention_days'']
        (Fixed (JInt 30)),
      fld ''metrics_sample_interval_seconds''
        [''PALWORLD_METRICS_SAMPLE_INTERVAL_SECONDS'', ''METRICS_SAMPLE_INTERVAL_SECONDS'', ''metrics_sample_interval_seconds'']
        (Fixed (JInt 10)),
      fld ''metrics_flush_interval_seconds''
        [''PALWORLD_METRICS_FLUSH_INTERVAL_SECONDS'', ''METRICS_FLUSH_INTERVAL_SECONDS'', ''metrics_flush_interval_seconds'']
        (Fixed (JInt 300)),
      fld ''duckdns_domain'' [''PALWORLD_DOMAIN'', ''PALWORLD_SERVER_DOMAIN'', ''PALWORLD_DUCKDNS_DOMAIN'', ''DUCKDNS_DOMAIN'',
        ''SERVER_DOMAIN'', ''duckdns_domain''] (Fixed (JStr ''yourdomain.duckdns.org'')),
      fld ''duckdns_token'' [''PALWORLD_DUCKDNS_TOKEN'', ''DUCKDNS_TOKEN'', ''duckdns_token''] (Fixed (JStr ''your_duckdns_token'')),
      fld ''host_ip'' [''PALWORLD_HOST_IP'', ''HOST_IP'', ''host_ip''] (FromHost resolve_host_lan_ip)]"

definition portal_fields :: "app_field list" where
  "portal_fields =
     [fld ''discord_webhook_url'' [''PALWORLD_DISCORD_WEBHOOK_URL'', ''DISCORD_WEBHOOK_URL'', ''discord_webhook_url''] (Fixed JNull),
      fld ''discord_log_level'' [''PALWORLD_DISCORD_LOG_LEVEL'', ''DISCORD_LOG_LEVEL'', ''discord_log_level''] (Fixed (JStr ''ERROR'')),
      fld ''discord_critical_ping'' [''PALWORLD_DISCORD_CRITICAL_PING'', ''DISCORD_CRITICAL_PING'', ''discord_critical_ping'']
        (Fixed (JStr ''@thestygianarchitect'')),
      fld ''github_repo_url'' [''PALWORLD_GITHUB_REPO_URL'', ''GITHUB_REPO_URL'', ''github_repo_url'']
        (Fixed (JStr ''https://github.com/theStygianArchitect/palworld_server_service'')),
      fld ''admin_credential_export_path'' [''PALWORLD_ADMIN_CREDENTIAL_EXPORT_PATH'', ''ADMIN_CREDENTIAL_EXPORT_PATH'',
        ''admin_credential_export_path''] (Fixed JNull),
      fld ''updater_enabled'' [''PALWORLD_UPDATER_ENABLED'', ''UPDATER_ENABLED'', ''updater_enabled''] (Fixed (JBool True)),
      fld ''update_check_interval_seconds'' [''PALWORLD_UPDATE_CHECK_INTERVAL_SECONDS'', ''UPDATE_CHECK_INTERVAL_SECONDS'',
        ''update_check_interval_seconds''] (Fixed (JInt 600)),
      fld ''update_branch'' [''PALWORLD_UPDATE_BRANCH'', ''UPDATE_BRANCH'', ''update_branch''] (Fixed (JStr ''main'')),
      fld ''deploy_script_path'' [''PALWORLD_DEPLOY_SCRIPT_PATH'', ''DEPLOY_SCRIPT_PATH'', ''deploy_script_path'']
        (Fixed (JStr ''/opt/palworld-web-manager/scripts/deploy.sh''))]"

definition ssl_fields :: "app_field list" where
  "ssl_fields =
     [fld ''ssl_enabled'' [''PALWORLD_SSL_ENABLED'', ''SSL_ENABLED'', ''ssl_enabled''] (Fixed (JBool False)),
      fld ''ssl_cert_path'' [''PALWORLD_SSL_CERT_PATH'', ''SSL_CERT_PATH'', ''ssl_cert_path''] (Fixed JNull),
      fld ''ssl_key_path'' [''PALWORLD_SSL_KEY_PATH'', ''SSL_KEY_PATH'', ''ssl_key_path''] (Fixed JNull),
      fld ''ssl_cert_dir'' [''PALWORLD_SSL_CERT_DIR'', ''SSL_CERT_DIR'', ''ssl_cert_dir''] (Fixed JNull),
      fld ''ssl_auto_renew'' [''PALWORLD_SSL_AUTO_RENEW'', ''SSL_AUTO_RENEW'', ''ssl_auto_renew''] (Fixed (JBool False)),
      fld ''ssl_cert_mode'' [''PALWORLD_SSL_CERT_MODE'', ''SSL_CERT_MODE'', ''ssl_cert_mode''] (Fixed (JStr ''letsencrypt'')),
      fld ''ssl_port'' [''PALWORLD_SSL_PORT'', ''SSL_PORT'', ''ssl_port''] (Fixed (JInt 8443)),
      fld ''ssl_auto_detect'' [''PALWORLD_SSL_AUTO_DETECT'', ''SSL_AUTO_DETECT'', ''ssl_auto_detect''] (Fixed (JBool True)),
      fld ''letsencrypt_email'' [''PALWORLD_LETSENCRYPT_EMAIL'', ''LETSENCRYPT_EMAIL'', ''letsencrypt_email''] (Fixed JNull)]"

definition app_fields :: "app_field list" where
  "app_fields = core_fields @ service_fields @ portal_fields @ ssl_fields"

definition validate_github_repo_url :: "string \<Rightarrow> string result" where
  "validate_github_repo_url v =
     (let cleaned = strip v
      in if startswith cleaned ''http://'' \<or> startswith cleaned ''https://''
         then Inr (rev (dropWhile (\<lambda>c. c = CHR ''/'') (rev cleaned))) else Inl ValueError)"

subsection \<open>Certificates\<close>

text \<open>\<open>strptime(s, "%b %d %H:%M:%S %Y %Z")\<close>. The zone is \<open>GMT\<close> or \<open>UTC\<close>, the only ones a
  certificate shows; the result counts microseconds as in \<^verbatim>\<open>Py_Datetime\<close>.\<close>

definition month_names :: "string list" where
  "month_names = [''jan'', ''feb'', ''mar'', ''apr'', ''may'', ''jun'', ''jul'', ''aug'', ''sep'', ''oct'', ''nov'', ''dec'']"

fun position :: "'a \<Rightarrow> 'a list \<Rightarrow> nat option" where
  "position x [] = None"
| "position x (y # ys) = (if x = y then Some 0 else map_option Suc (position x ys))"

definition small_number :: "nat \<Rightarrow> nat \<Rightarrow> string \<Rightarrow> nat option" where
  "small_number lo hi s =
     (if s \<noteq> [] \<and> length s \<le> 2 \<and> list_all is_digit s \<and> lo \<le> digits_val s \<and> digits_val s \<le> hi then Some (digits_val s) else None)"

definition year_number :: "string \<Rightarrow> nat option" where
  "year_number s = (if length s = 4 \<and> list_all is_digit s then Some (digits_val s) else None)"

definition month_length :: "nat \<Rightarrow> nat \<Rightarrow> nat" where
  "month_length y m =
     (let st = month_starts (is_leap y) in (if m = 12 then year_length y else st ! m) - st ! (m - 1))"

definition day_of_date :: "nat \<Rightarrow> nat \<Rightarrow> nat \<Rightarrow> nat" where
  "day_of_date y m d = days_before_year y + month_starts (is_leap y) ! (m - 1) + (d - 1)"

definition cert_time :: "string \<Rightarrow> nat result" where
  "cert_time s =
     (if strip s \<noteq> s then Inl ValueError
      else (case split_words s of
              [b, dd, hms, yy, z] \<Rightarrow>
                (case (position (lower b) month_names, small_number 1 31 dd, split_on (CHR '':'') hms, year_number yy) of
                   (Some m, Some d, [h1, m1, s1], Some y) \<Rightarrow>
                     (case (small_number 0 23 h1, small_number 0 59 m1, small_number 0 59 s1) of
                        (Some h, Some mi, Some se) \<Rightarrow>
                          if lower z \<in> {''gmt'', ''utc''} \<and> 1 \<le> y \<and> d \<le> month_length y (Suc m)
                          then Inr ((day_of_date y (Suc m) d * 86400 + h * 3600 + mi * 60 + se) * 1000000)
                          else Inl ValueError
                      | _ \<Rightarrow> Inl ValueError)
                 | _ \<Rightarrow> Inl ValueError)
            | _ \<Rightarrow> Inl ValueError))"

text \<open>What the interpreter's certificate decoder returns; an absent entry is empty.\<close>

record decoded_cert =
  dc_subject :: "(string \<times> string) list list"
  dc_issuer :: "(string \<times> string) list list"
  dc_not_before :: string
  dc_not_after :: string
  dc_alt_names :: "(string \<times> string) list"

definition extract_dn_field :: "(string \<times> string) list list \<Rightarrow> string \<Rightarrow> string option" where
  "extract_dn_field rdns name = dict_get (concat rdns) name"

definition nonempty_or :: "string option \<Rightarrow> string \<Rightarrow> string" where
  "nonempty_or x dflt = (case x of Some (c # cs) \<Rightarrow> c # cs | _ \<Rightarrow> dflt)"

definition build_tls_cert_info :: "nat \<Rightarrow> decoded_cert \<Rightarrow> TLSCertificateInfo result" where
  "build_tls_cert_info t c =
     bind_result (if dc_not_after c = [] then Inr t else cert_time (dc_not_after c)) (\<lambda>expires.
     bind_result (if dc_not_before c = [] then Inr t else cert_time (dc_not_before c)) (\<lambda>from_time.
       Inr \<lparr>info_subject = nonempty_or (extract_dn_field (dc_subject c) ''commonName'') ''Unknown'',
            info_issuer = nonempty_or (extract_dn_field (dc_issuer c) ''commonName'')
              (nonempty_or (extract_dn_field (dc_issuer c) ''organizationName'') ''Unknown''),
            info_from = isoformat from_time, info_expires = isoformat expires,
            info_days = (int expires - int t) div 86400000000, info_expired = (expires < t), info_self_signed = False,
            info_sans = map snd (filter (\<lambda>(kind, v). kind \<in> {''DNS'', ''IP Address''}) (dc_alt_names c))\<rparr>))"

text \<open>The decoder: \<open>None\<close> when the interpreter has none or when it decodes to nothing.\<close>

definition inspect_certificate :: "(string \<Rightarrow> decoded_cert option result) \<Rightarrow> nat \<Rightarrow> path \<Rightarrow> world \<Rightarrow> TLSCertificateInfo option result" where
  "inspect_certificate decode t p w =
     (case file_at w p of
        None \<Rightarrow> Inr None
      | Some f \<Rightarrow>
          (case bind_result (decode (f_data f)) (\<lambda>c.
                  case c of None \<Rightarrow> Inr None | Some d \<Rightarrow> bind_result (build_tls_cert_info t d) (\<lambda>i. Inr (Some i))) of
             Inl e \<Rightarrow> if is_os_error e \<or> is_value_error e \<or> e = KeyError then Inr None else Inl e
           | Inr r \<Rightarrow> Inr r))"

subsection \<open>The web server\<close>

text \<open>The port, and the certificate and key when the server speaks TLS. Any exception of the
  bootstrap leaves the server without TLS.\<close>

definition bootstrap_certificate :: "tls_env \<Rightarrow> tls_settings \<Rightarrow> world \<Rightarrow> (path \<times> path) option \<times> world" where
  "bootstrap_certificate env cfg w =
     (let dname = (if duckdns_domain cfg = [] then ''localhost'' else duckdns_domain cfg)
      in case generate_self_signed_certificate env (fresh_key env) dname 365 of
           Inl e \<Rightarrow> (None, w)
         | Inr cert_pem \<Rightarrow>
             (case stage_tls_bundle env cert_pem (key_pem (fresh_key env)) None w of
                (Inl e, w1) \<Rightarrow> (None, w1)
              | (Inr _, w1) \<Rightarrow> (resolve_ssl_paths env cfg w1, w1)))"

definition run_server :: "bool \<Rightarrow> tls_env \<Rightarrow> tls_settings \<Rightarrow> world \<Rightarrow> (nat \<times> (path \<times> path) option) \<times> world" where
  "run_server tls_available env cfg w =
     (case (case resolve_ssl_paths env cfg w of
              Some ck \<Rightarrow> (Some ck, w)
            | None \<Rightarrow> if tls_available then bootstrap_certificate env cfg w else (None, w)) of
        (pair, w1) \<Rightarrow> ((web_port cfg, pair), w1))"

text \<open>A start of the portal up to its certificate check: the process reads its settings anew, \<open>run_server\<close>
  bootstraps the certificate, and the task that \<open>lifespan\<close> of \<^verbatim>\<open>app/main.py\<close> creates runs the check.\<close>

definition server_start :: "tls_env \<Rightarrow> tls_state \<Rightarrow> unit result \<times> tls_state" where
  "server_start env s =
     (let s1 = s\<lparr>imported_settings := reloaded env, singleton := None\<rparr>;
          w = snd (run_server True env (get_settings s1) (key_store (exchange s1)))
      in trigger_tls_provisioning_check env (s1\<lparr>exchange := (exchange s1)\<lparr>key_store := w\<rparr>\<rparr>))"

fun starts :: "tls_env list \<Rightarrow> tls_state \<Rightarrow> tls_state" where
  "starts [] s = s"
| "starts (env # envs) s = starts envs (snd (server_start env s))"

subsection \<open>Pages\<close>

datatype web_page = Html string | Redirect string

text \<open>A template is read as UTF-8; what is no UTF-8 raises.\<close>

definition read_template_file :: "py_error option \<Rightarrow> string \<Rightarrow> world \<Rightarrow> string \<Rightarrow> string option result" where
  "read_template_file fault tdir w name =
     (if file_at w (tdir, name) = None then Inr None
      else (case read_text fault w (tdir, name) of
              Inl e \<Rightarrow> if is_os_error e then Inr None else Inl e
            | Inr s \<Rightarrow> Inr (Some s)))"

definition page_or :: "string option result \<Rightarrow> string \<Rightarrow> web_page result" where
  "page_or content fallback = bind_result content (\<lambda>c. Inr (Html (case c of Some (x # xs) \<Rightarrow> x # xs | _ \<Rightarrow> fallback)))"

definition serve_dashboard :: "auth_env \<Rightarrow> db \<Rightarrow> py_error option \<Rightarrow> string \<Rightarrow> world \<Rightarrow> http_request \<Rightarrow> web_page result" where
  "serve_dashboard env d fault tdir w req =
     bind_result (get_current_user_optional env d req) (\<lambda>u.
       if u = None then Inr (Redirect ''/login?next=/'')
       else page_or (read_template_file fault tdir w ''index.html'')
              ''<h2>Palworld Operations Suite Dashboard</h2><p>Template loading...</p>'')"

text \<open>\<open>next_param\<close> is the query parameter \<open>next\<close> of the request.\<close>

definition serve_login_page ::
  "auth_env \<Rightarrow> db \<Rightarrow> py_error option \<Rightarrow> string \<Rightarrow> world \<Rightarrow> http_request \<Rightarrow> string option \<Rightarrow> web_page result" where
  "serve_login_page env d fault tdir w req next_param =
     bind_result (get_current_user_optional env d req) (\<lambda>u.
       if u \<noteq> None then Inr (Redirect (case next_param of None \<Rightarrow> ''/'' | Some n \<Rightarrow> n))
       else page_or (read_template_file fault tdir w ''login.html'')
              ''<h2>Palworld Manager {dash} Login</h2><p>Login template not found. Please redeploy.</p>'')"

definition serve_setup_page :: web_page where
  "serve_setup_page = Redirect ''/login''"

definition serve_observability_dashboard :: "py_error option \<Rightarrow> string \<Rightarrow> world \<Rightarrow> web_page result" where
  "serve_observability_dashboard fault tdir w =
     page_or (read_template_file fault tdir w ''metrics.html'')
       ''<h2>Palworld Observability Dashboard</h2><p>Template loading...</p>''"

definition serve_feedback_page :: "py_error option \<Rightarrow> string \<Rightarrow> world \<Rightarrow> web_page result" where
  "serve_feedback_page fault tdir w =
     page_or (read_template_file fault tdir w ''feedback.html'') ''<h2>Feedback & Issue Tracker</h2><p>Template loading...</p>''"

subsection \<open>Names of settings\<close>

lemma dict_get_fold_set:
  "dict_get (fold (\<lambda>n m. dict_set n v m) ns m) k = (if k \<in> set ns then Some v else dict_get m k)"
  by (induction ns arbitrary: m) (auto simp: update_conv')

lemma dict_get_map_key:
  "dict_get (map_key kv m) n = (if n \<in> set (offered_names (fst kv)) then Some (snd kv) else dict_get m n)"
  by (simp add: map_key_def dict_get_fold_set)

lemma dict_get_map_keys:
  "dict_get (fold map_key d m) n =
     (case filter (\<lambda>kv. n \<in> set (offered_names (fst kv))) d of [] \<Rightarrow> dict_get m n | x # xs \<Rightarrow> Some (snd (last (x # xs))))"
proof (induction d rule: rev_induct)
  case (snoc kv d)
  then show ?case
    by (cases "filter (\<lambda>kv. n \<in> set (offered_names (fst kv))) d") (auto simp: dict_get_map_key)
qed simp

text \<open>The configuration file supplies a setting through every name it has: the value found under a name is
  that of the last option of the file which offers this name, as the option itself, in capitals or as an
  alias, and there is none when no option offers it.\<close>

theorem ini_source_last_wins:
  "dict_get (map_keys d) n =
     (case filter (\<lambda>kv. n \<in> set (offered_names (fst kv))) d of [] \<Rightarrow> None | x # xs \<Rightarrow> Some (snd (last (x # xs))))"
  by (simp add: map_keys_def dict_get_map_keys split: list.split)

text \<open>No name selects two fields.\<close>

lemma field_names_distinct: "distinct (concat (map field_names app_fields))"
  by code_simp

text \<open>An option of the game that is declared in the portal reaches its field.\<close>

lemma game_options_reach_fields:
  "list_all (\<lambda>f. list_ex (\<lambda>n. n \<in> set (field_label f # field_names f)) (offered_names (field_label f))) core_fields"
  by code_simp

lemma lan_ip_not_loopback:
  assumes "resolve_host_lan_ip env = Inr a" "configured_host_ip env = None"
  shows "a = ''127.0.0.1'' \<or> \<not> loopback a"
proof -
  have p: "probe_socket_lan_ip env = Inr (Some x) \<Longrightarrow> \<not> loopback x" "probe_hostname_lan_ip env = Inr (Some x) \<Longrightarrow> \<not> loopback x" for x
    by (auto simp: probe_socket_lan_ip_def probe_hostname_lan_ip_def split: sum.splits if_splits)
  have q: "\<not> loopback x" if found: "probe_iface_lan_ip env = Inr (Some x)" for x
  proof -
    obtain ifs r where "lan_addresses ifs = x # r"
      using found unfolding probe_iface_lan_ip_def by (auto split: sum.splits if_splits list.splits)
    then have "x \<in> set (lan_addresses ifs)" by simp
    then show ?thesis by (auto simp: lan_addresses_def)
  qed
  have o: "x = Inr (Some z) \<or> y = Inr (Some z)" if "or_else x y = Inr (Some z)" for x y z
  proof (cases x)
    case (Inr a)
    then show ?thesis using that by (cases a) (auto simp: or_else_def split: list.splits)
  qed (use that in \<open>simp add: or_else_def\<close>)
  let ?p = "or_else (probe_socket_lan_ip env) (or_else (probe_iface_lan_ip env) (probe_hostname_lan_ip env))"
  have n: "\<not> loopback z" if "?p = Inr (Some z)" for z
    using o [OF that] o [of "probe_iface_lan_ip env" "probe_hostname_lan_ip env" z] p q by blast
  obtain r where r: "?p = Inr r" "a = (case r of Some (c # cs) \<Rightarrow> c # cs | _ \<Rightarrow> ''127.0.0.1'')"
    using assms by (cases ?p) (simp_all add: resolve_host_lan_ip_def)
  show ?thesis
  proof (cases r)
    case (Some z)
    then show ?thesis using r n [of z] by (cases z) simp_all
  qed (use r in simp)
qed

subsection \<open>Times of certificates\<close>

lemma split_words_Nil [simp]: "split_words [] = []"
  by (subst split_words.simps) (simp add: lstrip_def)

lemma split_words_step:
  assumes "w \<noteq> []" "list_all (\<lambda>c. \<not> is_space c) w"
  shows "split_words (w @ CHR '' '' # r) = w # split_words (CHR '' '' # r)" "split_words w = [w]"
proof -
  have l: "lstrip (w @ x) = w @ x" for x using assms by (cases w) (auto simp: lstrip_def)
  have b: "is_space (CHR '' '')" by (simp add: is_space_def ord_def)
  have t: "takeWhile (\<lambda>c. \<not> is_space c) (w @ CHR '' '' # r) = w" "dropWhile (\<lambda>c. \<not> is_space c) (w @ CHR '' '' # r) = CHR '' '' # r"
    "takeWhile (\<lambda>c. \<not> is_space c) w = w" "dropWhile (\<lambda>c. \<not> is_space c) w = []"
    using assms b by (auto simp: list_all_iff takeWhile_eq_all_conv)
  show "split_words (w @ CHR '' '' # r) = w # split_words (CHR '' '' # r)"
    by (subst split_words.simps) (simp add: l t Let_def assms(1))
  show "split_words w = [w]"
    using l [of "[]"] by (subst split_words.simps) (simp add: t Let_def assms(1))
qed

lemma split_words_blank: "split_words (CHR '' '' # r) = split_words r"
proof -
  have b: "is_space (CHR '' '')" by (simp add: is_space_def ord_def)
  have "lstrip (CHR '' '' # r) = lstrip r" by (simp add: lstrip_def b)
  then show ?thesis by (subst (1 2) split_words.simps) simp
qed

lemma pad_digits: "list_all is_digit (pad w n)"
  by (induction w arbitrary: n) auto

lemma digits_val_pad: "n < 10 ^ w \<Longrightarrow> digits_val (pad w n) = n"
proof (induction w arbitrary: n)
  case (Suc w)
  then have "n div 10 < 10 ^ w" by simp
  then show ?case using Suc.IH [of "n div 10"] by (simp add: digits_val_snoc ord_digit_char)
qed (simp add: digits_val_def)

lemma solid_digits: "list_all is_digit s \<Longrightarrow> list_all (\<lambda>c. \<not> is_space c) s"
  by (auto simp: list_all_iff dest: is_digit_not_special)

text \<open>The text OpenSSL shows for a time: the day of the month is padded with a blank.\<close>

definition month_caps :: "string list" where
  "month_caps = [''Jan'', ''Feb'', ''Mar'', ''Apr'', ''May'', ''Jun'', ''Jul'', ''Aug'', ''Sep'', ''Oct'', ''Nov'', ''Dec'']"

definition openssl_time :: "nat \<Rightarrow> string" where
  "openssl_time t =
     (let s = t div 1000000
      in case (date_of_day (s div 86400), clock_of (s mod 86400)) of
           ((y, m, d), (h, mi, se)) \<Rightarrow>
             month_caps ! (m - 1) @ '' '' @ (if d < 10 then '' '' else []) @ nat_str d @ '' '' @
             pad 2 h @ '':'' @ pad 2 mi @ '':'' @ pad 2 se @ '' '' @ pad 4 y @ '' GMT'')"

lemma month_cap:
  assumes "1 \<le> m" "m \<le> 12"
  shows "position (lower (month_caps ! (m - 1))) month_names = Some (m - 1)"
    "list_all (\<lambda>c. \<not> is_space c) (month_caps ! (m - 1))" "month_caps ! (m - 1) \<noteq> []"
proof -
  have "\<forall>k \<in> set [0..<12]. position (lower (month_caps ! k)) month_names = Some k \<and>
      list_all (\<lambda>c. \<not> is_space c) (month_caps ! k) \<and> month_caps ! k \<noteq> []" by code_simp
  then show "position (lower (month_caps ! (m - 1))) month_names = Some (m - 1)"
    "list_all (\<lambda>c. \<not> is_space c) (month_caps ! (m - 1))" "month_caps ! (m - 1) \<noteq> []"
    using assms by simp_all
qed

lemma month_of_day_fits:
  assumes "d < year_length y" "month_of_day (is_leap y) d = (m, k)"
  shows "k \<le> month_length y m" "month_starts (is_leap y) ! (m - 1) + (k - 1) = d"
  using assms by (auto simp: month_of_day_def month_starts_def month_length_def year_length_def Let_def split: if_splits)

lemma date_of_day_inverse:
  assumes "date_of_day n = (y, m, d)"
  shows "day_of_date y m d = n" "1 \<le> y" "1 \<le> m" "m \<le> 12" "1 \<le> d" "d \<le> 31" "d \<le> month_length y m"
proof -
  obtain k where k: "year_of_day n = (y, k)" "month_of_day (is_leap y) k = (m, d)"
    using assms by (auto simp: date_of_day_def split: prod.splits)
  have c: "1 \<le> y" "n = days_before_year y + k" "k < year_length y" using year_of_day_correct [OF k(1)] by simp_all
  note f = month_of_day_fits [OF c(3) k(2)]
  show "1 \<le> m" "m \<le> 12" "1 \<le> d" "d \<le> 31" using month_of_day_bounds [of k "is_leap y" m d] c(3) k(2) by (simp_all add: year_length_def)
  show "day_of_date y m d = n" "1 \<le> y" "d \<le> month_length y m" using f c by (simp_all add: day_of_date_def)
qed

lemma small_number_pad: "n \<le> hi \<Longrightarrow> hi < 100 \<Longrightarrow> small_number 0 hi (pad 2 n) = Some n"
proof -
  assume "n \<le> hi" "hi < 100"
  moreover have "pad 2 n \<noteq> []" using length_pad [of 2 n] by (metis length_0_conv zero_neq_numeral)
  ultimately show ?thesis
    using length_pad [of 2 n] pad_digits [of 2 n] digits_val_pad [of n 2] by (simp add: small_number_def del: pad.simps)
qed

lemma length_nat_str_2: "n < 100 \<Longrightarrow> length (nat_str n) \<le> 2"
proof -
  assume "n < 100"
  then have "n div 10 < 10" by simp
  then show ?thesis by (subst nat_str.simps) (simp add: nat_str.simps [of "n div 10"])
qed

lemma small_number_str: "lo \<le> n \<Longrightarrow> n \<le> hi \<Longrightarrow> hi < 100 \<Longrightarrow> small_number lo hi (nat_str n) = Some n"
  using length_nat_str_2 [of n] nat_str_digits [of n] by (simp add: small_number_def digits_val_nat_str)

text \<open>Reading a certificate's time inverts how OpenSSL writes it, for every whole second until the year 9999.\<close>

theorem cert_time_round_trip:
  assumes "t < max_time" "t mod 1000000 = 0"
  shows "cert_time (openssl_time t) = Inr t"
proof -
  define s where "s = t div 1000000"
  obtain y m d where dt: "date_of_day (s div 86400) = (y, m, d)" by (cases "date_of_day (s div 86400)")
  define h where "h = s mod 86400 div 3600"
  define mi where "mi = s mod 86400 mod 3600 div 60"
  define se where "se = s mod 86400 mod 60"
  have cl: "clock_of (s mod 86400) = (h, mi, se)" by (simp add: clock_of_def h_def mi_def se_def)
  have hb: "h \<le> 23" "mi \<le> 59" "se \<le> 59"
  proof -
    have "s mod 86400 < 86400" "s mod 86400 mod 3600 < 3600" "s mod 86400 mod 60 < 60" by simp_all
    then show "h \<le> 23" "mi \<le> 59" "se \<le> 59" unfolding h_def mi_def se_def by simp_all
  qed
  note i = date_of_day_inverse [OF dt]
  have "s div 86400 < 3652059" using assms(1) by (simp add: s_def max_time_def div_less_iff_less_mult)
  then have y4: "y < 10 ^ 4" using date_of_day_bounds [OF _ dt] by blast
  let ?b = "month_caps ! (m - 1)" and ?hms = "pad 2 h @ '':'' @ pad 2 mi @ '':'' @ pad 2 se"
  have shape: "openssl_time t = ?b @ CHR '' '' # ((if d < 10 then '' '' else []) @ nat_str d @ CHR '' '' # (?hms @ CHR '' '' # (pad 4 y @ CHR '' '' # ''GMT'')))"
    by (simp add: openssl_time_def s_def [symmetric] dt cl Let_def)
  have col: "\<not> is_space (CHR '':'')" by (simp add: is_space_def ord_def)
  have pd: "list_all (\<lambda>c. \<not> is_space c) (pad w n)" for w n by (rule solid_digits [OF pad_digits])
  have solid: "list_all (\<lambda>c. \<not> is_space c) (nat_str d)" "list_all (\<lambda>c. \<not> is_space c) ?hms" "list_all (\<lambda>c. \<not> is_space c) (pad 4 y)"
    "list_all (\<lambda>c. \<not> is_space c) ''GMT''"
    subgoal by (rule solid_digits [OF nat_str_digits])
    subgoal by (simp only: list_all_append list.pred_inject pd col simp_thms)
    subgoal by (rule pd)
    subgoal by code_simp
    done
  have ne: "nat_str d \<noteq> []" "?hms \<noteq> []" "pad 4 y \<noteq> []" using length_pad [of 4 y] by (auto simp del: length_pad)
  have w: "split_words (openssl_time t) = [?b, nat_str d, ?hms, pad 4 y, ''GMT'']"
  proof -
    have "split_words (openssl_time t) = ?b # split_words ((if d < 10 then '' '' else []) @ nat_str d @ CHR '' '' # (?hms @ CHR '' '' # (pad 4 y @ CHR '' '' # ''GMT'')))"
      unfolding shape split_words_step(1) [OF month_cap(3,2) [OF i(3,4)]] split_words_blank ..
    also have "split_words ((if d < 10 then '' '' else []) @ nat_str d @ CHR '' '' # (?hms @ CHR '' '' # (pad 4 y @ CHR '' '' # ''GMT''))) =
        split_words (nat_str d @ CHR '' '' # (?hms @ CHR '' '' # (pad 4 y @ CHR '' '' # ''GMT'')))"
      by (simp add: split_words_blank)
    also have "\<dots> = [nat_str d, ?hms, pad 4 y, ''GMT'']"
      unfolding split_words_step(1) [OF ne(1) solid(1)] split_words_blank split_words_step(1) [OF ne(2) solid(2)]
        split_words_step(1) [OF ne(3) solid(3)] split_words_step(2) [OF _ solid(4), simplified] by (rule refl)
    finally show ?thesis .
  qed
  have st: "strip (openssl_time t) = openssl_time t"
  proof -
    have "hd (openssl_time t) = hd ?b" "last (openssl_time t) = CHR ''T''" unfolding shape using month_cap(3) [OF i(3,4)] by simp_all
    moreover have "\<not> is_space (hd ?b)" using month_cap(2,3) [OF i(3,4)] by (cases ?b) auto
    moreover have "\<not> is_space (CHR ''T'')" by (simp add: is_space_def ord_def)
    ultimately show ?thesis by (intro strip_id) simp
  qed
  have nc: "CHR '':'' \<notin> set (pad w n)" for w n
    using pad_digits [of w n] by (auto simp: list_all_iff is_digit_def ord_def)
  have sp: "split_on (CHR '':'') ?hms = [pad 2 h, pad 2 mi, pad 2 se]"
    using split_on_append [OF nc] split_on_single [OF nc] by simp
  have yn: "year_number (pad 4 y) = Some y"
    using length_pad [of 4 y] pad_digits [of 4 y] digits_val_pad [OF y4] by (simp add: year_number_def del: pad.simps)
  have z: "lower ''GMT'' \<in> {''gmt'', ''utc''}" by code_simp
  have v: "(s div 86400 * 86400 + h * 3600 + mi * 60 + se) * 1000000 = t"
  proof -
    have "h * 3600 + mi * 60 + se = s mod 86400"
    proof -
      have "s mod 86400 mod 60 = s mod 86400 mod 3600 mod 60" by (simp add: mod_mod_cancel)
      moreover have "s mod 86400 mod 3600 div 60 * 60 + s mod 86400 mod 3600 mod 60 = s mod 86400 mod 3600" by (rule div_mult_mod_eq)
      moreover have "s mod 86400 div 3600 * 3600 + s mod 86400 mod 3600 = s mod 86400" by (rule div_mult_mod_eq)
      ultimately show ?thesis unfolding h_def mi_def se_def by linarith
    qed
    then have "s div 86400 * 86400 + h * 3600 + mi * 60 + se = s" using div_mult_mod_eq [of s 86400] by linarith
    then show ?thesis using assms(2) div_mult_mod_eq [of t 1000000] by (simp add: s_def)
  qed
  have Sm: "Suc (m - 1) = m" using i(3) by simp
  have sd: "small_number 1 31 (nat_str d) = Some d" by (rule small_number_str [OF i(5,6)]) simp
  have cond: "lower ''GMT'' \<in> {''gmt'', ''utc''} \<and> 1 \<le> y \<and> d \<le> month_length y m" using z i by blast
  show ?thesis
    unfolding cert_time_def w st
    by (simp only: list.case month_cap(1) [OF i(3,4)] sd sp yn option.case prod.case
        small_number_pad [OF hb(1), simplified] small_number_pad [OF hb(2), simplified] small_number_pad [OF hb(3), simplified]
        Sm cond i(1) v refl if_True not_True_eq_False if_False simp_thms)
qed

theorem cert_time_round_trip_witness:
  "cert_time (openssl_time 63000000000000000) = Inr 63000000000000000"
  by (rule cert_time_round_trip) (simp_all add: max_time_def)

text \<open>A certificate is reported expired exactly when the days it has left are negative.\<close>

lemma expired_has_negative_days:
  assumes "build_tls_cert_info t c = Inr i"
  shows "info_expired i = (info_days i < 0)"
proof -
  obtain e b where b: "(if dc_not_after c = [] then Inr t else cert_time (dc_not_after c)) = Inr e"
    "(if dc_not_before c = [] then Inr t else cert_time (dc_not_before c)) = Inr b"
    using assms unfolding build_tls_cert_info_def bind_result_Inr_iff by blast
  have "info_expired i = (e < t)" "info_days i = (int e - int t) div 86400000000"
    using assms unfolding build_tls_cert_info_def b by auto
  then show ?thesis by (simp add: pos_imp_zdiv_neg_iff)
qed

subsection \<open>The start of the server\<close>

text \<open>C31. When neither paths nor a directory of certificates are configured and detection is switched off, every
  start of the server replaces the certificate and key of the standard directory by a self-signed pair, and
  serves plaintext all the same.\<close>

theorem server_start_replaces_certificate:
  assumes quiet: "ssl_candidates env cfg = []"
    and place: "names_ok env DEFAULT_CERT_DIR w" "\<not> stage_mkdir_fails env"
      "io_healthy (cert_io env (fullchain_of DEFAULT_CERT_DIR))" "io_healthy (cert_io env (privkey_of DEFAULT_CERT_DIR))"
    and signed: "generate_self_signed_certificate env (fresh_key env) (or_localhost (duckdns_domain cfg)) 365 = Inr pem"
  shows "\<exists>w' f g. run_server True env cfg w = ((web_port cfg, None), w') \<and>
    file_at w' (fullchain_of DEFAULT_CERT_DIR) = Some f \<and> f_data f = pem \<and>
    file_at w' (privkey_of DEFAULT_CERT_DIR) = Some g \<and> f_data g = key_pem (fresh_key env)"
proof -
  have none: "resolve_ssl_paths env cfg x = None" for x by (simp add: resolve_ssl_paths_def quiet)
  obtain w' f g where st: "stage_tls_bundle env pem (key_pem (fresh_key env)) None w =
      (Inr (fullchain_of DEFAULT_CERT_DIR, privkey_of DEFAULT_CERT_DIR), w')"
    "file_at w' (fullchain_of DEFAULT_CERT_DIR) = Some f" "f_data f = pem"
    "file_at w' (privkey_of DEFAULT_CERT_DIR) = Some g" "f_data g = key_pem (fresh_key env)"
    using bundle_staged [of env None w pem "key_pem (fresh_key env)"] place by auto
  have "run_server True env cfg w = ((web_port cfg, None), w')"
    using signed by (simp add: run_server_def bootstrap_certificate_def none st(1) or_localhost_def Let_def split: if_splits)
  then show ?thesis using st by blast
qed

theorem server_start_replaces_certificate_witness:
  "\<exists>w' f. run_server True (demo_tls 20) host_settings demo_chain = ((443, None), w') \<and>
    file_at w' (fullchain_of DEFAULT_CERT_DIR) = Some f \<and> f_data f = ''new''"
proof -
  have "ssl_candidates (demo_tls 20) host_settings = []" by (simp add: ssl_candidates_def host_settings_def)
  moreover have "\<not> stage_mkdir_fails (demo_tls 20)" by (simp add: demo_tls_def)
  moreover have "generate_self_signed_certificate (demo_tls 20) (fresh_key (demo_tls 20)) (or_localhost (duckdns_domain host_settings)) 365 = Inr ''new''"
    by (simp only: demo_config demo_signs)
  ultimately obtain w' f where "run_server True (demo_tls 20) host_settings demo_chain = ((web_port host_settings, None), w')"
    "file_at w' (fullchain_of DEFAULT_CERT_DIR) = Some f" "f_data f = ''new''"
    using server_start_replaces_certificate [OF _ demo_names _ demo_healthy demo_healthy] by blast
  then show ?thesis by (auto simp: host_settings_def)
qed

text \<open>A host on which a start works but finds no certificate to use: detection is switched off and no
  certificate is configured, a domain is, the bootstrap can stage its pair and the supervisor restarts
  the service.\<close>

definition start_ok :: "tls_env \<Rightarrow> world \<Rightarrow> bool" where
  "start_ok env w \<longleftrightarrow> ssl_candidates env (reloaded env) = [] \<and>
     lower (strip (duckdns_domain (reloaded env))) \<notin> {[], ''localhost'', ''yourdomain.duckdns.org''} \<and>
     staging_works env (duckdns_domain (reloaded env)) w \<and> \<not> cert_read_fails env \<and>
     on_posix_host env \<and> restart_fault env = None"

fun starts_ok :: "tls_env list \<Rightarrow> tls_state \<Rightarrow> bool" where
  "starts_ok [] s \<longleftrightarrow> True"
| "starts_ok (env # envs) s \<longleftrightarrow> start_ok env (key_store (exchange s)) \<and> starts_ok envs (snd (server_start env s))"

lemma bootstrap_stages:
  assumes "ssl_candidates env cfg = []" "staging_works env (or_localhost (duckdns_domain cfg)) w"
  shows "\<exists>w'. run_server True env cfg w = ((web_port cfg, None), w') \<and>
    staged_self_signed env (or_localhost (duckdns_domain cfg)) (tls_now env) w' \<and>
    (\<forall>p. w' = snd (stage_tls_bundle env p (key_pem (fresh_key env)) None w) \<or>
      generate_self_signed_certificate env (fresh_key env) (or_localhost (duckdns_domain cfg)) 365 \<noteq> Inr p)"
proof -
  let ?d = "or_localhost (duckdns_domain cfg)"
  have none: "resolve_ssl_paths env cfg x = None" for x by (simp add: resolve_ssl_paths_def assms(1))
  obtain pem where pem: "generate_self_signed_certificate env (fresh_key env) ?d 365 = Inr pem"
    using assms(2) by (auto simp: staging_works_def)
  obtain w' f g where st: "stage_tls_bundle env pem (key_pem (fresh_key env)) None w =
      (Inr (fullchain_of DEFAULT_CERT_DIR, privkey_of DEFAULT_CERT_DIR), w')"
    "file_at w' (fullchain_of DEFAULT_CERT_DIR) = Some f" "f_data f = pem" "file_at w' (privkey_of DEFAULT_CERT_DIR) = Some g"
    using bundle_staged [of env None w pem "key_pem (fresh_key env)"] assms(2) by (auto simp: staging_works_def)
  have "load_cert env pem = Inr (self_signed_for ?d (tls_now env))"
    using assms(2) pem by (auto simp: staging_works_def generate_self_signed_certificate_def reads_signed_def self_signed_for_def)
  then have "staged_self_signed env ?d (tls_now env) w'"
    using st by (simp add: staged_self_signed_def)
  moreover have "run_server True env cfg w = ((web_port cfg, None), w')"
    using pem by (simp add: run_server_def bootstrap_certificate_def none st(1) or_localhost_def Let_def split: if_splits)
  ultimately show ?thesis using st(1) pem by auto
qed

lemma start_restarts:
  assumes "start_ok env (key_store (exchange s))"
  shows "restarts (snd (server_start env s)) = Suc (restarts s) \<and>
    staged_self_signed env (duckdns_domain (reloaded env)) (tls_now env) (key_store (exchange (snd (server_start env s)))) \<and>
    key_store (exchange (snd (server_start env s))) = snd (run_server True env (reloaded env) (key_store (exchange s)))"
proof -
  let ?cfg = "reloaded env" and ?d = "duckdns_domain (reloaded env)"
  note ok = assms [unfolded start_ok_def]
  have d: "or_localhost ?d = ?d"
    using ok by (auto simp: or_localhost_def strip_def lstrip_def rstrip_def lower_def)
  have none: "resolve_ssl_paths env ?cfg x = None" for x using ok by (simp add: resolve_ssl_paths_def)
  obtain w' where w: "run_server True env ?cfg (key_store (exchange s)) = ((web_port ?cfg, None), w')"
    "staged_self_signed env ?d (tls_now env) w'"
    using bootstrap_stages [of env ?cfg] ok d by auto
  define s1 where "s1 = s\<lparr>imported_settings := ?cfg, singleton := None, exchange := (exchange s)\<lparr>key_store := w'\<rparr>\<rparr>"
  have s1: "get_settings s1 = ?cfg" "key_store (exchange s1) = w'" "restarts s1 = restarts s"
    by (simp_all add: s1_def get_settings_def)
  have start: "server_start env s = trigger_tls_provisioning_check env s1"
    using w(1) by (simp add: server_start_def s1_def get_settings_def Let_def)
  obtain f g where f: "file_at w' (fullchain_of DEFAULT_CERT_DIR) = Some f"
    "file_at w' (privkey_of DEFAULT_CERT_DIR) = Some g" "load_cert env (f_data f) = Inr (self_signed_for ?d (tls_now env))"
    using w(2) by (auto simp: staged_self_signed_def split: option.splits)
  let ?st = "status_of_cert (self_signed_for ?d (tls_now env)) (tls_now env) (Some ?d) DEFAULT_CERT_DIR"
  have st: "get_tls_certificate_status env None (Some ?d) w' = Inr ?st"
    using f ok by (simp add: get_tls_certificate_status_def Let_def)
  have "is_valid ?st \<and> 30 < days_remaining ?st"
    using self_signed_lasts [of "tls_now env" "tls_now env" ?d] by (simp add: status_of_cert_def day_def Let_def)
  then have p: "provision env ?d (duckdns_token ?cfg) False s1 =
      (Inr (outcome EXISTING_VALID ?d (days_remaining ?st) ''Existing certificate is valid and not near expiry.''), s1)"
    using st s1 by (simp add: provision_def provision_tls_certificates_def RENEWAL_THRESHOLD_DAYS_def)
  have "snd (trigger_tls_provisioning_check env s1) = s1\<lparr>restarts := Suc (restarts s)\<rparr>"
    using ok none p by (simp add: trigger_tls_provisioning_check_def s1 outcome_def dispatch_manager_service_restart_def Let_def)
  then show ?thesis using w s1 by (simp add: start)
qed

text \<open>C39. The portal restarts itself without end on a host whose settings name a domain but switch the
  detection of certificates off and configure none: each start, \<open>run_server\<close> with its bootstrap and then
  the startup check, stages a new self-signed pair, finds nothing to use, takes the fresh pair for an
  existing valid certificate and dispatches another restart, as often as it is started.\<close>

theorem every_start_restarts:
  assumes "starts_ok envs s"
  shows "restarts (starts envs s) = restarts s + length envs \<and>
    (envs \<noteq> [] \<longrightarrow> staged_self_signed (last envs) (duckdns_domain (reloaded (last envs))) (tls_now (last envs))
       (key_store (exchange (starts envs s))))"
  using assms
proof (induction envs arbitrary: s)
  case (Cons env envs)
  then show ?case
    using start_restarts [of env s] by auto
qed simp

text \<open>Staging the pair touches the two files, their temporary files and their backups only.\<close>

lemma stage_frame:
  assumes "names_ok env DEFAULT_CERT_DIR w"
    and "x \<notin> {fullchain_of DEFAULT_CERT_DIR, privkey_of DEFAULT_CERT_DIR,
      tmp_path_of (cert_io env (fullchain_of DEFAULT_CERT_DIR)) (fullchain_of DEFAULT_CERT_DIR),
      tmp_path_of (cert_io env (privkey_of DEFAULT_CERT_DIR)) (privkey_of DEFAULT_CERT_DIR)}"
    and "\<not> is_backup_of (fullchain_of DEFAULT_CERT_DIR) x" "\<not> is_backup_of (privkey_of DEFAULT_CERT_DIR) x"
    and "io_healthy (cert_io env (fullchain_of DEFAULT_CERT_DIR))"
  shows "file_at (snd (stage_tls_bundle env cert key None w)) x = file_at w x"
proof -
  let ?f = "fullchain_of DEFAULT_CERT_DIR" and ?k = "privkey_of DEFAULT_CERT_DIR"
  obtain q w1 where a: "atomic_write_file (cert_io env ?f) ?f cert 5 False (Some 420) True w = (Inr q, w1)"
    "tmp_ok (cert_io env ?k) ?k w1"
    using first_write [OF assms(1,5)] by metis
  have "tmp_ok (cert_io env ?f) ?f w"
    using assms(1) by (simp add: names_ok_def Let_def)
  from atomic_write_frame [OF this, of x cert 5 False "Some 420" True]
  have 1: "file_at w1 x = file_at w x"
    using assms(2,3) a(1) by simp
  obtain r w2 where b: "atomic_write_file (cert_io env ?k) ?k key 5 False (Some 384) True w1 = (r, w2)"
    by fastforce
  from atomic_write_frame [OF a(2), of x key 5 False "Some 384" True]
  have "file_at w2 x = file_at w1 x"
    using assms(2,4) b by simp
  with 1 show ?thesis
    using a(1) b by (simp add: stage_tls_bundle_def split: sum.split)
qed

text \<open>Two starts of the demonstration host, with fresh names of their temporary files.\<close>

definition demo_start :: "string \<Rightarrow> tls_env" where
  "demo_start r = (demo_tls 20)\<lparr>cert_io := (\<lambda>p. demo_io\<lparr>tmp_rand := r @ snd p\<rparr>)\<rparr>"

lemma demo_start_staging:
  assumes "names_ok (demo_start r) DEFAULT_CERT_DIR w"
  shows "start_ok (demo_start r) w"
proof -
  have "reads_signed (demo_start r)"
    using demo_reads [of 20] by (simp add: reads_signed_def demo_start_def)
  moreover have "generate_self_signed_certificate (demo_start r) (fresh_key (demo_start r)) ''x.org'' 365 = Inr ''new''"
    using demo_signs [of 20] by (simp add: generate_self_signed_certificate_def demo_start_def)
  moreover have "\<not> stage_mkdir_fails (demo_start r)" "\<not> cert_read_fails (demo_start r)" "on_posix_host (demo_start r)"
    "restart_fault (demo_start r) = None" "duckdns_domain (reloaded (demo_start r)) = ''x.org''"
    by (simp_all add: demo_start_def demo_tls_def host_settings_def)
  moreover have "io_healthy (cert_io (demo_start r) p)" for p
    by (simp add: demo_start_def io_healthy_def demo_io_def)
  moreover have "ssl_candidates (demo_start r) (reloaded (demo_start r)) = []"
    by (simp add: ssl_candidates_def demo_start_def demo_tls_def host_settings_def)
  moreover have "lower (strip ''x.org'') \<notin> {[], ''localhost'', ''yourdomain.duckdns.org''}"
    by code_simp
  ultimately show ?thesis
    using assms by (simp add: start_ok_def staging_works_def)
qed

definition fresh_in :: "string \<Rightarrow> world \<Rightarrow> bool" where
  "fresh_in r w \<longleftrightarrow>
     (\<forall>p \<in> {fullchain_of DEFAULT_CERT_DIR, privkey_of DEFAULT_CERT_DIR}. file_at w (tmp_path_of (cert_io (demo_start r) p) p) = None)"

lemma demo_start_names: "fresh_in r w \<Longrightarrow> names_ok (demo_start r) DEFAULT_CERT_DIR w"
  by (simp add: fresh_in_def names_ok_def tmp_ok_def tmp_path_of_def demo_start_def demo_io_def fullchain_of_def
      privkey_of_def is_backup_of_def startswith_def backup_prefix_def)

lemma demo_start_keeps_fresh:
  assumes "fresh_in r w" "fresh_in r' w" "length r = length r'" "r \<noteq> r'"
  shows "fresh_in r' (snd (run_server True (demo_start r) (reloaded (demo_start r)) w))"
proof -
  note n = demo_start_names [OF assms(1)]
  have o: "or_localhost (duckdns_domain (reloaded (demo_start r))) = ''x.org''"
    "ssl_candidates (demo_start r) (reloaded (demo_start r)) = []" "staging_works (demo_start r) ''x.org'' w"
    using demo_start_staging [OF n] by (simp_all add: start_ok_def demo_start_def demo_tls_def host_settings_def or_localhost_def)
  obtain pem where pem: "generate_self_signed_certificate (demo_start r) (fresh_key (demo_start r)) ''x.org'' 365 = Inr pem"
    using o(3) by (auto simp: staging_works_def)
  have w: "snd (run_server True (demo_start r) (reloaded (demo_start r)) w) =
      snd (stage_tls_bundle (demo_start r) pem (key_pem (fresh_key (demo_start r))) None w)"
    using bootstrap_stages [OF o(2)] o(1,3) pem by fastforce
  have h: "io_healthy (cert_io (demo_start r) (fullchain_of DEFAULT_CERT_DIR))"
    using o(3) by (simp add: staging_works_def)
  show ?thesis
    unfolding fresh_in_def
  proof
    fix p assume p: "p \<in> {fullchain_of DEFAULT_CERT_DIR, privkey_of DEFAULT_CERT_DIR}"
    let ?x = "tmp_path_of (cert_io (demo_start r') p) p"
    have "file_at (snd (stage_tls_bundle (demo_start r) pem (key_pem (fresh_key (demo_start r))) None w)) ?x = file_at w ?x"
      using p assms(3,4)
      by (intro stage_frame n h)
         (auto simp: tmp_path_of_def demo_start_def demo_io_def fullchain_of_def privkey_of_def is_backup_of_def
           startswith_def backup_prefix_def)
    then show "file_at (snd (run_server True (demo_start r) (reloaded (demo_start r)) w)) ?x = None"
      using assms(2) p by (auto simp: w fresh_in_def)
  qed
qed

theorem every_start_restarts_witness:
  "restarts (starts [demo_start ''1'', demo_start ''2''] demo_tls_state) = 2"
proof -
  have f: "fresh_in ''1'' demo_chain" "fresh_in ''2'' demo_chain"
    by (simp_all add: fresh_in_def tmp_path_of_def demo_start_def demo_io_def fullchain_of_def privkey_of_def file_at_def
        demo_chain_def)
  have k: "key_store (exchange demo_tls_state) = demo_chain"
    by (rule demo_config)
  note s1 = demo_start_staging [OF demo_start_names [OF f(1)]]
  have "key_store (exchange (snd (server_start (demo_start ''1'') demo_tls_state))) =
      snd (run_server True (demo_start ''1'') (reloaded (demo_start ''1'')) demo_chain)"
    using start_restarts [of "demo_start ''1''" demo_tls_state] s1 by (simp add: k)
  with demo_start_keeps_fresh [OF f] have "starts_ok [demo_start ''1'', demo_start ''2''] demo_tls_state"
    using s1 by (simp add: k demo_start_staging demo_start_names)
  from every_start_restarts [OF this] show ?thesis
    by (simp add: demo_tls_state_def)
qed

subsection \<open>The pages\<close>

lemma dashboard_needs_user:
  "serve_dashboard env d fault tdir w req = Inr (Html h) \<Longrightarrow> \<exists>u. get_current_user_optional env d req = Inr (Some u)"
  by (auto simp: serve_dashboard_def bind_result_Inr_iff split: if_splits)

text \<open>The login page sends a signed-in user wherever the request asks.\<close>

lemma login_redirects_anywhere:
  "get_current_user_optional env d req = Inr (Some u) \<Longrightarrow>
   serve_login_page env d fault tdir w req (Some target) = Inr (Redirect target)"
  by (simp add: serve_login_page_def)

text \<open>A URL that passes has a scheme and no slash at its end.\<close>

lemma repo_url_clean:
  assumes "validate_github_repo_url v = Inr u"
  shows "u = [] \<or> last u \<noteq> CHR ''/''"
proof -
  have "u = rev (dropWhile (\<lambda>c. c = CHR ''/'') (rev (strip v)))"
    using assms by (simp add: validate_github_repo_url_def Let_def split: if_splits)
  then show ?thesis
    using hd_dropWhile [of "\<lambda>c. c = CHR ''/''" "rev (strip v)"] by (cases "dropWhile (\<lambda>c. c = CHR ''/'') (rev (strip v))") simp_all
qed

end
