(* ===== verification/Process_Setup.thy ===== *)
theory Process_Setup
  imports Supervisor Access_Control Metrics_Db Telemetry_Tasks App_Config
begin

section \<open>Setting the processes up\<close>

text \<open>
  What happens before requests are served: the life of the supervisor daemon and its socket
  (\<^verbatim>\<open>app/supervisor/server.py\<close> and \<^verbatim>\<open>main.py\<close>), the SQLite connections of both databases with their
  fallbacks (\<^verbatim>\<open>get_connection\<close>, \<^verbatim>\<open>initialize\<close> and \<^verbatim>\<open>close\<close> of \<^verbatim>\<open>db.py\<close> and \<^verbatim>\<open>metrics_db.py\<close>), the
  configuration of the engine (\<^verbatim>\<open>PalEngine.__init__\<close> of \<^verbatim>\<open>service.py\<close>) and the database part of the
  application's start (\<^verbatim>\<open>lifespan\<close> of \<^verbatim>\<open>main.py\<close>). Faults of the system calls are fields of the
  environments.
\<close>

subsection \<open>The supervisor daemon\<close>

record socket_file =
  sock_mode :: nat
  sock_owner :: int
  sock_group :: int

text \<open>\<open>daemon_server\<close>: the server object, once there is one, and whether it still accepts connections. Two
  points differ between the supported versions of Python: \<open>wait_closed\<close> waits for the connected clients
  (3.12.1 and later) or not, and closing the server unlinks its path (3.13 and later) or not.\<close>

record daemon =
  socket_at_path :: "socket_file option"
  daemon_server :: "bool option"

record daemon_env =
  posix_daemon :: bool
  unlink_error :: "py_error option"
  bind_error :: "py_error option"
  created_socket :: socket_file
  sock_chmod_error :: "py_error option"
  euid :: int
  group_of :: "int \<Rightarrow> int result"
  chown_error :: "py_error option"
  waits_for_clients :: bool
  unlinks_on_close :: bool

definition remove_socket :: "daemon_env \<Rightarrow> daemon \<Rightarrow> unit result \<times> daemon" where
  "remove_socket env d =
     (if socket_at_path d = None then (Inr (), d)
      else (case unlink_error env of
              Some e \<Rightarrow> (if e = FileNotFoundError then Inr () else Inl e, d)
            | None \<Rightarrow> (Inr (), d\<lparr>socket_at_path := None\<rparr>)))"

definition socket_group :: "daemon_env \<Rightarrow> int \<Rightarrow> int result" where
  "socket_group env allowed_uid =
     (case group_of env allowed_uid of
        Inr g \<Rightarrow> Inr g
      | Inl e \<Rightarrow> if e = KeyError \<or> e = LibraryError ''ImportError'' then Inr allowed_uid else Inl e)"

definition start_supervisor :: "daemon_env \<Rightarrow> int \<Rightarrow> daemon \<Rightarrow> unit result \<times> daemon" where
  "start_supervisor env allowed_uid d =
     (if \<not> posix_daemon env then (Inl NotImplementedError, d)
      else (case remove_socket env d of
              (Inl e, d1) \<Rightarrow> (Inl e, d1)
            | (Inr _, d1) \<Rightarrow>
                (case bind_error env of
                   Some e \<Rightarrow> (Inl e, d1)
                 | None \<Rightarrow>
                     (let d2 = d1\<lparr>socket_at_path := Some (created_socket env), daemon_server := Some True\<rparr>
                      in case sock_chmod_error env of
                           Some e \<Rightarrow> (Inl e, d2)
                         | None \<Rightarrow>
                             (let f = (created_socket env)\<lparr>sock_mode := 432\<rparr>;
                                  d3 = d2\<lparr>socket_at_path := Some f\<rparr>
                              in if euid env \<noteq> 0 then (Inr (), d3)
                                 else (case socket_group env allowed_uid of
                                         Inl e \<Rightarrow> (Inl e, d3)
                                       | Inr g \<Rightarrow>
                                           (case chown_error env of
                                              Some e \<Rightarrow> (Inl e, d3)
                                            | None \<Rightarrow> (Inr (), d3\<lparr>socket_at_path := Some (f\<lparr>sock_owner := 0, sock_group := g\<rparr>)\<rparr>))))))))"

text \<open>\<open>close\<close> of the server object; an error of its own unlinking is only logged.\<close>

definition close_server :: "daemon_env \<Rightarrow> daemon \<Rightarrow> daemon" where
  "close_server env d =
     (let d1 = (if daemon_server d = Some True \<and> unlinks_on_close env then snd (remove_socket env d) else d)
      in d1\<lparr>daemon_server := map_option (\<lambda>_. False) (daemon_server d1)\<rparr>)"

text \<open>\<open>stop\<close>: the result is \<open>None\<close> when the coroutine is suspended in \<open>wait_closed\<close>; the removal of the
  socket is then still to come.\<close>

definition stop_supervisor :: "daemon_env \<Rightarrow> nat list \<Rightarrow> daemon \<Rightarrow> unit result option \<times> daemon" where
  "stop_supervisor env clients d =
     (let d1 = close_server env d
      in if daemon_server d \<noteq> None \<and> clients \<noteq> [] \<and> waits_for_clients env then (None, d1)
         else (case remove_socket env d1 of (r, d2) \<Rightarrow> (Some r, d2)))"

text \<open>The event loop: the daemon, its connected clients, the \<open>stop\<close> coroutines suspended in
  \<open>wait_closed\<close>, and the flag that \<open>loop.stop()\<close> sets and \<open>run_forever\<close> tests after every round.\<close>

record daemon_loop =
  loop_daemon :: daemon
  loop_clients :: "nat list"
  loop_waiting :: nat
  loop_stopping :: bool

datatype callback = Schedule_stop | Accept_client nat | Client_lost nat | Stop_loop

text \<open>A scheduled \<open>stop\<close> that raises is reported by the loop and dropped. The last client that goes
  wakes the suspended coroutines, each of which removes the socket.\<close>

fun run_callback :: "daemon_env \<Rightarrow> callback \<Rightarrow> daemon_loop \<Rightarrow> daemon_loop" where
  "run_callback env Schedule_stop s =
     (case stop_supervisor env (loop_clients s) (loop_daemon s) of
        (None, d) \<Rightarrow> s\<lparr>loop_daemon := d, loop_waiting := Suc (loop_waiting s)\<rparr>
      | (Some r, d) \<Rightarrow> s\<lparr>loop_daemon := d\<rparr>)"
| "run_callback env (Accept_client c) s =
     (if daemon_server (loop_daemon s) = Some True then s\<lparr>loop_clients := c # loop_clients s\<rparr> else s)"
| "run_callback env (Client_lost c) s =
     (let cs = remove1 c (loop_clients s)
      in if cs = [] then
           s\<lparr>loop_clients := [], loop_waiting := 0,
             loop_daemon := ((snd \<circ> remove_socket env) ^^ loop_waiting s) (loop_daemon s)\<rparr>
         else s\<lparr>loop_clients := cs\<rparr>)"
| "run_callback env Stop_loop s = s\<lparr>loop_stopping := True\<rparr>"

text \<open>\<open>run_forever\<close> returns after the round in which the flag was set; the first component tells
  whether it has returned after the given callbacks.\<close>

fun run_forever :: "daemon_env \<Rightarrow> callback list \<Rightarrow> daemon_loop \<Rightarrow> bool \<times> daemon_loop" where
  "run_forever env [] s = (False, s)"
| "run_forever env (cb # cbs) s =
     (let s1 = run_callback env cb s in if loop_stopping s1 then (True, s1) else run_forever env cbs s1)"

text \<open>What happens to the process, and the callbacks registered for it: \<open>add_signal_handler\<close> for
  \<open>SIGTERM\<close> and \<open>SIGINT\<close>, the accepting of connections by \<open>start_unix_server\<close>.\<close>

datatype daemon_event = Signal_received | Client_connects nat | Client_leaves nat

fun callback_of :: "daemon_event \<Rightarrow> callback" where
  "callback_of Signal_received = Schedule_stop"
| "callback_of (Client_connects c) = Accept_client c"
| "callback_of (Client_leaves c) = Client_lost c"

definition new_loop :: "daemon \<Rightarrow> daemon_loop" where
  "new_loop d = \<lparr>loop_daemon = d, loop_clients = [], loop_waiting = 0, loop_stopping = False\<rparr>"

text \<open>The \<open>finally\<close> of \<open>main\<close> runs \<open>stop\<close> to its end; what it raises replaces the outcome.\<close>

definition finish_main :: "daemon_env \<Rightarrow> unit result \<Rightarrow> daemon_loop \<Rightarrow> unit result option \<times> daemon_loop" where
  "finish_main env res s =
     (case stop_supervisor env (loop_clients s) (loop_daemon s) of
        (None, d) \<Rightarrow> (None, s\<lparr>loop_daemon := d, loop_waiting := Suc (loop_waiting s)\<rparr>)
      | (Some (Inl e), d) \<Rightarrow> (Some (Inl e), s\<lparr>loop_daemon := d\<rparr>)
      | (Some (Inr _), d) \<Rightarrow> (Some res, s\<lparr>loop_daemon := d\<rparr>))"

definition supervisor_main ::
  "daemon_env \<Rightarrow> int \<Rightarrow> int option \<Rightarrow> daemon_event list \<Rightarrow> daemon \<Rightarrow> unit result option \<times> daemon_loop" where
  "supervisor_main env configured_uid palmanager_uid evs d =
     (case start_supervisor env (main_allowed_uid configured_uid (posix_daemon env) palmanager_uid) d of
        (Inl e, d1) \<Rightarrow> finish_main env (if e = NotImplementedError then Inr () else Inl e) (new_loop d1)
      | (Inr _, d1) \<Rightarrow>
          (case run_forever env (map callback_of evs) (new_loop d1) of
             (False, s) \<Rightarrow> (None, s)
           | (True, s) \<Rightarrow> finish_main env (Inr ()) s))"

subsection \<open>Database connections\<close>

record sqlite_env =
  parent_error :: "string \<Rightarrow> py_error option"
  home_dir_error :: "py_error option"
  home_text :: string
  connect_error :: "string \<Rightarrow> py_error option"
  pragma_error :: "string \<Rightarrow> py_error option"
  close_error :: "py_error option"

record db_connection =
  conn_path :: string
  conn_pragmas :: "string list"

record db_handle =
  handle_path :: string
  handle_conn :: "db_connection option"

definition memory_path :: string where
  "memory_path = '':memory:''"

definition accounts_location :: "sqlite_env \<Rightarrow> string \<Rightarrow> string result" where
  "accounts_location env p =
     (if p = memory_path then Inr p
      else (case parent_error env p of
              None \<Rightarrow> Inr p
            | Some e \<Rightarrow>
                if \<not> is_os_error e then Inl e
                else (case home_dir_error env of
                        None \<Rightarrow> Inr (home_text env @ ''/.palmanager/palmanager.db'')
                      | Some e2 \<Rightarrow> if is_os_error e2 then Inr memory_path else Inl e2)))"

definition metrics_location :: "sqlite_env \<Rightarrow> string \<Rightarrow> string result" where
  "metrics_location env p =
     (case parent_error env p of
        None \<Rightarrow> Inr p
      | Some e \<Rightarrow>
          if \<not> is_os_error e then Inl e
          else (case home_dir_error env of
                  None \<Rightarrow> Inr (home_text env @ ''/.palmanager/metrics.db'')
                | Some e2 \<Rightarrow> if is_os_error e2 then Inr p else Inl e2))"

text \<open>A pragma and whether an \<open>OperationalError\<close> of it is ignored.\<close>

fun run_pragmas :: "sqlite_env \<Rightarrow> (string \<times> bool) list \<Rightarrow> string list result" where
  "run_pragmas env [] = Inr []"
| "run_pragmas env ((p, lenient) # ps) =
     (case pragma_error env p of
        None \<Rightarrow> bind_result (run_pragmas env ps) (\<lambda>qs. Inr (p # qs))
      | Some e \<Rightarrow> if lenient \<and> e = OperationalError then run_pragmas env ps else Inl e)"

definition accounts_pragmas :: "string \<Rightarrow> (string \<times> bool) list" where
  "accounts_pragmas p =
     (''foreign_keys = ON'', False) # (if p = memory_path then [] else [(''journal_mode = WAL'', True)]) @
     [(''busy_timeout = 10000'', False)]"

definition metrics_pragmas :: "string \<Rightarrow> (string \<times> bool) list" where
  "metrics_pragmas p =
     (''busy_timeout = 10000'', False) # (if p = memory_path then [] else [(''journal_mode = WAL'', True)]) @
     [(''synchronous = NORMAL'', True)]"

definition open_connection ::
  "(sqlite_env \<Rightarrow> string \<Rightarrow> string result) \<Rightarrow> (string \<Rightarrow> (string \<times> bool) list) \<Rightarrow> sqlite_env \<Rightarrow> db_handle \<Rightarrow> db_connection result \<times> db_handle" where
  "open_connection locate pragmas env h =
     (case handle_conn h of
        Some c \<Rightarrow> (Inr c, h)
      | None \<Rightarrow>
          (case locate env (handle_path h) of
             Inl e \<Rightarrow> (Inl e, h)
           | Inr p \<Rightarrow>
               (let h1 = h\<lparr>handle_path := p\<rparr>
                in case connect_error env p of
                     Some e \<Rightarrow> (Inl e, h1)
                   | None \<Rightarrow>
                       (case run_pragmas env (pragmas p) of
                          Inl e \<Rightarrow> (Inl e, h1)
                        | Inr done_pragmas \<Rightarrow>
                            (let c = \<lparr>conn_path = p, conn_pragmas = done_pragmas\<rparr> in (Inr c, h1\<lparr>handle_conn := Some c\<rparr>))))))"

definition get_accounts_connection :: "sqlite_env \<Rightarrow> db_handle \<Rightarrow> db_connection result \<times> db_handle" where
  "get_accounts_connection = open_connection accounts_location accounts_pragmas"

definition get_metrics_connection :: "sqlite_env \<Rightarrow> db_handle \<Rightarrow> db_connection result \<times> db_handle" where
  "get_metrics_connection = open_connection metrics_location metrics_pragmas"

text \<open>The script that creates the schema fails with \<open>script_error\<close>; the handlers log and raise it again.\<close>

definition initialize_accounts :: "sqlite_env \<Rightarrow> py_error option \<Rightarrow> db_handle \<Rightarrow> unit result \<times> db_handle" where
  "initialize_accounts env script_error h =
     (case get_accounts_connection env h of
        (Inl e, h1) \<Rightarrow> (Inl e, h1)
      | (Inr _, h1) \<Rightarrow> (case script_error of Some e \<Rightarrow> Inl e | None \<Rightarrow> Inr (), h1))"

text \<open>Up to five attempts while the database is locked. \<open>script n\<close> is the error of attempt \<open>n\<close> and whether
  its text has \<open>locked\<close>; the pauses are in fifths of a second.\<close>

fun metrics_attempts :: "(nat \<Rightarrow> (py_error \<times> bool) option) \<Rightarrow> nat \<Rightarrow> nat \<Rightarrow> unit result \<times> nat list" where
  "metrics_attempts script 0 n = (Inr (), [])"
| "metrics_attempts script (Suc k) n =
     (case script n of
        None \<Rightarrow> (Inr (), [])
      | Some (e, locked) \<Rightarrow>
          if e = OperationalError \<and> locked \<and> n < 5
          then (case metrics_attempts script k (Suc n) of (r, ps) \<Rightarrow> (r, n # ps)) else (Inl e, []))"

definition initialize_metrics :: "sqlite_env \<Rightarrow> (nat \<Rightarrow> (py_error \<times> bool) option) \<Rightarrow> db_handle \<Rightarrow> (unit result \<times> nat list) \<times> db_handle" where
  "initialize_metrics env script h =
     (case get_metrics_connection env h of
        (Inl e, h1) \<Rightarrow> ((Inl e, []), h1)
      | (Inr _, h1) \<Rightarrow> (metrics_attempts script 5 1, h1))"

definition close_accounts :: "sqlite_env \<Rightarrow> db_handle \<Rightarrow> unit result \<times> db_handle" where
  "close_accounts env h =
     (if handle_conn h = None then (Inr (), h)
      else (case close_error env of
              Some e \<Rightarrow> if is_database_error e then (Inr (), h\<lparr>handle_conn := None\<rparr>) else (Inl e, h)
            | None \<Rightarrow> (Inr (), h\<lparr>handle_conn := None\<rparr>)))"

subsection \<open>The configuration of the engine\<close>

definition resolve_default_update_flag :: "host_env \<Rightarrow> string" where
  "resolve_default_update_flag env =
     (if \<not> is_windows env \<and> path_exists env ''/var/lib/palmanager'' then ''/var/lib/palmanager/update_requested''
      else if \<not> is_windows env \<and> path_exists env ''/home/steam'' then ''/home/steam/.update_requested''
      else home_path env @ ''/.palmanager/.update_requested'')"

record engine_paths =
  ep_ini :: string
  ep_service :: string
  ep_flag :: string
  ep_lock :: string

record engine_config =
  ec_password :: string
  ec_port :: int
  ec_server :: string
  ec_domain :: string
  ec_webhook :: "string option"
  ec_paths :: engine_paths

text \<open>The keyword arguments; an absent one is \<open>None\<close>.\<close>

record engine_kwargs =
  kw_service :: "string option"
  kw_ini :: "string option"
  kw_flag :: "string option"
  kw_lock :: "string option"
  kw_password :: "string option"
  kw_port :: "int option"
  kw_server :: "string option"
  kw_domain :: "string option"
  kw_webhook :: "string option"

definition service_char :: "char \<Rightarrow> bool" where
  "service_char c \<longleftrightarrow> is_ascii_alpha c \<or> is_digit c \<or> c = CHR ''_'' \<or> c = CHR ''.'' \<or> c = CHR ''-''"

text \<open>\<open>^[a-zA-Z0-9_.\-]+$\<close>; the dollar also matches before a final line feed.\<close>

definition service_name_matches :: "string \<Rightarrow> bool" where
  "service_name_matches s =
     (let body = (if s \<noteq> [] \<and> last s = CHR 0x0A then butlast s else s) in body \<noteq> [] \<and> list_all service_char body)"

definition engine_defaults :: "host_env \<Rightarrow> string \<Rightarrow> engine_paths result" where
  "engine_defaults env tmp =
     bind_result (resolve_palworld_ini_path env) (\<lambda>ini.
       Inr \<lparr>ep_ini = ini, ep_service = ''palworld.service'', ep_flag = resolve_default_update_flag env,
            ep_lock = tmp @ ''/palworld_reboot.lock''\<rparr>)"

definition resolve_port :: "host_env \<Rightarrow> int option \<Rightarrow> int result" where
  "resolve_port env given =
     (if given \<noteq> None \<and> given \<noteq> Some 0 then Inr (the given)
      else (case py_int (case environ env ''PALWORLD_REST_PORT'' of None \<Rightarrow> ''8212'' | Some s \<Rightarrow> s) of
              Some i \<Rightarrow> Inr i
            | None \<Rightarrow> Inl ValueError))"

definition new_engine_config :: "host_env \<Rightarrow> engine_paths \<Rightarrow> engine_kwargs \<Rightarrow> engine_config result" where
  "new_engine_config env dflt kw =
     (let raw_svc = nonempty_or (kw_service kw) (nonempty_or (environ env ''PALWORLD_SERVICE_NAME'') (ep_service dflt))
      in if \<not> service_name_matches raw_svc then Inl ValueError
         else bind_result (resolve_port env (kw_port kw)) (\<lambda>port.
           Inr \<lparr>ec_password = nonempty_or (kw_password kw) (nonempty_or (environ env ''PALWORLD_ADMIN_PASSWORD'') ''admin_password''),
                ec_port = port,
                ec_server = nonempty_or (kw_server kw) (nonempty_or (environ env ''PALWORLD_SERVER_NAME'') ''Palworld Dedicated Server''),
                ec_domain = nonempty_or (kw_domain kw) (nonempty_or (environ env ''PALWORLD_SERVER_DOMAIN'') ''yourdomain.duckdns.org''),
                ec_webhook = (case kw_webhook kw of Some (c # cs) \<Rightarrow> Some (c # cs) | _ \<Rightarrow> environ env ''PALWORLD_DISCORD_WEBHOOK_URL''),
                ec_paths = \<lparr>ep_ini = nonempty_or (kw_ini kw) (ep_ini dflt), ep_service = raw_svc,
                  ep_flag = nonempty_or (kw_flag kw) (ep_flag dflt), ep_lock = nonempty_or (kw_lock kw) (ep_lock dflt)\<rparr>\<rparr>))"

subsection \<open>The databases at the application's start\<close>

text \<open>The exceptions that are logged and dropped.\<close>

definition startup_drops :: "py_error \<Rightarrow> bool" where
  "startup_drops e \<longleftrightarrow> is_database_error e \<or> is_os_error e \<or> is_runtime_error e \<or> e \<in> {NotImplementedError, LibraryError ''sqlite3.Error''}"

record stores =
  account_state :: app_state
  disk :: world
  metrics :: metrics_store
  metrics_ready :: bool

record startup_env =
  su_auth :: auth_env
  su_io :: io_env
  su_export :: export_env
  su_generated :: string
  su_export_path :: "string option"
  su_accounts_init :: "unit result"
  su_metrics_init :: "unit result"
  su_metrics_io :: metrics_io
  su_now :: nat
  su_retention :: nat

definition initial_admin_pwd :: "string \<Rightarrow> string option" where
  "initial_admin_pwd configured = (if configured = ''admin_password'' then None else Some configured)"

definition startup_steps :: "startup_env \<Rightarrow> stores \<Rightarrow> unit result \<times> stores" where
  "startup_steps env st =
     (case su_accounts_init env of
        Inl e \<Rightarrow> (Inl e, st)
      | Inr _ \<Rightarrow>
          (case bootstrap_admin_user (su_auth env) (su_io env) (su_export env) (su_generated env)
                  (initial_admin_pwd (AdminPassword (su_auth env))) (su_export_path env) (account_state st, disk st) of
             (Inl e, s, w) \<Rightarrow> (Inl e, st\<lparr>account_state := s, disk := w\<rparr>)
           | (Inr _, s, w) \<Rightarrow>
               (let st1 = st\<lparr>account_state := s, disk := w\<rparr>
                in case su_metrics_init env of
                     Inl e \<Rightarrow> (Inl e, st1)
                   | Inr _ \<Rightarrow>
                       (case prune_older_than (su_metrics_io env) (su_now env) (su_retention env) (metrics st1) of
                          (Inl e, m) \<Rightarrow> (Inl e, st1\<lparr>metrics := m, metrics_ready := True\<rparr>)
                        | (Inr _, m) \<Rightarrow> (Inr (), st1\<lparr>metrics := m, metrics_ready := True\<rparr>)))))"

definition startup_database :: "startup_env \<Rightarrow> stores \<Rightarrow> unit result \<times> stores" where
  "startup_database env st =
     (case startup_steps env st of
        (Inl e, st1) \<Rightarrow> (if startup_drops e then Inr () else Inl e, st1)
      | (Inr _, st1) \<Rightarrow> (Inr (), st1))"

subsection \<open>The daemon never exits\<close>

lemma started_daemon:
  assumes "start_supervisor env uid d = (Inr (), d1)"
  shows "\<exists>f. socket_at_path d1 = Some f \<and> sock_mode f = 432" "daemon_server d1 = Some True"
    "euid env = 0 \<Longrightarrow> \<exists>f g. socket_at_path d1 = Some f \<and> sock_owner f = 0 \<and> sock_group f = g \<and> socket_group env uid = Inr g"
  using assms by (auto simp: start_supervisor_def Let_def split: if_splits option.splits sum.splits prod.splits)

text \<open>No callback of the daemon sets the flag, so the loop goes through all of them.\<close>

lemma run_callback_stopping:
  "cb \<noteq> Stop_loop \<Longrightarrow> loop_stopping (run_callback env cb s) = loop_stopping s"
  by (cases cb) (auto simp: Let_def split: prod.split option.split)

lemma callback_of_not_stop: "callback_of e \<noteq> Stop_loop"
  by (cases e) simp_all

lemma run_forever_all:
  "Stop_loop \<notin> set cbs \<Longrightarrow> \<not> loop_stopping s \<Longrightarrow>
     run_forever env cbs s = (False, foldl (\<lambda>s cb. run_callback env cb s) s cbs)"
  by (induction cbs arbitrary: s) (auto simp: Let_def run_callback_stopping)

definition loop_after :: "daemon_env \<Rightarrow> daemon_event list \<Rightarrow> daemon_loop \<Rightarrow> daemon_loop" where
  "loop_after env evs s = foldl (\<lambda>s e. run_callback env (callback_of e) s) s evs"

lemma loop_after_append: "loop_after env (xs @ ys) s = loop_after env ys (loop_after env xs s)"
  by (simp add: loop_after_def)

lemma loop_after_Cons: "loop_after env (x # xs) s = loop_after env xs (run_callback env (callback_of x) s)"
  by (simp add: loop_after_def)

lemma run_forever_events:
  "\<not> loop_stopping s \<Longrightarrow> run_forever env (map callback_of evs) s = (False, loop_after env evs s)"
  by (subst run_forever_all) (auto simp: callback_of_not_stop [symmetric] loop_after_def foldl_map)

lemma removed_socket:
  assumes "unlink_error env = None"
  shows "remove_socket env d = (Inr (), d\<lparr>socket_at_path := None\<rparr>)"
  using assms by (cases d) (auto simp: remove_socket_def)

lemma removed_often:
  assumes "unlink_error env = None"
  shows "((snd \<circ> remove_socket env) ^^ n) d = (if n = 0 then d else d\<lparr>socket_at_path := None\<rparr>)"
  by (induction n) (auto simp: removed_socket [OF assms])

lemma close_server_closed:
  "daemon_server (close_server env d) = map_option (\<lambda>_. False) (daemon_server d)"
  by (auto simp: close_server_def Let_def remove_socket_def split: option.split)

text \<open>A server with its object stays so, and a signal closes it.\<close>

definition served :: "daemon_loop \<Rightarrow> bool" where
  "served s \<longleftrightarrow> daemon_server (loop_daemon s) \<noteq> None"

text \<open>After a signal: the server is closed and either its path is free or a suspended \<open>stop\<close> will free it
  when the last client goes.\<close>

definition shut :: "daemon_env \<Rightarrow> daemon_loop \<Rightarrow> bool" where
  "shut env s \<longleftrightarrow> daemon_server (loop_daemon s) = Some False \<and>
     (socket_at_path (loop_daemon s) = None \<or> waits_for_clients env \<and> loop_clients s \<noteq> [] \<and> 0 < loop_waiting s)"

lemma event_served:
  assumes "unlink_error env = None" "served s"
  shows "served (run_callback env (callback_of e) s)"
  using assms
  by (cases e)
     (auto simp: served_def Let_def stop_supervisor_def close_server_closed removed_socket removed_often split: prod.split)

lemma signal_shuts:
  assumes "unlink_error env = None" "served s"
  shows "shut env (run_callback env (callback_of Signal_received) s)"
  using assms
  by (auto simp: served_def shut_def Let_def stop_supervisor_def close_server_closed removed_socket)

lemma event_keeps_shut:
  assumes "unlink_error env = None" "shut env s"
  shows "shut env (run_callback env (callback_of e) s)"
proof (cases e)
  case Signal_received
  have "served s" using assms(2) by (simp add: shut_def served_def)
  with Signal_received show ?thesis using signal_shuts [OF assms(1)] by simp
next
  case (Client_connects c)
  with assms(2) show ?thesis by (simp add: shut_def)
next
  case (Client_leaves c)
  with assms show ?thesis by (auto simp: shut_def Let_def removed_often)
qed

lemma event_no_new_client:
  "daemon_server (loop_daemon s) = Some False \<Longrightarrow>
     set (loop_clients (run_callback env (callback_of e) s)) \<subseteq> set (loop_clients s)"
  by (cases e) (auto simp: Let_def split: prod.split option.split intro: subsetD [OF set_remove1_subset])

lemma events_served:
  "unlink_error env = None \<Longrightarrow> served s \<Longrightarrow> served (loop_after env evs s)"
  by (induction evs arbitrary: s) (simp add: loop_after_def, simp add: loop_after_Cons event_served)

lemma events_shut:
  assumes "unlink_error env = None"
  shows "shut env s \<Longrightarrow> shut env (loop_after env evs s) \<and>
    set (loop_clients (loop_after env evs s)) \<subseteq> set (loop_clients s)"
proof (induction evs arbitrary: s)
  case (Cons e evs)
  then have "daemon_server (loop_daemon s) = Some False"
    by (simp add: shut_def)
  with Cons event_keeps_shut [OF assms Cons.prems, of e] event_no_new_client [of s env e] show ?case
    by (fastforce simp: loop_after_Cons)
qed (simp add: loop_after_def)

lemma signal_keeps_clients:
  "loop_clients (run_callback env (callback_of Signal_received) s) = loop_clients s"
  by (simp split: prod.split option.split)

text \<open>C25. Once the supervisor has started, a termination signal stops it from serving but does not end it.
  Whatever signals, connections and disconnections come before and after a signal, none of them stops the
  event loop, so \<open>main\<close> has not returned. The server is closed: no client is connected then that was not
  connected at the signal, and unless such a client stays and is waited for, the socket is gone.\<close>

theorem signalled_daemon_lingers:
  assumes "start_supervisor env (main_allowed_uid configured (posix_daemon env) found) d = (Inr (), d1)"
    and "unlink_error env = None"
  shows "\<exists>s. supervisor_main env configured found (before @ Signal_received # later) d = (None, s) \<and>
    daemon_server (loop_daemon s) = Some False \<and>
    set (loop_clients s) \<subseteq> set (loop_clients (snd (supervisor_main env configured found before d))) \<and>
    (socket_at_path (loop_daemon s) = None \<or> waits_for_clients env \<and> loop_clients s \<noteq> [])"
proof -
  define s1 where "s1 = loop_after env before (new_loop d1)"
  define s2 where "s2 = run_callback env (callback_of Signal_received) s1"
  have main: "supervisor_main env configured found evs d = (None, loop_after env evs (new_loop d1))" for evs
    using assms(1) run_forever_events [of "new_loop d1" env evs]
    by (simp add: supervisor_main_def new_loop_def del: callback_of.simps)
  have "served (new_loop d1)"
    using started_daemon(2) [OF assms(1)] by (simp add: served_def new_loop_def)
  then have "shut env s2"
    unfolding s2_def s1_def by (intro signal_shuts events_served assms(2))
  from events_shut [OF assms(2) this, of later]
  have "shut env (loop_after env later s2)" "set (loop_clients (loop_after env later s2)) \<subseteq> set (loop_clients s1)"
    unfolding s2_def by (simp_all only: signal_keeps_clients)
  moreover have "loop_after env (before @ Signal_received # later) (new_loop d1) = loop_after env later s2"
    by (simp only: loop_after_append loop_after_Cons s1_def s2_def)
  ultimately show ?thesis
    unfolding main s1_def shut_def by auto
qed

definition demo_daemon_env :: daemon_env where
  "demo_daemon_env = \<lparr>posix_daemon = True, unlink_error = None, bind_error = None,
     created_socket = \<lparr>sock_mode = 493, sock_owner = 0, sock_group = 0\<rparr>, sock_chmod_error = None, euid = 0,
     group_of = (\<lambda>u. if u = 998 then Inr 997 else Inl KeyError), chown_error = None,
     waits_for_clients = True, unlinks_on_close = False\<rparr>"

theorem signalled_daemon_lingers_witness:
  "\<exists>s. supervisor_main demo_daemon_env 0 (Some 998)
      [Client_connects 1, Signal_received, Client_connects 2, Client_leaves 1] \<lparr>socket_at_path = None, daemon_server = None\<rparr> =
        (None, s) \<and>
     daemon_server (loop_daemon s) = Some False \<and> set (loop_clients s) \<subseteq> {1}"
proof -
  let ?d = "\<lparr>socket_at_path = None, daemon_server = None\<rparr>"
  have "\<exists>d1. start_supervisor demo_daemon_env (main_allowed_uid 0 (posix_daemon demo_daemon_env) (Some 998)) ?d = (Inr (), d1)"
    by (simp add: start_supervisor_def remove_socket_def socket_group_def main_allowed_uid_def demo_daemon_env_def)
  moreover have "unlink_error demo_daemon_env = None" by (simp add: demo_daemon_env_def)
  moreover have "loop_clients (snd (supervisor_main demo_daemon_env 0 (Some 998) [Client_connects 1] ?d)) = [1]"
    by (simp add: supervisor_main_def start_supervisor_def remove_socket_def socket_group_def main_allowed_uid_def
        demo_daemon_env_def new_loop_def Let_def)
  ultimately show ?thesis
    using signalled_daemon_lingers [where before = "[Client_connects 1]" and later = "[Client_connects 2, Client_leaves 1]"]
    by fastforce
qed

text \<open>When it could not start, it ends and leaves no socket behind.\<close>

lemma failed_start_cleans_up:
  assumes "unlink_error env = None"
    and "start_supervisor env (main_allowed_uid configured (posix_daemon env) found) d = (Inl e, d1)"
  shows "\<exists>r s. supervisor_main env configured found evs d = (Some r, s) \<and> socket_at_path (loop_daemon s) = None"
  using assms
  by (simp add: supervisor_main_def finish_main_def stop_supervisor_def Let_def new_loop_def removed_socket)

subsection \<open>Connections\<close>

lemma pragmas_run: "run_pragmas env ps = Inr qs \<Longrightarrow> (p, False) \<in> set ps \<Longrightarrow> p \<in> set qs"
  by (induction ps arbitrary: qs) (auto simp: bind_result_Inr_iff split: option.splits if_splits)

text \<open>What both databases have in common: a place for their file and a list of pragmas which always
  makes a connection wait while another process holds the database.\<close>

locale sqlite_database =
  fixes locate :: "sqlite_env \<Rightarrow> string \<Rightarrow> string result"
    and pragmas :: "string \<Rightarrow> (string \<times> bool) list"
  assumes waits: "(''busy_timeout = 10000'', False) \<in> set (pragmas p)"
begin

lemma fresh_connection:
  assumes "open_connection locate pragmas env h = (Inr c, h1)" "handle_conn h = None"
  shows "locate env (handle_path h) = Inr (conn_path c)" "run_pragmas env (pragmas (conn_path c)) = Inr (conn_pragmas c)"
    "h1 = \<lparr>handle_path = conn_path c, handle_conn = Some c\<rparr>"
  using assms by (cases h; auto simp: open_connection_def Let_def split: option.splits sum.splits)+

lemma waits_when_busy:
  "open_connection locate pragmas env h = (Inr c, h1) \<Longrightarrow> handle_conn h = None \<Longrightarrow> ''busy_timeout = 10000'' \<in> set (conn_pragmas c)"
  using fresh_connection(2) waits pragmas_run by blast

text \<open>Whatever fails later, the connection once made is handed out again.\<close>

lemma reused:
  "open_connection locate pragmas env h = (Inr c, h1) \<Longrightarrow> open_connection locate pragmas later h1 = (Inr c, h1)"
  by (auto simp: open_connection_def Let_def split: option.splits sum.splits)

text \<open>A failed attempt keeps no connection, so the next call tries again.\<close>

lemma failed_attempt:
  "open_connection locate pragmas env h = (Inl e, h1) \<Longrightarrow> handle_conn h1 = None"
  by (auto simp: open_connection_def Let_def split: option.splits sum.splits)

end

interpretation accounts_file: sqlite_database accounts_location accounts_pragmas
  by unfold_locales (simp add: accounts_pragmas_def)

interpretation metrics_file: sqlite_database metrics_location metrics_pragmas
  by unfold_locales (simp add: metrics_pragmas_def)

text \<open>Every new connection to the account database enforces the foreign keys its cascading deletions rest on.\<close>

lemma foreign_keys_on:
  assumes "get_accounts_connection env h = (Inr c, h1)" "handle_conn h = None"
  shows "''foreign_keys = ON'' \<in> set (conn_pragmas c)"
proof -
  have "run_pragmas env (accounts_pragmas (conn_path c)) = Inr (conn_pragmas c)"
    using accounts_file.fresh_connection(2) assms by (simp add: get_accounts_connection_def)
  then show ?thesis using pragmas_run by (fastforce simp: accounts_pragmas_def)
qed

lemma metrics_connection_kept:
  "initialize_metrics env script h = (r, h1) \<Longrightarrow> handle_conn h1 = Some c \<Longrightarrow> get_metrics_connection later h1 = (Inr c, h1)"
  by (auto simp: get_metrics_connection_def open_connection_def)

text \<open>Without any writable directory the accounts live in memory only, and the metrics database keeps its path.\<close>

lemma unwritable_directories:
  assumes "parent_error env p = Some e" "is_os_error e" "home_dir_error env = Some e2" "is_os_error e2" "p \<noteq> memory_path"
  shows "accounts_location env p = Inr memory_path" "metrics_location env p = Inr p"
  using assms by (simp_all add: accounts_location_def metrics_location_def)

text \<open>The schema of the metrics database is retried four times at most, two seconds in all.\<close>

lemma metrics_attempts_bounded:
  assumes "metrics_attempts script k n = (r, ps)"
  shows "ps = [n..<n + length ps] \<and> (ps = [] \<or> n + length ps \<le> 5)"
  using assms
proof (induction script k n arbitrary: r ps rule: metrics_attempts.induct)
  case (2 script k n)
  show ?case
  proof (cases "ps = []")
    case False
    then obtain e qs where s: "script n = Some (e, True)" "e = OperationalError" "n < 5"
      "metrics_attempts script k (Suc n) = (r, qs)" "ps = n # qs"
      using "2.prems" by (auto split: option.splits if_splits prod.splits)
    then have "qs = [Suc n..<Suc n + length qs] \<and> (qs = [] \<or> Suc n + length qs \<le> 5)" using "2.IH" by blast
    moreover have "[n..<n + length ps] = n # [Suc n..<Suc n + length qs]" using s(5) by (simp add: upt_rec)
    ultimately show ?thesis using s by auto
  qed simp
qed simp

lemma metrics_pauses: "sum_list (snd (metrics_attempts script 5 1)) \<le> 10"
proof -
  obtain r ps where m: "metrics_attempts script 5 1 = (r, ps)" by fastforce
  have b: "ps = [1..<1 + length ps]" "length ps \<le> 4" using metrics_attempts_bounded [OF m] by auto
  have "list_all (\<lambda>k. sum_list [1..<1 + k] \<le> 10) [0..<5]" by code_simp
  then have "sum_list [1..<1 + length ps] \<le> 10" using b(2) by (simp only: list_all_iff set_upt) simp
  then show ?thesis using b(1) m by simp
qed

subsection \<open>The engine's service name\<close>

lemma engine_service_name:
  assumes "new_engine_config env dflt kw = Inr c"
  shows "service_name_matches (ep_service (ec_paths c))" "ec_password c \<noteq> []"
proof -
  have "nonempty_or x y \<noteq> []" if "y \<noteq> []" for x y using that by (auto simp: nonempty_or_def split: option.splits list.splits)
  then show "service_name_matches (ep_service (ec_paths c))" "ec_password c \<noteq> []"
    using assms by (auto simp: new_engine_config_def Let_def bind_result_Inr_iff split: if_splits)
qed

text \<open>The pattern admits an option of \<open>systemctl\<close> and a final line feed.\<close>

lemma odd_service_names: "service_name_matches ''--now''" "service_name_matches (''palworld.service'' @ [CHR 0x0A])"
  by code_simp+

subsection \<open>The administrator after the start\<close>

text \<open>What the bootstrap makes of an empty account store.\<close>

lemma fresh_bootstrap:
  assumes "db_inv (database s)" "count_users (database s) = 0"
    and pw: "pw = (if given = None \<or> given = Some [] then gen else the given)"
  shows "\<exists>u s1. get_user_by_username (database s1) ''admin'' = Some u \<and> is_active_admin u \<and>
    verify_password (kdf_fn env) pw (salt u) (password_hash u) = Inr True \<and> bootstrap s1 = bootstrap s \<and>
    system_metadata (database s1) = system_metadata (database s) \<and>
    bootstrap_admin_user env io xe gen given ep (s, w) =
      (let shown = (if (given = None \<or> given = Some []) \<and> get_meta (database s1) ''bootstrap_completed'' = None
                    then set_bootstrap_pending ''admin'' pw s1 else s1)
       in if (given = None \<or> given = Some []) \<or> ep \<noteq> None then
            (case resolve_admin_credential_export_path xe ep of
               Inl e \<Rightarrow> (Inl e, s1, w)
             | Inr p \<Rightarrow> (Inr u, shown, export_credentials_to_file io xe (clock_iso env) p pw w))
          else (Inr u, shown, w))"
proof -
  have "rows (users (database s)) = []" using assms(2) by (simp add: count_users_def)
  then have free: "get_user_by_username (database s) ''admin'' = None" by (simp add: get_user_by_username_def)
  obtain h sl where hs: "hash_password (kdf_fn env) (fresh_salt env) pw None = (h, sl)" by fastforce
  let ?u = "new_user (clock_iso env) ''admin'' h sl ''admin@localhost'' ''admin'' True (seq (users (database s)) + 1)"
  obtain d1 where c: "create_user (clock_iso env) ''admin'' h sl ''admin@localhost'' ''admin'' True (database s) = (Inr ?u, d1)"
    using create_user_free [OF assms(1) free] by blast
  have ins: "users d1 = table_insert (new_user (clock_iso env) ''admin'' h sl ''admin@localhost'' ''admin'' True) (users (database s))"
    and meta: "system_metadata d1 = system_metadata (database s)"
    using c create_user_free [OF assms(1) free, of "clock_iso env" h sl "''admin@localhost''" "''admin''" True]
    by (auto simp: insert_permissions_frame)
  let ?s1 = "s\<lparr>database := d1\<rparr>"
  have "get_user_by_username (database ?s1) ''admin'' = Some ?u"
    using \<open>rows (users (database s)) = []\<close> ins
    by (simp add: get_user_by_username_def table_insert_def new_user_def row_to_user_def)
  moreover have "verify_password (kdf_fn env) pw (salt ?u) (password_hash ?u) = Inr True"
    using verify_hash_password [OF hs] by (simp add: new_user_def)
  moreover have "is_active_admin ?u" by (simp add: is_active_admin_def new_user_def)
  moreover have "bootstrap ?s1 = bootstrap s" "system_metadata (database ?s1) = system_metadata (database s)" using meta by simp_all
  moreover have "bootstrap_admin_user env io xe gen given ep (s, w) =
      (let shown = (if (given = None \<or> given = Some []) \<and> get_meta (database ?s1) ''bootstrap_completed'' = None
                    then set_bootstrap_pending ''admin'' pw ?s1 else ?s1)
       in if (given = None \<or> given = Some []) \<or> ep \<noteq> None then
            (case resolve_admin_credential_export_path xe ep of
               Inl e \<Rightarrow> (Inl e, ?s1, w)
             | Inr p \<Rightarrow> (Inr ?u, shown, export_credentials_to_file io xe (clock_iso env) p pw w))
          else (Inr ?u, shown, w))"
  proof (cases "given = None \<or> given = Some []")
    case True
    then have "pw = gen" using pw by simp
    then show ?thesis using hs c True by (simp only: bootstrap_admin_user_def free assms(2) prod.case option.case Let_def refl if_True simp_thms sum.case)
  next
    case False
    then have "pw = the given" using pw by (simp only: if_False)
    then show ?thesis using hs c False by (simp only: bootstrap_admin_user_def free assms(2) prod.case option.case Let_def refl if_True if_False simp_thms sum.case)
  qed
  ultimately show ?thesis by blast
qed

lemma bootstrap_existing:
  "get_user_by_username (database s) ''admin'' = Some u \<Longrightarrow> bootstrap_admin_user env io xe gen given ep (s, w) = (Inr u, s, w)"
  by (simp add: bootstrap_admin_user_def Let_def)

lemma startup_keeps_admin:
  assumes "get_user_by_username (database (account_state st)) ''admin'' = Some u"
  shows "account_state (snd (startup_database env st)) = account_state st"
  using assms by (auto simp: startup_database_def startup_steps_def bootstrap_existing Let_def split: sum.splits prod.splits)

text \<open>C24. When the directory for the exported credential cannot be created at the first start of a default
  installation, the start goes on as if nothing had happened, but the administrator then has a generated
  password which is written nowhere and not offered by the setup page, and no later start changes
  this: nobody can sign in.\<close>

theorem first_password_lost:
  assumes fresh: "db_inv (database (account_state st))" "count_users (database (account_state st)) = 0"
    and dflt: "AdminPassword (su_auth env) = ''admin_password''" "su_accounts_init env = Inr ()"
    and fails: "resolve_admin_credential_export_path (su_export env) (su_export_path env) = Inl OSError"
  shows "\<exists>st' u. startup_database env st = (Inr (), st') \<and>
    get_user_by_username (database (account_state st')) ''admin'' = Some u \<and> is_active_admin u \<and>
    verify_password (kdf_fn (su_auth env)) (su_generated env) (salt u) (password_hash u) = Inr True \<and>
    disk st' = disk st \<and> bootstrap (account_state st') = bootstrap (account_state st) \<and> metrics_ready st' = metrics_ready st \<and>
    account_state (snd (startup_database later st')) = account_state st'"
proof -
  obtain u s1 where b: "get_user_by_username (database s1) ''admin'' = Some u" "is_active_admin u"
    "verify_password (kdf_fn (su_auth env)) (su_generated env) (salt u) (password_hash u) = Inr True"
    "bootstrap s1 = bootstrap (account_state st)"
    "bootstrap_admin_user (su_auth env) (su_io env) (su_export env) (su_generated env) None (su_export_path env)
       (account_state st, disk st) = (Inl OSError, s1, disk st)"
    using fresh_bootstrap [OF fresh refl, where env = "su_auth env" and given = None and gen = "su_generated env" and io = "su_io env"
        and xe = "su_export env" and ep = "su_export_path env" and w = "disk st"] fails by (auto simp: Let_def)
  let ?st = "st\<lparr>account_state := s1, disk := disk st\<rparr>"
  have "startup_database env st = (Inr (), ?st)"
    by (simp add: startup_database_def startup_steps_def dflt initial_admin_pwd_def b(5) startup_drops_def is_os_error_def)
  moreover have "account_state (snd (startup_database later ?st)) = s1"
    using startup_keeps_admin [of ?st u later] b(1) by simp
  ultimately show ?thesis using b by (intro exI [of _ ?st] exI [of _ u]) simp
qed

text \<open>With a password configured, the first start of an installation creates the administrator who signs in
  with exactly this password, whatever happens to the metrics database.\<close>

theorem first_start_admin_signs_in:
  assumes fresh: "db_inv (database (account_state st))" "count_users (database (account_state st)) = 0"
    and pw: "AdminPassword (su_auth env) = pw" "pw \<noteq> ''admin_password''" "pw \<noteq> []"
    and quiet: "su_accounts_init env = Inr ()" "su_export_path env = None"
  shows "\<exists>r st' u. startup_database env st = (r, st') \<and>
    get_user_by_username (database (account_state st')) ''admin'' = Some u \<and> is_active_admin u \<and>
    verify_password (kdf_fn (su_auth env)) pw (salt u) (password_hash u) = Inr True \<and>
    bootstrap (account_state st') = bootstrap (account_state st) \<and> disk st' = disk st"
proof -
  obtain u s1 where b: "get_user_by_username (database s1) ''admin'' = Some u" "is_active_admin u"
    "verify_password (kdf_fn (su_auth env)) pw (salt u) (password_hash u) = Inr True"
    "bootstrap s1 = bootstrap (account_state st)"
    "bootstrap_admin_user (su_auth env) (su_io env) (su_export env) (su_generated env) (Some pw) None
       (account_state st, disk st) = (Inr u, s1, disk st)"
    using fresh_bootstrap [OF fresh refl, where env = "su_auth env" and given = "Some pw" and gen = "su_generated env" and io = "su_io env"
        and xe = "su_export env" and ep = None and w = "disk st"] pw(3) by (auto simp: Let_def)
  obtain r st' where st: "startup_database env st = (r, st')" by fastforce
  have "account_state st' = s1" "disk st' = disk st"
    using st pw quiet by (auto simp: startup_database_def startup_steps_def initial_admin_pwd_def b(5) Let_def split: sum.splits prod.splits)
  then show ?thesis using st b by blast
qed

text \<open>C23. After the first start of a default installation whose credential file can be written, the setup endpoint
  answers any client, without credentials, with the generated password, and whoever signs in with it
  first is the administrator and seals the endpoint.\<close>

theorem first_spin_password_signs_in:
  assumes fresh: "db_inv (database (account_state st))" "count_users (database (account_state st)) = 0"
    "get_meta (database (account_state st)) ''bootstrap_completed'' = None"
    and dflt: "AdminPassword (su_auth env) = ''admin_password''" "su_accounts_init env = Inr ()"
    and place: "resolve_admin_credential_export_path (su_export env) (su_export_path env) = Inr p"
    and start: "startup_database env st = (r, st')"
  shows "\<exists>answer s2. get_bootstrap_credentials (account_state st') = Inr (Some ''admin'', Some (su_generated env)) \<and>
    login (su_auth env) req \<lparr>login_username = ''admin'', login_password = su_generated env\<rparr> (account_state st') = (Inr answer, s2) \<and>
    login_role answer = ''admin'' \<and> \<not> is_pending (bootstrap s2)"
proof -
  obtain u s1 w' where b: "get_user_by_username (database s1) ''admin'' = Some u" "is_active_admin u"
    "verify_password (kdf_fn (su_auth env)) (su_generated env) (salt u) (password_hash u) = Inr True"
    "system_metadata (database s1) = system_metadata (database (account_state st))"
    "bootstrap_admin_user (su_auth env) (su_io env) (su_export env) (su_generated env) None (su_export_path env)
       (account_state st, disk st) = (Inr u, set_bootstrap_pending ''admin'' (su_generated env) s1, w')"
    using fresh_bootstrap [OF fresh(1,2) refl, where env = "su_auth env" and given = None and gen = "su_generated env" and io = "su_io env"
        and xe = "su_export env" and ep = "su_export_path env" and w = "disk st"] place fresh(3) by (auto simp: Let_def get_meta_def)
  let ?s = "set_bootstrap_pending ''admin'' (su_generated env) s1"
  let ?body = "\<lparr>login_username = ''admin'', login_password = su_generated env\<rparr>"
  have s: "account_state st' = ?s"
    using start dflt by (auto simp: startup_database_def startup_steps_def initial_admin_pwd_def b(5) Let_def split: sum.splits prod.splits)
  have "check_login (su_auth env) ?body (get_user_by_username (database ?s) ''admin'') = Inr True"
    using b(1-3) by (simp add: check_login_def set_bootstrap_pending_def is_active_admin_def)
  then have "\<exists>answer s2. login (su_auth env) req ?body ?s = (Inr answer, s2) \<and> login_role answer = ''admin'' \<and> \<not> is_pending (bootstrap s2)"
    using b(1,2) by (simp add: login_def Let_def set_bootstrap_pending_def is_active_admin_def acknowledge_bootstrap_def split: prod.split)
  moreover have "get_bootstrap_credentials ?s = Inr (Some ''admin'', Some (su_generated env))"
    by (simp add: get_bootstrap_credentials_def set_bootstrap_pending_def)
  ultimately show ?thesis using s by auto
qed

subsection \<open>Concrete starts\<close>

definition demo_startup :: "string \<Rightarrow> startup_env" where
  "demo_startup pw = \<lparr>su_auth = demo_env\<lparr>AdminPassword := pw\<rparr>, su_io = calm_io,
     su_export = demo_xe\<lparr>export_mkdir_fails := (\<lambda>d. d = ''/etc/palmanager'')\<rparr>, su_generated = ''rnd'', su_export_path = None,
     su_accounts_init = Inr (), su_metrics_init = Inl OperationalError, su_metrics_io = metrics_ok_io, su_now = 0, su_retention = 30\<rparr>"

definition demo_stores :: stores where
  "demo_stores = \<lparr>account_state = fresh_state, disk = empty_world, metrics = empty_metrics, metrics_ready = False\<rparr>"

lemma demo_fresh: "db_inv (database (account_state demo_stores))" "count_users (database (account_state demo_stores)) = 0"
  by (simp_all add: demo_stores_def fresh_state_def empty_db_inv) (simp add: empty_db_def count_users_def empty_table_def)

theorem first_password_lost_witness:
  "\<exists>st' u. startup_database (demo_startup ''admin_password'') demo_stores = (Inr (), st') \<and>
    get_user_by_username (database (account_state st')) ''admin'' = Some u \<and> disk st' = empty_world \<and>
    \<not> is_pending (bootstrap (account_state st'))"
proof -
  have h: "AdminPassword (su_auth (demo_startup ''admin_password'')) = ''admin_password''" "su_accounts_init (demo_startup ''admin_password'') = Inr ()"
    "resolve_admin_credential_export_path (su_export (demo_startup ''admin_password'')) (su_export_path (demo_startup ''admin_password'')) = Inl OSError"
    "\<not> is_pending (bootstrap (account_state demo_stores))" "disk demo_stores = empty_world"
    by (simp_all add: demo_startup_def demo_xe_def resolve_admin_credential_export_path_def demo_stores_def fresh_state_def)
  obtain st' u where "startup_database (demo_startup ''admin_password'') demo_stores = (Inr (), st')"
    "get_user_by_username (database (account_state st')) ''admin'' = Some u" "disk st' = disk demo_stores"
    "bootstrap (account_state st') = bootstrap (account_state demo_stores)"
    using first_password_lost [OF demo_fresh h(1-3), of "demo_startup ''secret''"] by blast
  then show ?thesis using h(4,5) by auto
qed

theorem first_start_admin_signs_in_witness:
  "\<exists>r st' u. startup_database (demo_startup ''secret'') demo_stores = (r, st') \<and>
    get_user_by_username (database (account_state st')) ''admin'' = Some u \<and>
    verify_password (kdf_fn demo_env) ''secret'' (salt u) (password_hash u) = Inr True"
proof -
  have "AdminPassword (su_auth (demo_startup ''secret'')) = ''secret''" "''secret'' \<noteq> ''admin_password''" "''secret'' \<noteq> []"
    "su_accounts_init (demo_startup ''secret'') = Inr ()" "su_export_path (demo_startup ''secret'') = None"
    "kdf_fn (su_auth (demo_startup ''secret'')) = kdf_fn demo_env"
    by (simp_all add: demo_startup_def demo_env_def)
  then show ?thesis using first_start_admin_signs_in [OF demo_fresh, of "demo_startup ''secret''"] by metis
qed

theorem first_spin_password_signs_in_witness:
  "\<exists>r st' answer s2. startup_database ((demo_startup ''admin_password'')\<lparr>su_export := demo_xe\<rparr>) demo_stores = (r, st') \<and>
    login (demo_env\<lparr>AdminPassword := ''admin_password''\<rparr>) remote_request \<lparr>login_username = ''admin'', login_password = ''rnd''\<rparr>
      (account_state st') = (Inr answer, s2) \<and> login_role answer = ''admin''"
proof -
  let ?e = "(demo_startup ''admin_password'')\<lparr>su_export := demo_xe\<rparr>"
  have e: "su_auth ?e = demo_env\<lparr>AdminPassword := ''admin_password''\<rparr>" "su_accounts_init ?e = Inr ()" "su_generated ?e = ''rnd''"
    "resolve_admin_credential_export_path (su_export ?e) (su_export_path ?e) = Inr (''/etc/palmanager'', credential_name)"
    by (simp_all add: demo_startup_def demo_xe_def resolve_admin_credential_export_path_def)
  have a: "AdminPassword (su_auth ?e) = ''admin_password''" using e(1) by simp
  have m: "get_meta (database (account_state demo_stores)) ''bootstrap_completed'' = None"
    by (simp add: demo_stores_def fresh_state_def empty_db_def get_meta_def)
  obtain r st' where st: "startup_database ?e demo_stores = (r, st')" by fastforce
  then show ?thesis using first_spin_password_signs_in [OF demo_fresh m a e(2,4) st, of remote_request] st unfolding e(1,3) by blast
qed

end
