(* ===== verification/Api_Responses.thy ===== *)
theory Api_Responses
  imports Update_Watcher
begin

section \<open>The answers of the endpoints\<close>

text \<open>
  The response models of \<^verbatim>\<open>app/api/schemas.py\<close> and how the endpoints fill them from what the stores
  and the engine return: metrics, login audit, feedback, bootstrap, shutdown, save and
  update. The endpoints themselves, with their guards and effects, are in \<^verbatim>\<open>Operations_Api\<close>,
  \<^verbatim>\<open>Access_Control\<close> and \<^verbatim>\<open>Update_Watcher\<close>; here is what a client reads. The request models that no
  endpoint uses are validated as they are declared.
\<close>

text \<open>An answer built from what an endpoint returns.\<close>

definition answered :: "('a \<Rightarrow> 'b) \<Rightarrow> 'a result \<times> 's \<Rightarrow> 'b result \<times> 's" where
  "answered f r = (bind_result (fst r) (\<lambda>x. Inr (f x)), snd r)"

lemma answered_cases:
  "answered f r = (Inr y, s) \<longleftrightarrow> (\<exists>x. r = (Inr x, s) \<and> y = f x)"
  "answered f r = (Inl e, s) \<longleftrightarrow> r = (Inl e, s)"
  by (cases r; cases "fst r"; auto simp: answered_def)+

subsection \<open>Metrics\<close>

record MetricBucketResponse =
  mb_timestamp :: string
  mb_avg_fps :: rat
  mb_min_fps :: rat
  mb_max_fps :: rat
  mb_frame_time :: rat
  mb_avg_players :: rat
  mb_max_players :: int
  mb_avg_cpu :: rat
  mb_max_cpu :: rat
  mb_avg_ram :: rat
  mb_max_ram :: rat
  mb_samples :: nat

definition bucket_response :: "MetricBucketRecord \<Rightarrow> MetricBucketResponse" where
  "bucket_response b =
     \<lparr>mb_timestamp = bucket_timestamp b, mb_avg_fps = avg_fps b, mb_min_fps = min_fps b, mb_max_fps = max_fps b,
      mb_frame_time = avg_frame_time_ms b, mb_avg_players = avg_players b, mb_max_players = bucket_max_players b,
      mb_avg_cpu = avg_cpu_pct b, mb_max_cpu = max_cpu_pct b, mb_avg_ram = avg_ram_pct b, mb_max_ram = max_ram_pct b,
      mb_samples = sample_count b\<rparr>"

record MetricHistoryResponse =
  mh_window :: string
  mh_total :: nat
  mh_buckets :: "MetricBucketResponse list"

definition history_answer :: "ops_env \<Rightarrow> http_request \<Rightarrow> string \<Rightarrow> ops_state \<Rightarrow> MetricHistoryResponse result \<times> ops_state" where
  "history_answer env req window s =
     answered (\<lambda>bs. let rs = map bucket_response bs in \<lparr>mh_window = window, mh_total = length rs, mh_buckets = rs\<rparr>)
       (get_metrics_history env req window s)"

record MetricSummaryResponse =
  ms_samples :: nat
  ms_peak_players :: int
  ms_avg_players :: rat
  ms_lowest_fps :: rat
  ms_avg_fps :: rat
  ms_peak_cpu :: rat
  ms_avg_cpu :: rat
  ms_peak_ram :: rat
  ms_avg_ram :: rat
  ms_buffered :: nat
  ms_start :: string
  ms_end :: string

definition summary_answer :: "ops_env \<Rightarrow> http_request \<Rightarrow> ops_state \<Rightarrow> MetricSummaryResponse result \<times> ops_state" where
  "summary_answer env req s =
     answered (\<lambda>(m, buffered).
         \<lparr>ms_samples = total_samples m, ms_peak_players = peak_players m, ms_avg_players = summary_avg_players m,
          ms_lowest_fps = lowest_fps m, ms_avg_fps = summary_avg_fps m, ms_peak_cpu = peak_cpu_pct m,
          ms_avg_cpu = summary_avg_cpu_pct m, ms_peak_ram = peak_ram_pct m, ms_avg_ram = summary_avg_ram_pct m,
          ms_buffered = buffered, ms_start = window_start m, ms_end = window_end m\<rparr>)
       (get_metrics_summary env req s)"

record MetricFlushResponse =
  mf_status :: string
  mf_flushed :: nat
  mf_remaining :: nat

definition flush_answer :: "ops_env \<Rightarrow> http_request \<Rightarrow> ops_state \<Rightarrow> MetricFlushResponse result \<times> ops_state" where
  "flush_answer env req s =
     answered (\<lambda>(n, left). \<lparr>mf_status = ''success'', mf_flushed = n, mf_remaining = left\<rparr>) (flush_metrics env req s)"

record MetricPruneResponse =
  mp_status :: string
  mp_pruned :: nat
  mp_retention :: nat

definition prune_answer :: "ops_env \<Rightarrow> http_request \<Rightarrow> int option \<Rightarrow> ops_state \<Rightarrow> MetricPruneResponse result \<times> ops_state" where
  "prune_answer env req days s =
     answered (\<lambda>(n, retention). \<lparr>mp_status = ''success'', mp_pruned = n, mp_retention = retention\<rparr>) (prune_metrics env req days s)"

subsection \<open>Accounts and bootstrap\<close>

record LoginAuditResponse =
  la_id :: int
  la_username :: string
  la_timestamp :: string
  la_ip :: string
  la_agent :: string
  la_status :: string
  la_reason :: string

definition audit_response :: "LoginAuditRecord \<Rightarrow> LoginAuditResponse" where
  "audit_response r =
     \<lparr>la_id = audit_id r, la_username = audit_username r, la_timestamp = audit_timestamp r, la_ip = ip_address r,
      la_agent = user_agent r, la_status = audit_status r, la_reason = failure_reason r\<rparr>"

definition audit_answer :: "auth_env \<Rightarrow> http_request \<Rightarrow> int \<Rightarrow> int \<Rightarrow> app_state \<Rightarrow> LoginAuditResponse list result" where
  "audit_answer env req limit offset s = bind_result (get_login_audit_trail env req limit offset s) (\<lambda>rs. Inr (map audit_response rs))"

record BootstrapCredentialsResponse =
  bc_pending :: bool
  bc_username :: "string option"
  bc_password :: "string option"
  bc_message :: string

definition bootstrap_answer :: "app_state \<Rightarrow> BootstrapCredentialsResponse result" where
  "bootstrap_answer s =
     bind_result (get_bootstrap_credentials s) (\<lambda>(name, pw).
       Inr \<lparr>bc_pending = True, bc_username = name, bc_password = pw,
            bc_message = ''{warning} FIRST-SPIN SETUP: Save this password now {dash} it will never be shown again after you click '' @
              in_quotes ''I Saved It'' @ ''. '' @
              ''You can also find it at /etc/palmanager/initial_admin_credential.txt on the server.''\<rparr>)"

record BootstrapAckResponse =
  ba_status :: string
  ba_message :: string

definition acknowledge_answer :: "app_state \<Rightarrow> BootstrapAckResponse result \<times> app_state" where
  "acknowledge_answer s =
     answered (\<lambda>_. \<lparr>ba_status = ''success'',
         ba_message = ''Initial credentials have been acknowledged and permanently wiped from memory. '' @
           ''Please log in with your saved administrator password.''\<rparr>)
       (acknowledge_bootstrap_credentials s)"

subsection \<open>Feedback\<close>

record FeedbackResponse =
  fr_id :: int
  fr_category :: string
  fr_title :: string
  fr_description :: string
  fr_metadata :: "(string, json) dict"
  fr_submitted_by :: string
  fr_status :: string
  fr_issue :: "int option"
  fr_created_at :: string

text \<open>Metadata that is no object is refused by the model.\<close>

definition feedback_response :: "FeedbackRecord \<times> json \<Rightarrow> FeedbackResponse result" where
  "feedback_response x =
     (case snd x of
        JObj d \<Rightarrow>
          (let r = fst x in
           Inr \<lparr>fr_id = feedback_id r, fr_category = category r, fr_title = title r, fr_description = description r,
                fr_metadata = d, fr_submitted_by = submitted_by r, fr_status = feedback_status r,
                fr_issue = github_issue_number r, fr_created_at = feedback_created_at r\<rparr>)
      | _ \<Rightarrow> Inl ValidationError)"

fun all_results :: "'a result list \<Rightarrow> 'a list result" where
  "all_results [] = Inr []"
| "all_results (r # rs) = bind_result r (\<lambda>x. bind_result (all_results rs) (\<lambda>xs. Inr (x # xs)))"

definition listing_answer ::
  "ops_env \<Rightarrow> http_request \<Rightarrow> bool \<Rightarrow> string option \<Rightarrow> string option \<Rightarrow> string option \<Rightarrow> int \<Rightarrow> int \<Rightarrow> ops_state \<Rightarrow>
     FeedbackResponse list result" where
  "listing_answer env req mine submitter cat st limit offset s =
     bind_result (list_feedback_submissions env req mine submitter cat st limit offset s) (\<lambda>rs. all_results (map feedback_response rs))"

text \<open>\<open>FeedbackFilterParams\<close>, as declared; the endpoint declares its parameters anew, without the bounds.\<close>

record FeedbackFilterParams =
  ff_mine :: bool
  ff_submitted_by :: "string option"
  ff_category :: "string option"
  ff_status :: "string option"
  ff_limit :: int
  ff_offset :: int

definition valid_filter :: "FeedbackFilterParams \<Rightarrow> bool" where
  "valid_filter p \<longleftrightarrow>
     (case ff_category p of None \<Rightarrow> True | Some c \<Rightarrow> c \<in> set (map fst TEMPLATE_FILENAMES)) \<and>
     (case ff_status p of None \<Rightarrow> True | Some t \<Rightarrow> t \<in> set [''OPEN'', ''RESOLVED'', ''CLOSED'']) \<and>
     1 \<le> ff_limit p \<and> ff_limit p \<le> 100 \<and> 0 \<le> ff_offset p"

subsection \<open>The server\<close>

record ShutdownResponse =
  sr_status :: string
  sr_seconds :: int
  sr_message :: string

definition shutdown_answer :: "ops_env \<Rightarrow> http_request \<Rightarrow> ShutdownRequest \<Rightarrow> ops_state \<Rightarrow> ShutdownResponse result \<times> ops_state" where
  "shutdown_answer env req p s =
     answered (\<lambda>(n, m). \<lparr>sr_status = ''scheduled'', sr_seconds = n, sr_message = m\<rparr>) (shutdown_server env req p s)"

record SaveResponse =
  sv_status :: string
  sv_triggered_by :: string
  sv_timestamp :: string

definition save_answer :: "ops_env \<Rightarrow> http_request \<Rightarrow> ops_state \<Rightarrow> SaveResponse result \<times> ops_state" where
  "save_answer env req s =
     answered (\<lambda>(who_did, t). \<lparr>sv_status = ''ok'', sv_triggered_by = who_did, sv_timestamp = t\<rparr>) (manual_world_save env req s)"

record UpdateApplyResponse =
  ua_status :: string
  ua_message :: string
  ua_branch :: string
  ua_triggered_at :: string

definition apply_answer ::
  "ops_env \<Rightarrow> update_config \<Rightarrow> update_env \<Rightarrow> http_request \<Rightarrow> string option \<Rightarrow> ops_state \<Rightarrow> watcher \<Rightarrow> UpdateApplyResponse result \<times> watcher" where
  "apply_answer oe cfg env req payload o_st s =
     answered (\<lambda>b. \<lparr>ua_status = ''applying'', ua_message = ''Update process initiated. System service will reload momentarily.'',
         ua_branch = b, ua_triggered_at = isoformat (clock_now env)\<rparr>)
       (apply_system_update oe cfg env req payload o_st s)"

record PostUpdateAcknowledgeResponse =
  pa_status :: string
  pa_acknowledged_at :: string

definition update_ack_answer ::
  "ops_env \<Rightarrow> update_config \<Rightarrow> update_env \<Rightarrow> http_request \<Rightarrow> ops_state \<Rightarrow> watcher \<Rightarrow> PostUpdateAcknowledgeResponse result \<times> watcher" where
  "update_ack_answer oe cfg env req o_st s =
     answered (\<lambda>t. \<lparr>pa_status = ''success'', pa_acknowledged_at = t\<rparr>) (acknowledge_system_update oe cfg env req o_st s)"

subsection \<open>Restoring a snapshot\<close>

text \<open>\<open>^[a-fA-F0-9]{4,64}$\<close> as the model's engine matches it: the dollar matches only at the end.\<close>

definition hex_char :: "char \<Rightarrow> bool" where
  "hex_char c \<longleftrightarrow> is_digit c \<or> (97 \<le> ord c \<and> ord c \<le> 102) \<or> (65 \<le> ord c \<and> ord c \<le> 70)"

definition valid_restore :: "string \<Rightarrow> bool" where
  "valid_restore commit_hash \<longleftrightarrow> 4 \<le> length commit_hash \<and> length commit_hash \<le> 64 \<and> list_all hex_char commit_hash"

subsection \<open>What the answers promise\<close>

lemma history_answer_counts:
  assumes "history_answer env req window s = (Inr a, s')"
  shows "mh_total a = length (mh_buckets a)" "mh_window a = window"
  using assms by (auto simp: history_answer_def answered_cases Let_def)

lemma flush_answer_remaining:
  assumes "flush_answer env req s = (Inr a, s')"
  shows "mf_remaining a = length (metrics_buffer (metrics s'))"
  using assms by (auto simp: flush_answer_def answered_cases flush_metrics_def guarded_def split: sum.splits prod.splits)

text \<open>Anybody may read the feedback, security reports included: without \<open>mine\<close> the request is not looked at.\<close>

lemma listing_is_public:
  "listing_answer env req False submitter cat st limit offset s = listing_answer env req2 False submitter cat st limit offset s"
  by (simp add: listing_answer_def list_feedback_submissions_def)

lemma all_results_Inr: "(\<forall>x \<in> set xs. \<exists>y. f x = Inr y) \<Longrightarrow> \<exists>ys. all_results (map f xs) = Inr ys \<and> length ys = length xs"
  by (induction xs) auto

text \<open>The stored metadata are objects, or not JSON at all, which reads as an empty object.\<close>

definition metadata_ok :: "db \<Rightarrow> bool" where
  "metadata_ok d \<longleftrightarrow> list_all (\<lambda>r. case metadata_of r of JObj _ \<Rightarrow> True | _ \<Rightarrow> False) (rows (feedback_submissions d))"

lemma metadata_of_row: "metadata_of (row_to_feedback r) = metadata_of r"
  by (simp add: metadata_of_def row_to_feedback_def)

lemma set_paginate: "set (paginate limit offset xs) \<subseteq> set xs"
  by (auto simp: paginate_def Let_def dest: in_set_takeD in_set_dropD)

lemma listing_total:
  assumes "metadata_ok (accounts_db s)"
  shows "\<exists>rs. listing_answer env req False submitter cat st limit offset s = Inr rs"
proof -
  let ?rs = "list_feedbacks limit offset submitter cat st (accounts_db s)"
  have "\<exists>y. feedback_response (r, metadata_of r) = Inr y" if r: "r \<in> set ?rs" for r
  proof -
    obtain q where "q \<in> set (rows (feedback_submissions (accounts_db s)))" "r = row_to_feedback q"
      using r set_paginate by (fastforce simp: list_feedbacks_def)
    then show ?thesis
      using assms by (auto simp: metadata_ok_def list_all_iff metadata_of_row feedback_response_def Let_def split: json.splits)
  qed
  then show ?thesis
    using all_results_Inr [of "map (\<lambda>r. (r, metadata_of r)) ?rs" feedback_response]
    by (auto simp: listing_answer_def list_feedback_submissions_def)
qed

lemma submitted_metadata: "valid_feedback body \<Longrightarrow> loads (json_dumps (feedback_metadata body)) = Some (feedback_metadata body)"
proof -
  assume v: "valid_feedback body"
  have "json_plain (feedback_metadata body)"
    using v by (auto simp: feedback_metadata_def valid_feedback_def wf_dict_def list_all_iff comp_def case_prod_unfold)
  then show ?thesis unfolding json_dumps_def by (intro loads_dumps) (simp_all add: separators_def is_ws_def)
qed

text \<open>Submitting feedback never makes the list of submissions unreadable: the metadata in the store stay
  objects, so the list that was readable for everybody is readable afterwards, whatever its filters.\<close>

theorem feedback_stays_readable:
  assumes "metadata_ok (accounts_db s)" "valid_feedback body" "submit_feedback render env req body s = (r, s')"
  shows "metadata_ok (accounts_db s') \<and> (\<exists>rs. listing_answer env any False submitter cat st limit offset s' = Inr rs)"
proof -
  have "metadata_ok (accounts_db s')"
    using assms submitted_metadata [OF assms(2)]
    by (auto simp: submit_feedback_def guarded_def create_feedback_def metadata_ok_def table_insert_def metadata_of_def feedback_metadata_def Let_def
        split: sum.splits)
  then show ?thesis using listing_total by blast
qed

end
