(* ===== verification/Spec2Isabelle.thy ===== *)
theory Spec2Isabelle
  imports Update_Watcher Deployer Changelog Acme_Client Tls_Manager Log_Redaction Telemetry_Tasks App_Config Process_Setup Api_Responses
begin

text \<open>
  \<^bold>\<open>Palworld Operations Suite: a verification library\<close>

  The program (\<^verbatim>\<open>src/app\<close>) is a web portal that administers a Palworld game server: it edits the
  game's configuration, restarts the server after an announced countdown, manages accounts, records
  metrics, watches for updates of itself, keeps its certificate and shows what the server and its host do.
  This library models its Python code as functions of Isabelle/HOL and proves what its parts promise.

  \<^bold>\<open>The parts and how they interact.\<close>
  A request enters a router (\<^verbatim>\<open>app/routers\<close>), which resolves the caller against the account store and the
  session token, checks the permission and calls a component. Settings are parsed from the configuration file,
  merged with what the file protects, serialized and written atomically, and while the server runs they
  are also staged for the engine. The engine counts down, saves the world, writes the staged
  configuration, restarts the service and probes it until it answers. Collector and telemetry stream run beside
  the requests and share the tracker, the sample buffer and the sockets. The supervisor is a second process, with root
  rights, which the portal asks over a socket. Updater and deployer replace the program, the certificate scheduler
  its certificate.

  \<^bold>\<open>Theories and sources.\<close>
  \<^item> \<^verbatim>\<open>Prelude\<close>: exceptions as a datatype, results as \<open>py_error + 'a\<close>, dictionaries as association lists in
    insertion order, tables with automatic keys. \<^verbatim>\<open>Py_Text\<close>, \<^verbatim>\<open>Py_Numeric\<close>, \<^verbatim>\<open>Py_Datetime\<close>, \<^verbatim>\<open>Text_Codec\<close>: what the code
    uses of Python's strings, numbers, calendar and UTF-8. \<^verbatim>\<open>Json\<close>, \<^verbatim>\<open>Json_Store\<close>: the JSON reader and writer, and the
    ledger and cache files.
  \<^item> \<^verbatim>\<open>Ini_Parser\<close>, \<^verbatim>\<open>Settings_Schema\<close>, \<^verbatim>\<open>Config_Pipeline\<close>: \<^verbatim>\<open>config_manager/parser.py\<close> and \<^verbatim>\<open>pipeline.py\<close>, and the settings payload of
    \<^verbatim>\<open>api/schemas.py\<close>. \<^verbatim>\<open>Atomic_IO\<close>: \<^verbatim>\<open>core/atomic_io.py\<close> over a file store that records every observable state.
  \<^item> \<^verbatim>\<open>User_Db\<close>, \<^verbatim>\<open>Auth_Token\<close>, \<^verbatim>\<open>Access_Control\<close>: \<^verbatim>\<open>database/db.py\<close>, \<^verbatim>\<open>database/auth.py\<close>, \<^verbatim>\<open>routers/auth.py\<close> and the callers of
    \<^verbatim>\<open>routers/deps.py\<close>. \<^verbatim>\<open>Metrics_Db\<close>: \<^verbatim>\<open>database/metrics_db.py\<close> and the sample buffer.
  \<^item> \<^verbatim>\<open>Supervisor\<close>: \<^verbatim>\<open>app/supervisor\<close>. \<^verbatim>\<open>Engine_Lifecycle\<close>: \<^verbatim>\<open>engine/service.py\<close>. \<^verbatim>\<open>Notifications\<close>: \<^verbatim>\<open>engine/notifications.py\<close>.
    \<^verbatim>\<open>Operations_Api\<close>: \<^verbatim>\<open>routers/settings.py\<close>, \<^verbatim>\<open>players.py\<close>, \<^verbatim>\<open>feedback.py\<close> and \<^verbatim>\<open>system.py\<close>, over the joint state of accounts, engine,
    metrics and files.
  \<^item> \<^verbatim>\<open>Update_Watcher\<close>, \<^verbatim>\<open>Deployer\<close>, \<^verbatim>\<open>Changelog\<close>: \<^verbatim>\<open>engine/updater.py\<close>, \<^verbatim>\<open>deployer.py\<close> and \<^verbatim>\<open>changelog.py\<close>. \<^verbatim>\<open>Acme_Client\<close>,
    \<^verbatim>\<open>Tls_Manager\<close>: \<^verbatim>\<open>engine/acme_client.py\<close>, \<^verbatim>\<open>duckdns.py\<close>, \<^verbatim>\<open>tls_manager.py\<close> and \<^verbatim>\<open>tls_scheduler.py\<close>.
  \<^item> \<^verbatim>\<open>Log_Scraper\<close>, \<^verbatim>\<open>Net_Diagnostics\<close>, \<^verbatim>\<open>Steam_Query\<close>, \<^verbatim>\<open>Community_Tracker\<close>: \<^verbatim>\<open>app/monitoring\<close> and the records of \<^verbatim>\<open>core/types.py\<close>.
    \<^verbatim>\<open>Telemetry_Tasks\<close>: the background tasks of \<^verbatim>\<open>app/main.py\<close> and \<^verbatim>\<open>routers/telemetry.py\<close>.
  \<^item> \<^verbatim>\<open>Log_Redaction\<close>: \<^verbatim>\<open>core/logger.py\<close>. \<^verbatim>\<open>App_Config\<close>: \<^verbatim>\<open>core/config.py\<close>, \<^verbatim>\<open>app/server.py\<close> and \<^verbatim>\<open>routers/ui.py\<close>. \<^verbatim>\<open>Process_Setup\<close>: the
    daemon, the connections, the engine's configuration and the database part of the start.
    \<^verbatim>\<open>Api_Responses\<close>: the response models of \<^verbatim>\<open>api/schemas.py\<close> as the endpoints fill them.

  Classes are records of their fields, methods are functions from the state to a result and the new state,
  exceptions are the left values of results, and every early return is a branch. What comes from outside (replies
  of HTTP servers, the clock, random bytes, failures of system calls) is a field of an environment record.

  \<^bold>\<open>What the lemmas show.\<close>
  \<^item> Settings: the serializer and the parser are inverse on settings that can be represented, and a save of such
    settings changes exactly the edited public ones; an accepted payload is within the bounds of the schema and of the
    dashboard's table, which agree, but for NaN; which accepted texts, not representable, overwrite a protected key.
  \<^item> Files: an atomic write shows the old or the new file at every moment; a release is staged completely or not at
    all and unpacks nowhere else; a directory swap installs or restores.
  \<^item> Access: there is always an administrator; tokens verify until they expire and not without the key; no endpoint
    acts without its permission; which header makes a stranger a local caller; how the first start creates the
    administrator, who may read the generated password, and when it is lost.
  \<^item> Operations: what a reboot does and in which order, what a cancelled one leaves alone, that its lock is
    released unless its file cannot be removed; that saved settings survive it; that deployments never overlap; that through
    all turns of the collector and flushes no sample is lost but for what pruning removes and what the buffer's limit drops, which the
    specification counts.
  \<^item> The supervisor runs only its fixed commands whatever bytes arrive; a signal closes its server but, as the
    event loop with its stop flag shows, does not end it.
  \<^item> Protocols: the ACME exchange ends and clears its DNS record; the certificate states are consistent; renewals that
    fail downgrade; a portal without usable certificates restarts itself at every start; query replies, gateways, certificate times, changelogs and caches are read as they were written.
  \<^item> Monitoring: what the filter lets through shows no secret, scheme with credentials or UUID; the player roster
    lists the live players as active, every other known player once as offline, and forgets nobody, rates are never negative, a verdict is clean exactly within its
    thresholds; which single malformed replies end the collector, the log mirror and the telemetry.

  Interfaces are locales, interpreted on the code's own definitions: the codec of the settings
  (\<^verbatim>\<open>settings_codec\<close>), the account store as the access layer uses it (\<^verbatim>\<open>admin_store\<close>), the histories of ACME requests
  (\<^verbatim>\<open>acme_history\<close>), and what both databases share (\<^verbatim>\<open>sqlite_database\<close>).

  \<^bold>\<open>Bounds and fuel.\<close>
  The JSON reader has the length of its text as fuel, which each step shortens. The countdown, the ninety readiness probes, the
  forty polls of an ACME order and the five attempts on a locked database are recursions over the number the
  code counts. Everything else is structural or has a measure. Queues and pages keep the code's limits: two
  hundred log payloads, one thousand samples after a failed flush, two thousand lines of a log.
  Floating point numbers are exact rationals, with rounding and printing as parameters where the code
  prints them. Strings hold the characters up to code point 255; the few symbols beyond, in fixed messages, stand as
  their names in braces.

  \<^bold>\<open>Not modelled.\<close>
  \<^item> How the settings library merges its sources and coerces types, how pydantic converts
    scalars in the supervisor's messages, SQLite, the web framework, HTTP clients and cryptography are
    third-party code: they are arguments of the definitions, and the theorems name what they need of them. How
    pydantic converts and checks a settings field is such an argument, with \<open>coerce_ok\<close> as what is used of it.
  \<^item> The account store has the outcomes of its constraints, but not SQLite's operational errors (a locked or full database);
    those of the metrics store are modelled.
  \<^item> Cancellation of tasks at arbitrary awaits, the creation of the tasks and the ASGI wiring. One
    handler runs to its end before the next step of the model; where the code interleaves (buffer
    and flush, reboot and requests, the server's own writes), the steps are explicit.
  \<^item> The attribute delegation of engine and tracker (read as field access), the formatting of log lines, the command-line parsers, the HTML templates, the deployment scripts
    and the developer tools under \<^verbatim>\<open>src/scripts\<close>.
  \<^item> The engine's model takes notifications that return; \<^verbatim>\<open>Notifications\<close> shows which rate limits make them raise or
    wait for ever.
\<close>

end
